(* ===== verification/Prelude.thy ===== *)
theory Prelude
  imports Complex_Main "HOL-Library.AList" "HOL-Library.Char_ord" "HOL-Library.List_Lexorder"
begin

text \<open>
  Shared vocabulary of the development: the Python values the services exchange (JSON documents,
  floats with their infinities and NaN, strings), the exception classes the sources raise, and
  the operations of the language and its standard library that the modelled code calls
  (\<open>dict.get\<close>, \<open>dict.update\<close>, \<open>str.strip\<close>, \<open>int()\<close>, \<open>float()\<close>, \<open>bool()\<close>, \<open>round\<close>, \<dots>).

  Idealisations, used everywhere below:
  \<^item> a Python float is an exact rational, an infinity or NaN, so that comparisons with
    NaN behave as in Python while rounding error is not represented;
  \<^item> a Python string is a list of 8-bit characters and case mapping is the ASCII one;
  \<^item> a Python dict is an association list in insertion order.
\<close>

named_theorems py_defs
  \<open>unfolding rules for the Python primitives of the prelude\<close>

section \<open>Exceptions\<close>

text \<open>One constructor per exception class the modelled sources raise or catch.\<close>

datatype exn_class =
    ValueError | TypeError | KeyError | IndexError | AttributeError | OverflowError
  | ZeroDivisionError | RuntimeError | TimeoutError | InterruptedError | AssertionError | OSError
  | CatalogNotFound | CatalogConflict | CatalogNotReady
  | ConfigError | RunConflict | RunNotFound | RecordNotFound | RevisionConflict | JobNotFound
  | SSEProtocolError | ResultError | NatsTransient | NatsError | HTTPError | FileNotFoundError | TimeoutExpired | CalledProcessError
  | GreenletExit | GeventTimeout | SSEDeadlineReached | StopIteration | OtherError

datatype exn = Exn (exn_cls: exn_class) (exn_msg: string)

type_synonym 'a result = "exn + 'a"

text \<open>
  \<open>is_a c d\<close>: an \<open>except d\<close> clause catches class \<open>c\<close>. The class hierarchy is the one the
  sources declare (\<open>ConfigError(ValueError)\<close>, \<open>RunNotFound(KeyError)\<close>, \<dots>).
\<close>

definition is_a :: "exn_class \<Rightarrow> exn_class \<Rightarrow> bool" where
  "is_a c d \<longleftrightarrow> c = d \<or>
     (c, d) \<in> set [(ConfigError, ValueError), (ResultError, ValueError), (SSEProtocolError, ValueError),
       (RunNotFound, KeyError), (RecordNotFound, KeyError), (JobNotFound, KeyError),
       (RevisionConflict, RuntimeError), (RunConflict, RuntimeError),
       (TimeoutError, OSError), (InterruptedError, OSError), (FileNotFoundError, OSError), (HTTPError, OSError),
       (NatsTransient, NatsError)]"

primrec rbind :: "'a result \<Rightarrow> ('a \<Rightarrow> 'b result) \<Rightarrow> 'b result" where
  "rbind (Inl e) f = Inl e"
| "rbind (Inr a) f = f a"

text \<open>Evaluating a list of expressions left to right, stopping at the first exception.\<close>

primrec rmap :: "('a \<Rightarrow> 'b result) \<Rightarrow> 'a list \<Rightarrow> 'b list result" where
  "rmap f [] = Inr []"
| "rmap f (x # xs) = rbind (f x) (\<lambda>y. rbind (rmap f xs) (\<lambda>ys. Inr (y # ys)))"

abbreviation raise :: "exn_class \<Rightarrow> string \<Rightarrow> 'a result" where
  "raise c m \<equiv> Inl (Exn c m)"

lemma rbind_eq_Inr [simp]: "rbind r f = Inr b \<longleftrightarrow> (\<exists>a. r = Inr a \<and> f a = Inr b)"
  by (cases r) auto

lemma rbind_eq_Inl: "rbind r f = Inl e \<longleftrightarrow> r = Inl e \<or> (\<exists>a. r = Inr a \<and> f a = Inl e)"
  by (cases r) auto

lemma if_raise_eq [simp]:
  "(if b then Inl e else x) = Inr c \<longleftrightarrow> \<not> b \<and> x = Inr c"
  by simp

lemma rbind_assoc: "rbind (rbind r f) g = rbind r (\<lambda>a. rbind (f a) g)"
  by (cases r) auto

lemma rmap_length: "rmap f xs = Inr ys \<Longrightarrow> length ys = length xs"
  by (induction xs arbitrary: ys) auto

lemma rmap_Inr_iff:
  "rmap f xs = Inr ys \<longleftrightarrow> length ys = length xs \<and> (\<forall>i < length xs. f (xs ! i) = Inr (ys ! i))"
proof (induction xs arbitrary: ys)
  case Nil
  then show ?case by auto
next
  case (Cons x xs)
  show ?case
  proof (cases ys)
    case Nil
    then show ?thesis by simp
  next
    case (Cons y ys')
    show ?thesis
      by (auto simp: Cons Cons.IH nth_Cons split: nat.splits)
  qed
qed

lemma rmap_all: "(\<And>x. x \<in> set xs \<Longrightarrow> f x = Inr (g x)) \<Longrightarrow> rmap f xs = Inr (map g xs)"
  by (induction xs) auto

section \<open>Floats\<close>

datatype pyfloat = Fin rat | PosInf | NegInf | NaN

text \<open>Comparisons: every comparison with NaN is false.\<close>

fun f_lt :: "pyfloat \<Rightarrow> pyfloat \<Rightarrow> bool" where
  "f_lt NaN _ = False"
| "f_lt _ NaN = False"
| "f_lt (Fin a) (Fin b) = (a < b)"
| "f_lt NegInf b = (b \<noteq> NegInf)"
| "f_lt (Fin _) b = (b = PosInf)"
| "f_lt PosInf _ = False"

fun f_le :: "pyfloat \<Rightarrow> pyfloat \<Rightarrow> bool" where
  "f_le NaN _ = False"
| "f_le _ NaN = False"
| "f_le a b = (a = b \<or> f_lt a b)"

text \<open>\<open>max(a, b)\<close> and \<open>min(a, b)\<close> return the first argument unless the second compares strictly
  better, so their result depends on the order of the arguments when NaN is involved.\<close>

definition f_max :: "pyfloat \<Rightarrow> pyfloat \<Rightarrow> pyfloat" where
  "f_max a b = (if f_lt a b then b else a)"

definition f_min :: "pyfloat \<Rightarrow> pyfloat \<Rightarrow> pyfloat" where
  "f_min a b = (if f_lt b a then b else a)"

fun f_neg :: "pyfloat \<Rightarrow> pyfloat" where
  "f_neg (Fin a) = Fin (- a)"
| "f_neg PosInf = NegInf"
| "f_neg NegInf = PosInf"
| "f_neg NaN = NaN"

fun f_add :: "pyfloat \<Rightarrow> pyfloat \<Rightarrow> pyfloat" where
  "f_add (Fin a) (Fin b) = Fin (a + b)"
| "f_add NaN _ = NaN"
| "f_add _ NaN = NaN"
| "f_add PosInf NegInf = NaN"
| "f_add NegInf PosInf = NaN"
| "f_add PosInf _ = PosInf"
| "f_add NegInf _ = NegInf"
| "f_add (Fin _) b = b"

definition f_sub :: "pyfloat \<Rightarrow> pyfloat \<Rightarrow> pyfloat" where
  "f_sub a b = f_add a (f_neg b)"

text \<open>Multiplication and division by a finite number, the only forms the sources use on values
  that may be infinite; division by zero raises \<open>ZeroDivisionError\<close>.\<close>

fun f_scale :: "rat \<Rightarrow> pyfloat \<Rightarrow> pyfloat" where
  "f_scale c (Fin a) = Fin (c * a)"
| "f_scale c PosInf = (if c = 0 then NaN else if 0 < c then PosInf else NegInf)"
| "f_scale c NegInf = (if c = 0 then NaN else if 0 < c then NegInf else PosInf)"
| "f_scale c NaN = NaN"

definition f_div :: "pyfloat \<Rightarrow> rat \<Rightarrow> pyfloat result" where
  "f_div a d = (if d = 0 then raise ZeroDivisionError ''float division by zero''
                else Inr (f_scale (1 / d) a))"

text \<open>\<open>math.ceil\<close> of a float.\<close>

fun f_ceil :: "pyfloat \<Rightarrow> int result" where
  "f_ceil (Fin a) = Inr \<lceil>a\<rceil>"
| "f_ceil NaN = raise ValueError ''cannot convert float NaN to integer''"
| "f_ceil _ = raise OverflowError ''cannot convert float infinity to integer''"

text \<open>\<open>round(x, digits)\<close>: to the nearest multiple of \<open>10 ^ -digits\<close>, ties to even.\<close>

definition round_half_even :: "rat \<Rightarrow> int" where
  "round_half_even q =
     (let n = \<lfloor>q\<rfloor>; d = q - of_int n
      in if d < 1 / 2 then n else if 1 / 2 < d then n + 1 else if even n then n else n + 1)"

definition round_to :: "nat \<Rightarrow> rat \<Rightarrow> rat" where
  "round_to k q = of_int (round_half_even (q * 10 ^ k)) / 10 ^ k"

lemma f_le_Fin [simp]: "f_le (Fin a) (Fin b) \<longleftrightarrow> a \<le> b"
  by auto

lemma f_lt_imp_not_le: "f_lt a b \<Longrightarrow> \<not> f_le b a"
  by (cases a; cases b) auto

lemma f_le_trans: "f_le a b \<Longrightarrow> f_le b c \<Longrightarrow> f_le a c"
  by (cases a; cases b; cases c) auto

lemma f_max_Fin [simp]: "f_max (Fin a) (Fin b) = Fin (max a b)"
  by (simp add: f_max_def max_def)

lemma f_min_Fin [simp]: "f_min (Fin a) (Fin b) = Fin (min a b)"
  by (simp add: f_min_def min_def)

lemma round_half_even_bound: "\<bar>of_int (round_half_even q) - q\<bar> \<le> 1 / 2"
proof -
  have "of_int \<lfloor>q\<rfloor> \<le> q" "q < of_int \<lfloor>q\<rfloor> + 1" by linarith+
  then show ?thesis by (auto simp: round_half_even_def Let_def abs_le_iff)
qed

lemma round_half_even_mono: "p \<le> q \<Longrightarrow> round_half_even p \<le> round_half_even q"
proof -
  assume "p \<le> q"
  then consider "\<lfloor>p\<rfloor> = \<lfloor>q\<rfloor>" | "\<lfloor>p\<rfloor> + 1 \<le> \<lfloor>q\<rfloor>" by (metis floor_mono nless_le zless_imp_add1_zle)
  then show ?thesis
  proof cases
    case 1
    then show ?thesis using \<open>p \<le> q\<close> by (auto simp: round_half_even_def Let_def)
  next
    case 2
    then show ?thesis by (auto simp: round_half_even_def Let_def)
  qed
qed

lemma round_to_bound: "\<bar>round_to k q - q\<bar> \<le> 1 / 2 / 10 ^ k"
proof -
  have "\<bar>round_to k q - q\<bar> = \<bar>of_int (round_half_even (q * 10 ^ k)) - q * 10 ^ k\<bar> / 10 ^ k"
    by (simp add: round_to_def field_simps abs_divide [symmetric])
  also have "\<dots> \<le> (1 / 2) / 10 ^ k"
    by (rule divide_right_mono [OF round_half_even_bound]) simp
  finally show ?thesis by simp
qed

lemma round_to_mono: "p \<le> q \<Longrightarrow> round_to k p \<le> round_to k q"
  unfolding round_to_def
  by (intro divide_right_mono) (auto intro!: round_half_even_mono)

lemma round_to_zero [simp]: "round_to k 0 = 0"
  by (simp add: round_to_def round_half_even_def)

section \<open>JSON documents and dicts\<close>

datatype json =
    JNull
  | JBool bool
  | JInt int
  | JFloat pyfloat
  | JStr string
  | JList "json list"
  | JObj "(string \<times> json) list"

type_synonym dict = "(string \<times> json) list"

text \<open>\<open>d.get(k, default)\<close>, \<open>d[k]\<close>, \<open>d[k] = v\<close>, \<open>d.update(e)\<close>, \<open>d.pop(k, None)\<close> on a dict.\<close>

definition dict_get :: "dict \<Rightarrow> string \<Rightarrow> json \<Rightarrow> json" where
  "dict_get d k v = (case map_of d k of None \<Rightarrow> v | Some w \<Rightarrow> w)"

definition dict_item :: "dict \<Rightarrow> string \<Rightarrow> json result" where
  "dict_item d k = (case map_of d k of None \<Rightarrow> raise KeyError k | Some w \<Rightarrow> Inr w)"

definition dict_set :: "string \<Rightarrow> json \<Rightarrow> dict \<Rightarrow> dict" where
  "dict_set k v d = AList.update k v d"

definition dict_update :: "dict \<Rightarrow> dict \<Rightarrow> dict" where
  "dict_update d e = fold (\<lambda>(k, v). dict_set k v) e d"

definition dict_pop :: "string \<Rightarrow> dict \<Rightarrow> dict" where
  "dict_pop k d = AList.delete k d"

definition dict_has :: "dict \<Rightarrow> string \<Rightarrow> bool" where
  "dict_has d k \<longleftrightarrow> map_of d k \<noteq> None"

lemma map_of_dict_set: "map_of (dict_set k v d) = (map_of d)(k \<mapsto> v)"
  by (simp add: dict_set_def update_conv')

lemma map_of_dict_pop: "map_of (dict_pop k d) = (map_of d)(k := None)"
  by (simp add: dict_pop_def delete_conv')

lemma map_of_dict_update: "map_of (dict_update d e) = map_of d ++ map_of (rev e)"
  unfolding dict_update_def
proof (induction e arbitrary: d)
  case Nil
  then show ?case by simp
next
  case (Cons p e)
  obtain k v where p: "p = (k, v)" by (cases p)
  have "map_of (fold (\<lambda>(k, v). dict_set k v) (p # e) d) = map_of (dict_set k v d) ++ map_of (rev e)"
    using Cons [of "dict_set k v d"] by (simp add: p)
  also have "\<dots> = (map_of d)(k \<mapsto> v) ++ map_of (rev e)"
    by (simp only: map_of_dict_set)
  also have "\<dots> = map_of d ++ map_of (rev (p # e))"
    by (rule ext) (simp add: p map_add_def split: option.splits)
  finally show ?case .
qed

lemma dict_get_set [simp]:
  "dict_get (dict_set k v d) k' w = (if k' = k then v else dict_get d k' w)"
  by (simp add: dict_get_def map_of_dict_set)

lemma dict_get_pop [simp]:
  "dict_get (dict_pop k d) k' w = (if k' = k then w else dict_get d k' w)"
  by (simp add: dict_get_def map_of_dict_pop)

lemma dict_get_update_notin: "k \<notin> fst ` set e \<Longrightarrow> dict_get (dict_update d e) k w = dict_get d k w"
proof -
  assume "k \<notin> fst ` set e"
  then have "map_of (rev e) k = None" by (simp add: map_of_eq_None_iff)
  then show ?thesis by (simp add: dict_get_def map_of_dict_update map_add_def)
qed

lemma dict_update_Nil [simp]: "dict_update d [] = d"
  by (simp add: dict_update_def)

lemma dict_update_Cons [simp]: "dict_update d ((k, v) # e) = dict_update (dict_set k v d) e"
  by (simp add: dict_update_def)

text \<open>\<open>isinstance(v, dict)\<close>, and \<open>v.get(k, default)\<close> on a value that need not be a dict.\<close>

fun is_dict :: "json \<Rightarrow> bool" where
  "is_dict (JObj _) = True"
| "is_dict _ = False"

fun as_dict :: "json \<Rightarrow> dict result" where
  "as_dict (JObj d) = Inr d"
| "as_dict _ = raise AttributeError ''get''"

fun jget :: "json \<Rightarrow> string \<Rightarrow> json \<Rightarrow> json result" where
  "jget (JObj d) k v = Inr (dict_get d k v)"
| "jget _ k v = raise AttributeError ''get''"

text \<open>\<open>bool(v)\<close>.\<close>

fun truthy :: "json \<Rightarrow> bool" where
  "truthy JNull = False"
| "truthy (JBool b) = b"
| "truthy (JInt n) = (n \<noteq> 0)"
| "truthy (JFloat f) = (f \<noteq> Fin 0)"
| "truthy (JStr s) = (s \<noteq> [])"
| "truthy (JList xs) = (xs \<noteq> [])"
| "truthy (JObj d) = (d \<noteq> [])"

section \<open>Strings\<close>

definition is_space :: "char \<Rightarrow> bool" where
  "is_space c \<longleftrightarrow> (of_char c :: nat) \<in> {9, 10, 11, 12, 13, 28, 29, 30, 31, 32, 133, 160}"

definition lstrip :: "string \<Rightarrow> string" where
  "lstrip s = dropWhile is_space s"

definition strip :: "string \<Rightarrow> string" where
  "strip s = rev (dropWhile is_space (rev (dropWhile is_space s)))"

definition rstrip_chars :: "string \<Rightarrow> string \<Rightarrow> string" where
  "rstrip_chars cs s = rev (dropWhile (\<lambda>c. c \<in> set cs) (rev s))"

definition to_lower :: "char \<Rightarrow> char" where
  "to_lower c = (let n = (of_char c :: nat) in if 65 \<le> n \<and> n \<le> 90 then char_of (n + 32) else c)"

definition to_upper :: "char \<Rightarrow> char" where
  "to_upper c = (let n = (of_char c :: nat) in if 97 \<le> n \<and> n \<le> 122 then char_of (n - 32) else c)"

definition lower :: "string \<Rightarrow> string" where
  "lower = map to_lower"

definition upper :: "string \<Rightarrow> string" where
  "upper = map to_upper"

definition startswith :: "string \<Rightarrow> string \<Rightarrow> bool" where
  "startswith s p \<longleftrightarrow> take (length p) s = p"

definition endswith :: "string \<Rightarrow> string \<Rightarrow> bool" where
  "endswith s p \<longleftrightarrow> length p \<le> length s \<and> drop (length s - length p) s = p"

text \<open>\<open>s.partition(c)\<close> with a one-character separator.\<close>

definition partition_at :: "char \<Rightarrow> string \<Rightarrow> string \<times> bool \<times> string" where
  "partition_at c s =
     (let a = takeWhile (\<lambda>x. x \<noteq> c) s; b = dropWhile (\<lambda>x. x \<noteq> c) s
      in (a, b \<noteq> [], tl b))"

text \<open>\<open>c.join(parts)\<close> and \<open>s.split(c)\<close>.\<close>

fun join :: "string \<Rightarrow> string list \<Rightarrow> string" where
  "join c [] = []"
| "join c [x] = x"
| "join c (x # y # xs) = x @ c @ join c (y # xs)"

fun split_at :: "char \<Rightarrow> string \<Rightarrow> string list" where
  "split_at c [] = [[]]"
| "split_at c (x # xs) =
     (if x = c then [] # split_at c xs
      else case split_at c xs of [] \<Rightarrow> [[x]] | y # ys \<Rightarrow> (x # y) # ys)"

lemma partition_at_append:
  "partition_at c s = (a, f, b) \<Longrightarrow> s = a @ (if f then c # b else []) \<and> c \<notin> set a"
proof -
  assume h: "partition_at c s = (a, f, b)"
  let ?d = "dropWhile (\<lambda>x. x \<noteq> c) s"
  have a: "a = takeWhile (\<lambda>x. x \<noteq> c) s" and f: "f = (?d \<noteq> [])" and b: "b = tl ?d"
    using h by (simp_all add: partition_at_def Let_def)
  have "?d \<noteq> [] \<Longrightarrow> hd ?d = c" using hd_dropWhile [of "\<lambda>x. x \<noteq> c" s] by simp
  then have "?d = (if f then c # b else [])"
    using f b by (cases ?d) auto
  moreover have "s = a @ ?d" using a by simp
  moreover have "c \<notin> set a" using a by (auto dest: set_takeWhileD)
  ultimately show ?thesis by simp
qed

lemma split_at_not_Nil [simp]: "split_at c s \<noteq> []"
  by (cases s) (auto split: list.splits)

lemma join_split: "join [c] (split_at c s) = s"
proof (induction s)
  case Nil
  then show ?case by simp
next
  case (Cons x s)
  obtain y ys where ys: "split_at c s = y # ys" by (cases "split_at c s") auto
  show ?case using Cons by (cases ys) (auto simp: ys)
qed

lemma split_at_no_sep: "p \<in> set (split_at c s) \<Longrightarrow> c \<notin> set p"
proof (induction s arbitrary: p)
  case Nil
  then show ?case by simp
next
  case (Cons x s)
  obtain y ys where ys: "split_at c s = y # ys" by (cases "split_at c s") auto
  show ?case using Cons.prems Cons.IH by (auto simp: ys split: if_splits)
qed

lemma startswith_append [simp]: "startswith (p @ s) p"
  by (simp add: startswith_def)

lemma startswith_iff: "startswith s p \<longleftrightarrow> (\<exists>t. s = p @ t)"
  by (metis append_eq_conv_conj startswith_def)

section \<open>Numbers in text\<close>

definition digit_char :: "nat \<Rightarrow> char" where
  "digit_char n = char_of (48 + n)"

fun show_nat :: "nat \<Rightarrow> string" where
  "show_nat n = (if n < 10 then [digit_char n] else show_nat (n div 10) @ [digit_char (n mod 10)])"

declare show_nat.simps [simp del]

definition show_int :: "int \<Rightarrow> string" where
  "show_int n = (if n < 0 then CHR ''-'' # show_nat (nat (- n)) else show_nat (nat n))"

text \<open>The format \<open>f"{n:04d}"\<close> for a non-negative \<open>n\<close>.\<close>

definition pad4 :: "nat \<Rightarrow> string" where
  "pad4 n = (let s = show_nat n in replicate (4 - length s) (CHR ''0'') @ s)"

definition digit_val :: "char \<Rightarrow> nat option" where
  "digit_val c = (let n = of_char c in if 48 \<le> n \<and> n \<le> 57 then Some (n - 48) else None)"

fun digits_val :: "nat \<Rightarrow> string \<Rightarrow> nat option" where
  "digits_val acc [] = Some acc"
| "digits_val acc (c # cs) =
     (case digit_val c of None \<Rightarrow> None | Some d \<Rightarrow> digits_val (10 * acc + d) cs)"

text \<open>A group of decimal digits, with single underscores between digits as Python accepts.\<close>

definition parse_digits :: "string \<Rightarrow> nat option" where
  "parse_digits s =
     (let gs = split_at (CHR ''_'') s
      in if list_all (\<lambda>g. g \<noteq> []) gs then digits_val 0 (concat gs) else None)"

definition parse_signed :: "string \<Rightarrow> int option" where
  "parse_signed t = (case t of
       [] \<Rightarrow> None
     | c # u \<Rightarrow>
         if c = CHR ''-'' then map_option (\<lambda>n. - int n) (parse_digits u)
         else if c = CHR ''+'' then map_option int (parse_digits u)
         else map_option int (parse_digits t))"

text \<open>\<open>int(s)\<close> for a string \<open>s\<close>.\<close>

definition parse_int :: "string \<Rightarrow> int option" where
  "parse_int s = parse_signed (strip s)"

text \<open>The least magnitude that a double cannot represent.\<close>

definition float_limit :: rat where
  "float_limit = 2 ^ 1024 - 2 ^ 970"

definition float_of_rat :: "rat \<Rightarrow> pyfloat" where
  "float_of_rat q = (if float_limit \<le> q then PosInf else if q \<le> - float_limit then NegInf else Fin q)"

definition float_of_int :: "int \<Rightarrow> pyfloat result" where
  "float_of_int n =
     (if of_int \<bar>n\<bar> < float_limit then Inr (Fin (of_int n))
      else raise OverflowError ''int too large to convert to float'')"

lemma float_limit_large: "1000000000 < float_limit"
  by (simp add: float_limit_def)

text \<open>Evaluation compares with the limit only where that may matter.\<close>

lemma float_of_rat_code [code]:
  "float_of_rat q =
     (if - 1000000000 \<le> q \<and> q \<le> 1000000000 then Fin q
      else if float_limit \<le> q then PosInf else if q \<le> - float_limit then NegInf else Fin q)"
  using float_limit_large by (auto simp: float_of_rat_def)

lemma float_of_int_code [code]:
  "float_of_int n =
     (if - 1000000000 \<le> n \<and> n \<le> 1000000000 then Inr (Fin (of_int n))
      else if of_int \<bar>n\<bar> < float_limit then Inr (Fin (of_int n))
      else raise OverflowError ''int too large to convert to float'')"
proof -
  have "of_int \<bar>n\<bar> < float_limit" if "- 1000000000 \<le> n" "n \<le> 1000000000"
  proof -
    have "\<bar>n\<bar> \<le> 1000000000" using that by linarith
    then have "(of_int \<bar>n\<bar> :: rat) \<le> of_int 1000000000" by (rule of_int_le_iff [THEN iffD2])
    then show ?thesis using float_limit_large by simp
  qed
  then show ?thesis by (auto simp: float_of_int_def)
qed

definition parse_fraction :: "string \<Rightarrow> rat option" where
  "parse_fraction s =
     (if s = [] then Some 0
      else map_option (\<lambda>n. of_nat n / 10 ^ length (filter (\<lambda>c. c \<noteq> CHR ''_'') s)) (parse_digits s))"

definition parse_whole :: "string \<Rightarrow> rat option" where
  "parse_whole s = (if s = [] then Some 0 else map_option of_nat (parse_digits s))"

definition pow10 :: "int \<Rightarrow> rat" where
  "pow10 e = (if 0 \<le> e then 10 ^ nat e else 1 / 10 ^ nat (- e))"

definition parse_magnitude :: "string \<Rightarrow> rat option" where
  "parse_magnitude s =
     (let (m, has_e, x) = partition_at (CHR ''e'') s;
          (ip, _, fp) = partition_at (CHR ''.'') m
      in if ip = [] \<and> fp = [] then None
         else case (parse_whole ip, parse_fraction fp, if has_e then parse_signed x else Some 0) of
           (Some a, Some b, Some e) \<Rightarrow> Some ((a + b) * pow10 e)
         | _ \<Rightarrow> None)"

definition parse_unsigned_float :: "string \<Rightarrow> pyfloat option" where
  "parse_unsigned_float s =
     (if s = ''inf'' \<or> s = ''infinity'' then Some PosInf
      else if s = ''nan'' then Some NaN
      else map_option float_of_rat (parse_magnitude s))"

text \<open>\<open>float(s)\<close> for a string \<open>s\<close>.\<close>

definition parse_float :: "string \<Rightarrow> pyfloat option" where
  "parse_float s =
     (let t = lower (strip s) in case t of
       [] \<Rightarrow> None
     | c # u \<Rightarrow>
         if c = CHR ''-'' then map_option f_neg (parse_unsigned_float u)
         else if c = CHR ''+'' then parse_unsigned_float u
         else parse_unsigned_float t)"

text \<open>\<open>int(v)\<close> and \<open>float(v)\<close> for any value.\<close>

definition trunc_rat :: "rat \<Rightarrow> int" where
  "trunc_rat q = (if 0 \<le> q then \<lfloor>q\<rfloor> else \<lceil>q\<rceil>)"

fun py_int :: "json \<Rightarrow> int result" where
  "py_int (JInt n) = Inr n"
| "py_int (JBool b) = Inr (if b then 1 else 0)"
| "py_int (JFloat (Fin q)) = Inr (trunc_rat q)"
| "py_int (JFloat NaN) = raise ValueError ''cannot convert float NaN to integer''"
| "py_int (JFloat PosInf) = raise OverflowError ''cannot convert float infinity to integer''"
| "py_int (JFloat NegInf) = raise OverflowError ''cannot convert float infinity to integer''"
| "py_int (JStr s) = (case parse_int s of
      None \<Rightarrow> raise ValueError ''invalid literal for int()'' | Some n \<Rightarrow> Inr n)"
| "py_int JNull = raise TypeError ''int()''"
| "py_int (JList _) = raise TypeError ''int()''"
| "py_int (JObj _) = raise TypeError ''int()''"

fun py_float :: "json \<Rightarrow> pyfloat result" where
  "py_float (JInt n) = float_of_int n"
| "py_float (JBool b) = Inr (Fin (if b then 1 else 0))"
| "py_float (JFloat f) = Inr f"
| "py_float (JStr s) = (case parse_float s of
      None \<Rightarrow> raise ValueError ''could not convert string to float'' | Some f \<Rightarrow> Inr f)"
| "py_float JNull = raise TypeError ''float()''"
| "py_float (JList _) = raise TypeError ''float()''"
| "py_float (JObj _) = raise TypeError ''float()''"

text \<open>\<open>str(v)\<close>. Floats print positionally, with at most seventeen decimals.\<close>

fun show_frac :: "nat \<Rightarrow> rat \<Rightarrow> string" where
  "show_frac 0 q = []"
| "show_frac (Suc k) q =
     (let d = \<lfloor>10 * q\<rfloor>
      in digit_char (nat d) # (if 10 * q = of_int d then [] else show_frac k (10 * q - of_int d)))"

definition show_rat :: "rat \<Rightarrow> string" where
  "show_rat q =
     (let a = \<bar>q\<bar>; n = \<lfloor>a\<rfloor>
      in (if q < 0 then ''-'' else []) @ show_nat (nat n) @ ''.'' @ show_frac 17 (a - of_int n))"

fun show_float :: "pyfloat \<Rightarrow> string" where
  "show_float (Fin q) = show_rat q"
| "show_float PosInf = ''inf''"
| "show_float NegInf = ''-inf''"
| "show_float NaN = ''nan''"

definition hex_digit :: "nat \<Rightarrow> char" where
  "hex_digit n = (if n < 10 then char_of (48 + n) else char_of (87 + n))"

definition repr_char :: "char \<Rightarrow> char \<Rightarrow> string" where
  "repr_char q c =
     (let n = (of_char c :: nat) in
      if c = q \<or> n = 92 then [char_of (92::nat), c]
      else if n = 10 then [char_of (92::nat), CHR ''n'']
      else if n = 13 then [char_of (92::nat), CHR ''r'']
      else if n = 9 then [char_of (92::nat), CHR ''t'']
      else if n < 32 \<or> 127 \<le> n \<and> n \<le> 160 \<or> n = 173
        then [char_of (92::nat), CHR ''x'', hex_digit (n div 16), hex_digit (n mod 16)]
      else [c])"

definition repr_str :: "string \<Rightarrow> string" where
  "repr_str s =
     (let q = (if char_of (39::nat) \<in> set s \<and> char_of (34::nat) \<notin> set s
               then char_of (34::nat) else char_of (39::nat))
      in q # concat (map (repr_char q) s) @ [q])"

fun py_repr :: "json \<Rightarrow> string" where
  "py_repr JNull = ''None''"
| "py_repr (JBool b) = (if b then ''True'' else ''False'')"
| "py_repr (JInt n) = show_int n"
| "py_repr (JFloat f) = show_float f"
| "py_repr (JStr s) = repr_str s"
| "py_repr (JList xs) = ''['' @ join '', '' (map py_repr xs) @ '']''"
| "py_repr (JObj d) = ''{'' @ join '', '' (map (\<lambda>(k, v). repr_str k @ '': '' @ py_repr v) d) @ ''}''"

definition py_str :: "json \<Rightarrow> string" where
  "py_str v = (case v of JStr s \<Rightarrow> s | _ \<Rightarrow> py_repr v)"

lemma py_str_JStr [simp]: "py_str (JStr s) = s"
  by (simp add: py_str_def)

text \<open>\<open>sorted({...})\<close> over strings.\<close>

definition sorted_set :: "string list \<Rightarrow> string list" where
  "sorted_set xs = sort (remdups xs)"

lemma set_sorted_set [simp]: "set (sorted_set xs) = set xs"
  by (simp add: sorted_set_def)

lemma distinct_sorted_set [simp]: "distinct (sorted_set xs)"
  by (simp add: sorted_set_def)

lemma sorted_sorted_set [simp]: "sorted (sorted_set xs)"
  by (simp add: sorted_set_def)

lemma sorted_set_cong: "set xs = set ys \<Longrightarrow> sorted_set xs = sorted_set ys"
  by (metis distinct_sorted_set set_sorted_set sorted_distinct_set_unique sorted_sorted_set)

section \<open>Decimal text\<close>

lemma digit_val_char: "d < 10 \<Longrightarrow> digit_val (digit_char d) = Some d"
  by (simp add: digit_val_def digit_char_def Let_def)

lemma digits_val_append:
  "digits_val a (xs @ ys) = (case digits_val a xs of None \<Rightarrow> None | Some b \<Rightarrow> digits_val b ys)"
  by (induction xs arbitrary: a) (auto split: option.splits)

lemma digits_val_show_nat: "digits_val 0 (show_nat n) = Some n"
proof (induction n rule: show_nat.induct)
  case (1 n)
  show ?case
  proof (cases "n < 10")
    case True
    then show ?thesis by (simp add: show_nat.simps [of n] digit_val_char)
  next
    case False
    then show ?thesis using 1 by (simp add: show_nat.simps [of n] digits_val_append digit_val_char)
  qed
qed

lemma show_nat_inject [simp]: "show_nat m = show_nat n \<longleftrightarrow> m = n"
  by (metis digits_val_show_nat option.inject)

lemma digits_val_zeros: "digits_val 0 (replicate k (CHR ''0'') @ s) = digits_val 0 s"
  by (induction k) (simp_all add: digit_val_def)

lemma digits_val_pad4: "digits_val 0 (pad4 n) = Some n"
  by (simp add: pad4_def Let_def digits_val_zeros digits_val_show_nat)

lemma pad4_inject [simp]: "pad4 m = pad4 n \<longleftrightarrow> m = n"
  by (metis digits_val_pad4 option.inject)

lemma show_nat_digits: "c \<in> set (show_nat n) \<Longrightarrow> digit_val c \<noteq> None"
proof (induction n rule: show_nat.induct)
  case (1 n)
  then show ?case
    by (cases "n < 10") (auto simp: show_nat.simps [of n] digit_val_char)
qed

lemma pad4_no_slash: "CHR ''/'' \<notin> set (pad4 n)"
proof -
  have "digit_val (CHR ''/'') = None" by (simp add: digit_val_def)
  then have "CHR ''/'' \<notin> set (show_nat n)" using show_nat_digits by metis
  then show ?thesis by (auto simp: pad4_def Let_def)
qed

lemma split_at_absent: "c \<notin> set s \<Longrightarrow> split_at c s = [s]"
  by (induction s) auto

lemma show_nat_not_Nil [simp]: "show_nat n \<noteq> []"
  by (subst show_nat.simps) simp

lemma parse_digits_show_nat: "parse_digits (show_nat n) = Some n"
proof -
  have "CHR ''_'' \<notin> set (show_nat n)"
    using show_nat_digits [of "CHR ''_''" n] by (auto simp: digit_val_def)
  then show ?thesis by (simp add: parse_digits_def split_at_absent digits_val_show_nat)
qed

end
