(* ===== verification/Effects.thy ===== *)
theory Effects
  imports Prelude
begin

text \<open>
  Effectful Python code as trees. A coroutine of the services is a tree whose inner nodes are the
  requests it awaits (reads and conditional writes of a revisioned key-value bucket, and requests
  \<open>Ext x\<close> of a component's own choosing such as reading a clock) and whose continuation takes the
  awaited value or the exception raised at that point. The tree of a function is one definition,
  used in two ways: \<open>run\<close> executes it alone, and \<open>step\<close> interleaves any number of such trees, one
  request at a time, over a shared store. The points between two requests are exactly the
  \<open>await\<close>s of the source.

  The second half is a proof method for compare-and-swap clients: \<open>cas_ok\<close> states what a tree
  may write given what it has read, the locale \<open>cas_bucket\<close> states what a bucket promises, and
  \<open>cas_protocol\<close> turns the two into invariants of every interleaving.
\<close>

section \<open>Trees and their sequential execution\<close>

datatype ('x, 'a) prog =
    Ret 'a
  | Raise exn
  | KvGet string "(json \<times> nat) result \<Rightarrow> ('x, 'a) prog"
  | KvCreate string json "nat result \<Rightarrow> ('x, 'a) prog"
  | KvUpdate string json nat "nat result \<Rightarrow> ('x, 'a) prog"
  | Ext 'x "json result \<Rightarrow> ('x, 'a) prog"

text \<open>Sequencing, and \<open>try \<dots> except\<close>.\<close>

primrec bindp :: "('x, 'a) prog \<Rightarrow> ('a \<Rightarrow> ('x, 'b) prog) \<Rightarrow> ('x, 'b) prog" where
  "bindp (Ret a) f = f a"
| "bindp (Raise e) f = Raise e"
| "bindp (KvGet k c) f = KvGet k (\<lambda>r. bindp (c r) f)"
| "bindp (KvCreate k v c) f = KvCreate k v (\<lambda>r. bindp (c r) f)"
| "bindp (KvUpdate k v n c) f = KvUpdate k v n (\<lambda>r. bindp (c r) f)"
| "bindp (Ext x c) f = Ext x (\<lambda>r. bindp (c r) f)"

primrec catchp :: "('x, 'a) prog \<Rightarrow> (exn \<Rightarrow> ('x, 'a) prog) \<Rightarrow> ('x, 'a) prog" where
  "catchp (Ret a) h = Ret a"
| "catchp (Raise e) h = h e"
| "catchp (KvGet k c) h = KvGet k (\<lambda>r. catchp (c r) h)"
| "catchp (KvCreate k v c) h = KvCreate k v (\<lambda>r. catchp (c r) h)"
| "catchp (KvUpdate k v n c) h = KvUpdate k v n (\<lambda>r. catchp (c r) h)"
| "catchp (Ext x c) h = Ext x (\<lambda>r. catchp (c r) h)"

text \<open>A pure computation that may raise.\<close>

definition lift :: "'a result \<Rightarrow> ('a \<Rightarrow> ('x, 'b) prog) \<Rightarrow> ('x, 'b) prog" where
  "lift r f = (case r of Inl e \<Rightarrow> Raise e | Inr a \<Rightarrow> f a)"

lemma lift_simps [simp]: "lift (Inl e) f = Raise e" "lift (Inr a) f = f a"
  by (simp_all add: lift_def)

lemma bindp_Ret_right [simp]: "bindp p Ret = p"
  by (induction p) auto

lemma bindp_assoc: "bindp (bindp p f) g = bindp p (\<lambda>a. bindp (f a) g)"
  by (induction p) auto

lemma bindp_lift [simp]: "bindp (lift r f) g = lift r (\<lambda>a. bindp (f a) g)"
  by (cases r) auto

text \<open>The operations of a store with state \<open>'s\<close>, each answering a request atomically.\<close>

record ('x, 's) kv_ops =
  op_get :: "string \<Rightarrow> 's \<Rightarrow> (json \<times> nat) result \<times> 's"
  op_create :: "string \<Rightarrow> json \<Rightarrow> 's \<Rightarrow> nat result \<times> 's"
  op_update :: "string \<Rightarrow> json \<Rightarrow> nat \<Rightarrow> 's \<Rightarrow> nat result \<times> 's"
  op_ext :: "'x \<Rightarrow> 's \<Rightarrow> json result \<times> 's"

primrec run :: "('x, 'a) prog \<Rightarrow> ('x, 's) kv_ops \<Rightarrow> 's \<Rightarrow> 'a result \<times> 's" where
  "run (Ret a) H s = (Inr a, s)"
| "run (Raise e) H s = (Inl e, s)"
| "run (KvGet k c) H s = (case op_get H k s of (r, s') \<Rightarrow> run (c r) H s')"
| "run (KvCreate k v c) H s = (case op_create H k v s of (r, s') \<Rightarrow> run (c r) H s')"
| "run (KvUpdate k v n c) H s = (case op_update H k v n s of (r, s') \<Rightarrow> run (c r) H s')"
| "run (Ext x c) H s = (case op_ext H x s of (r, s') \<Rightarrow> run (c r) H s')"

lemma run_bindp:
  "run (bindp p f) H s =
     (case run p H s of (Inl e, s') \<Rightarrow> (Inl e, s') | (Inr a, s') \<Rightarrow> run (f a) H s')"
  by (induction p arbitrary: s) (auto split: prod.splits sum.splits)

lemma run_catchp:
  "run (catchp p h) H s =
     (case run p H s of (Inl e, s') \<Rightarrow> run (h e) H s' | (Inr a, s') \<Rightarrow> (Inr a, s'))"
  by (induction p arbitrary: s) (auto split: prod.splits sum.splits)

section \<open>Interleaving\<close>

text \<open>One request of a tree; \<open>None\<close> when it has finished.\<close>

fun advance :: "('x, 's) kv_ops \<Rightarrow> ('x, 'a) prog \<Rightarrow> 's \<Rightarrow> (('x, 'a) prog \<times> 's) option" where
  "advance H (Ret a) s = None"
| "advance H (Raise e) s = None"
| "advance H (KvGet k c) s = (case op_get H k s of (r, s') \<Rightarrow> Some (c r, s'))"
| "advance H (KvCreate k v c) s = (case op_create H k v s of (r, s') \<Rightarrow> Some (c r, s'))"
| "advance H (KvUpdate k v n c) s = (case op_update H k v n s of (r, s') \<Rightarrow> Some (c r, s'))"
| "advance H (Ext x c) s = (case op_ext H x s of (r, s') \<Rightarrow> Some (c r, s'))"

type_synonym ('x, 's, 'a) config = "'s \<times> ('x, 'a) prog list"

inductive step :: "('x, 's) kv_ops \<Rightarrow> ('x, 's, 'a) config \<Rightarrow> ('x, 's, 'a) config \<Rightarrow> bool" for H where
  step_at: "i < length ps \<Longrightarrow> advance H (ps ! i) s = Some (p', s') \<Longrightarrow> step H (s, ps) (s', ps[i := p'])"

inductive_cases stepE: "step H c c'"

inductive reaches :: "('x, 's) kv_ops \<Rightarrow> ('x, 's, 'a) config \<Rightarrow> ('x, 's, 'a) config \<Rightarrow> bool"
  for H c where
  reaches_refl: "reaches H c c"
| reaches_step: "reaches H c d \<Longrightarrow> step H d e \<Longrightarrow> reaches H c e"

lemma reaches_trans: "reaches H d e \<Longrightarrow> reaches H c d \<Longrightarrow> reaches H c e"
  by (induction rule: reaches.induct) (auto intro: reaches.intros)

text \<open>An executable interleaving: the replicas named by a schedule move in that order.\<close>

fun run_sched :: "('x, 's) kv_ops \<Rightarrow> nat list \<Rightarrow> ('x, 's, 'a) config \<Rightarrow> ('x, 's, 'a) config" where
  "run_sched H [] c = c"
| "run_sched H (i # is) (s, ps) =
     (if i < length ps then
        case advance H (ps ! i) s of
          None \<Rightarrow> run_sched H is (s, ps)
        | Some (p', s') \<Rightarrow> run_sched H is (s', ps[i := p'])
      else run_sched H is (s, ps))"

lemma run_sched_reaches: "reaches H c (run_sched H is c)"
proof (induction H "is" c rule: run_sched.induct)
  case (1 H c)
  then show ?case by (simp add: reaches_refl)
next
  case (2 H i "is" s ps)
  show ?case
  proof (cases "i < length ps \<and> advance H (ps ! i) s \<noteq> None")
    case True
    then obtain p' s' where a: "advance H (ps ! i) s = Some (p', s')" by auto
    have "reaches H (s, ps) (s', ps[i := p'])"
      using True a by (auto intro: reaches.intros step_at)
    then show ?thesis using 2(2) [of "(p', s')" p' s'] True a by (auto intro: reaches_trans)
  next
    case False
    then show ?thesis using 2 by (cases "advance H (ps ! i) s") auto
  qed
qed

lemma run_sched_step:
  assumes "i < length (snd c)" and "advance H (snd c ! i) (fst c) \<noteq> None"
  shows "step H c (run_sched H [i] c)"
proof -
  obtain s ps where c: "c = (s, ps)" by (cases c)
  obtain p' s' where "advance H (ps ! i) s = Some (p', s')" using assms(2) c by auto
  then show ?thesis using assms(1) c step_at [of i ps H s p' s'] by simp
qed

text \<open>The result of a finished tree.\<close>

fun result_of :: "('x, 'a) prog \<Rightarrow> 'a result option" where
  "result_of (Ret a) = Some (Inr a)"
| "result_of (Raise e) = Some (Inl e)"
| "result_of _ = None"

lemma result_of_Ret: "result_of p = Some (Inr a) \<longleftrightarrow> p = Ret a"
  by (cases p) auto

lemma result_of_Raise: "result_of p = Some (Inl e) \<longleftrightarrow> p = Raise e"
  by (cases p) auto

text \<open>Left alone, a replica always finishes, with the result its sequential run has.\<close>

definition finished :: "'a result \<Rightarrow> ('x, 'a) prog" where
  "finished r = (case r of Inl e \<Rightarrow> Raise e | Inr a \<Rightarrow> Ret a)"

lemma reaches_first:
  assumes "i < length ps" and "advance H (ps ! i) s = Some (p', s')"
    and "reaches H (s', ps[i := p']) (t, ps[i := p', i := q])"
  shows "reaches H (s, ps) (t, ps[i := q])"
proof -
  have "step H (s, ps) (s', ps[i := p'])" using assms(1,2) by (rule step_at)
  then have "reaches H (s, ps) (s', ps[i := p'])" by (rule reaches_step [OF reaches_refl])
  then show ?thesis using assms(3) by (auto intro: reaches_trans)
qed

lemma finish_step:
  assumes "i < length ps" and "ps ! i = p" and "advance H p s = Some (p', s')"
    and "run p H s = run p' H s'"
    and IH: "\<And>qs. i < length qs \<Longrightarrow> qs ! i = p' \<Longrightarrow>
      reaches H (s', qs) (snd (run p' H s'), qs[i := finished (fst (run p' H s'))])"
  shows "reaches H (s, ps) (snd (run p H s), ps[i := finished (fst (run p H s))])"
  using reaches_first [OF assms(1), of H s p' s'] IH [of "ps[i := p']"] assms(1-4) by simp

lemma replica_can_finish:
  "i < length ps \<Longrightarrow> ps ! i = p \<Longrightarrow>
     reaches H (s, ps) (snd (run p H s), ps[i := finished (fst (run p H s))])"
proof (induction p arbitrary: s ps)
  case (Ret a)
  then have "ps[i := Ret a] = ps" by (metis list_update_id)
  then show ?case by (auto simp: finished_def intro: reaches_refl)
next
  case (Raise e)
  then have "ps[i := Raise e] = ps" by (metis list_update_id)
  then show ?case by (auto simp: finished_def intro: reaches_refl)
next
  case (KvGet k c)
  obtain r s' where o: "op_get H k s = (r, s')" by fastforce
  show ?case by (rule finish_step [OF KvGet.prems _ _ KvGet.IH]) (use o in auto)
next
  case (KvCreate k v c)
  obtain r s' where o: "op_create H k v s = (r, s')" by fastforce
  show ?case by (rule finish_step [OF KvCreate.prems _ _ KvCreate.IH]) (use o in auto)
next
  case (KvUpdate k v n c)
  obtain r s' where o: "op_update H k v n s = (r, s')" by fastforce
  show ?case by (rule finish_step [OF KvUpdate.prems _ _ KvUpdate.IH]) (use o in auto)
next
  case (Ext x c)
  obtain r s' where o: "op_ext H x s = (r, s')" by fastforce
  show ?case by (rule finish_step [OF Ext.prems _ _ Ext.IH]) (use o in auto)
qed

section \<open>What a compare-and-swap client may write\<close>

text \<open>
  An observation is a value a tree has seen under a key at a revision (by reading or by a
  successful write of its own), or an answer to one of its other requests.
\<close>

datatype 'x obs = Saw string json nat | Got 'x json

type_synonym 'x knowledge = "'x obs set"

definition learn_get :: "string \<Rightarrow> (json \<times> nat) result \<Rightarrow> 'x knowledge \<Rightarrow> 'x knowledge" where
  "learn_get k r K = (case r of Inl _ \<Rightarrow> K | Inr (v, n) \<Rightarrow> insert (Saw k v n) K)"

definition learn_put :: "string \<Rightarrow> json \<Rightarrow> nat result \<Rightarrow> 'x knowledge \<Rightarrow> 'x knowledge" where
  "learn_put k v r K = (case r of Inl _ \<Rightarrow> K | Inr n \<Rightarrow> insert (Saw k v n) K)"

definition learn_ext :: "'x \<Rightarrow> json result \<Rightarrow> 'x knowledge \<Rightarrow> 'x knowledge" where
  "learn_ext x r K = (case r of Inl _ \<Rightarrow> K | Inr j \<Rightarrow> insert (Got x j) K)"

lemma learn_mono [simp]:
  "K \<subseteq> learn_get k r K" "K \<subseteq> learn_put k v m K" "K \<subseteq> learn_ext x j K"
  by (auto simp: learn_get_def learn_put_def learn_ext_def split: sum.splits)

lemma learn_simps [simp]:
  "learn_get k (Inl e) K = K" "learn_get k (Inr (v, n)) K = insert (Saw k v n) K"
  "learn_put k v (Inl e) K = K" "learn_put k v (Inr n) K = insert (Saw k v n) K"
  "learn_ext x (Inl e) K = K" "learn_ext x (Inr j) K = insert (Got x j) K"
  by (simp_all add: learn_get_def learn_put_def learn_ext_def)

text \<open>
  \<open>cas_ok I R Q p K\<close>: from knowledge \<open>K\<close>, every value the tree \<open>p\<close> creates satisfies \<open>I\<close>, every
  update replaces an observed value \<open>w\<close> at the revision it was observed at by a value \<open>v\<close> with
  \<open>R K k w v\<close>, and a normal return satisfies \<open>Q\<close>. The answers to requests are arbitrary.
\<close>

primrec cas_ok ::
  "(string \<Rightarrow> json \<Rightarrow> bool) \<Rightarrow> ('x knowledge \<Rightarrow> string \<Rightarrow> json \<Rightarrow> json \<Rightarrow> bool) \<Rightarrow>
   ('a \<Rightarrow> 'x knowledge \<Rightarrow> bool) \<Rightarrow> ('x, 'a) prog \<Rightarrow> 'x knowledge \<Rightarrow> bool" where
  "cas_ok I R Q (Ret a) K = Q a K"
| "cas_ok I R Q (Raise e) K = True"
| "cas_ok I R Q (KvGet k c) K = (\<forall>r. cas_ok I R Q (c r) (learn_get k r K))"
| "cas_ok I R Q (KvCreate k v c) K = (I k v \<and> (\<forall>r. cas_ok I R Q (c r) (learn_put k v r K)))"
| "cas_ok I R Q (KvUpdate k v n c) K =
     ((\<exists>w. Saw k w n \<in> K \<and> R K k w v) \<and> (\<forall>r. cas_ok I R Q (c r) (learn_put k v r K)))"
| "cas_ok I R Q (Ext x c) K = (\<forall>r. cas_ok I R Q (c r) (learn_ext x r K))"

named_theorems cas_intros
  \<open>introduction rules that walk through a tree and collect what it learns\<close>

lemma cas_ok_get [cas_intros]:
  assumes "\<And>e. cas_ok I R Q (c (Inl e)) K" and "\<And>v n. cas_ok I R Q (c (Inr (v, n))) (insert (Saw k v n) K)"
  shows "cas_ok I R Q (KvGet k c) K"
proof -
  have "cas_ok I R Q (c r) (learn_get k r K)" for r using assms by (cases r) auto
  then show ?thesis by simp
qed

lemma cas_ok_create [cas_intros]:
  assumes "I k v" and "\<And>e. cas_ok I R Q (c (Inl e)) K" and "\<And>n. cas_ok I R Q (c (Inr n)) (insert (Saw k v n) K)"
  shows "cas_ok I R Q (KvCreate k v c) K"
proof -
  have "cas_ok I R Q (c r) (learn_put k v r K)" for r using assms by (cases r) auto
  then show ?thesis using assms(1) by simp
qed

lemma cas_ok_update:
  assumes "Saw k w m \<in> K" and "R K k w v"
    and "\<And>e. cas_ok I R Q (c (Inl e)) K" and "\<And>n. cas_ok I R Q (c (Inr n)) (insert (Saw k v n) K)"
  shows "cas_ok I R Q (KvUpdate k v m c) K"
proof -
  have "cas_ok I R Q (c r) (learn_put k v r K)" for r using assms by (cases r) auto
  then show ?thesis using assms(1,2) by auto
qed

lemmas cas_ok_update_read [cas_intros] = cas_ok_update [OF insertI1]

lemma cas_ok_ext [cas_intros]:
  assumes "\<And>e. cas_ok I R Q (c (Inl e)) K" and "\<And>j. cas_ok I R Q (c (Inr j)) (insert (Got x j) K)"
  shows "cas_ok I R Q (Ext x c) K"
proof -
  have "cas_ok I R Q (c r) (learn_ext x r K)" for r using assms by (cases r) auto
  then show ?thesis by simp
qed

lemma cas_ok_bindp:
  assumes "cas_ok I R Q p K"
    and "\<And>a K'. K \<subseteq> K' \<Longrightarrow> Q a K' \<Longrightarrow> cas_ok I R Q' (f a) K'"
  shows "cas_ok I R Q' (bindp p f) K"
  using assms
proof (induction p arbitrary: K)
  case (KvGet k c)
  then show ?case by (auto intro!: KvGet.IH) (meson learn_mono(1) subset_trans)
next
  case (KvCreate k v c)
  then show ?case by (auto intro!: KvCreate.IH) (meson learn_mono(2) subset_trans)
next
  case (KvUpdate k v n c)
  then show ?case by (auto intro!: KvUpdate.IH) (meson learn_mono(2) subset_trans)
next
  case (Ext x c)
  then show ?case by (auto intro!: Ext.IH) (meson learn_mono(3) subset_trans)
qed auto

lemma cas_ok_catchp:
  assumes "cas_ok I R Q p K" and "\<And>e K'. K \<subseteq> K' \<Longrightarrow> cas_ok I R Q (h e) K'"
  shows "cas_ok I R Q (catchp p h) K"
  using assms
proof (induction p arbitrary: K)
  case (KvGet k c)
  then show ?case by (auto intro!: KvGet.IH) (meson learn_mono(1) subset_trans)
next
  case (KvCreate k v c)
  then show ?case by (auto intro!: KvCreate.IH) (meson learn_mono(2) subset_trans)
next
  case (KvUpdate k v n c)
  then show ?case by (auto intro!: KvUpdate.IH) (meson learn_mono(2) subset_trans)
next
  case (Ext x c)
  then show ?case by (auto intro!: Ext.IH) (meson learn_mono(3) subset_trans)
qed auto

lemma cas_ok_lift [cas_intros]:
  "(\<And>a. r = Inr a \<Longrightarrow> cas_ok I R Q (f a) K) \<Longrightarrow> cas_ok I R Q (lift r f) K"
  by (cases r) auto

lemma cas_ok_mono_post:
  assumes "cas_ok I R Q p K" and "\<And>a K'. K \<subseteq> K' \<Longrightarrow> Q a K' \<Longrightarrow> Q' a K'"
  shows "cas_ok I R Q' p K"
  using cas_ok_bindp [of I R Q p K Q' Ret] assms by simp

section \<open>What a bucket promises\<close>

text \<open>
  A revisioned bucket with conditional writes, as JetStream documents its key-value buckets: a
  read returns the current value and its revision, a create commits only when the key has no
  value, an update commits only when the revision is still the current one, and every committed
  write gets a revision larger than all before it. An operation may also fail with any exception,
  and a failed write may nevertheless have been committed (the acknowledgement was lost). \<open>kv\<close>
  reads the current values off the state, \<open>lastrev\<close> bounds the revisions, \<open>known\<close> holds of the answers
  to other requests and \<open>okst\<close> is the store's own invariant.
\<close>

definition commits ::
  "('s \<Rightarrow> string \<Rightarrow> (json \<times> nat) option) \<Rightarrow> ('s \<Rightarrow> nat) \<Rightarrow> string \<Rightarrow> json \<Rightarrow> 's \<Rightarrow> 's \<Rightarrow> nat \<Rightarrow> bool" where
  "commits kv lastrev k v s s' n \<longleftrightarrow> lastrev s < n \<and> n \<le> lastrev s' \<and> kv s' = (kv s)(k \<mapsto> (v, n))"

definition unchanged ::
  "('s \<Rightarrow> string \<Rightarrow> (json \<times> nat) option) \<Rightarrow> ('s \<Rightarrow> nat) \<Rightarrow> 's \<Rightarrow> 's \<Rightarrow> bool" where
  "unchanged kv lastrev s s' \<longleftrightarrow> kv s' = kv s \<and> lastrev s \<le> lastrev s'"

locale cas_bucket =
  fixes H :: "('x, 's) kv_ops"
    and kv :: "'s \<Rightarrow> string \<Rightarrow> (json \<times> nat) option"
    and lastrev :: "'s \<Rightarrow> nat"
    and known :: "'s \<Rightarrow> 'x \<Rightarrow> json \<Rightarrow> bool"
    and okst :: "'s \<Rightarrow> bool"
  assumes get_law: "okst s \<Longrightarrow> op_get H k s = (rg, s') \<Longrightarrow>
        okst s' \<and> unchanged kv lastrev s s' \<and> (\<forall>v n. rg = Inr (v, n) \<longrightarrow> kv s k = Some (v, n))"
    and create_law: "okst s \<Longrightarrow> op_create H k v s = (rp, s') \<Longrightarrow>
        okst s' \<and> (unchanged kv lastrev s s' \<and> (\<exists>e. rp = Inl e) \<or>
                 kv s k = None \<and> (\<exists>n. commits kv lastrev k v s s' n \<and> (rp = Inr n \<or> (\<exists>e. rp = Inl e))))"
    and update_law: "okst s \<Longrightarrow> op_update H k v m s = (rp, s') \<Longrightarrow>
        okst s' \<and> (unchanged kv lastrev s s' \<and> (\<exists>e. rp = Inl e) \<or>
                 (\<exists>w. kv s k = Some (w, m)) \<and>
                 (\<exists>n. commits kv lastrev k v s s' n \<and> (rp = Inr n \<or> (\<exists>e. rp = Inl e))))"
    and ext_law: "okst s \<Longrightarrow> op_ext H x s = (rx, s') \<Longrightarrow>
        okst s' \<and> unchanged kv lastrev s s' \<and> (\<forall>j. rx = Inr j \<longrightarrow> known s' x j)"
    and rev_bound: "okst s \<Longrightarrow> kv s k = Some (v, n) \<Longrightarrow> n \<le> lastrev s"
    and known_get: "okst s \<Longrightarrow> known s x j \<Longrightarrow> known (snd (op_get H k s)) x j"
    and known_create: "okst s \<Longrightarrow> known s x j \<Longrightarrow> known (snd (op_create H k v s)) x j"
    and known_update: "okst s \<Longrightarrow> known s x j \<Longrightarrow> known (snd (op_update H k v m s)) x j"
    and known_ext: "okst s \<Longrightarrow> known s x j \<Longrightarrow> known (snd (op_ext H y s)) x j"

text \<open>
  A bucket without faults: a read fails exactly when the key is absent, a write exactly when its
  condition does not hold, with the store's not-found and conflict exceptions.
\<close>

locale reliable_bucket = cas_bucket H kv lastrev known okst
  for H :: "('x, 's) kv_ops"
    and kv :: "'s \<Rightarrow> string \<Rightarrow> (json \<times> nat) option"
    and lastrev :: "'s \<Rightarrow> nat"
    and known :: "'s \<Rightarrow> 'x \<Rightarrow> json \<Rightarrow> bool"
    and okst :: "'s \<Rightarrow> bool" +
  fixes absent :: "exn_class" and conflict :: "exn_class"
  assumes get_absent: "okst s \<Longrightarrow> kv s k = None \<Longrightarrow> \<exists>m. fst (op_get H k s) = Inl (Exn absent m)"
    and get_present: "okst s \<Longrightarrow> kv s k = Some vn \<Longrightarrow> fst (op_get H k s) = Inr vn"
    and create_absent: "okst s \<Longrightarrow> kv s k = None \<Longrightarrow> \<exists>n. fst (op_create H k v s) = Inr n"
    and create_present: "okst s \<Longrightarrow> kv s k = Some vn \<Longrightarrow> \<exists>m. fst (op_create H k v s) = Inl (Exn conflict m)"
    and update_current: "okst s \<Longrightarrow> kv s k = Some (w, m) \<Longrightarrow> \<exists>n. fst (op_update H k v m s) = Inr n"
    and update_stale: "okst s \<Longrightarrow> \<not> (\<exists>w. kv s k = Some (w, m)) \<Longrightarrow>
          \<exists>e. fst (op_update H k v m s) = Inl (Exn conflict e)"
begin

lemma reliable_get_none:
  assumes "okst s" and "kv s k = None"
  obtains m s' where "op_get H k s = (Inl (Exn absent m), s')" "kv s' = kv s" "okst s'"
proof -
  obtain m where m: "fst (op_get H k s) = Inl (Exn absent m)" using get_absent [OF assms] by blast
  obtain r s' where o: "op_get H k s = (r, s')" by fastforce
  show thesis using that [of m s'] get_law [OF assms(1) o] m o by (auto simp: unchanged_def)
qed

lemma reliable_get_some:
  assumes "okst s" and "kv s k = Some vn"
  obtains s' where "op_get H k s = (Inr vn, s')" "kv s' = kv s" "okst s'"
proof -
  obtain r s' where o: "op_get H k s = (r, s')" by fastforce
  show thesis using that [of s'] get_law [OF assms(1) o] get_present [OF assms] o by (auto simp: unchanged_def)
qed

lemma reliable_create_none:
  assumes "okst s" and "kv s k = None"
  obtains n s' where "op_create H k v s = (Inr n, s')" "kv s' = (kv s)(k \<mapsto> (v, n))" "okst s'"
proof -
  obtain n where n: "fst (op_create H k v s) = Inr n" using create_absent [OF assms] by blast
  obtain r s' where o: "op_create H k v s = (r, s')" by fastforce
  show thesis using that [of n s'] create_law [OF assms(1) o] n o by (auto simp: commits_def)
qed

lemma reliable_update_some:
  assumes "okst s" and "kv s k = Some (w, m)"
  obtains n s' where "op_update H k v m s = (Inr n, s')" "kv s' = (kv s)(k \<mapsto> (v, n))" "okst s'"
proof -
  obtain n where n: "fst (op_update H k v m s) = Inr n" using update_current [OF assms] by blast
  obtain r s' where o: "op_update H k v m s = (r, s')" by fastforce
  show thesis using that [of n s'] update_law [OF assms(1) o] n o by (auto simp: commits_def)
qed

lemma reliable_ext:
  assumes "okst s" and "op_ext H x s = (r, s')"
  shows "kv s' = kv s" "okst s'"
  using ext_law [OF assms] by (auto simp: unchanged_def)

end

section \<open>Invariants of every interleaving\<close>

text \<open>
  A protocol over a bucket: an invariant \<open>I\<close> on stored values and a relation \<open>R\<close> on the changes of
  a stored value. \<open>becomes\<close> is any number of such changes. Knowledge is grounded in a state when
  everything seen was stored once: what is stored now came from it by permitted changes, and is
  the same value if it has the same revision.
\<close>

locale cas_protocol = cas_bucket H kv lastrev known okst
  for H :: "('x, 's) kv_ops"
    and kv :: "'s \<Rightarrow> string \<Rightarrow> (json \<times> nat) option"
    and lastrev :: "'s \<Rightarrow> nat"
    and known :: "'s \<Rightarrow> 'x \<Rightarrow> json \<Rightarrow> bool"
    and okst :: "'s \<Rightarrow> bool" +
  fixes I :: "string \<Rightarrow> json \<Rightarrow> bool"
    and R :: "'x knowledge \<Rightarrow> string \<Rightarrow> json \<Rightarrow> json \<Rightarrow> bool"
  assumes keeps: "R K k w v \<Longrightarrow> I k w \<Longrightarrow> I k v"
begin

definition becomes :: "string \<Rightarrow> json \<Rightarrow> json \<Rightarrow> bool" where
  "becomes k = (\<lambda>w v. \<exists>K. R K k w v)\<^sup>*\<^sup>*"

definition values_ok :: "'s \<Rightarrow> bool" where
  "values_ok s \<longleftrightarrow> (\<forall>k v n. kv s k = Some (v, n) \<longrightarrow> I k v)"

definition grounded :: "'s \<Rightarrow> 'x knowledge \<Rightarrow> bool" where
  "grounded s K \<longleftrightarrow>
     (\<forall>k w n. Saw k w n \<in> K \<longrightarrow>
        (\<exists>v m. kv s k = Some (v, m) \<and> n \<le> m \<and> (m = n \<longrightarrow> v = w) \<and> becomes k w v)) \<and>
     (\<forall>x j. Got x j \<in> K \<longrightarrow> known s x j)"

definition moves :: "'x knowledge \<Rightarrow> 's \<Rightarrow> 's \<Rightarrow> bool" where
  "moves K s s' \<longleftrightarrow>
     (\<forall>k. kv s' k = kv s k \<or>
        (\<exists>v n. lastrev s < n \<and> kv s' k = Some (v, n) \<and>
           (case kv s k of None \<Rightarrow> I k v | Some (w, _) \<Rightarrow> R K k w v))) \<and>
     (\<forall>x j. known s x j \<longrightarrow> known s' x j)"

lemma becomes_refl [simp]: "becomes k w w"
  by (simp add: becomes_def)

lemma becomes_step: "becomes k u w \<Longrightarrow> R K k w v \<Longrightarrow> becomes k u v"
  unfolding becomes_def by (rule rtranclp.rtrancl_into_rtrancl) blast+

lemma becomes_trans: "becomes k u w \<Longrightarrow> becomes k w v \<Longrightarrow> becomes k u v"
  unfolding becomes_def by (rule rtranclp_trans)

lemma becomes_keeps: "becomes k w v \<Longrightarrow> I k w \<Longrightarrow> I k v"
  unfolding becomes_def by (induction rule: rtranclp_induct) (auto intro: keeps)

lemma grounded_empty [simp]: "grounded s {}"
  by (simp add: grounded_def)

lemma grounded_Saw: "grounded s K \<Longrightarrow> Saw k w n \<in> K \<Longrightarrow> \<exists>v m. kv s k = Some (v, m) \<and> becomes k w v"
  unfolding grounded_def by blast

lemma grounded_current: "grounded s K \<Longrightarrow> Saw k w n \<in> K \<Longrightarrow> kv s k = Some (v, n) \<Longrightarrow> v = w"
  unfolding grounded_def by fastforce

lemma moves_some:
  assumes "moves K s s'" and "kv s k = Some (w, n)"
  shows "kv s' k = kv s k \<or> (\<exists>v r. lastrev s < r \<and> kv s' k = Some (v, r) \<and> R K k w v)"
proof -
  have "kv s' k = kv s k \<or> (\<exists>v n. lastrev s < n \<and> kv s' k = Some (v, n) \<and>
           (case kv s k of None \<Rightarrow> I k v | Some (w, _) \<Rightarrow> R K k w v))"
    using assms(1) unfolding moves_def by blast
  then show ?thesis using assms(2) by auto
qed

lemma grounded_moves:
  assumes "okst s" and m: "moves K s s'" and g: "grounded s L"
  shows "grounded s' L"
proof -
  have "\<exists>v m. kv s' k = Some (v, m) \<and> n \<le> m \<and> (m = n \<longrightarrow> v = w) \<and> becomes k w v"
    if saw: "Saw k w n \<in> L" for k w n
  proof -
    obtain v m where v: "kv s k = Some (v, m)" "n \<le> m" "m = n \<longrightarrow> v = w" "becomes k w v"
      using g saw unfolding grounded_def by blast
    have le: "m \<le> lastrev s" using rev_bound [OF assms(1) v(1)] .
    consider "kv s' k = kv s k" | u r where "lastrev s < r" "kv s' k = Some (u, r)" "R K k v u"
      using moves_some [OF m v(1)] by blast
    then show ?thesis
    proof cases
      case 1
      then show ?thesis using v by auto
    next
      case (2 u r)
      then show ?thesis using v le by (auto intro: becomes_step)
    qed
  qed
  then show ?thesis using m g unfolding grounded_def moves_def by blast
qed

lemma moves_cases:
  assumes "moves K s s'" and "kv s' k = Some (v, n)"
  shows "kv s k = Some (v, n) \<or> (kv s k = None \<and> I k v) \<or> (\<exists>w m. kv s k = Some (w, m) \<and> R K k w v)"
proof -
  consider "kv s' k = kv s k"
    | "case kv s k of None \<Rightarrow> I k v | Some (w, _) \<Rightarrow> R K k w v"
    using assms unfolding moves_def by (metis option.inject prod.inject)
  then show ?thesis using assms(2) by cases (auto split: option.splits)
qed

lemma values_moves: "values_ok s \<Longrightarrow> moves K s s' \<Longrightarrow> values_ok s'"
  by (metis (no_types, lifting) keeps moves_cases values_ok_def)

lemma moves_unchanged:
  "unchanged kv lastrev s s' \<Longrightarrow> (\<And>x j. known s x j \<Longrightarrow> known s' x j) \<Longrightarrow> moves K s s'"
  by (simp add: unchanged_def moves_def)

lemma moves_commit:
  assumes "commits kv lastrev k v s s' n" and "\<And>x j. known s x j \<Longrightarrow> known s' x j"
    and "case kv s k of None \<Rightarrow> I k v | Some (w, _) \<Rightarrow> R K k w v"
  shows "moves K s s'"
  using assms by (auto simp: commits_def moves_def)

lemma grounded_insert_put:
  "grounded s' K \<Longrightarrow> commits kv lastrev k v s s' n \<Longrightarrow> grounded s' (insert (Saw k v n) K)"
  by (auto simp: grounded_def commits_def)

lemma grounded_insert_get:
  "grounded s' K \<Longrightarrow> kv s' k = Some (v, n) \<Longrightarrow> grounded s' (insert (Saw k v n) K)"
  by (auto simp: grounded_def)

lemma grounded_insert_ext: "grounded s' K \<Longrightarrow> known s' x j \<Longrightarrow> grounded s' (insert (Got x j) K)"
  by (auto simp: grounded_def)

text \<open>One request of a tree that respects the protocol.\<close>

lemma advance_ok:
  assumes "okst s" and "values_ok s" and "cas_ok I R Q p K" and "grounded s K"
    and "advance H p s = Some (p', s')"
  shows "okst s' \<and> values_ok s' \<and> moves K s s' \<and> (\<exists>K'. cas_ok I R Q p' K' \<and> grounded s' K')"
proof -
  have main: "okst s' \<and> moves K s s' \<and> (\<exists>K'. cas_ok I R Q p' K' \<and> (grounded s' K \<longrightarrow> grounded s' K'))"
  proof (cases p)
    case (KvGet k c)
    then obtain r where o: "op_get H k s = (r, s')" and p': "p' = c r"
      using assms(5) by (auto split: prod.splits)
    have l: "okst s'" "unchanged kv lastrev s s'" "\<forall>v n. r = Inr (v, n) \<longrightarrow> kv s k = Some (v, n)"
      using get_law [OF assms(1) o] by auto
    have "moves K s s'" using moves_unchanged [OF l(2)] known_get [OF assms(1)] o by (metis snd_conv)
    moreover have "grounded s' K \<longrightarrow> grounded s' (learn_get k r K)"
      using l(2,3) grounded_insert_get [of s' K k] by (cases r) (auto simp: unchanged_def)
    ultimately show ?thesis using assms(3) l(1) by (auto simp: KvGet p')
  next
    case (KvCreate k v c)
    then obtain r where o: "op_create H k v s = (r, s')" and p': "p' = c r"
      using assms(5) by (auto split: prod.splits)
    have kn: "\<And>x j. known s x j \<Longrightarrow> known s' x j" using known_create [OF assms(1)] o by (metis snd_conv)
    have i: "I k v" and c: "cas_ok I R Q p' (learn_put k v r K)" using assms(3) by (auto simp: KvCreate p')
    have l: "okst s'" "unchanged kv lastrev s s' \<and> (\<exists>e. r = Inl e) \<or>
        kv s k = None \<and> (\<exists>n. commits kv lastrev k v s s' n \<and> (r = Inr n \<or> (\<exists>e. r = Inl e)))"
      using create_law [OF assms(1) o] by auto
    have "moves K s s'"
      using l(2) kn i by (auto intro: moves_unchanged moves_commit)
    moreover have "grounded s' K \<longrightarrow> grounded s' (learn_put k v r K)"
      using l(2) by (auto intro: grounded_insert_put)
    ultimately show ?thesis using c l(1) by auto
  next
    case (KvUpdate k v m c)
    then obtain r where o: "op_update H k v m s = (r, s')" and p': "p' = c r"
      using assms(5) by (auto split: prod.splits)
    have kn: "\<And>x j. known s x j \<Longrightarrow> known s' x j" using known_update [OF assms(1)] o by (metis snd_conv)
    obtain w where w: "Saw k w m \<in> K" "R K k w v" and c: "cas_ok I R Q p' (learn_put k v r K)"
      using assms(3) by (auto simp: KvUpdate p')
    have l: "okst s'" "unchanged kv lastrev s s' \<and> (\<exists>e. r = Inl e) \<or>
        (\<exists>w. kv s k = Some (w, m)) \<and> (\<exists>n. commits kv lastrev k v s s' n \<and> (r = Inr n \<or> (\<exists>e. r = Inl e)))"
      using update_law [OF assms(1) o] by auto
    have "\<And>u. kv s k = Some (u, m) \<Longrightarrow> u = w" using grounded_current [OF assms(4) w(1)] .
    then have "moves K s s'"
      using l(2) kn w(2) by (auto intro: moves_unchanged moves_commit)
    moreover have "grounded s' K \<longrightarrow> grounded s' (learn_put k v r K)"
      using l(2) by (auto intro: grounded_insert_put)
    ultimately show ?thesis using c l(1) by auto
  next
    case (Ext x c)
    then obtain r where o: "op_ext H x s = (r, s')" and p': "p' = c r"
      using assms(5) by (auto split: prod.splits)
    have l: "okst s'" "unchanged kv lastrev s s'" "\<forall>j. r = Inr j \<longrightarrow> known s' x j"
      using ext_law [OF assms(1) o] by auto
    have "moves K s s'" using moves_unchanged [OF l(2)] known_ext [OF assms(1)] o by (metis snd_conv)
    moreover have "grounded s' K \<longrightarrow> grounded s' (learn_ext x r K)"
      using l(3) by (cases r) (auto intro: grounded_insert_ext)
    ultimately show ?thesis using assms(3) l(1) by (auto simp: Ext p')
  qed (use assms(5) in auto)
  then show ?thesis using grounded_moves [OF assms(1) _ assms(4)] values_moves [OF assms(2)] by blast
qed

text \<open>
  The invariant of a configuration: replica \<open>i\<close> will write only what the protocol permits and
  will end with its postcondition \<open>Q i\<close>.
\<close>

definition cfg_ok :: "(nat \<Rightarrow> 'c \<Rightarrow> 'x knowledge \<Rightarrow> bool) \<Rightarrow> 's \<times> ('x, 'c) prog list \<Rightarrow> bool" where
  "cfg_ok Q = (\<lambda>(s, ps). okst s \<and> values_ok s \<and>
     (\<forall>i < length ps. \<exists>K. cas_ok I R (Q i) (ps ! i) K \<and> grounded s K))"

lemma step_ok:
  assumes "step H (s, ps) (s', ps')" and "cfg_ok Q (s, ps)"
  shows "cfg_ok Q (s', ps') \<and> (\<exists>K. grounded s K \<and> moves K s s')"
  using assms(1)
proof (cases rule: step.cases)
  case (step_at i p')
  obtain K where K: "cas_ok I R (Q i) (ps ! i) K" "grounded s K"
    using assms(2) step_at by (auto simp: cfg_ok_def)
  have st: "okst s" "values_ok s" using assms(2) by (auto simp: cfg_ok_def)
  obtain K' where ok: "okst s'" "values_ok s'" "moves K s s'" "cas_ok I R (Q i) p' K'" "grounded s' K'"
    using advance_ok [OF st K step_at(3)] by auto
  have "\<exists>K. cas_ok I R (Q j) (ps[i := p'] ! j) K \<and> grounded s' K" if "j < length ps" for j
  proof (cases "j = i")
    case True
    then show ?thesis using ok(4,5) that by auto
  next
    case False
    obtain L where "cas_ok I R (Q j) (ps ! j) L" "grounded s L"
      using assms(2) \<open>j < length ps\<close> by (auto simp: cfg_ok_def)
    then show ?thesis using grounded_moves [OF st(1) ok(3)] False by auto
  qed
  then show ?thesis using ok K(2) step_at by (auto simp: cfg_ok_def)
qed

lemma reaches_ok:
  assumes "reaches H (s, ps) (s', ps')" and "cfg_ok Q (s, ps)"
  shows "cfg_ok Q (s', ps')"
  using assms
  by (induction "(s', ps')" arbitrary: s' ps' rule: reaches.induct) (auto dest: step_ok)

text \<open>Stored values only ever change by the protocol, and never disappear.\<close>

lemma step_becomes:
  assumes "step H (s, ps) (s', ps')" and "cfg_ok Q (s, ps)" and "kv s k = Some (w, n)"
  shows "\<exists>v m. kv s' k = Some (v, m) \<and> becomes k w v"
proof -
  obtain K where "moves K s s'" using step_ok [OF assms(1,2)] by blast
  then have "kv s' k = kv s k \<or> (\<exists>v n. kv s' k = Some (v, n) \<and> R K k w v)"
    using moves_some [OF _ assms(3)] by blast
  then show ?thesis using assms(3) by (auto intro: becomes_step [OF becomes_refl])
qed

lemma reaches_becomes:
  assumes "reaches H (s, ps) (s', ps')" and "cfg_ok Q (s, ps)" and "kv s k = Some (w, n)"
  shows "\<exists>v m. kv s' k = Some (v, m) \<and> becomes k w v"
  using assms(1)
proof (induction "(s', ps')" arbitrary: s' ps' rule: reaches.induct)
  case reaches_refl
  then show ?case using assms(3) by auto
next
  case (reaches_step d s' ps')
  obtain t qs where d: "d = (t, qs)" by (cases d)
  obtain u m where u: "kv t k = Some (u, m)" "becomes k w u" using reaches_step(2) d by blast
  have "cfg_ok Q (t, qs)" using reaches_ok [OF _ assms(2)] reaches_step(1) d by blast
  then obtain v m' where "kv s' k = Some (v, m')" "becomes k u v"
    using step_becomes [OF _ _ u(1)] reaches_step(3) d by blast
  then show ?case using u(2) by (auto intro: becomes_trans)
qed

text \<open>A replica that has returned satisfies its postcondition, over knowledge grounded now.\<close>

lemma returned:
  assumes "reaches H (s, ps) (s', ps')" and "cfg_ok Q (s, ps)"
    and "i < length ps'" and "ps' ! i = Ret a"
  shows "\<exists>K. Q i a K \<and> grounded s' K"
  using reaches_ok [OF assms(1,2)] assms(3,4) by (fastforce simp: cfg_ok_def)

lemma initial_ok:
  assumes "okst s" and "values_ok s" and "\<And>i. i < length ps \<Longrightarrow> cas_ok I R (Q i) (ps ! i) {}"
  shows "cfg_ok Q (s, ps)"
  using assms by (auto simp: cfg_ok_def intro: exI [of _ "{}"])

end

declare cas_ok.simps(3-6) [simp del]

end
