(* ===== verification/Catalog_KV.thy ===== *)
theory Catalog_KV
  imports Effects
begin

text \<open>
  The recommendation catalog, \<open>src/recommendationservice/catalog_kv.py\<close>: versioned product and
  snapshot records and the active-product index, all kept in one revisioned bucket by
  compare-and-swap loops that any number of replicas run concurrently. The definitions are effect
  trees over the store contract of the module's docstring (\<open>get\<close>, \<open>create\<close>, \<open>update\<close>, and \<open>keys\<close> at
  startup); stored documents are JSON values, so that a record written by anybody is covered.
\<close>

section \<open>Requests beyond the bucket\<close>

text \<open>\<open>store.keys()\<close>, \<open>random.random()\<close> and \<open>asyncio.sleep(seconds)\<close>.\<close>

datatype cat_eff = Keys | RandomUnit | Sleep pyfloat

section \<open>Records\<close>

record catalog_event =
  catalog_revision :: int
  source_event_id :: string
  source_version :: int

record product_record = catalog_event +
  product_id :: string
  product_version :: int
  removed :: bool

record snapshot_record = catalog_event +
  product_count :: int
  checksum :: string

definition product_doc :: "product_record \<Rightarrow> json" where
  "product_doc r = JObj
     [(''product_id'', JStr (product_id r)), (''product_version'', JInt (product_version r)),
      (''catalog_revision'', JInt (catalog_revision r)), (''removed'', JBool (removed r)),
      (''source_event_id'', JStr (source_event_id r)), (''source_version'', JInt (source_version r))]"

definition snapshot_doc :: "snapshot_record \<Rightarrow> json" where
  "snapshot_doc r = JObj
     [(''catalog_revision'', JInt (catalog_revision r)), (''product_count'', JInt (product_count r)),
      (''checksum'', JStr (checksum r)), (''source_event_id'', JStr (source_event_id r)),
      (''source_version'', JInt (source_version r))]"

definition index_doc :: "string list \<Rightarrow> json" where
  "index_doc ids = JObj [(''product_ids'', JList (map JStr ids))]"

section \<open>Keys\<close>

definition CATALOG_INDEX_KEY :: string where
  "CATALOG_INDEX_KEY = ''catalog-products''"

definition product_key :: "string \<Rightarrow> string result" where
  "product_key pid =
     (if pid = [] \<or> list_ex (\<lambda>c. c \<in> set pid) (''.*> /'' @ [char_of (92::nat)])
      then raise ValueError ''product ID cannot be represented as a KV key''
      else Inr (''product.'' @ pid))"

section \<open>Operations\<close>

definition backoff :: "nat \<Rightarrow> (cat_eff, unit) prog" where
  "backoff attempt =
     Ext RandomUnit (\<lambda>r. lift (rbind r py_float) (\<lambda>u.
       Ext (Sleep (f_add (Fin (1 / 4000 * 2 ^ min attempt 6)) (f_scale (1 / 1000) u)))
         (\<lambda>r. lift r (\<lambda>_. Ret ()))))"

text \<open>\<open>for key in await store.keys()\<close>: the answer is a list of strings.\<close>

fun key_list :: "json \<Rightarrow> string list result" where
  "key_list (JList xs) = rmap (\<lambda>x. case x of JStr s \<Rightarrow> Inr s | _ \<Rightarrow> raise AttributeError ''startswith'') xs"
| "key_list _ = raise TypeError ''not iterable''"

fun active_ids :: "string list \<Rightarrow> string list \<Rightarrow> (cat_eff, string list) prog" where
  "active_ids [] ids = Ret ids"
| "active_ids (key # ks) ids =
     (if \<not> startswith key ''product.'' then active_ids ks ids
      else KvGet key (\<lambda>r. case r of
          Inl e \<Rightarrow> if exn_cls e = CatalogNotFound then active_ids ks ids else Raise e
        | Inr (doc, _) \<Rightarrow>
            lift (jget doc ''product_id'' (JStr [])) (\<lambda>p.
            lift (jget doc ''removed'' (JBool False)) (\<lambda>gone.
              if py_str p \<noteq> [] \<and> \<not> truthy gone then active_ids ks (ids @ [py_str p])
              else active_ids ks ids))))"

definition ensure_catalog_index :: "(cat_eff, string) prog" where
  "ensure_catalog_index =
     KvGet CATALOG_INDEX_KEY (\<lambda>r. case r of
       Inr _ \<Rightarrow> Ret ''existing''
     | Inl e \<Rightarrow>
         if exn_cls e = CatalogNotFound then
           Ext Keys (\<lambda>r. lift (rbind r key_list) (\<lambda>ks.
             bindp (active_ids ks []) (\<lambda>ids.
               KvCreate CATALOG_INDEX_KEY (index_doc (sorted_set ids)) (\<lambda>r. case r of
                 Inr _ \<Rightarrow> Ret ''created''
               | Inl e \<Rightarrow> if exn_cls e = CatalogConflict then Ret ''existing'' else Raise e))))
         else Raise e)"

text \<open>
  The compare-and-swap loop that \<open>apply_product\<close> and \<open>apply_snapshot\<close> share: up to \<open>n\<close> further
  attempts to store \<open>doc\<close> under \<open>key\<close> unless the current document already comes from the same
  event or carries the incoming version or a later one in \<open>field\<close>. \<open>None\<close>: attempts exhausted.
\<close>

fun cas_loop ::
  "string \<Rightarrow> json \<Rightarrow> string \<Rightarrow> string \<Rightarrow> int \<Rightarrow> nat \<Rightarrow> nat \<Rightarrow> (cat_eff, string option) prog" where
  "cas_loop key doc event field incoming attempt 0 = Ret None"
| "cas_loop key doc event field incoming attempt (Suc n) =
     KvGet key (\<lambda>r. case r of
       Inl e \<Rightarrow>
         if exn_cls e = CatalogNotFound then
           KvCreate key doc (\<lambda>r. case r of
             Inr _ \<Rightarrow> Ret (Some ''created'')
           | Inl e \<Rightarrow>
               if exn_cls e = CatalogConflict
               then bindp (backoff attempt) (\<lambda>_. cas_loop key doc event field incoming (Suc attempt) n)
               else Raise e)
         else Raise e
     | Inr (current, revision) \<Rightarrow>
         lift (jget current ''source_event_id'' JNull) (\<lambda>sid.
           if sid = JStr event then Ret (Some ''duplicate'')
           else lift (rbind (jget current field (JInt 0)) py_int) (\<lambda>version.
             if incoming \<le> version then Ret (Some ''stale'')
             else KvUpdate key doc revision (\<lambda>r. case r of
               Inr _ \<Rightarrow> Ret (Some ''updated'')
             | Inl e \<Rightarrow>
                 if exn_cls e = CatalogConflict
                 then bindp (backoff attempt) (\<lambda>_. cas_loop key doc event field incoming (Suc attempt) n)
                 else Raise e))))"

text \<open>\<open>{str(candidate) for candidate in current.get("product_ids", []) if str(candidate)}\<close>.\<close>

fun iterate :: "json \<Rightarrow> json list result" where
  "iterate (JList xs) = Inr xs"
| "iterate (JStr s) = Inr (map (\<lambda>c. JStr [c]) s)"
| "iterate (JObj d) = Inr (map (JStr \<circ> fst) d)"
| "iterate _ = raise TypeError ''not iterable''"

definition index_ids :: "json \<Rightarrow> string list result" where
  "index_ids doc =
     rbind (jget doc ''product_ids'' (JList [])) (\<lambda>v.
     rbind (iterate v) (\<lambda>xs. Inr (filter (\<lambda>s. s \<noteq> []) (map py_str xs))))"

fun reconcile_loop :: "string \<Rightarrow> bool \<Rightarrow> nat \<Rightarrow> nat \<Rightarrow> (cat_eff, unit) prog" where
  "reconcile_loop pid gone attempt 0 =
     Raise (Exn CatalogConflict ''catalog product-index CAS retry limit reached'')"
| "reconcile_loop pid gone attempt (Suc n) =
     KvGet CATALOG_INDEX_KEY (\<lambda>r. case r of
       Inl e \<Rightarrow>
         if exn_cls e = CatalogNotFound then
           KvCreate CATALOG_INDEX_KEY (index_doc (if gone then [] else [pid])) (\<lambda>r. case r of
             Inr _ \<Rightarrow> Ret ()
           | Inl e \<Rightarrow>
               if exn_cls e = CatalogConflict
               then bindp (backoff attempt) (\<lambda>_. reconcile_loop pid gone (Suc attempt) n)
               else Raise e)
         else Raise e
     | Inr (current, revision) \<Rightarrow>
         lift (index_ids current) (\<lambda>prior.
           let ids = (if gone then removeAll pid prior else List.insert pid prior)
           in if set ids = set prior then Ret ()
              else KvUpdate CATALOG_INDEX_KEY (index_doc (sorted_set ids)) revision (\<lambda>r. case r of
                Inr _ \<Rightarrow> Ret ()
              | Inl e \<Rightarrow>
                  if exn_cls e = CatalogConflict
                  then bindp (backoff attempt) (\<lambda>_. reconcile_loop pid gone (Suc attempt) n)
                  else Raise e)))"

definition reconcile_catalog_index :: "string \<Rightarrow> nat \<Rightarrow> (cat_eff, unit) prog" where
  "reconcile_catalog_index key max_attempts =
     KvGet key (\<lambda>r. case r of
       Inl e \<Rightarrow> if exn_cls e = CatalogNotFound then Ret () else Raise e
     | Inr (doc, _) \<Rightarrow>
         lift (jget doc ''product_id'' (JStr [])) (\<lambda>p.
           if py_str p = [] then Raise (Exn ValueError ''stored catalog product has no identity'')
           else lift (jget doc ''removed'' (JBool False)) (\<lambda>gone.
             reconcile_loop (py_str p) (truthy gone) 0 max_attempts)))"

definition apply_product :: "product_record \<Rightarrow> nat \<Rightarrow> (cat_eff, string) prog" where
  "apply_product rec max_attempts =
     lift (product_key (product_id rec)) (\<lambda>key.
       if product_version rec \<le> 0 \<or> source_event_id rec = []
       then Raise (Exn ValueError ''catalog record is missing version or source event identity'')
       else bindp
         (cas_loop key (product_doc rec) (source_event_id rec) ''product_version''
            (product_version rec) 0 max_attempts)
         (\<lambda>outcome. case outcome of
            None \<Rightarrow> Raise (Exn CatalogConflict (''catalog CAS retry limit reached for '' @ key))
          | Some o' \<Rightarrow> bindp (reconcile_catalog_index key max_attempts) (\<lambda>_. Ret o')))"

definition apply_snapshot :: "snapshot_record \<Rightarrow> nat \<Rightarrow> (cat_eff, string) prog" where
  "apply_snapshot rec max_attempts =
     (if catalog_revision rec \<le> 0 \<or> source_event_id rec = []
      then Raise (Exn ValueError ''catalog snapshot is missing revision or source event identity'')
      else bindp
        (cas_loop ''catalog'' (snapshot_doc rec) (source_event_id rec) ''catalog_revision''
           (catalog_revision rec) 0 max_attempts)
        (\<lambda>outcome. case outcome of
           None \<Rightarrow> Raise (Exn CatalogConflict ''catalog snapshot CAS retry limit reached'')
         | Some o' \<Rightarrow> Ret o'))"

definition catalog_snapshot :: "(cat_eff, string list \<times> int) prog" where
  "catalog_snapshot =
     KvGet ''catalog'' (\<lambda>r. case r of
       Inl e \<Rightarrow>
         if exn_cls e = CatalogNotFound
         then Raise (Exn CatalogNotReady ''catalog snapshot has not completed'') else Raise e
     | Inr (snapshot, _) \<Rightarrow>
         lift (rbind (jget snapshot ''catalog_revision'' (JInt 0)) py_int) (\<lambda>revision.
           if revision \<le> 0 then Raise (Exn CatalogNotReady ''catalog snapshot revision is invalid'')
           else KvGet CATALOG_INDEX_KEY (\<lambda>r. case r of
             Inl e \<Rightarrow>
               if exn_cls e = CatalogNotFound
               then Raise (Exn CatalogNotReady ''catalog product index is unavailable'') else Raise e
           | Inr (index, _) \<Rightarrow>
               lift (index_ids index) (\<lambda>ids.
               lift (rbind (jget snapshot ''product_count'' (JInt 0)) py_int) (\<lambda>count.
                 if int (length (sorted_set ids)) < count
                 then Raise (Exn CatalogNotReady ''catalog product index is incomplete'')
                 else Ret (sorted_set ids, revision))))))"

text \<open>
  \<open>random.Random(seed).sample(available, count)\<close> is the parameter \<open>sample\<close>; what the standard
  library documents of it is the locale \<open>sampler\<close>.
\<close>

definition select_candidates ::
  "(string \<Rightarrow> string list \<Rightarrow> nat \<Rightarrow> string list) \<Rightarrow> string list \<Rightarrow> int \<Rightarrow> string set \<Rightarrow> string \<Rightarrow> string \<Rightarrow> nat
   \<Rightarrow> string list \<times> int" where
  "select_candidates sample ids revision excluded seed model limit =
     (let available = filter (\<lambda>p. p \<notin> excluded) ids;
          count = min limit (length available);
          deterministic_seed = join [char_of (0::nat)] [seed, model, show_int revision]
      in (sample deterministic_seed available count, revision))"

definition catalog_candidates ::
  "(string \<Rightarrow> string list \<Rightarrow> nat \<Rightarrow> string list) \<Rightarrow> string set \<Rightarrow> string \<Rightarrow> string \<Rightarrow> nat
   \<Rightarrow> (cat_eff, string list \<times> int) prog" where
  "catalog_candidates sample excluded seed model limit =
     bindp catalog_snapshot (\<lambda>(ids, revision).
       Ret (select_candidates sample ids revision excluded seed model limit))"

section \<open>The write protocol\<close>

text \<open>
  \<open>doc_version\<close> is the version a document carries (\<open>int(current.get(field, 0))\<close>). The catalog's
  protocol: a product or snapshot document is only ever replaced by one with a larger version;
  the index document is unconstrained.
\<close>

definition doc_version :: "string \<Rightarrow> json \<Rightarrow> int result" where
  "doc_version field doc = rbind (jget doc field (JInt 0)) py_int"

definition version_field :: "string \<Rightarrow> string" where
  "version_field k = (if k = ''catalog'' then ''catalog_revision'' else ''product_version'')"

definition catalog_R :: "cat_eff knowledge \<Rightarrow> string \<Rightarrow> json \<Rightarrow> json \<Rightarrow> bool" where
  "catalog_R K k w v \<longleftrightarrow>
     (k \<noteq> CATALOG_INDEX_KEY \<longrightarrow>
        (\<exists>a b. doc_version (version_field k) w = Inr a \<and> doc_version (version_field k) v = Inr b \<and> a < b))"

abbreviation catalog_I :: "string \<Rightarrow> json \<Rightarrow> bool" where
  "catalog_I \<equiv> \<lambda>_ _. True"

text \<open>The shape of the documents the service itself stores, by key.\<close>

definition catalog_doc :: "string \<Rightarrow> json \<Rightarrow> bool" where
  "catalog_doc k v \<longleftrightarrow>
     (startswith k ''product.'' \<longrightarrow> (\<exists>r. v = product_doc r \<and> product_key (product_id r) = Inr k)) \<and>
     (k = CATALOG_INDEX_KEY \<longrightarrow> (\<exists>ids. v = index_doc ids \<and> [] \<notin> set ids)) \<and>
     (k = ''catalog'' \<longrightarrow> (\<exists>r. v = snapshot_doc r))"

abbreviation anything :: "'a \<Rightarrow> cat_eff knowledge \<Rightarrow> bool" where
  "anything \<equiv> \<lambda>_ _. True"

text \<open>What a finished loop knows: a document that carries the incoming version or a later one was
  stored under the key, or the current document already came from the same event.\<close>

definition covers :: "string \<Rightarrow> string \<Rightarrow> int \<Rightarrow> cat_eff knowledge \<Rightarrow> bool" where
  "covers key field incoming K \<longleftrightarrow>
     (\<exists>w n a. Saw key w n \<in> K \<and> doc_version field w = Inr a \<and> incoming \<le> a)"

definition same_event :: "string \<Rightarrow> string \<Rightarrow> cat_eff knowledge \<Rightarrow> bool" where
  "same_event key event K \<longleftrightarrow>
     (\<exists>w n. Saw key w n \<in> K \<and> jget w ''source_event_id'' JNull = Inr (JStr event))"

definition loop_post :: "string \<Rightarrow> string \<Rightarrow> string \<Rightarrow> int \<Rightarrow> string option \<Rightarrow> cat_eff knowledge \<Rightarrow> bool" where
  "loop_post key event field incoming outcome K \<longleftrightarrow>
     (case outcome of
        None \<Rightarrow> True
      | Some o' \<Rightarrow> if o' = ''duplicate'' then same_event key event K
                  else o' \<in> {''created'', ''updated'', ''stale''} \<and> covers key field incoming K)"

lemma covers_mono: "covers key field v K \<Longrightarrow> K \<subseteq> K' \<Longrightarrow> covers key field v K'"
  unfolding covers_def by blast

lemma same_event_mono: "same_event key e K \<Longrightarrow> K \<subseteq> K' \<Longrightarrow> same_event key e K'"
  unfolding same_event_def by blast

lemma loop_post_mono: "loop_post key e f v oc K \<Longrightarrow> K \<subseteq> K' \<Longrightarrow> loop_post key e f v oc K'"
  unfolding loop_post_def
  by (auto split: option.splits if_splits intro: covers_mono same_event_mono)

lemma product_key_eq: "product_key pid = Inr key \<Longrightarrow> key = ''product.'' @ pid \<and> pid \<noteq> []"
  by (auto simp: product_key_def split: if_splits)

lemma product_key_fresh:
  "product_key pid = Inr key \<Longrightarrow> key \<noteq> CATALOG_INDEX_KEY"
  "product_key pid = Inr key \<Longrightarrow> key \<noteq> ''catalog''"
  "product_key pid = Inr key \<Longrightarrow> version_field key = ''product_version''"
  by (auto simp: CATALOG_INDEX_KEY_def version_field_def dest!: product_key_eq)

lemma catalog_key_facts [simp]:
  "''catalog'' \<noteq> CATALOG_INDEX_KEY" "CATALOG_INDEX_KEY \<noteq> ''catalog''"
  "version_field ''catalog'' = ''catalog_revision''"
  "\<not> startswith CATALOG_INDEX_KEY ''product.''" "\<not> startswith ''catalog'' ''product.''"
  by (simp_all add: CATALOG_INDEX_KEY_def version_field_def startswith_def)

lemma doc_version_product: "doc_version ''product_version'' (product_doc r) = Inr (product_version r)"
  by (simp add: doc_version_def product_doc_def dict_get_def)

lemma doc_version_snapshot: "doc_version ''catalog_revision'' (snapshot_doc r) = Inr (catalog_revision r)"
  by (simp add: doc_version_def snapshot_doc_def dict_get_def)

definition product_post :: "product_record \<Rightarrow> string \<Rightarrow> cat_eff knowledge \<Rightarrow> bool" where
  "product_post r out K \<longleftrightarrow>
     (\<exists>key. product_key (product_id r) = Inr key \<and>
        loop_post key (source_event_id r) ''product_version'' (product_version r) (Some out) K)"

definition snapshot_post :: "snapshot_record \<Rightarrow> string \<Rightarrow> cat_eff knowledge \<Rightarrow> bool" where
  "snapshot_post r out K \<longleftrightarrow>
     loop_post ''catalog'' (source_event_id r) ''catalog_revision'' (catalog_revision r) (Some out) K"

text \<open>
  A protocol \<open>I\<close>, \<open>R\<close> the catalog's operations respect: it admits the documents the service
  creates, and the replacement of a document by one with a larger version.
\<close>

locale catalog_rules =
  fixes I :: "string \<Rightarrow> json \<Rightarrow> bool"
    and R :: "cat_eff knowledge \<Rightarrow> string \<Rightarrow> json \<Rightarrow> json \<Rightarrow> bool"
  assumes I_product: "product_key (product_id r) = Inr k \<Longrightarrow> I k (product_doc r)"
    and I_snapshot: "I ''catalog'' (snapshot_doc sr)"
    and I_index: "[] \<notin> set ids \<Longrightarrow> I CATALOG_INDEX_KEY (index_doc ids)"
    and R_newer: "k \<noteq> CATALOG_INDEX_KEY \<Longrightarrow> doc_version (version_field k) w = Inr a \<Longrightarrow>
          doc_version (version_field k) v = Inr b \<Longrightarrow> a < b \<Longrightarrow> I k v \<Longrightarrow> R K k w v"
    and R_index: "I CATALOG_INDEX_KEY v \<Longrightarrow> R K CATALOG_INDEX_KEY w v"
begin

lemma backoff_ok: "cas_ok I R anything (backoff a) K"
  by (auto simp: backoff_def intro!: cas_intros)

lemma retry_ok [cas_intros]:
  "(\<And>K'. cas_ok I R Q p K') \<Longrightarrow> cas_ok I R Q (bindp (backoff a) (\<lambda>_. p)) K"
  by (rule cas_ok_bindp [OF backoff_ok]) auto

lemma cas_loop_ok:
  assumes "key \<noteq> CATALOG_INDEX_KEY" and "field = version_field key"
    and "doc_version field doc = Inr incoming" and "I key doc"
  shows "cas_ok I R (loop_post key event field incoming)
           (cas_loop key doc event field incoming attempt n) K"
proof (induction n arbitrary: attempt K)
  case 0
  then show ?case by (simp add: loop_post_def)
next
  case (Suc n)
  have wrote: "loop_post key event field incoming (Some out) (insert (Saw key doc m) L)"
    if "out \<in> {''created'', ''updated''}" for m L out
    using that assms(3) by (auto simp: loop_post_def covers_def)
  have stale: "loop_post key event field incoming (Some ''stale'') (insert (Saw key w m) L)"
    if "jget w field (JInt 0) = Inr j" "py_int j = Inr a" "incoming \<le> a" for w m L a j
    using that by (auto simp: loop_post_def covers_def doc_version_def)
  have dup: "loop_post key event field incoming (Some ''duplicate'') (insert (Saw key w m) L)"
    if "jget w ''source_event_id'' JNull = Inr (JStr event)" for w m L
    using that by (auto simp: loop_post_def same_event_def)
  have R: "R L key w doc"
    if "jget w field (JInt 0) = Inr j" "py_int j = Inr a" "\<not> incoming \<le> a" for w a L j
    using that assms by (intro R_newer [of key w a doc incoming]) (auto simp: doc_version_def)
  show ?case by (auto intro!: cas_intros Suc wrote dup assms(4)) (blast intro: stale R)+
qed

lemma index_ids_nonempty: "index_ids doc = Inr ids \<Longrightarrow> [] \<notin> set ids"
  by (auto simp: index_ids_def)

lemma reconcile_loop_ok: "pid \<noteq> [] \<Longrightarrow> cas_ok I R anything (reconcile_loop pid gone attempt n) K"
proof (induction n arbitrary: attempt K gone)
  case 0
  then show ?case by simp
next
  case (Suc n)
  show ?case
    using Suc.prems by (auto simp: Let_def index_ids_nonempty intro!: cas_intros Suc I_index R_index)
qed

lemma reconcile_ok: "cas_ok I R anything (reconcile_catalog_index key n) K"
  by (auto simp: reconcile_catalog_index_def intro!: cas_intros reconcile_loop_ok)

lemma apply_product_ok: "cas_ok I R (product_post r) (apply_product r n) K"
proof -
  have "cas_ok I R (product_post r)
      (bindp (cas_loop key (product_doc r) (source_event_id r) ''product_version'' (product_version r) 0 n)
         (\<lambda>outcome. case outcome of
            None \<Rightarrow> Raise (Exn CatalogConflict (''catalog CAS retry limit reached for '' @ key))
          | Some o' \<Rightarrow> bindp (reconcile_catalog_index key n) (\<lambda>_. Ret o'))) K"
    if key: "product_key (product_id r) = Inr key" for key
  proof (rule cas_ok_bindp)
    show "cas_ok I R (loop_post key (source_event_id r) ''product_version'' (product_version r))
      (cas_loop key (product_doc r) (source_event_id r) ''product_version'' (product_version r) 0 n) K"
      using key by (intro cas_loop_ok) (simp_all add: product_key_fresh doc_version_product I_product)
  next
    fix oc K'
    assume post: "loop_post key (source_event_id r) ''product_version'' (product_version r) oc K'"
    show "cas_ok I R (product_post r)
        (case oc of None \<Rightarrow> Raise (Exn CatalogConflict (''catalog CAS retry limit reached for '' @ key))
          | Some o' \<Rightarrow> bindp (reconcile_catalog_index key n) (\<lambda>_. Ret o')) K'"
      using post key
      by (cases oc) (auto simp: product_post_def intro!: cas_ok_bindp [OF reconcile_ok] intro: loop_post_mono)
  qed
  then show ?thesis by (auto simp: apply_product_def intro!: cas_ok_lift)
qed

lemma apply_snapshot_ok: "cas_ok I R (snapshot_post r) (apply_snapshot r n) K"
proof -
  have c: "cas_ok I R (loop_post ''catalog'' (source_event_id r) ''catalog_revision'' (catalog_revision r))
      (cas_loop ''catalog'' (snapshot_doc r) (source_event_id r) ''catalog_revision'' (catalog_revision r) 0 n) K"
    by (rule cas_loop_ok) (simp_all add: doc_version_snapshot I_snapshot)
  show ?thesis unfolding apply_snapshot_def
    by (auto intro!: cas_ok_bindp [OF c] simp: snapshot_post_def split: option.splits)
qed

lemma active_ids_ok:
  "[] \<notin> set ids \<Longrightarrow> cas_ok I R (\<lambda>out _. [] \<notin> set out) (active_ids ks ids) K"
  by (induction ks ids arbitrary: K rule: active_ids.induct) (auto intro!: cas_intros)

lemma ensure_ok: "cas_ok I R anything ensure_catalog_index K"
  by (auto simp: ensure_catalog_index_def intro!: cas_intros cas_ok_bindp [OF active_ids_ok] I_index)

lemma snapshot_read_ok: "cas_ok I R anything catalog_snapshot K"
  by (auto simp: catalog_snapshot_def Let_def intro!: cas_intros)

end

text \<open>The two protocols: versions only grow (from any stored documents), and documents keep the
  shape the service gives them.\<close>

interpretation growing: catalog_rules catalog_I catalog_R
  by unfold_locales (auto simp: catalog_R_def)

interpretation shaped: catalog_rules catalog_doc "\<lambda>K k w v. catalog_doc k v"
  by unfold_locales (auto simp: catalog_doc_def product_key_fresh)

section \<open>Replicas\<close>

text \<open>What a replica of the service may have in progress, and its tree; reads of the catalog
  return only that they happened.\<close>

datatype catalog_call =
    ApplyProduct product_record
  | ApplySnapshot snapshot_record
  | EnsureIndex
  | ReadCatalog

primrec call_prog :: "nat \<Rightarrow> catalog_call \<Rightarrow> (cat_eff, string) prog" where
  "call_prog n (ApplyProduct r) = apply_product r n"
| "call_prog n (ApplySnapshot r) = apply_snapshot r n"
| "call_prog n EnsureIndex = ensure_catalog_index"
| "call_prog n ReadCatalog = bindp catalog_snapshot (\<lambda>_. Ret ''read'')"

primrec call_post :: "catalog_call \<Rightarrow> string \<Rightarrow> cat_eff knowledge \<Rightarrow> bool" where
  "call_post (ApplyProduct r) = product_post r"
| "call_post (ApplySnapshot r) = snapshot_post r"
| "call_post EnsureIndex = anything"
| "call_post ReadCatalog = anything"

context catalog_rules
begin

lemma call_prog_ok: "cas_ok I R (call_post c) (call_prog n c) K"
  by (cases c)
    (auto simp: apply_product_ok apply_snapshot_ok ensure_ok intro!: cas_ok_bindp [OF snapshot_read_ok])

end

definition newer_or_same :: "string \<Rightarrow> json \<Rightarrow> json \<Rightarrow> bool" where
  "newer_or_same field w v \<longleftrightarrow>
     v = w \<or> (\<exists>a b. doc_version field w = Inr a \<and> doc_version field v = Inr b \<and> a < b)"

lemma newer_or_same_trans:
  "newer_or_same f u w \<Longrightarrow> newer_or_same f w v \<Longrightarrow> newer_or_same f u v"
  unfolding newer_or_same_def by force

lemma catalog_R_closure:
  "(\<lambda>w v. \<exists>K. catalog_R K k w v)\<^sup>*\<^sup>* w v \<Longrightarrow> k \<noteq> CATALOG_INDEX_KEY \<Longrightarrow> newer_or_same (version_field k) w v"
proof (induction rule: rtranclp_induct)
  case base
  then show ?case by (simp add: newer_or_same_def)
next
  case (step u v)
  then have "newer_or_same (version_field k) u v" by (auto simp: newer_or_same_def catalog_R_def)
  then show ?case using step newer_or_same_trans by blast
qed

text \<open>The catalog's protocol over any bucket that keeps its promises.\<close>

lemma catalog_protocol:
  "cas_bucket H kv lastrev known okst \<Longrightarrow> cas_protocol H kv lastrev known okst catalog_I catalog_R"
  by (intro cas_protocol.intro cas_protocol_axioms.intro) simp_all

lemma catalog_start:
  assumes "cas_bucket H kv lastrev known okst" and "okst s"
  shows "cas_protocol.cfg_ok kv known okst catalog_I catalog_R (\<lambda>i. call_post (calls ! i))
           (s, map (call_prog n) calls)"
  by (rule cas_protocol.initial_ok [OF catalog_protocol [OF assms(1)] assms(2)])
    (simp_all add: cas_protocol.values_ok_def [OF catalog_protocol [OF assms(1)]] growing.call_prog_ok)

lemma catalog_becomes:
  assumes "cas_bucket H kv lastrev known okst" and "okst s0"
    and "reaches H (s0, map (call_prog n) calls) (s, ps)" and "reaches H (s, ps) (s', ps')"
    and "kv s k = Some (w, m)" and "k \<noteq> CATALOG_INDEX_KEY"
  shows "\<exists>v m'. kv s' k = Some (v, m') \<and> newer_or_same (version_field k) w v"
proof -
  note P = catalog_protocol [OF assms(1)]
  have "cas_protocol.cfg_ok kv known okst catalog_I catalog_R (\<lambda>i. call_post (calls ! i)) (s, ps)"
    by (rule cas_protocol.reaches_ok [OF P assms(3) catalog_start [OF assms(1,2)]])
  then obtain v m' where "kv s' k = Some (v, m')" and b: "cas_protocol.becomes catalog_R k w v"
    using cas_protocol.reaches_becomes [OF P assms(4) _ assms(5)] by blast
  then show ?thesis
    using catalog_R_closure [OF _ assms(6)] unfolding cas_protocol.becomes_def [OF P] by blast
qed

lemma catalog_returned:
  assumes "cas_bucket H kv lastrev known okst" and "okst s0"
    and "reaches H (s0, map (call_prog n) calls) (s, ps)"
    and "i < length ps" and "ps ! i = Ret out"
  shows "\<exists>K. call_post (calls ! i) out K \<and>
           (\<forall>k w m. Saw k w m \<in> K \<longrightarrow> k \<noteq> CATALOG_INDEX_KEY \<longrightarrow>
              (\<exists>v m'. kv s k = Some (v, m') \<and> newer_or_same (version_field k) w v))"
proof -
  note P = catalog_protocol [OF assms(1)]
  obtain K where K: "call_post (calls ! i) out K" "cas_protocol.grounded kv known catalog_R s K"
    using cas_protocol.returned [OF P assms(3) catalog_start [OF assms(1,2)] assms(4,5)] by blast
  have "\<exists>v m'. kv s k = Some (v, m') \<and> newer_or_same (version_field k) w v"
    if "Saw k w m \<in> K" "k \<noteq> CATALOG_INDEX_KEY" for k w m
    using cas_protocol.grounded_Saw [OF P K(2) that(1)] catalog_R_closure [OF _ that(2)]
    unfolding cas_protocol.becomes_def [OF P] by blast
  then show ?thesis using K(1) by blast
qed

lemma catalog_shape_protocol:
  "cas_bucket H kv lastrev known okst \<Longrightarrow>
     cas_protocol H kv lastrev known okst catalog_doc (\<lambda>K k w v. catalog_doc k v)"
  by (intro cas_protocol.intro cas_protocol_axioms.intro) simp_all

lemma catalog_shape:
  assumes "cas_bucket H kv lastrev known okst" and "okst s0"
    and "\<And>k v n. kv s0 k = Some (v, n) \<Longrightarrow> catalog_doc k v"
    and "reaches H (s0, map (call_prog n) calls) (s, ps)"
    and "kv s k = Some (v, m)"
  shows "catalog_doc k v"
proof -
  note P = catalog_shape_protocol [OF assms(1)]
  have "cas_protocol.cfg_ok kv known okst catalog_doc (\<lambda>K k w v. catalog_doc k v)
          (\<lambda>i. call_post (calls ! i)) (s0, map (call_prog n) calls)"
    by (rule cas_protocol.initial_ok [OF P assms(2)])
      (simp_all add: cas_protocol.values_ok_def [OF P] assms(3) shaped.call_prog_ok)
  then have "cas_protocol.cfg_ok kv known okst catalog_doc (\<lambda>K k w v. catalog_doc k v)
          (\<lambda>i. call_post (calls ! i)) (s, ps)"
    using cas_protocol.reaches_ok [OF P assms(4)] by blast
  then show ?thesis
    using assms(5) unfolding cas_protocol.cfg_ok_def [OF P] cas_protocol.values_ok_def [OF P] by auto
qed

end
