(* ===== verification/Catalog_Seq.thy ===== *)
theory Catalog_Seq
  imports Catalog_KV
begin

text \<open>
  The catalog operations run alone on a bucket without faults: what each returns and stores,
  stated against an abstract catalog (a map from product ids to their winning records and the
  set of active ids), and the in-memory bucket \<open>MemoryCatalog\<close> of
  \<open>src/recommendationservice/catalog_kv_test.py\<close>, on which the interfaces are interpreted.
\<close>

section \<open>The abstract catalog\<close>

definition spec_outcome :: "product_record option \<Rightarrow> product_record \<Rightarrow> string" where
  "spec_outcome old rec = (case old of
       None \<Rightarrow> ''created''
     | Some r \<Rightarrow>
         if source_event_id r = source_event_id rec then ''duplicate''
         else if product_version rec \<le> product_version r then ''stale''
         else ''updated'')"

definition winner :: "product_record option \<Rightarrow> product_record \<Rightarrow> product_record" where
  "winner old rec = (case old of
       None \<Rightarrow> rec
     | Some r \<Rightarrow> if spec_outcome old rec = ''updated'' then rec else r)"

definition spec_active :: "product_record \<Rightarrow> string set \<Rightarrow> string set" where
  "spec_active r A = (if removed r then A - {product_id r} else insert (product_id r) A)"

text \<open>The stored documents represent the products \<open>P\<close> and the active ids \<open>A\<close>.\<close>

definition represents ::
  "(string \<Rightarrow> (json \<times> nat) option) \<Rightarrow> (string \<Rightarrow> product_record option) \<Rightarrow> string set \<Rightarrow> bool" where
  "represents m P A \<longleftrightarrow>
     (\<forall>pid key. product_key pid = Inr key \<longrightarrow>
        (case P pid of
           None \<Rightarrow> m key = None
         | Some r \<Rightarrow> product_id r = pid \<and> (\<exists>n. m key = Some (product_doc r, n)))) \<and>
     (case m CATALOG_INDEX_KEY of
        None \<Rightarrow> A = {}
      | Some (d, n) \<Rightarrow> \<exists>ids. index_ids d = Inr ids \<and> set ids = A)"

section \<open>Sequential behaviour\<close>

lemma index_ids_index_doc: "[] \<notin> set ids \<Longrightarrow> index_ids (index_doc ids) = Inr ids"
  by (auto simp: index_ids_def index_doc_def dict_get_def filter_id_conv comp_def)

lemma represents_at:
  "represents m P A \<Longrightarrow> product_key pid = Inr key \<Longrightarrow>
     (case P pid of None \<Rightarrow> m key = None
      | Some r \<Rightarrow> product_id r = pid \<and> (\<exists>n. m key = Some (product_doc r, n)))"
  unfolding represents_def by blast

locale catalog_store = reliable_bucket H kv lastrev known okst CatalogNotFound CatalogConflict
  for H :: "(cat_eff, 's) kv_ops"
    and kv :: "'s \<Rightarrow> string \<Rightarrow> (json \<times> nat) option"
    and lastrev :: "'s \<Rightarrow> nat"
    and known :: "'s \<Rightarrow> cat_eff \<Rightarrow> json \<Rightarrow> bool"
    and okst :: "'s \<Rightarrow> bool"
begin

lemma run_cas_loop_absent:
  assumes "okst s" and "kv s key = None"
  obtains m s' where "run (cas_loop key doc event field incoming a (Suc n)) H s = (Inr (Some ''created''), s')"
    "kv s' = (kv s)(key \<mapsto> (doc, m))" "okst s'"
proof -
  obtain e s1 where g: "op_get H key s = (Inl (Exn CatalogNotFound e), s1)" "kv s1 = kv s" "okst s1"
    using reliable_get_none [OF assms] .
  obtain m s' where c: "op_create H key doc s1 = (Inr m, s')" "kv s' = (kv s1)(key \<mapsto> (doc, m))" "okst s'"
    using reliable_create_none [OF g(3)] g(2) assms(2) by metis
  show thesis by (rule that [of s' m]) (use g c in simp_all)
qed

lemma run_cas_loop_present:
  assumes "okst s" and "kv s key = Some (product_doc r, m)"
  obtains s' where
    "run (cas_loop key (product_doc rec) (source_event_id rec) ''product_version'' (product_version rec) a (Suc n)) H s
       = (Inr (Some (spec_outcome (Some r) rec)), s')"
    "\<exists>m. kv s' = (kv s)(key \<mapsto> (product_doc (winner (Some r) rec), m))" "okst s'"
proof -
  obtain s1 where g: "op_get H key s = (Inr (product_doc r, m), s1)" "kv s1 = kv s" "okst s1"
    using reliable_get_some [OF assms] .
  obtain n' s2 where u: "op_update H key (product_doc rec) m s1 = (Inr n', s2)"
      "kv s2 = (kv s1)(key \<mapsto> (product_doc rec, n'))" "okst s2"
    using reliable_update_some [OF g(3)] g(2) assms(2) by metis
  have id: "jget (product_doc r) ''source_event_id'' JNull = Inr (JStr (source_event_id r))"
    and ver: "jget (product_doc r) ''product_version'' (JInt 0) = Inr (JInt (product_version r))"
    by (simp_all add: product_doc_def dict_get_def)
  have same: "kv s1 = (kv s)(key \<mapsto> (product_doc r, m))" using g(2) assms(2) by (auto simp: fun_eq_iff)
  show thesis
  proof (cases "spec_outcome (Some r) rec = ''updated''")
    case True
    then show thesis using that [of s2] g u id ver
      by (auto simp: spec_outcome_def winner_def split: if_splits)
  next
    case False
    then have w: "winner (Some r) rec = r" by (simp add: winner_def)
    have "\<exists>m. kv s1 = (kv s)(key \<mapsto> (product_doc (winner (Some r) rec), m))"
      unfolding w using same by blast
    then show thesis using that [of s1] g(1,3) id ver False
      by (auto simp: spec_outcome_def split: if_splits)
  qed
qed

lemma run_reconcile_loop:
  assumes "okst s" and "pid \<noteq> []"
    and "case kv s CATALOG_INDEX_KEY of None \<Rightarrow> A = {} | Some (d, n) \<Rightarrow> \<exists>ids. index_ids d = Inr ids \<and> set ids = A"
  obtains s' d m ids where "run (reconcile_loop pid gone a (Suc n)) H s = (Inr (), s')"
    "kv s' = (kv s)(CATALOG_INDEX_KEY \<mapsto> (d, m))" "okst s'"
    "index_ids d = Inr ids" "set ids = (if gone then A - {pid} else insert pid A)"
proof (cases "kv s CATALOG_INDEX_KEY")
  case None
  obtain e s1 where g: "op_get H CATALOG_INDEX_KEY s = (Inl (Exn CatalogNotFound e), s1)" "kv s1 = kv s" "okst s1"
    using reliable_get_none [OF assms(1) None] .
  let ?d = "index_doc (if gone then [] else [pid])"
  obtain m s' where c: "op_create H CATALOG_INDEX_KEY ?d s1 = (Inr m, s')"
      "kv s' = (kv s1)(CATALOG_INDEX_KEY \<mapsto> (?d, m))" "okst s'"
    using reliable_create_none [OF g(3)] g(2) None by metis
  have "index_ids ?d = Inr (if gone then [] else [pid])"
    using assms(2) by (simp add: index_ids_index_doc)
  then show thesis using that [of s' ?d m] g c assms(3) None by auto
next
  case (Some dn)
  obtain d m where dn: "dn = (d, m)" by (cases dn)
  obtain ids where ids: "index_ids d = Inr ids" "set ids = A" using assms(3) Some dn by auto
  obtain s1 where g: "op_get H CATALOG_INDEX_KEY s = (Inr (d, m), s1)" "kv s1 = kv s" "okst s1"
    using reliable_get_some [OF assms(1)] Some dn by metis
  let ?new = "if gone then removeAll pid ids else List.insert pid ids"
  let ?d = "index_doc (sorted_set ?new)"
  obtain m' s2 where u: "op_update H CATALOG_INDEX_KEY ?d m s1 = (Inr m', s2)"
      "kv s2 = (kv s1)(CATALOG_INDEX_KEY \<mapsto> (?d, m'))" "okst s2"
    using reliable_update_some [OF g(3)] g(2) Some dn by metis
  have "[] \<notin> set ids" using ids(1) by (auto simp: index_ids_def)
  then have "[] \<notin> set (sorted_set ?new)" using assms(2) by auto
  then have new: "index_ids ?d = Inr (sorted_set ?new)" by (rule index_ids_index_doc)
  have setnew: "set ?new = (if gone then A - {pid} else insert pid A)" using ids(2) by auto
  have same: "kv s1 = (kv s)(CATALOG_INDEX_KEY \<mapsto> (d, m))" using g(2) Some dn by (auto simp: fun_eq_iff)
  show thesis
  proof (cases "set ?new = set ids")
    case True
    have "run (reconcile_loop pid gone a (Suc n)) H s = (Inr (), s1)"
      using True g(1) ids(1) by (simp add: Let_def split del: if_split)
    moreover have "set ids = (if gone then A - {pid} else insert pid A)" using True setnew by simp
    ultimately show thesis using that [OF _ same g(3) ids(1)] by blast
  next
    case False
    have "run (reconcile_loop pid gone a (Suc n)) H s = (Inr (), s2)"
      using False g(1) u(1) ids(1) by (simp add: Let_def split del: if_split)
    moreover have "set (sorted_set ?new) = (if gone then A - {pid} else insert pid A)" using setnew by simp
    ultimately show thesis using that [of s2 ?d m' "sorted_set ?new"] g(2) u(2,3) new by simp
  qed
qed

lemma run_cas_loop_product:
  assumes "okst s" and "represents (kv s) P A" and "product_key (product_id rec) = Inr key"
  obtains s' where
    "run (cas_loop key (product_doc rec) (source_event_id rec) ''product_version'' (product_version rec) a (Suc n)) H s
       = (Inr (Some (spec_outcome (P (product_id rec)) rec)), s')"
    "\<exists>m. kv s' = (kv s)(key \<mapsto> (product_doc (winner (P (product_id rec)) rec), m))" "okst s'"
proof (cases "P (product_id rec)")
  case None
  then have none: "kv s key = None" using represents_at [OF assms(2,3)] by simp
  show thesis
    by (rule run_cas_loop_absent [OF assms(1) none])
      (use that None in \<open>auto simp: spec_outcome_def winner_def\<close>)
next
  case (Some r)
  then obtain m where m: "kv s key = Some (product_doc r, m)"
    using represents_at [OF assms(2,3)] by auto
  obtain s' where "run (cas_loop key (product_doc rec) (source_event_id rec) ''product_version'' (product_version rec) a (Suc n)) H s
       = (Inr (Some (spec_outcome (Some r) rec)), s')"
    "\<exists>m. kv s' = (kv s)(key \<mapsto> (product_doc (winner (Some r) rec), m))" "okst s'"
    by (rule run_cas_loop_present [OF assms(1) m])
  then show thesis using that Some by simp
qed

lemma winner_id:
  "represents m P A \<Longrightarrow> product_key (product_id rec) = Inr key \<Longrightarrow>
     product_id (winner (P (product_id rec)) rec) = product_id rec"
  using represents_at [of m P A "product_id rec" key] by (auto simp: winner_def split: option.splits)

lemma represents_update:
  assumes "represents m P A" and "product_key pid = Inr key" and "product_id r = pid"
    and "index_ids d = Inr ids" and "set ids = B"
    and "m' = m(key \<mapsto> (product_doc r, n), CATALOG_INDEX_KEY \<mapsto> (d, k))"
  shows "represents m' (P(pid \<mapsto> r)) B"
proof -
  have key: "key = ''product.'' @ pid" "key \<noteq> CATALOG_INDEX_KEY"
    using product_key_eq [OF assms(2)] product_key_fresh(1) [OF assms(2)] by auto
  have "case (P(pid \<mapsto> r)) q of None \<Rightarrow> m' k' = None
      | Some r \<Rightarrow> product_id r = q \<and> (\<exists>n. m' k' = Some (product_doc r, n))"
    if q: "product_key q = Inr k'" for q k'
  proof (cases "q = pid")
    case True
    then show ?thesis using assms(2,3,6) key q by simp
  next
    case False
    then have "k' \<noteq> key" "k' \<noteq> CATALOG_INDEX_KEY"
      using key(1) product_key_eq [OF q] product_key_fresh(1) [OF q] by auto
    then have "m' k' = m k'" using assms(6) by simp
    then show ?thesis using False represents_at [OF assms(1) q] by (simp split: option.splits)
  qed
  moreover have "m' CATALOG_INDEX_KEY = Some (d, k)" using assms(6) by simp
  ultimately show ?thesis using assms(4,5) unfolding represents_def by simp
qed

lemma run_apply_product:
  assumes "okst s" and "represents (kv s) P A" and "product_key (product_id rec) = Inr key"
    and "0 < product_version rec" and "source_event_id rec \<noteq> []" and "0 < n"
  shows "\<exists>s'. run (apply_product rec n) H s = (Inr (spec_outcome (P (product_id rec)) rec), s') \<and> okst s' \<and>
           represents (kv s') (P(product_id rec \<mapsto> winner (P (product_id rec)) rec))
             (spec_active (winner (P (product_id rec)) rec) A)"
proof -
  let ?pid = "product_id rec" let ?w = "winner (P (product_id rec)) rec"
  obtain n' where n: "n = Suc n'" using assms(6) by (cases n) auto
  have wid: "product_id ?w = ?pid" using winner_id [OF assms(2,3)] .
  obtain s1 m where l: "run (cas_loop key (product_doc rec) (source_event_id rec) ''product_version'' (product_version rec) 0 n) H s
       = (Inr (Some (spec_outcome (P ?pid) rec)), s1)"
     and k1: "kv s1 = (kv s)(key \<mapsto> (product_doc ?w, m))" and o1: "okst s1"
    using run_cas_loop_product [OF assms(1-3)] n by metis
  obtain s2 where g: "op_get H key s1 = (Inr (product_doc ?w, m), s2)" "kv s2 = kv s1" "okst s2"
    using reliable_get_some [OF o1, of key "(product_doc ?w, m)"] k1 by auto
  have idx: "case kv s2 CATALOG_INDEX_KEY of None \<Rightarrow> A = {} | Some (d, n) \<Rightarrow> \<exists>ids. index_ids d = Inr ids \<and> set ids = A"
    using assms(2) g(2) k1 product_key_fresh(1) [OF assms(3)] by (simp add: represents_def)
  have ne: "?pid \<noteq> []" using product_key_eq [OF assms(3)] by simp
  obtain s3 d k ids where r: "run (reconcile_loop ?pid (removed ?w) 0 (Suc n')) H s2 = (Inr (), s3)"
     "kv s3 = (kv s2)(CATALOG_INDEX_KEY \<mapsto> (d, k))" "okst s3"
     "index_ids d = Inr ids" "set ids = (if removed ?w then A - {?pid} else insert ?pid A)"
    by (rule run_reconcile_loop [OF g(3) ne idx])
  have doc: "jget (product_doc ?w) ''product_id'' (JStr []) = Inr (JStr ?pid)"
    "jget (product_doc ?w) ''removed'' (JBool False) = Inr (JBool (removed ?w))"
    using wid by (simp_all add: product_doc_def dict_get_def)
  have "run (reconcile_catalog_index key n) H s1 = (Inr (), s3)"
    using g(1) doc ne r(1) n by (simp add: reconcile_catalog_index_def del: reconcile_loop.simps)
  then have "run (apply_product rec n) H s = (Inr (spec_outcome (P ?pid) rec), s3)"
    using assms(3-5) l by (simp add: apply_product_def run_bindp)
  moreover have "represents (kv s3) (P(?pid \<mapsto> ?w)) (spec_active ?w A)"
    by (rule represents_update [OF assms(2,3) wid r(4)])
      (use r(2,5) g(2) k1 wid in \<open>auto simp: spec_active_def\<close>)
  ultimately show ?thesis using r(3) by blast
qed

end

text \<open>A sequence of product events, applied one after the other.\<close>

primrec apply_all :: "product_record list \<Rightarrow> nat \<Rightarrow> (cat_eff, 's) kv_ops \<Rightarrow> 's \<Rightarrow> 's" where
  "apply_all [] n H s = s"
| "apply_all (r # rs) n H s = apply_all rs n H (snd (run (apply_product r n) H s))"

definition valid_event :: "product_record \<Rightarrow> bool" where
  "valid_event r \<longleftrightarrow> (\<exists>key. product_key (product_id r) = Inr key) \<and> 0 < product_version r \<and> source_event_id r \<noteq> []"

text \<open>An event id identifies an event.\<close>

definition event_ids_identify :: "product_record list \<Rightarrow> bool" where
  "event_ids_identify es \<longleftrightarrow>
     (\<forall>a \<in> set es. \<forall>b \<in> set es. source_event_id a = source_event_id b \<longrightarrow> a = b)"

text \<open>The catalog that a set of events determines: the newest event of each product, and the
  products whose newest event is not a removal.\<close>

definition newest :: "product_record set \<Rightarrow> string \<Rightarrow> product_record \<Rightarrow> bool" where
  "newest E pid r \<longleftrightarrow> r \<in> E \<and> product_id r = pid \<and>
     (\<forall>e \<in> E. product_id e = pid \<longrightarrow> product_version e \<le> product_version r)"

definition determined :: "product_record set \<Rightarrow> (string \<Rightarrow> product_record option) \<Rightarrow> string set \<Rightarrow> bool" where
  "determined E P A \<longleftrightarrow>
     (\<forall>pid. case P pid of None \<Rightarrow> (\<forall>e \<in> E. product_id e \<noteq> pid) | Some r \<Rightarrow> newest E pid r) \<and>
     A = {pid. \<exists>r. P pid = Some r \<and> \<not> removed r}"

lemma newest_winner:
  assumes "case old of None \<Rightarrow> (\<forall>e \<in> E. product_id e \<noteq> product_id rec) | Some r \<Rightarrow> newest E (product_id rec) r"
    and "\<And>e. e \<in> E \<Longrightarrow> source_event_id e = source_event_id rec \<Longrightarrow> e = rec"
  shows "newest (insert rec E) (product_id rec) (winner old rec)"
proof (cases old)
  case None
  then show ?thesis using assms(1) by (auto simp: winner_def newest_def)
next
  case (Some r)
  have r: "newest E (product_id rec) r" using assms(1) Some by simp
  then have "source_event_id r = source_event_id rec \<Longrightarrow> r = rec" using assms(2) by (simp add: newest_def)
  then show ?thesis using r
    by (auto simp: Some winner_def spec_outcome_def newest_def split: if_splits intro: order_trans)
qed

lemma determined_step:
  assumes "determined E P A" and "\<And>e. e \<in> E \<Longrightarrow> source_event_id e = source_event_id rec \<Longrightarrow> e = rec"
  shows "determined (insert rec E) (P(product_id rec \<mapsto> winner (P (product_id rec)) rec))
           (spec_active (winner (P (product_id rec)) rec) A)"
proof -
  let ?pid = "product_id rec" let ?w = "winner (P (product_id rec)) rec"
  have at: "case P pid of None \<Rightarrow> (\<forall>e \<in> E. product_id e \<noteq> pid) | Some r \<Rightarrow> newest E pid r" for pid
    using assms(1) unfolding determined_def by blast
  have w: "newest (insert rec E) ?pid ?w" using newest_winner [OF at assms(2)] .
  have "case (P(?pid \<mapsto> ?w)) pid of
      None \<Rightarrow> (\<forall>e \<in> insert rec E. product_id e \<noteq> pid) | Some r \<Rightarrow> newest (insert rec E) pid r" for pid
    using w at [of pid] by (auto simp: newest_def split: option.splits)
  moreover have "spec_active ?w A = {pid. \<exists>r. (P(?pid \<mapsto> ?w)) pid = Some r \<and> \<not> removed r}"
    using assms(1) w by (auto simp: determined_def spec_active_def newest_def)
  ultimately show ?thesis unfolding determined_def by blast
qed

context catalog_store
begin

lemma run_apply_all:
  assumes "okst s" and "represents (kv s) P A" and "determined E P A" and "0 < n"
    and "list_all valid_event es"
    and "\<And>a b. a \<in> E \<union> set es \<Longrightarrow> b \<in> E \<union> set es \<Longrightarrow>
             source_event_id a = source_event_id b \<Longrightarrow> a = b"
  shows "\<exists>P' A'. okst (apply_all es n H s) \<and> represents (kv (apply_all es n H s)) P' A' \<and>
           determined (E \<union> set es) P' A'"
  using assms
proof (induction es arbitrary: s P A E)
  case Nil
  then show ?case by auto
next
  case (Cons rec es)
  have v: "\<exists>key. product_key (product_id rec) = Inr key" "0 < product_version rec" "source_event_id rec \<noteq> []"
    using Cons.prems(5) by (simp_all add: valid_event_def)
  then obtain key where key: "product_key (product_id rec) = Inr key" by blast
  obtain s' where run: "run (apply_product rec n) H s = (Inr (spec_outcome (P (product_id rec)) rec), s')"
      "okst s'" "represents (kv s') (P(product_id rec \<mapsto> winner (P (product_id rec)) rec))
             (spec_active (winner (P (product_id rec)) rec) A)"
    using run_apply_product [OF Cons.prems(1,2) key v(2,3) Cons.prems(4)] by (elim exE conjE) (rule that)
  have det: "determined (insert rec E) (P(product_id rec \<mapsto> winner (P (product_id rec)) rec))
             (spec_active (winner (P (product_id rec)) rec) A)"
    by (rule determined_step [OF Cons.prems(3)]) (use Cons.prems(6) in auto)
  have all: "list_all valid_event es" using Cons.prems(5) by simp
  have ids: "a = b" if "a \<in> insert rec E \<union> set es" "b \<in> insert rec E \<union> set es"
      "source_event_id a = source_event_id b" for a b
    using Cons.prems(6) that by auto
  have E: "E \<union> set (rec # es) = insert rec E \<union> set es" by auto
  show ?case unfolding E apply_all.simps run(1) snd_conv
    by (rule Cons.IH [OF run(2,3) det Cons.prems(4) all ids])
qed

text \<open>Reading back the catalog when a snapshot and an index are stored.\<close>

lemma run_catalog_snapshot:
  assumes "okst s" and "kv s ''catalog'' = Some (snapshot_doc sr, n1)"
    and "kv s CATALOG_INDEX_KEY = Some (d, n2)" and "index_ids d = Inr ids"
  shows "\<exists>s'. run catalog_snapshot H s =
           ((if catalog_revision sr \<le> 0
             then raise CatalogNotReady ''catalog snapshot revision is invalid''
             else if int (card (set ids)) < product_count sr
             then raise CatalogNotReady ''catalog product index is incomplete''
             else Inr (sorted_set ids, catalog_revision sr)), s') \<and> kv s' = kv s \<and> okst s'"
proof -
  obtain s1 where g: "op_get H ''catalog'' s = (Inr (snapshot_doc sr, n1), s1)" "kv s1 = kv s" "okst s1"
    using reliable_get_some [OF assms(1,2)] .
  have "kv s1 CATALOG_INDEX_KEY = Some (d, n2)" using g(2) assms(3) by simp
  then obtain s2 where h: "op_get H CATALOG_INDEX_KEY s1 = (Inr (d, n2), s2)" "kv s2 = kv s1" "okst s2"
    using reliable_get_some [OF g(3)] by blast
  have len: "length (sorted_set ids) = card (set ids)"
    using distinct_card [of "sorted_set ids"] by simp
  have doc: "jget (snapshot_doc sr) ''catalog_revision'' (JInt 0) = Inr (JInt (catalog_revision sr))"
    "jget (snapshot_doc sr) ''product_count'' (JInt 0) = Inr (JInt (product_count sr))"
    by (simp_all add: snapshot_doc_def dict_get_def)
  show ?thesis using g h doc assms(4) by (simp add: catalog_snapshot_def len)
qed

end

section \<open>The in-memory bucket\<close>

record mem_catalog =
  m_values :: "(string \<times> json \<times> nat) list"
  m_revision :: nat

definition mem_put :: "string \<Rightarrow> json \<Rightarrow> mem_catalog \<Rightarrow> nat result \<times> mem_catalog" where
  "mem_put k v s =
     (let n = Suc (m_revision s)
      in (Inr n, s\<lparr>m_revision := n, m_values := AList.update k (v, n) (m_values s)\<rparr>))"

definition mem_get :: "string \<Rightarrow> mem_catalog \<Rightarrow> (json \<times> nat) result \<times> mem_catalog" where
  "mem_get k s = (case map_of (m_values s) k of
      None \<Rightarrow> (raise CatalogNotFound k, s) | Some vn \<Rightarrow> (Inr vn, s))"

definition mem_create :: "string \<Rightarrow> json \<Rightarrow> mem_catalog \<Rightarrow> nat result \<times> mem_catalog" where
  "mem_create k v s =
     (if map_of (m_values s) k \<noteq> None then (raise CatalogConflict k, s) else mem_put k v s)"

definition mem_update :: "string \<Rightarrow> json \<Rightarrow> nat \<Rightarrow> mem_catalog \<Rightarrow> nat result \<times> mem_catalog" where
  "mem_update k v m s =
     (case map_of (m_values s) k of
        None \<Rightarrow> (raise CatalogConflict k, s)
      | Some (w, n) \<Rightarrow> if n \<noteq> m then (raise CatalogConflict k, s) else mem_put k v s)"

fun mem_ext :: "cat_eff \<Rightarrow> mem_catalog \<Rightarrow> json result \<times> mem_catalog" where
  "mem_ext Keys s = (Inr (JList (map JStr (sort (map fst (m_values s))))), s)"
| "mem_ext RandomUnit s = (Inr (JFloat (Fin (1 / 2))), s)"
| "mem_ext (Sleep t) s = (Inr JNull, s)"

definition mem_ops :: "(cat_eff, mem_catalog) kv_ops" where
  "mem_ops = \<lparr>op_get = mem_get, op_create = mem_create, op_update = mem_update, op_ext = mem_ext\<rparr>"

definition mem_kv :: "mem_catalog \<Rightarrow> string \<Rightarrow> (json \<times> nat) option" where
  "mem_kv s = map_of (m_values s)"

definition mem_ok :: "mem_catalog \<Rightarrow> bool" where
  "mem_ok s \<longleftrightarrow> (\<forall>(k, v, n) \<in> set (m_values s). n \<le> m_revision s)"

definition mem_empty :: mem_catalog where
  "mem_empty = \<lparr>m_values = [], m_revision = 0\<rparr>"

lemma set_alist_update: "set (AList.update k x al) \<subseteq> insert (k, x) (set al)"
  by (induction al) auto

lemma mem_put_facts:
  assumes "mem_ok s" and "mem_put k v s = (r, s')"
  shows "mem_ok s' \<and> (\<exists>n. commits mem_kv m_revision k v s s' n \<and> r = Inr n)"
proof -
  have "set (AList.update k (v, Suc (m_revision s)) (m_values s)) \<subseteq>
      insert (k, v, Suc (m_revision s)) (set (m_values s))"
    by (rule set_alist_update)
  then have "mem_ok s'" using assms by (fastforce simp: mem_put_def mem_ok_def Let_def)
  then show ?thesis
    using assms(2) by (auto simp: mem_put_def commits_def mem_kv_def update_conv' Let_def)
qed

lemma mem_rev_bound: "mem_ok s \<Longrightarrow> mem_kv s k = Some (v, n) \<Longrightarrow> n \<le> m_revision s"
  by (auto simp: mem_ok_def mem_kv_def dest!: map_of_SomeD)

interpretation mem: catalog_store mem_ops mem_kv m_revision "\<lambda>_ _ _. True" mem_ok
proof
  fix s k r s'
  assume "mem_ok s" "op_get mem_ops k s = (r, s')"
  then show "mem_ok s' \<and> unchanged mem_kv m_revision s s' \<and> (\<forall>v n. r = Inr (v, n) \<longrightarrow> mem_kv s k = Some (v, n))"
    by (auto simp: mem_ops_def mem_get_def unchanged_def mem_kv_def split: option.splits)
next
  fix s k v r s'
  assume "mem_ok s" "op_create mem_ops k v s = (r, s')"
  then show "mem_ok s' \<and> (unchanged mem_kv m_revision s s' \<and> (\<exists>e. r = Inl e) \<or>
                 mem_kv s k = None \<and> (\<exists>n. commits mem_kv m_revision k v s s' n \<and> (r = Inr n \<or> (\<exists>e. r = Inl e))))"
    using mem_put_facts [of s k v r s']
    by (auto simp: mem_ops_def mem_create_def unchanged_def mem_kv_def split: if_splits)
next
  fix s k v m r s'
  assume "mem_ok s" "op_update mem_ops k v m s = (r, s')"
  then show "mem_ok s' \<and> (unchanged mem_kv m_revision s s' \<and> (\<exists>e. r = Inl e) \<or>
                 (\<exists>w. mem_kv s k = Some (w, m)) \<and>
                 (\<exists>n. commits mem_kv m_revision k v s s' n \<and> (r = Inr n \<or> (\<exists>e. r = Inl e))))"
    using mem_put_facts [of s k v r s']
    by (auto simp: mem_ops_def mem_update_def unchanged_def mem_kv_def split: if_splits option.splits)
next
  fix s x r s'
  assume "mem_ok s" "op_ext mem_ops x s = (r, s')"
  then show "mem_ok s' \<and> unchanged mem_kv m_revision s s' \<and> (\<forall>j. r = Inr j \<longrightarrow> True)"
    by (cases x) (auto simp: mem_ops_def unchanged_def)
next
  fix s k v n
  assume "mem_ok s" "mem_kv s k = Some (v, n)"
  then show "n \<le> m_revision s" by (rule mem_rev_bound)
qed (auto simp: mem_ops_def mem_get_def mem_create_def mem_update_def mem_put_def mem_kv_def Let_def
     split: option.splits)

lemma mem_bucket: "cas_bucket mem_ops mem_kv m_revision (\<lambda>_ _ _. True) mem_ok"
  by (rule mem.cas_bucket_axioms)

lemma mem_store: "catalog_store mem_ops mem_kv m_revision (\<lambda>_ _ _. True) mem_ok"
  by (rule mem.catalog_store_axioms)

lemma mem_empty_ok [simp]: "mem_ok mem_empty"
  by (simp add: mem_ok_def mem_empty_def)

end
