(* ===== verification/Catalog_Props.thy ===== *)
theory Catalog_Props
  imports Catalog_Seq "HOL-Library.Multiset"
begin

text \<open>
  The properties of the recommendation service's catalog: what every interleaving of replicas
  keeps, what a call alone does, and the schedule in which the shared product index ends up
  disagreeing with the products.
\<close>

section \<open>Listing the keys, and sampling\<close>

text \<open>\<open>p\<close> is a product stored under \<open>k\<close> that has not been removed.\<close>

definition live_at :: "(string \<Rightarrow> (json \<times> nat) option) \<Rightarrow> string \<Rightarrow> string \<Rightarrow> bool" where
  "live_at m k p \<longleftrightarrow>
     (\<exists>r n. m k = Some (product_doc r, n) \<and> product_key (product_id r) = Inr k \<and> \<not> removed r \<and> p = product_id r)"

definition well_shaped :: "(string \<Rightarrow> (json \<times> nat) option) \<Rightarrow> bool" where
  "well_shaped m \<longleftrightarrow> (\<forall>k v n. m k = Some (v, n) \<longrightarrow> catalog_doc k v)"

text \<open>A fault-free store whose \<open>keys()\<close> lists exactly the keys that have a value.\<close>

locale catalog_listing = catalog_store H kv lastrev known okst
  for H :: "(cat_eff, 's) kv_ops"
    and kv :: "'s \<Rightarrow> string \<Rightarrow> (json \<times> nat) option"
    and lastrev :: "'s \<Rightarrow> nat"
    and known :: "'s \<Rightarrow> cat_eff \<Rightarrow> json \<Rightarrow> bool"
    and okst :: "'s \<Rightarrow> bool" +
  assumes keys_law: "okst s \<Longrightarrow> \<exists>ks. fst (op_ext H Keys s) = Inr (JList (map JStr ks)) \<and> set ks = dom (kv s)"
begin

lemma run_active_ids:
  assumes "okst s" and "set ks \<subseteq> dom (kv s)"
    and "well_shaped (kv s)"
  shows "\<exists>s' out. run (active_ids ks ids) H s = (Inr out, s') \<and> kv s' = kv s \<and> okst s' \<and>
           set out = set ids \<union> {p. \<exists>k \<in> set ks. live_at (kv s) k p}"
  using assms
proof (induction ks arbitrary: ids s)
  case Nil
  then show ?case by auto
next
  case (Cons key ks)
  show ?case
  proof (cases "startswith key ''product.''")
    case False
    have no: "product_key p \<noteq> Inr key" for p
      using False product_key_eq [of p key] by (auto simp: startswith_iff)
    then have "\<not> live_at (kv s) key p" for p by (auto simp: live_at_def)
    then show ?thesis using Cons.IH [OF Cons.prems(1) _ Cons.prems(3), of ids] Cons.prems(2) False by auto
  next
    case True
    obtain v n where v: "kv s key = Some (v, n)" using Cons.prems(2) by auto
    obtain r where r: "v = product_doc r" "product_key (product_id r) = Inr key"
      using Cons.prems(3) v True unfolding well_shaped_def catalog_doc_def by blast
    obtain s1 where g: "op_get H key s = (Inr (v, n), s1)" "kv s1 = kv s" "okst s1"
      using reliable_get_some [OF Cons.prems(1) v] .
    let ?ids = "if removed r then ids else ids @ [product_id r]"
    have step: "run (active_ids (key # ks) ids) H s = run (active_ids ks ?ids) H s1"
      using True g(1) r product_key_eq [OF r(2)] by (simp add: product_doc_def dict_get_def)
    obtain s' out where t: "run (active_ids ks ?ids) H s1 = (Inr out, s')" "kv s' = kv s" "okst s'"
        "set out = set ?ids \<union> {p. \<exists>k \<in> set ks. live_at (kv s) k p}"
      using Cons.IH [OF g(3), of ?ids] Cons.prems(2,3) g(2) by auto
    have "live_at (kv s) key p \<longleftrightarrow> \<not> removed r \<and> p = product_id r" for p
      using v r by (auto simp: live_at_def product_doc_def)
    then have "set out = set ids \<union> {p. \<exists>k \<in> set (key # ks). live_at (kv s) k p}" using t(4) by auto
    then show ?thesis using step t by auto
  qed
qed

lemma run_ensure_catalog_index:
  assumes "okst s" and "kv s CATALOG_INDEX_KEY = None"
    and "well_shaped (kv s)"
  shows "\<exists>s' ids m. run ensure_catalog_index H s = (Inr ''created'', s') \<and> okst s' \<and>
           kv s' = (kv s)(CATALOG_INDEX_KEY \<mapsto> (index_doc ids, m)) \<and> sorted ids \<and> distinct ids \<and>
           set ids = {p. \<exists>k. live_at (kv s) k p}"
proof -
  obtain e s1 where g: "op_get H CATALOG_INDEX_KEY s = (Inl (Exn CatalogNotFound e), s1)" "kv s1 = kv s" "okst s1"
    using reliable_get_none [OF assms(1,2)] .
  obtain ks where ks: "fst (op_ext H Keys s1) = Inr (JList (map JStr ks))" "set ks = dom (kv s)"
    using keys_law [OF g(3)] g(2) by auto
  obtain s2 where x: "op_ext H Keys s1 = (Inr (JList (map JStr ks)), s2)" using ks(1) by (metis prod.collapse)
  have x2: "kv s2 = kv s" "okst s2" using reliable_ext [OF g(3) x] g(2) by auto
  have kl: "key_list (JList (map JStr ks)) = Inr ks" by (simp add: rmap_Inr_iff)
  obtain s3 out where a: "run (active_ids ks []) H s2 = (Inr out, s3)" "kv s3 = kv s" "okst s3"
      "set out = {p. \<exists>k \<in> set ks. live_at (kv s) k p}"
    using run_active_ids [OF x2(2), of ks "[]"] x2(1) ks(2) assms(3) by auto
  obtain m s4 where c: "op_create H CATALOG_INDEX_KEY (index_doc (sorted_set out)) s3 = (Inr m, s4)"
      "kv s4 = (kv s3)(CATALOG_INDEX_KEY \<mapsto> (index_doc (sorted_set out), m))" "okst s4"
    using reliable_create_none [OF a(3)] a(2) assms(2) by metis
  have "run ensure_catalog_index H s = (Inr ''created'', s4)"
    using g(1) x kl a(1) c(1) by (simp add: ensure_catalog_index_def run_bindp del: key_list.simps)
  moreover have "set (sorted_set out) = {p. \<exists>k. live_at (kv s) k p}"
    using a(4) ks(2) by (auto simp: live_at_def)
  ultimately show ?thesis using c(2,3) a(2) by (intro exI [of _ s4] exI [of _ "sorted_set out"] exI [of _ m]) simp
qed

end

interpretation meml: catalog_listing mem_ops mem_kv m_revision "\<lambda>_ _ _. True" mem_ok
proof
  fix s :: mem_catalog
  assume "mem_ok s"
  have "fst (op_ext mem_ops Keys s) = Inr (JList (map JStr (sort (map fst (m_values s)))))"
    by (simp add: mem_ops_def)
  moreover have "set (sort (map fst (m_values s))) = dom (mem_kv s)"
    by (simp add: mem_kv_def dom_map_of_conv_image_fst)
  ultimately show "\<exists>ks. fst (op_ext mem_ops Keys s) = Inr (JList (map JStr ks)) \<and> set ks = dom (mem_kv s)"
    by blast
qed

lemma mem_listing: "catalog_listing mem_ops mem_kv m_revision (\<lambda>_ _ _. True) mem_ok"
  by (rule meml.catalog_listing_axioms)

text \<open>\<open>random.Random(seed).sample(population, k)\<close>: \<open>k\<close> elements without replacement, a function of
  the seed and the population.\<close>

locale sampler =
  fixes sample :: "string \<Rightarrow> string list \<Rightarrow> nat \<Rightarrow> string list"
  assumes sample_length: "k \<le> length xs \<Longrightarrow> length (sample seed xs k) = k"
    and sample_subset: "k \<le> length xs \<Longrightarrow> set (sample seed xs k) \<subseteq> set xs"
    and sample_distinct: "k \<le> length xs \<Longrightarrow> distinct xs \<Longrightarrow> distinct (sample seed xs k)"
begin

lemma selected:
  assumes "distinct ids" and "select_candidates sample ids revision excluded seed model limit = (out, rev')"
  shows "rev' = revision \<and> distinct out \<and> set out \<subseteq> set ids - excluded \<and>
         length out = min limit (card (set ids - excluded))"
proof -
  let ?av = "filter (\<lambda>p. p \<notin> excluded) ids"
  have "set ?av = set ids - excluded" by auto
  then have "length ?av = card (set ids - excluded)"
    using distinct_card [of ?av] assms(1) by simp
  then show ?thesis
    using assms sample_length [of "min limit (length ?av)" ?av] sample_subset [of "min limit (length ?av)" ?av]
      sample_distinct [of "min limit (length ?av)" ?av]
    by (auto simp: select_candidates_def Let_def)
qed

end

text \<open>
  The selection loop of \<open>Random.sample\<close>: the drawn element leaves the pool and the last one takes
  its place. \<open>draws seed i\<close> is the \<open>i\<close>-th pseudo-random number of the generator.
\<close>

fun pool_sample_from :: "(nat \<Rightarrow> nat) \<Rightarrow> nat \<Rightarrow> string list \<Rightarrow> nat \<Rightarrow> string list" where
  "pool_sample_from d i pool 0 = []"
| "pool_sample_from d i pool (Suc k) =
     (let j = d i mod length pool
      in pool ! j # pool_sample_from d (Suc i) (butlast (pool[j := last pool])) k)"

definition pool_sample :: "(string \<Rightarrow> nat \<Rightarrow> nat) \<Rightarrow> string \<Rightarrow> string list \<Rightarrow> nat \<Rightarrow> string list" where
  "pool_sample draws seed xs k = pool_sample_from (draws seed) 0 xs k"

lemma mset_pool_remove:
  assumes "j < length pool"
  shows "mset pool = add_mset (pool ! j) (mset (butlast (pool[j := last pool])))"
proof -
  obtain ys y where pool: "pool = ys @ [y]" using assms by (cases pool rule: rev_cases) auto
  show ?thesis
  proof (cases "j = length ys")
    case True
    then show ?thesis by (simp add: pool list_update_append)
  next
    case False
    then have j: "j < length ys" using assms pool by simp
    then show ?thesis by (simp add: pool list_update_append nth_append mset_update)
  qed
qed

lemma pool_sample_from:
  "k \<le> length pool \<Longrightarrow>
     length (pool_sample_from d i pool k) = k \<and> mset (pool_sample_from d i pool k) \<subseteq># mset pool"
proof (induction k arbitrary: i pool)
  case 0
  then show ?case by simp
next
  case (Suc k)
  let ?j = "d i mod length pool"
  have j: "?j < length pool" using Suc.prems by (intro mod_less_divisor) linarith
  have "k \<le> length (butlast (pool[?j := last pool]))" using Suc.prems by simp
  then show ?case using Suc.IH mset_pool_remove [OF j] by (simp add: Let_def)
qed

lemma mset_distinct_sub:
  assumes "mset ys \<subseteq># mset xs" and "distinct xs"
  shows "distinct ys"
proof -
  have "count (mset ys) a = (if a \<in> set ys then 1 else 0)" for a
  proof -
    have "count (mset ys) a \<le> count (mset xs) a" using assms(1) by (rule mset_subset_eq_count)
    also have "\<dots> \<le> 1" using assms(2) by (simp add: distinct_count_atmost_1)
    finally have le: "count (mset ys) a \<le> 1" .
    show ?thesis
    proof (cases "a \<in> set ys")
      case True
      then have "0 < count (mset ys) a" by (simp only: count_greater_zero_iff set_mset_mset)
      then have "count (mset ys) a = 1" using le by linarith
      then show ?thesis using True by simp
    qed (simp add: count_eq_zero_iff)
  qed
  then show ?thesis by (simp only: distinct_count_atmost_1) simp
qed

interpretation pool: sampler "pool_sample draws" for draws
proof
  fix k and xs :: "string list" and seed
  assume k: "k \<le> length xs"
  note P = pool_sample_from [OF k, of "draws seed" 0]
  show "length (pool_sample draws seed xs k) = k" using P by (simp add: pool_sample_def)
  show "set (pool_sample draws seed xs k) \<subseteq> set xs"
    using P set_mset_mono by (force simp: pool_sample_def)
  assume "distinct xs"
  then show "distinct (pool_sample draws seed xs k)"
    using P mset_distinct_sub by (auto simp: pool_sample_def)
qed

lemma pool_sampler: "sampler (pool_sample draws)"
  by (rule pool.sampler_axioms)

section \<open>Properties of every interleaving\<close>

text \<open>A concrete product event for the witnesses, and two replicas that apply events of the same
  product at the same time.\<close>

definition sample_product :: "string \<Rightarrow> int \<Rightarrow> bool \<Rightarrow> product_record" where
  "sample_product event version gone =
     \<lparr>catalog_revision = version, source_event_id = event, source_version = version,
      product_id = ''OLJ'', product_version = version, removed = gone\<rparr>"

abbreviation two_calls :: "catalog_call list" where
  "two_calls \<equiv> [ApplyProduct (sample_product ''e1'' 1 False), ApplyProduct (sample_product ''e2'' 2 True)]"

abbreviation two_replicas :: "(cat_eff, mem_catalog, string) config" where
  "two_replicas \<equiv> (mem_empty, map (call_prog 8) two_calls)"

definition race_middle :: "(cat_eff, mem_catalog, string) config" where
  "race_middle = run_sched mem_ops [0,0,0,1] two_replicas"

definition race_end :: "(cat_eff, mem_catalog, string) config" where
  "race_end = run_sched mem_ops [1,1,1,1,1,1,0,0] race_middle"

lemma race_reaches:
  "reaches mem_ops two_replicas (fst race_middle, snd race_middle)"
  "reaches mem_ops (fst race_middle, snd race_middle) (fst race_end, snd race_end)"
  "reaches mem_ops two_replicas (fst race_end, snd race_end)"
proof -
  show a: "reaches mem_ops two_replicas (fst race_middle, snd race_middle)"
    unfolding prod.collapse race_middle_def by (rule run_sched_reaches)
  show b: "reaches mem_ops (fst race_middle, snd race_middle) (fst race_end, snd race_end)"
    unfolding prod.collapse race_end_def by (rule run_sched_reaches)
  show "reaches mem_ops two_replicas (fst race_end, snd race_end)" using b a by (rule reaches_trans)
qed

text \<open>C1. However many replicas apply product events and snapshots, read the catalog or rebuild its
  index, in any interleaving of their requests and with any failures and retries, a product or
  snapshot document that is stored at some moment is at every later moment either the same
  document or one with a strictly larger version: stored versions never decrease and no document
  disappears.\<close>

theorem catalog_version_monotone:
  assumes "cas_bucket H kv lastrev known okst" and "okst s0"
    and "reaches H (s0, map (call_prog n) calls) (s, ps)" and "reaches H (s, ps) (s', ps')"
    and "kv s k = Some (w, m)" and "k \<noteq> CATALOG_INDEX_KEY"
  shows "\<exists>v m'. kv s' k = Some (v, m') \<and> newer_or_same (version_field k) w v"
  by (rule catalog_becomes [OF assms])

theorem catalog_version_monotone_witness:
  "\<exists>v m'. mem_kv (fst race_end) ''product.OLJ'' = Some (v, m') \<and>
          newer_or_same (version_field ''product.OLJ'') (product_doc (sample_product ''e1'' 1 False)) v"
proof (rule catalog_version_monotone [OF mem_bucket mem_empty_ok race_reaches(1,2)])
  show "mem_kv (fst race_middle) ''product.OLJ'' = Some (product_doc (sample_product ''e1'' 1 False), 1)"
    by code_simp
  show "''product.OLJ'' \<noteq> CATALOG_INDEX_KEY" by code_simp
qed



text \<open>C5. The documents of the bucket keep the shape the readers rely on, in every interleaving: a
  \<open>product.\<close> key holds a complete record of exactly that product, the index key a list of
  non-empty ids and the \<open>catalog\<close> key a complete snapshot record.\<close>

theorem catalog_documents_well_shaped:
  assumes "cas_bucket H kv lastrev known okst" and "okst s0" and "well_shaped (kv s0)"
    and "reaches H (s0, map (call_prog n) calls) (s, ps)"
  shows "well_shaped (kv s)"
  unfolding well_shaped_def
  by (intro allI impI, rule catalog_shape [OF assms(1,2) _ assms(4)])
    (use assms(3) in \<open>auto simp: well_shaped_def\<close>)

theorem catalog_documents_well_shaped_witness: "well_shaped (mem_kv (fst race_end))"
  by (rule catalog_documents_well_shaped [OF mem_bucket mem_empty_ok _ race_reaches(3)])
    (simp add: well_shaped_def mem_kv_def mem_empty_def)


section \<open>Properties of a call alone\<close>

lemma sample_key: "product_key ''OLJ'' = Inr ''product.OLJ''"
  by code_simp

lemma represents_empty: "represents (mem_kv mem_empty) (\<lambda>_. None) {}"
  by (simp add: represents_def mem_kv_def mem_empty_def)

text \<open>C4. \<open>apply_product\<close>, running alone on a bucket without faults, implements one step of the
  abstract catalog: it returns \<open>created\<close>, \<open>duplicate\<close>, \<open>stale\<close> or \<open>updated\<close> as the stored and the
  incoming record demand, stores the winning record, adds the product to the active set or
  removes it, and leaves every other product alone; one attempt is enough.\<close>

theorem apply_product_refines:
  assumes "catalog_store H kv lastrev known okst" and "okst s" and "represents (kv s) P A"
    and "product_key (product_id rec) = Inr key"
    and "0 < product_version rec" and "source_event_id rec \<noteq> []" and "0 < n"
  shows "\<exists>s'. run (apply_product rec n) H s = (Inr (spec_outcome (P (product_id rec)) rec), s') \<and> okst s' \<and>
           represents (kv s') (P(product_id rec \<mapsto> winner (P (product_id rec)) rec))
             (spec_active (winner (P (product_id rec)) rec) A)"
  by (rule catalog_store.run_apply_product [OF assms])

theorem apply_product_refines_witness:
  "\<exists>s'. run (apply_product (sample_product ''e1'' 1 False) 8) mem_ops mem_empty = (Inr ''created'', s') \<and> mem_ok s' \<and>
     represents (mem_kv s') [''OLJ'' \<mapsto> sample_product ''e1'' 1 False] {''OLJ''}"
  using apply_product_refines [OF mem_store mem_empty_ok represents_empty,
      of "sample_product ''e1'' 1 False" "''product.OLJ''" 8]
  by (simp add: sample_product_def sample_key spec_outcome_def winner_def spec_active_def)



text \<open>\<open>ensure_catalog_index\<close> rebuilds a missing index: it stores the sorted list, without
  repetitions, of exactly the stored products that are not removed.\<close>

theorem ensure_catalog_index_rebuilds:
  assumes "catalog_listing H kv lastrev known okst" and "okst s"
    and "kv s CATALOG_INDEX_KEY = None" and "well_shaped (kv s)"
  shows "\<exists>s' ids m. run ensure_catalog_index H s = (Inr ''created'', s') \<and> okst s' \<and>
           kv s' = (kv s)(CATALOG_INDEX_KEY \<mapsto> (index_doc ids, m)) \<and> sorted ids \<and> distinct ids \<and>
           set ids = {p. \<exists>k. live_at (kv s) k p}"
  by (rule catalog_listing.run_ensure_catalog_index [OF assms])

theorem ensure_catalog_index_rebuilds_witness:
  "\<exists>s' ids m. run ensure_catalog_index mem_ops mem_empty = (Inr ''created'', s') \<and> mem_ok s' \<and>
     mem_kv s' = (mem_kv mem_empty)(CATALOG_INDEX_KEY \<mapsto> (index_doc ids, m)) \<and> sorted ids \<and> distinct ids \<and>
     set ids = {p. \<exists>k. live_at (mem_kv mem_empty) k p}"
  by (rule ensure_catalog_index_rebuilds [OF mem_listing mem_empty_ok])
    (simp_all add: mem_kv_def mem_empty_def well_shaped_def)

text \<open>\<open>catalog_candidates\<close> serves a recommendation from a complete catalog: \<open>min limit available\<close>
  distinct products, all from the index and none of them excluded, with the snapshot's revision;
  an incomplete catalog is refused as not ready.\<close>

theorem catalog_candidates_from_index:
  assumes "sampler sample" and "catalog_store H kv lastrev known okst" and "okst s"
    and "kv s ''catalog'' = Some (snapshot_doc sr, n1)" and "kv s CATALOG_INDEX_KEY = Some (d, n2)"
    and "index_ids d = Inr ids" and "0 < catalog_revision sr"
  shows "\<exists>s'. kv s' = kv s \<and>
           (if int (card (set ids)) < product_count sr
            then run (catalog_candidates sample excluded seed model limit) H s =
                   (raise CatalogNotReady ''catalog product index is incomplete'', s')
            else \<exists>out. run (catalog_candidates sample excluded seed model limit) H s = (Inr (out, catalog_revision sr), s') \<and>
                   distinct out \<and> set out \<subseteq> set ids - excluded \<and>
                   length out = min limit (card (set ids - excluded)))"
proof -
  obtain s' where r: "run catalog_snapshot H s =
           ((if int (card (set ids)) < product_count sr
             then raise CatalogNotReady ''catalog product index is incomplete''
             else Inr (sorted_set ids, catalog_revision sr)), s')" "kv s' = kv s"
    using catalog_store.run_catalog_snapshot [OF assms(2-6)] assms(7) by auto
  obtain out rv where o: "select_candidates sample (sorted_set ids) (catalog_revision sr) excluded seed model limit = (out, rv)"
    by fastforce
  then show ?thesis
    using r sampler.selected [OF assms(1) _ o] by (auto simp: catalog_candidates_def run_bindp)
qed

definition served_catalog :: mem_catalog where
  "served_catalog =
     \<lparr>m_values = [(''catalog'', snapshot_doc \<lparr>catalog_revision = 3, source_event_id = ''e3'', source_version = 3,
                                           product_count = 2, checksum = ''c''\<rparr>, 1),
                 (CATALOG_INDEX_KEY, index_doc [''a'', ''b''], 2)], m_revision = 2\<rparr>"

theorem catalog_candidates_from_index_witness:
  "\<exists>s' out. run (catalog_candidates (pool_sample (\<lambda>_ i. i)) {''a''} ''u'' ''m'' 4) mem_ops served_catalog = (Inr (out, 3), s') \<and>
     distinct out \<and> set out \<subseteq> {''b''} \<and> length out = 1"
proof -
  have "mem_ok served_catalog" by (simp add: mem_ok_def served_catalog_def)
  moreover have "mem_kv served_catalog ''catalog'' = Some (snapshot_doc \<lparr>catalog_revision = 3, source_event_id = ''e3'',
      source_version = 3, product_count = 2, checksum = ''c''\<rparr>, 1)"
    by (simp add: mem_kv_def served_catalog_def)
  moreover have "mem_kv served_catalog CATALOG_INDEX_KEY = Some (index_doc [''a'', ''b''], 2)"
    by (simp add: mem_kv_def served_catalog_def)
  moreover have "index_ids (index_doc [''a'', ''b'']) = Inr [''a'', ''b'']" by (rule index_ids_index_doc) simp
  moreover have "{''a'', ''b''} - {''a''} = {''b''}" by auto
  ultimately show ?thesis
    using catalog_candidates_from_index [OF pool_sampler mem_store, of served_catalog]
    by fastforce
qed

end
