(* ===== verification/Recommendation.thy ===== *)
theory Recommendation
  imports Catalog_Props "HOL-Library.Word"
begin

text \<open>
  The recommendation service's event worker, \<open>src/recommendationservice/nats_events.py\<close>: the
  adapter that gives a NATS key-value bucket the interface of the catalog, the snapshot cache,
  decoding of triggers, the batch filters that keep only the newest trigger per session, and
  processing with acknowledgement or redelivery.

  Parameters: \<open>decode\<close> is \<open>MessageEnvelope.FromString\<close> (generated protobuf code), \<open>sha256\<close> the
  digest and \<open>uuid5\<close> the name-based identifier of the standard library, \<open>sample\<close> the
  pseudo-random sample.
\<close>

unbundle bit_operations_syntax

section \<open>The NATS bucket as a catalog store\<close>

text \<open>An error of the NATS client, as far as the adapter looks at it: the name of its type, its
  \<open>code\<close> attribute and its text.\<close>

record nats_error =
  type_name :: string
  error_code :: "int option"
  error_text :: string

definition contains :: "string \<Rightarrow> string \<Rightarrow> bool" where
  "contains s t \<longleftrightarrow> list_ex (\<lambda>i. startswith (drop i s) t) [0..<Suc (length s)]"

definition kv_not_found :: "nats_error \<Rightarrow> bool" where
  "kv_not_found e \<longleftrightarrow>
     type_name e \<in> {''KeyNotFoundError'', ''KeyDeletedError''} \<or> error_code e = Some 404"

definition kv_conflict :: "nats_error \<Rightarrow> bool" where
  "kv_conflict e \<longleftrightarrow>
     type_name e \<in> {''KeyWrongLastSequenceError'', ''KeyExistsError''} \<or>
     contains (lower (error_text e)) ''wrong last sequence''"

text \<open>The bucket's own operations, and those of \<open>_NATSCatalogStore\<close>.\<close>

record 's raw_bucket =
  raw_get :: "string \<Rightarrow> 's \<Rightarrow> (nats_error + json \<times> nat) \<times> 's"
  raw_create :: "string \<Rightarrow> json \<Rightarrow> 's \<Rightarrow> (nats_error + nat) \<times> 's"
  raw_update :: "string \<Rightarrow> json \<Rightarrow> nat \<Rightarrow> 's \<Rightarrow> (nats_error + nat) \<times> 's"
  raw_keys :: "'s \<Rightarrow> (nats_error + string list) \<times> 's"
  raw_random :: "'s \<Rightarrow> pyfloat \<times> 's"
  raw_sleep :: "pyfloat \<Rightarrow> 's \<Rightarrow> 's"

definition other_error :: "nats_error \<Rightarrow> exn" where
  "other_error e = Exn NatsError (error_text e)"

definition store_get :: "'s raw_bucket \<Rightarrow> string \<Rightarrow> 's \<Rightarrow> (json \<times> nat) result \<times> 's" where
  "store_get B key s = (case raw_get B key s of
      (Inr entry, s') \<Rightarrow> (Inr entry, s')
    | (Inl e, s') \<Rightarrow> (if kv_not_found e then raise CatalogNotFound key else Inl (other_error e), s'))"

definition store_create :: "'s raw_bucket \<Rightarrow> string \<Rightarrow> json \<Rightarrow> 's \<Rightarrow> nat result \<times> 's" where
  "store_create B key v s = (case raw_create B key v s of
      (Inr n, s') \<Rightarrow> (Inr n, s')
    | (Inl e, s') \<Rightarrow> (if kv_conflict e then raise CatalogConflict key else Inl (other_error e), s'))"

definition store_update :: "'s raw_bucket \<Rightarrow> string \<Rightarrow> json \<Rightarrow> nat \<Rightarrow> 's \<Rightarrow> nat result \<times> 's" where
  "store_update B key v m s = (case raw_update B key v m s of
      (Inr n, s') \<Rightarrow> (Inr n, s')
    | (Inl e, s') \<Rightarrow> (if kv_conflict e then raise CatalogConflict key else Inl (other_error e), s'))"

definition store_keys :: "'s raw_bucket \<Rightarrow> 's \<Rightarrow> json result \<times> 's" where
  "store_keys B s = (case raw_keys B s of
      (Inr ks, s') \<Rightarrow> (Inr (JList (map JStr ks)), s')
    | (Inl e, s') \<Rightarrow> (if type_name e = ''NoKeysError'' then Inr (JList []) else Inl (other_error e), s'))"

fun store_ext :: "'s raw_bucket \<Rightarrow> cat_eff \<Rightarrow> 's \<Rightarrow> json result \<times> 's" where
  "store_ext B Keys s = store_keys B s"
| "store_ext B RandomUnit s = (case raw_random B s of (u, s') \<Rightarrow> (Inr (JFloat u), s'))"
| "store_ext B (Sleep t) s = (Inr JNull, raw_sleep B t s)"

definition nats_catalog_store :: "'s raw_bucket \<Rightarrow> (cat_eff, 's) kv_ops" where
  "nats_catalog_store B =
     \<lparr>op_get = store_get B, op_create = store_create B, op_update = store_update B, op_ext = store_ext B\<rparr>"

text \<open>
  What JetStream documents of a bucket without faults: the errors that the operations answer with
  when a key is absent, when it exists and when the revision is no longer the last one.
\<close>

locale nats_bucket =
  fixes B :: "'s raw_bucket"
    and kv :: "'s \<Rightarrow> string \<Rightarrow> (json \<times> nat) option"
    and lastrev :: "'s \<Rightarrow> nat"
    and okst :: "'s \<Rightarrow> bool"
  assumes n_get: "okst s \<Longrightarrow> raw_get B k s = (r, s') \<Longrightarrow>
        okst s' \<and> unchanged kv lastrev s s' \<and>
        (case kv s k of Some vn \<Rightarrow> r = Inr vn | None \<Rightarrow> (\<exists>e. r = Inl e \<and> type_name e = ''KeyNotFoundError''))"
    and n_create: "okst s \<Longrightarrow> raw_create B k v s = (rp, s') \<Longrightarrow>
        okst s' \<and> (if kv s k = None then (\<exists>n. rp = Inr n \<and> commits kv lastrev k v s s' n)
                 else unchanged kv lastrev s s' \<and> (\<exists>e. rp = Inl e \<and> type_name e = ''KeyWrongLastSequenceError''))"
    and n_update: "okst s \<Longrightarrow> raw_update B k v m s = (rp, s') \<Longrightarrow>
        okst s' \<and> (if \<exists>w. kv s k = Some (w, m) then (\<exists>n. rp = Inr n \<and> commits kv lastrev k v s s' n)
                 else unchanged kv lastrev s s' \<and> (\<exists>e. rp = Inl e \<and> type_name e = ''KeyWrongLastSequenceError''))"
    and n_keys: "okst s \<Longrightarrow> raw_keys B s = (rk, s') \<Longrightarrow>
        okst s' \<and> unchanged kv lastrev s s' \<and>
        (if dom (kv s) = {} then \<exists>e. rk = Inl e \<and> type_name e = ''NoKeysError''
         else \<exists>ks. rk = Inr ks \<and> set ks = dom (kv s))"
    and n_random: "okst s \<Longrightarrow> raw_random B s = (u, s') \<Longrightarrow> okst s' \<and> unchanged kv lastrev s s'"
    and n_sleep: "okst s \<Longrightarrow> okst (raw_sleep B t s) \<and> unchanged kv lastrev s (raw_sleep B t s)"
    and n_rev_bound: "okst s \<Longrightarrow> kv s k = Some (v, n) \<Longrightarrow> n \<le> lastrev s"
begin

lemma adapter_get:
  assumes "okst s" and "store_get B k s = (r, s')"
  shows "okst s' \<and> unchanged kv lastrev s s' \<and>
         r = (case kv s k of Some vn \<Rightarrow> Inr vn | None \<Rightarrow> raise CatalogNotFound k)"
proof -
  obtain q t where q: "raw_get B k s = (q, t)" by fastforce
  show ?thesis
    using n_get [OF assms(1) q] assms(2) q
    by (cases "kv s k") (auto simp: store_get_def kv_not_found_def)
qed

lemma adapter_create:
  assumes "okst s" and "store_create B k v s = (r, s')"
  shows "okst s' \<and> (if kv s k = None then (\<exists>n. r = Inr n \<and> commits kv lastrev k v s s' n)
                  else unchanged kv lastrev s s' \<and> r = raise CatalogConflict k)"
proof -
  obtain q t where q: "raw_create B k v s = (q, t)" by fastforce
  show ?thesis
    using n_create [OF assms(1) q] assms(2) q
    by (cases "kv s k = None") (auto simp: store_create_def kv_conflict_def)
qed

lemma adapter_update:
  assumes "okst s" and "store_update B k v m s = (r, s')"
  shows "okst s' \<and> (if \<exists>w. kv s k = Some (w, m) then (\<exists>n. r = Inr n \<and> commits kv lastrev k v s s' n)
                  else unchanged kv lastrev s s' \<and> r = raise CatalogConflict k)"
proof -
  obtain q t where q: "raw_update B k v m s = (q, t)" by fastforce
  show ?thesis
    using n_update [OF assms(1) q] assms(2) q
    by (cases "\<exists>w. kv s k = Some (w, m)") (auto simp: store_update_def kv_conflict_def)
qed

lemma adapter_keys:
  assumes "okst s" and "store_keys B s = (r, s')"
  shows "okst s' \<and> unchanged kv lastrev s s' \<and> (\<exists>ks. r = Inr (JList (map JStr ks)) \<and> set ks = dom (kv s))"
proof -
  obtain q t where q: "raw_keys B s = (q, t)" by fastforce
  show ?thesis
    using n_keys [OF assms(1) q] assms(2) q
    by (cases "dom (kv s) = {}") (auto simp: store_keys_def)
qed

lemma adapter_ext:
  assumes "okst s" and "store_ext B x s = (r, s')"
  shows "okst s' \<and> unchanged kv lastrev s s'"
proof (cases x)
  case Keys
  then show ?thesis using adapter_keys [OF assms(1)] assms(2) by auto
next
  case RandomUnit
  then show ?thesis using n_random [OF assms(1)] assms(2) by (auto split: prod.splits)
next
  case (Sleep t)
  then show ?thesis using n_sleep [OF assms(1)] assms(2) by auto
qed

end

sublocale nats_bucket \<subseteq> catalog_listing "nats_catalog_store B" kv lastrev "\<lambda>_ _ _. True" okst
proof
  fix s k r s'
  assume "okst s" "op_get (nats_catalog_store B) k s = (r, s')"
  then show "okst s' \<and> unchanged kv lastrev s s' \<and> (\<forall>v n. r = Inr (v, n) \<longrightarrow> kv s k = Some (v, n))"
    using adapter_get [of s k r s'] by (auto simp: nats_catalog_store_def split: option.splits)
next
  fix s k v r s'
  assume "okst s" "op_create (nats_catalog_store B) k v s = (r, s')"
  then show "okst s' \<and> (unchanged kv lastrev s s' \<and> (\<exists>e. r = Inl e) \<or>
                 kv s k = None \<and> (\<exists>n. commits kv lastrev k v s s' n \<and> (r = Inr n \<or> (\<exists>e. r = Inl e))))"
    using adapter_create [of s k v r s'] by (auto simp: nats_catalog_store_def split: if_splits)
next
  fix s k v m r s'
  assume "okst s" "op_update (nats_catalog_store B) k v m s = (r, s')"
  then show "okst s' \<and> (unchanged kv lastrev s s' \<and> (\<exists>e. r = Inl e) \<or>
                 (\<exists>w. kv s k = Some (w, m)) \<and>
                 (\<exists>n. commits kv lastrev k v s s' n \<and> (r = Inr n \<or> (\<exists>e. r = Inl e))))"
    using adapter_update [of s k v m r s'] by (auto simp: nats_catalog_store_def split: if_splits)
next
  fix s x r s'
  assume "okst s" "op_ext (nats_catalog_store B) x s = (r, s')"
  then show "okst s' \<and> unchanged kv lastrev s s' \<and> (\<forall>j. r = Inr j \<longrightarrow> True)"
    using adapter_ext [of s x r s'] by (simp add: nats_catalog_store_def)
next
  fix s k v n
  assume "okst s" "kv s k = Some (v, n)"
  then show "n \<le> lastrev s" by (rule n_rev_bound)
next
  fix s
  assume ok: "okst s"
  obtain r s' where r: "store_keys B s = (r, s')" by fastforce
  show "\<exists>ks. fst (op_ext (nats_catalog_store B) Keys s) = Inr (JList (map JStr ks)) \<and> set ks = dom (kv s)"
    using adapter_keys [OF ok r] r by (simp add: nats_catalog_store_def)
next
  fix s k
  assume "okst s" "kv s k = None"
  then show "\<exists>m. fst (op_get (nats_catalog_store B) k s) = Inl (Exn CatalogNotFound m)"
    using adapter_get [of s k] by (cases "store_get B k s") (auto simp: nats_catalog_store_def)
next
  fix s k vn
  assume "okst s" "kv s k = Some vn"
  then show "fst (op_get (nats_catalog_store B) k s) = Inr vn"
    using adapter_get [of s k] by (cases "store_get B k s") (auto simp: nats_catalog_store_def)
next
  fix s k v
  assume "okst s" "kv s k = None"
  then show "\<exists>n. fst (op_create (nats_catalog_store B) k v s) = Inr n"
    using adapter_create [of s k v] by (cases "store_create B k v s") (auto simp: nats_catalog_store_def)
next
  fix s k vn v
  assume "okst s" "kv s k = Some vn"
  then show "\<exists>m. fst (op_create (nats_catalog_store B) k v s) = Inl (Exn CatalogConflict m)"
    using adapter_create [of s k v] by (cases "store_create B k v s") (auto simp: nats_catalog_store_def)
next
  fix s k w m v
  assume "okst s" "kv s k = Some (w, m)"
  then show "\<exists>n. fst (op_update (nats_catalog_store B) k v m s) = Inr n"
    using adapter_update [of s k v m] by (cases "store_update B k v m s") (auto simp: nats_catalog_store_def)
next
  fix s k m v
  assume "okst s" "\<not> (\<exists>w. kv s k = Some (w, m))"
  then show "\<exists>e. fst (op_update (nats_catalog_store B) k v m s) = Inl (Exn CatalogConflict e)"
    using adapter_update [of s k v m] by (cases "store_update B k v m s") (auto simp: nats_catalog_store_def)
qed auto

text \<open>The in-memory bucket with the client's errors.\<close>

definition nats_err :: "string \<Rightarrow> nats_error" where
  "nats_err name = \<lparr>type_name = name, error_code = None, error_text = name\<rparr>"

definition mem_raw :: "mem_catalog raw_bucket" where
  "mem_raw =
     \<lparr>raw_get = (\<lambda>k s. (case map_of (m_values s) k of
          None \<Rightarrow> Inl (nats_err ''KeyNotFoundError'') | Some vn \<Rightarrow> Inr vn, s)),
      raw_create = (\<lambda>k v s. if map_of (m_values s) k \<noteq> None then (Inl (nats_err ''KeyWrongLastSequenceError''), s)
          else (Inr (Suc (m_revision s)), snd (mem_put k v s))),
      raw_update = (\<lambda>k v m s. if map_option snd (map_of (m_values s) k) \<noteq> Some m
          then (Inl (nats_err ''KeyWrongLastSequenceError''), s)
          else (Inr (Suc (m_revision s)), snd (mem_put k v s))),
      raw_keys = (\<lambda>s. (if m_values s = [] then Inl (nats_err ''NoKeysError'') else Inr (map fst (m_values s)), s)),
      raw_random = (\<lambda>s. (Fin (1 / 2), s)),
      raw_sleep = (\<lambda>t s. s)\<rparr>"

lemma mem_put_commits:
  "mem_ok s \<Longrightarrow> mem_ok (snd (mem_put k v s)) \<and> commits mem_kv m_revision k v s (snd (mem_put k v s)) (Suc (m_revision s))"
  using mem_put_facts [of s k v "fst (mem_put k v s)" "snd (mem_put k v s)"]
  by (auto simp: mem_put_def Let_def)

interpretation memn: nats_bucket mem_raw mem_kv m_revision mem_ok
proof
  fix s k v n
  assume "mem_ok s" "mem_kv s k = Some (v, n)"
  then show "n \<le> m_revision s" by (rule mem_rev_bound)
qed (auto simp: mem_raw_def mem_kv_def nats_err_def unchanged_def mem_put_commits dom_map_of_conv_image_fst
       split: option.splits if_splits dest: mem_put_commits)

end
