(* ===== verification/Rec_Events.thy ===== *)
theory Rec_Events
  imports Catalog_KV "HOL-Library.Word" "HOL-Library.Multiset"
begin

text \<open>
  Messages of the recommendation service, \<open>src/recommendationservice/nats_events.py\<close>: which catalog
  operation an event causes, how a trigger is decoded and versioned, how a batch of triggers is
  reduced to the newest one per session, what is published for a trigger, and when a message is
  acknowledged or handed back for redelivery.

  Parameters: \<open>decode\<close> is \<open>MessageEnvelope.FromString\<close> (generated protobuf code; a payload's
  constructor is the type \<open>Any.Unpack\<close> checks), \<open>sha256\<close> the digest and \<open>uuid5\<close> the name-based
  identifier of the standard library.
\<close>

unbundle bit_operations_syntax

section \<open>Messages\<close>

datatype payload =
    StorefrontPageViewed string string
  | CartItemAdded string "string list"
  | CartCleared string
  | CatalogProductUpserted string int int
  | CatalogProductRemoved string int int
  | CatalogSnapshotCompleted int int string
  | RecommendationGenerated string int "string list" int
  | OtherPayload

record envelope =
  message_id :: string
  message_type :: string
  occurred_seconds :: int
  occurred_nanos :: int
  aggregate_type :: string
  aggregate_id :: string
  aggregate_version :: int
  correlation_id :: string
  causation_id :: string
  traceparent :: string
  tracestate :: string
  data :: payload

record message =
  subject :: string
  body :: string
  delivery :: nat

type_synonym decoder = "string \<Rightarrow> envelope result"

definition PAGE_VIEW_SUBJECT :: string where
  "PAGE_VIEW_SUBJECT = ''boutique.evt.storefront.page-viewed.v1''"

definition RESULT_SUBJECT :: string where
  "RESULT_SUBJECT = ''boutique.evt.recommendation.generated.v1''"

definition MODEL_REVISION :: string where
  "MODEL_REVISION = ''deterministic-sample-v1''"

section \<open>Settings\<close>

text \<open>\<open>os.getenv(name)\<close> is the argument \<open>value\<close>.\<close>

definition duration :: "string option \<Rightarrow> rat \<Rightarrow> pyfloat result" where
  "duration value fallback = (case value of
       None \<Rightarrow> Inr (Fin fallback)
     | Some v \<Rightarrow>
         if v = [] then Inr (Fin fallback)
         else if endswith v ''ms'' then rbind (py_float (JStr (take (length v - 2) v))) (\<lambda>f. Inr (f_scale (1 / 1000) f))
         else if endswith v ''s'' then rbind (py_float (JStr (take (length v - 1) v))) (\<lambda>f. Inr (f_scale 1 f))
         else if endswith v ''m'' then rbind (py_float (JStr (take (length v - 1) v))) (\<lambda>f. Inr (f_scale 60 f))
         else raise ValueError ''invalid duration'')"

definition integer_env :: "string option \<Rightarrow> int \<Rightarrow> int result" where
  "integer_env value fallback = (case value of
       None \<Rightarrow> Inr fallback | Some v \<Rightarrow> if v = [] then Inr fallback else py_int (JStr v))"

section \<open>Identities and versions\<close>

definition from_bytes :: "nat list \<Rightarrow> nat" where
  "from_bytes bs = foldl (\<lambda>a b. 256 * a + b) 0 bs"

definition context_version :: "(string \<Rightarrow> nat list) \<Rightarrow> envelope \<Rightarrow> int" where
  "context_version sha256 e =
     (if aggregate_type e = ''storefront-session'' \<and> aggregate_version e \<noteq> 0 then aggregate_version e
      else if occurred_seconds e \<noteq> 0 then occurred_seconds e * 1000000000 + occurred_nanos e
      else let version = from_bytes (take 8 (sha256 (message_id e))) AND 0x7fffffffffffffff
           in if version \<noteq> 0 then int version else 1)"

definition message_id_of :: "(string \<Rightarrow> string) \<Rightarrow> string list \<Rightarrow> string" where
  "message_id_of uuid5 parts = uuid5 (join [char_of (0::nat)] parts)"

text \<open>\<open>_message_context\<close>: what the log line of a failure carries.\<close>

definition message_context :: "decoder \<Rightarrow> message \<Rightarrow> string \<times> string" where
  "message_context decode m = (case decode (body m) of
      Inl _ \<Rightarrow> (''unknown'', ''unknown'')
    | Inr e \<Rightarrow> (if correlation_id e = [] then ''unknown'' else correlation_id e,
               if message_id e = [] then ''unknown'' else message_id e))"

text \<open>\<open>_trigger_time\<close> in seconds since the epoch; datetimes keep microseconds.\<close>

definition trigger_time :: "envelope \<Rightarrow> rat" where
  "trigger_time e =
     (if occurred_seconds e \<noteq> 0 \<or> occurred_nanos e \<noteq> 0
      then of_int (occurred_seconds e) + of_int (occurred_nanos e div 1000) / 1000000 else 0)"

section \<open>Catalog events\<close>

definition apply_catalog :: "decoder \<Rightarrow> message \<Rightarrow> nat \<Rightarrow> (cat_eff, string) prog" where
  "apply_catalog decode m max_attempts =
     lift (decode (body m)) (\<lambda>e.
       if message_id e = [] then Raise (Exn ValueError ''catalog event message ID is required'')
       else if subject m = ''boutique.evt.catalog.product-upserted.v1'' then
         (case data e of
            CatalogProductUpserted pid version revision \<Rightarrow>
              if pid = [] then Raise (Exn ValueError ''catalog product payload is invalid'')
              else apply_product \<lparr>catalog_revision = revision, source_event_id = message_id e,
                     source_version = aggregate_version e, product_id = pid, product_version = version,
                     removed = False\<rparr> max_attempts
          | _ \<Rightarrow> Raise (Exn ValueError ''catalog product payload is invalid''))
       else if subject m = ''boutique.evt.catalog.product-removed.v1'' then
         (case data e of
            CatalogProductRemoved pid version revision \<Rightarrow>
              if pid = [] then Raise (Exn ValueError ''catalog removal payload is invalid'')
              else apply_product \<lparr>catalog_revision = revision, source_event_id = message_id e,
                     source_version = aggregate_version e, product_id = pid, product_version = version,
                     removed = True\<rparr> max_attempts
          | _ \<Rightarrow> Raise (Exn ValueError ''catalog removal payload is invalid''))
       else if subject m = ''boutique.evt.catalog.snapshot-completed.v1'' then
         (case data e of
            CatalogSnapshotCompleted revision products digest \<Rightarrow>
              apply_snapshot \<lparr>catalog_revision = revision, source_event_id = message_id e,
                source_version = aggregate_version e, product_count = products, checksum = digest\<rparr> max_attempts
          | _ \<Rightarrow> Raise (Exn ValueError ''catalog snapshot payload is invalid''))
       else Ret ''ignored'')"

section \<open>Triggers\<close>

record trigger =
  t_message :: message
  t_envelope :: envelope
  t_session :: string
  t_excluded :: "string list"
  t_version :: int

definition decode_trigger :: "decoder \<Rightarrow> (string \<Rightarrow> nat list) \<Rightarrow> message \<Rightarrow> trigger result" where
  "decode_trigger decode sha256 m =
     rbind (decode (body m)) (\<lambda>e.
     rbind
       (if subject m = PAGE_VIEW_SUBJECT then
          (case data e of
             StorefrontPageViewed session product \<Rightarrow>
               if session = [] then raise ValueError ''page-view payload is invalid''
               else Inr (session, if product = [] then [] else [product])
           | _ \<Rightarrow> raise ValueError ''page-view payload is invalid'')
        else if subject m = ''boutique.evt.cart.item-added.v1'' then
          (case data e of
             CartItemAdded user items \<Rightarrow>
               if user = [] then raise ValueError ''cart item payload is invalid'' else Inr (user, items)
           | _ \<Rightarrow> raise ValueError ''cart item payload is invalid'')
        else if subject m = ''boutique.evt.cart.cleared.v1'' then
          (case data e of
             CartCleared user \<Rightarrow>
               if user = [] then raise ValueError ''cart clear payload is invalid'' else Inr (user, [])
           | _ \<Rightarrow> raise ValueError ''cart clear payload is invalid'')
        else raise ValueError ''unsupported recommendation trigger subject'')
       (\<lambda>(session, excluded).
          Inr \<lparr>t_message = m, t_envelope = e, t_session = session, t_excluded = excluded,
               t_version = context_version sha256 e\<rparr>))"

text \<open>What a filtered batch holds: messages left for normal processing, and decoded triggers.\<close>

datatype item = Plain message | Decoded trigger

primrec item_message :: "item \<Rightarrow> message" where
  "item_message (Plain m) = m"
| "item_message (Decoded t) = t_message t"

text \<open>The loop state of both filters: the newest trigger per session in insertion order, the
  retained and the discarded messages.\<close>

record batch =
  b_newest :: "(string \<times> trigger) list"
  b_retained :: "message list"
  b_discarded :: "message list"

definition empty_batch :: batch where
  "empty_batch = \<lparr>b_newest = [], b_retained = [], b_discarded = []\<rparr>"

definition consider_trigger :: "trigger \<Rightarrow> batch \<Rightarrow> batch" where
  "consider_trigger t b =
     (case map_of (b_newest b) (t_session t) of
        None \<Rightarrow> b\<lparr>b_newest := AList.update (t_session t) t (b_newest b)\<rparr>
      | Some previous \<Rightarrow>
          if t_version previous \<le> t_version t
          then b\<lparr>b_discarded := b_discarded b @ [t_message previous],
                 b_newest := AList.update (t_session t) t (b_newest b)\<rparr>
          else b\<lparr>b_discarded := b_discarded b @ [t_message t]\<rparr>)"

definition page_view_step ::
  "decoder \<Rightarrow> (string \<Rightarrow> nat list) \<Rightarrow> rat \<Rightarrow> rat \<Rightarrow> message \<Rightarrow> batch \<Rightarrow> batch" where
  "page_view_step decode sha256 now max_age m b =
     (case decode_trigger decode sha256 m of
        Inl _ \<Rightarrow> b\<lparr>b_retained := b_retained b @ [m]\<rparr>
      | Inr t \<Rightarrow>
          let occurred = trigger_time (t_envelope t) in
          if 0 < occurred \<and> max_age < now - occurred then b\<lparr>b_discarded := b_discarded b @ [m]\<rparr>
          else consider_trigger t b)"

definition cart_step :: "decoder \<Rightarrow> (string \<Rightarrow> nat list) \<Rightarrow> message \<Rightarrow> batch \<Rightarrow> batch" where
  "cart_step decode sha256 m b =
     (if subject m \<notin> {''boutique.evt.cart.item-added.v1'', ''boutique.evt.cart.cleared.v1''}
      then b\<lparr>b_retained := b_retained b @ [m]\<rparr>
      else case decode_trigger decode sha256 m of
        Inl _ \<Rightarrow> b\<lparr>b_retained := b_retained b @ [m]\<rparr>
      | Inr t \<Rightarrow> consider_trigger t b)"

definition batch_result :: "batch \<Rightarrow> item list \<times> message list" where
  "batch_result b = (map Plain (b_retained b) @ map (Decoded \<circ> snd) (b_newest b), b_discarded b)"

text \<open>The retained items, and the messages that are acknowledged without processing.\<close>

definition fresh_page_views ::
  "decoder \<Rightarrow> (string \<Rightarrow> nat list) \<Rightarrow> rat \<Rightarrow> rat \<Rightarrow> message list \<Rightarrow> (item list \<times> message list) result" where
  "fresh_page_views decode sha256 now max_age ms =
     (if max_age < 0 then raise ValueError ''RECOMMENDATION_PAGE_VIEW_MAX_AGE must not be negative''
      else Inr (batch_result (fold (page_view_step decode sha256 now max_age) ms empty_batch)))"

definition latest_cart_triggers ::
  "decoder \<Rightarrow> (string \<Rightarrow> nat list) \<Rightarrow> message list \<Rightarrow> item list \<times> message list" where
  "latest_cart_triggers decode sha256 ms =
     batch_result (fold (cart_step decode sha256) ms empty_batch)"

section \<open>Publishing\<close>

text \<open>The envelope \<open>_publish_result\<close> publishes, with its subject and \<open>Nats-Msg-Id\<close>;
  \<open>inject_envelope\<close> (tracing) only fills the trace fields.\<close>

record publication =
  p_subject :: string
  p_msg_id :: string
  p_envelope :: envelope

definition publication_for ::
  "(string \<Rightarrow> string) \<Rightarrow> (string \<Rightarrow> nat list) \<Rightarrow> envelope \<Rightarrow> string \<Rightarrow> string list \<times> int \<Rightarrow> publication" where
  "publication_for uuid5 sha256 e session selection =
     (let (product_ids, revision) = selection;
          version = context_version sha256 e;
          occurred = trigger_time e;
          mid = message_id_of uuid5 [RESULT_SUBJECT, message_id e, MODEL_REVISION, show_int revision]
      in \<lparr>p_subject = RESULT_SUBJECT, p_msg_id = mid,
          p_envelope = \<lparr>message_id = mid, message_type = ''boutique.recommendation.Generated.v1'',
            occurred_seconds = \<lfloor>occurred\<rfloor>,
            occurred_nanos = \<lfloor>(occurred - of_int \<lfloor>occurred\<rfloor>) * 1000000000\<rfloor>,
            aggregate_type = ''recommendation-context'', aggregate_id = session,
            aggregate_version = version, correlation_id = correlation_id e, causation_id = message_id e,
            traceparent = traceparent e, tracestate = tracestate e,
            data = RecommendationGenerated session version product_ids (\<lfloor>occurred\<rfloor> + 600)\<rparr>\<rparr>)"

text \<open>\<open>candidates\<close> is the cache's method and \<open>publish\<close> JetStream's; both may raise and change the
  outside state.\<close>

definition publish_result ::
  "(string \<Rightarrow> string) \<Rightarrow> (string \<Rightarrow> nat list)
   \<Rightarrow> (string set \<Rightarrow> string \<Rightarrow> string \<Rightarrow> 'w \<Rightarrow> (string list \<times> int) result \<times> 'w)
   \<Rightarrow> (publication \<Rightarrow> 'w \<Rightarrow> unit result \<times> 'w) \<Rightarrow> envelope \<Rightarrow> string \<Rightarrow> string list \<Rightarrow> 'w \<Rightarrow> unit result \<times> 'w" where
  "publish_result uuid5 sha256 candidates publish e session excluded w =
     (if message_id e = [] \<or> session = []
      then (raise ValueError ''recommendation trigger identity is incomplete'', w)
      else case candidates (set excluded) (message_id e) MODEL_REVISION w of
        (Inl x, w') \<Rightarrow> (Inl x, w')
      | (Inr selection, w') \<Rightarrow> publish (publication_for uuid5 sha256 e session selection) w')"

definition handle_trigger ::
  "decoder \<Rightarrow> (string \<Rightarrow> string) \<Rightarrow> (string \<Rightarrow> nat list)
   \<Rightarrow> (string set \<Rightarrow> string \<Rightarrow> string \<Rightarrow> 'w \<Rightarrow> (string list \<times> int) result \<times> 'w)
   \<Rightarrow> (publication \<Rightarrow> 'w \<Rightarrow> unit result \<times> 'w) \<Rightarrow> item \<Rightarrow> 'w \<Rightarrow> unit result \<times> 'w" where
  "handle_trigger decode uuid5 sha256 candidates publish it w =
     (case it of
        Decoded t \<Rightarrow>
          publish_result uuid5 sha256 candidates publish (t_envelope t) (t_session t) (t_excluded t) w
      | Plain m \<Rightarrow>
          if subject m \<notin> {PAGE_VIEW_SUBJECT, ''boutique.evt.cart.item-added.v1'', ''boutique.evt.cart.cleared.v1''}
          then (Inr (), w)
          else (case decode_trigger decode sha256 m of
            Inl x \<Rightarrow> (Inl x, w)
          | Inr t \<Rightarrow>
              publish_result uuid5 sha256 candidates publish (t_envelope t) (t_session t) (t_excluded t) w))"

text \<open>
  \<open>_process_message\<close>: the handler runs inside the \<open>try\<close>, and so does the acknowledgement. \<open>ack\<close> and
  \<open>nak\<close> are the client's and may raise; an exception of \<open>nak\<close> ends the worker.
\<close>

definition process_message ::
  "decoder \<Rightarrow> (item \<Rightarrow> 'w \<Rightarrow> unit result \<times> 'w) \<Rightarrow> (message \<Rightarrow> 'w \<Rightarrow> unit result \<times> 'w)
   \<Rightarrow> (message \<Rightarrow> rat \<Rightarrow> 'w \<Rightarrow> unit result \<times> 'w) \<Rightarrow> item \<Rightarrow> 'w \<Rightarrow> unit result \<times> 'w" where
  "process_message decode handler ack nak it w =
     (let m = item_message it;
          attempt = (case (case it of Decoded t \<Rightarrow> Inr (t_envelope t) | Plain m \<Rightarrow> decode (body m)) of
              Inl x \<Rightarrow> (Inl x, w)
            | Inr _ \<Rightarrow> (case handler it w of
                  (Inl x, w') \<Rightarrow> (Inl x, w')
                | (Inr _, w') \<Rightarrow> ack m w'))
      in case attempt of
           (Inr _, w') \<Rightarrow> (Inr (), w')
         | (Inl _, w') \<Rightarrow> nak m 1 w')"

section \<open>What the batch filters keep\<close>

text \<open>Both filters decide for each message on its own whether to retain it, to discard it or to
  compare its trigger with the newest one of its session.\<close>

datatype verdict = Retain | Discard | Consider trigger

definition page_view_verdict :: "decoder \<Rightarrow> (string \<Rightarrow> nat list) \<Rightarrow> rat \<Rightarrow> rat \<Rightarrow> message \<Rightarrow> verdict" where
  "page_view_verdict decode sha256 now max_age m =
     (case decode_trigger decode sha256 m of
        Inl _ \<Rightarrow> Retain
      | Inr t \<Rightarrow>
          if 0 < trigger_time (t_envelope t) \<and> max_age < now - trigger_time (t_envelope t) then Discard
          else Consider t)"

definition cart_verdict :: "decoder \<Rightarrow> (string \<Rightarrow> nat list) \<Rightarrow> message \<Rightarrow> verdict" where
  "cart_verdict decode sha256 m =
     (if subject m \<notin> {''boutique.evt.cart.item-added.v1'', ''boutique.evt.cart.cleared.v1''} then Retain
      else case decode_trigger decode sha256 m of Inl _ \<Rightarrow> Retain | Inr t \<Rightarrow> Consider t)"

lemma decode_trigger_message: "decode_trigger decode sha256 m = Inr t \<Longrightarrow> t_message t = m"
  by (auto simp: decode_trigger_def split: if_splits)

locale newest_filter =
  fixes step :: "message \<Rightarrow> batch \<Rightarrow> batch" and verdict :: "message \<Rightarrow> verdict"
  assumes step_verdict: "step m b = (case verdict m of
        Retain \<Rightarrow> b\<lparr>b_retained := b_retained b @ [m]\<rparr>
      | Discard \<Rightarrow> b\<lparr>b_discarded := b_discarded b @ [m]\<rparr>
      | Consider t \<Rightarrow> consider_trigger t b)"
    and verdict_message: "verdict m = Consider t \<Longrightarrow> t_message t = m"
begin

definition kept :: "message list \<Rightarrow> batch" where
  "kept ms = fold step ms empty_batch"

lemma kept_snoc: "kept (ms @ [m]) = step m (kept ms)"
  by (simp add: kept_def)

text \<open>The loop's invariants: the newest triggers are keyed by their session and decoded from the
  message they carry; every considered trigger is covered; retained and discarded messages are
  those the verdict allows; and no message is lost or duplicated.\<close>

definition newest_ok :: "batch \<Rightarrow> bool" where
  "newest_ok b \<longleftrightarrow> distinct (map fst (b_newest b)) \<and>
     (\<forall>k t. map_of (b_newest b) k = Some t \<longrightarrow> t_session t = k \<and> verdict (t_message t) = Consider t)"

definition covered :: "batch \<Rightarrow> trigger \<Rightarrow> bool" where
  "covered b t \<longleftrightarrow> (\<exists>t'. map_of (b_newest b) (t_session t) = Some t' \<and> t_version t \<le> t_version t')"

lemma newest_ok_step:
  assumes "newest_ok b"
  shows "newest_ok (step m b)"
proof (cases "verdict m")
  case (Consider t)
  then have "t_message t = m" by (rule verdict_message)
  then show ?thesis using assms Consider
    by (auto simp: step_verdict newest_ok_def consider_trigger_def update_conv' distinct_update
          simp del: map_of_eq_Some_iff split: option.splits if_splits)
qed (use assms in \<open>simp_all add: step_verdict newest_ok_def\<close>)

lemma newest_ok_kept: "newest_ok (kept ms)"
proof (induction ms rule: rev_induct)
  case Nil
  then show ?case by (simp add: kept_def newest_ok_def empty_batch_def)
next
  case (snoc m ms)
  then show ?case unfolding kept_snoc by (rule newest_ok_step)
qed

lemma covered_step: "covered b t \<Longrightarrow> covered (step m b) t"
  by (auto simp: covered_def step_verdict consider_trigger_def update_conv' split: verdict.splits option.splits)

lemma covered_consider: "verdict m = Consider t \<Longrightarrow> covered (step m b) t"
  by (auto simp: covered_def step_verdict consider_trigger_def update_conv' split: option.splits)

lemma covered_kept: "m \<in> set ms \<Longrightarrow> verdict m = Consider t \<Longrightarrow> covered (kept ms) t"
proof (induction ms rule: rev_induct)
  case (snoc m' ms)
  then show ?case using covered_step covered_consider by (auto simp: kept_snoc)
qed simp

lemma retained_step: "b_retained (step m b) = b_retained b @ (if verdict m = Retain then [m] else [])"
  by (auto simp: step_verdict consider_trigger_def split: verdict.splits option.splits)

lemma retained_kept: "b_retained (kept ms) = filter (\<lambda>m. verdict m = Retain) ms"
proof (induction ms rule: rev_induct)
  case Nil
  then show ?case by (simp add: kept_def empty_batch_def)
next
  case (snoc m ms)
  then show ?case by (simp add: kept_snoc retained_step)
qed

lemma discarded_step:
  "newest_ok b \<Longrightarrow> x \<in> set (b_discarded (step m b)) \<Longrightarrow> x \<in> set (b_discarded b) \<or> verdict x \<noteq> Retain"
  using verdict_message [of m]
  by (auto simp: step_verdict newest_ok_def consider_trigger_def simp del: map_of_eq_Some_iff
        split: verdict.splits option.splits if_splits)

lemma discarded_kept: "x \<in> set (b_discarded (kept ms)) \<Longrightarrow> verdict x \<noteq> Retain"
proof (induction ms rule: rev_induct)
  case Nil
  then show ?case by (simp add: kept_def empty_batch_def)
next
  case (snoc m ms)
  then show ?case using discarded_step [OF newest_ok_kept] by (auto simp: kept_snoc)
qed

lemma mset_update_new:
  "map_of xs k = None \<Longrightarrow> mset (map f (AList.update k v xs)) = add_mset (f (k, v)) (mset (map f xs))"
  by (induction xs) auto

lemma mset_update_old:
  "map_of xs k = Some u \<Longrightarrow> distinct (map fst xs) \<Longrightarrow>
     add_mset (f (k, u)) (mset (map f (AList.update k v xs))) = add_mset (f (k, v)) (mset (map f xs))"
  by (induction xs) (auto simp: add_mset_commute split: if_splits)

lemma partition_step:
  assumes "newest_ok b"
  shows "mset (b_retained (step m b)) + mset (map (t_message \<circ> snd) (b_newest (step m b))) + mset (b_discarded (step m b))
       = add_mset m (mset (b_retained b) + mset (map (t_message \<circ> snd) (b_newest b)) + mset (b_discarded b))"
proof (cases "verdict m")
  case (Consider t)
  then have m: "t_message t = m" by (rule verdict_message)
  show ?thesis
  proof (cases "map_of (b_newest b) (t_session t)")
    case None
    then show ?thesis using mset_update_new [OF None, of "t_message \<circ> snd" t] m
      by (simp add: step_verdict Consider consider_trigger_def)
  next
    case (Some u)
    have "distinct (map fst (b_newest b))" using assms by (simp add: newest_ok_def)
    note upd = mset_update_old [OF Some this, of "t_message \<circ> snd" t]
    show ?thesis using upd m Some
      by (simp add: step_verdict Consider consider_trigger_def)
  qed
qed (simp_all add: step_verdict)

lemma partition_kept:
  "mset (b_retained (kept ms)) + mset (map (t_message \<circ> snd) (b_newest (kept ms))) + mset (b_discarded (kept ms)) = mset ms"
proof (induction ms rule: rev_induct)
  case Nil
  then show ?case by (simp add: kept_def empty_batch_def)
next
  case (snoc m ms)
  then show ?case using partition_step [OF newest_ok_kept, of m ms] by (simp only: kept_snoc) simp
qed

text \<open>The outcome of a filter on a batch.\<close>

lemma filter_result:
  assumes "batch_result (kept ms) = (items, acked)"
  shows "mset (map item_message items) + mset acked = mset ms"
    and "Plain m \<in> set items \<longleftrightarrow> m \<in> set ms \<and> verdict m = Retain"
    and "Decoded t \<in> set items \<Longrightarrow> verdict (t_message t) = Consider t"
    and "Decoded t \<in> set items \<Longrightarrow> Decoded t' \<in> set items \<Longrightarrow> t_session t = t_session t' \<Longrightarrow> t = t'"
    and "m \<in> set ms \<Longrightarrow> verdict m = Consider t \<Longrightarrow>
           \<exists>t'. Decoded t' \<in> set items \<and> t_session t' = t_session t \<and> t_version t \<le> t_version t'"
    and "m \<in> set acked \<Longrightarrow> verdict m \<noteq> Retain"
proof -
  let ?b = "kept ms"
  have items: "items = map Plain (b_retained ?b) @ map (Decoded \<circ> snd) (b_newest ?b)" and acked: "acked = b_discarded ?b"
    using assms by (simp_all add: batch_result_def)
  have dec: "Decoded t \<in> set items \<longleftrightarrow> (\<exists>k. map_of (b_newest ?b) k = Some t)" for t
    using newest_ok_kept [of ms] by (force simp: items newest_ok_def)
  have ok: "map_of (b_newest ?b) k = Some t \<Longrightarrow> t_session t = k \<and> verdict (t_message t) = Consider t" for k t
    using newest_ok_kept [of ms] unfolding newest_ok_def by blast
  have "map item_message items = b_retained ?b @ map (t_message \<circ> snd) (b_newest ?b)"
    by (simp add: items comp_def)
  then show "mset (map item_message items) + mset acked = mset ms" using partition_kept [of ms] acked by simp
  show "Plain m \<in> set items \<longleftrightarrow> m \<in> set ms \<and> verdict m = Retain"
    using retained_kept [of ms] by (auto simp: items)
  show "Decoded t \<in> set items \<Longrightarrow> verdict (t_message t) = Consider t" using dec ok by blast
  show "Decoded t \<in> set items \<Longrightarrow> Decoded t' \<in> set items \<Longrightarrow> t_session t = t_session t' \<Longrightarrow> t = t'"
    unfolding dec using ok by (metis option.inject)
  show "m \<in> set ms \<Longrightarrow> verdict m = Consider t \<Longrightarrow>
           \<exists>t'. Decoded t' \<in> set items \<and> t_session t' = t_session t \<and> t_version t \<le> t_version t'"
    using covered_kept ok unfolding dec covered_def by blast
  show "m \<in> set acked \<Longrightarrow> verdict m \<noteq> Retain" using discarded_kept acked by blast
qed

end

interpretation pages: newest_filter "page_view_step decode sha256 now max_age" "page_view_verdict decode sha256 now max_age"
  for decode sha256 now max_age
  by unfold_locales
    (auto simp: page_view_step_def page_view_verdict_def Let_def decode_trigger_message split: sum.splits if_splits)

interpretation carts: newest_filter "cart_step decode sha256" "cart_verdict decode sha256" for decode sha256
  by unfold_locales
    (auto simp: cart_step_def cart_verdict_def decode_trigger_message split: sum.splits if_splits)

section \<open>Properties\<close>

text \<open>A concrete decoder for the witnesses: a message body is a session followed by its version.\<close>

definition sample_decode :: decoder where
  "sample_decode b = (case b of
      [s, v] \<Rightarrow> Inr \<lparr>message_id = b, message_type = [], occurred_seconds = 0, occurred_nanos = 0,
                 aggregate_type = ''storefront-session'', aggregate_id = [s], aggregate_version = int (of_char v),
                 correlation_id = [], causation_id = [], traceparent = [], tracestate = [],
                 data = StorefrontPageViewed [s] ''p''\<rparr>
    | _ \<Rightarrow> raise ValueError ''malformed'')"

definition sample_view :: "string \<Rightarrow> nat \<Rightarrow> message" where
  "sample_view b n = \<lparr>subject = PAGE_VIEW_SUBJECT, body = b, delivery = n\<rparr>"

text \<open>C9. Coalescing of page views: of the messages of a batch each is either handed on or
  acknowledged, exactly once; messages that cannot be decoded are always handed on (so that they
  are logged and redelivered); at most one trigger per session is handed on; and a message that
  is acknowledged without processing is either older than the limit or superseded by a trigger
  that is handed on for the same session with the same or a later context version.\<close>

theorem fresh_page_views_correct:
  assumes "fresh_page_views decode sha256 now max_age ms = Inr (items, acked)"
  shows "mset (map item_message items) + mset acked = mset ms \<and>
     (\<forall>m. m \<in> set ms \<and> (\<exists>e. decode_trigger decode sha256 m = Inl e) \<longrightarrow> Plain m \<in> set items) \<and>
     (\<forall>t t'. Decoded t \<in> set items \<and> Decoded t' \<in> set items \<and> t_session t = t_session t' \<longrightarrow> t = t') \<and>
     (\<forall>m. m \<in> set acked \<longrightarrow> (\<exists>t. decode_trigger decode sha256 m = Inr t \<and>
        (max_age < now - trigger_time (t_envelope t) \<or>
         (\<exists>t'. Decoded t' \<in> set items \<and> t_session t' = t_session t \<and> t_version t \<le> t_version t'))))"
proof -
  have r: "batch_result (pages.kept decode sha256 now max_age ms) = (items, acked)"
    using assms by (auto simp: fresh_page_views_def pages.kept_def split: if_splits)
  note F = pages.filter_result [OF r]
  have "\<exists>t. decode_trigger decode sha256 m = Inr t \<and>
        (max_age < now - trigger_time (t_envelope t) \<or>
         (\<exists>t'. Decoded t' \<in> set items \<and> t_session t' = t_session t \<and> t_version t \<le> t_version t'))"
    if m: "m \<in> set acked" for m
  proof -
    have "m \<in> set ms" using F(1) m by (metis set_mset_mset union_iff)
    then show ?thesis using F(6) [OF m] F(5) [of m]
      by (auto simp: page_view_verdict_def split: sum.splits if_splits)
  qed
  moreover have "Plain m \<in> set items" if "m \<in> set ms" "decode_trigger decode sha256 m = Inl e" for m e
    using F(2) that by (simp add: page_view_verdict_def)
  ultimately show ?thesis using F(1,4) by blast
qed

theorem fresh_page_views_correct_witness:
  "\<exists>items acked. fresh_page_views sample_decode (\<lambda>_. []) 100 5
       [sample_view ''aA'' 1, sample_view ''bA'' 2, sample_view ''aB'' 3, sample_view ''x'' 4] = Inr (items, acked) \<and>
     mset (map item_message items) + mset acked
       = mset [sample_view ''aA'' 1, sample_view ''bA'' 2, sample_view ''aB'' 3, sample_view ''x'' 4] \<and>
     acked = [sample_view ''aA'' 1]"
proof -
  let ?ms = "[sample_view ''aA'' 1, sample_view ''bA'' 2, sample_view ''aB'' 3, sample_view ''x'' 4]"
  let ?r = "batch_result (fold (page_view_step sample_decode (\<lambda>_. []) 100 5) ?ms empty_batch)"
  have f: "fresh_page_views sample_decode (\<lambda>_. []) 100 5 ?ms = Inr (fst ?r, snd ?r)"
    by (simp add: fresh_page_views_def)
  have "snd ?r = [sample_view ''aA'' 1]" by code_simp
  then show ?thesis using f fresh_page_views_correct [OF f] by blast
qed

text \<open>Coalescing of cart events: the same partition, an event that is not a cart change or cannot
  be decoded is always handed on, one trigger per user, and every acknowledged event is superseded
  by one of the same user that is handed on with the same or a later version.\<close>

theorem latest_cart_triggers_correct:
  assumes "latest_cart_triggers decode sha256 ms = (items, acked)"
  shows "mset (map item_message items) + mset acked = mset ms \<and>
     (\<forall>t t'. Decoded t \<in> set items \<and> Decoded t' \<in> set items \<and> t_session t = t_session t' \<longrightarrow> t = t') \<and>
     (\<forall>m. m \<in> set acked \<longrightarrow>
        subject m \<in> {''boutique.evt.cart.item-added.v1'', ''boutique.evt.cart.cleared.v1''} \<and>
        (\<exists>t t'. decode_trigger decode sha256 m = Inr t \<and> Decoded t' \<in> set items \<and>
                t_session t' = t_session t \<and> t_version t \<le> t_version t'))"
proof -
  have r: "batch_result (carts.kept decode sha256 ms) = (items, acked)"
    using assms by (simp add: latest_cart_triggers_def carts.kept_def)
  note F = carts.filter_result [OF r]
  have "subject m \<in> {''boutique.evt.cart.item-added.v1'', ''boutique.evt.cart.cleared.v1''} \<and>
        (\<exists>t t'. decode_trigger decode sha256 m = Inr t \<and> Decoded t' \<in> set items \<and>
                t_session t' = t_session t \<and> t_version t \<le> t_version t')"
    if m: "m \<in> set acked" for m
  proof -
    have "m \<in> set ms" using F(1) m by (metis set_mset_mset union_iff)
    then show ?thesis using F(6) [OF m] F(5) [of m]
      by (auto simp: cart_verdict_def split: sum.splits if_splits)
  qed
  then show ?thesis using F(1,4) by blast
qed

theorem latest_cart_triggers_correct_witness:
  "\<exists>items acked. latest_cart_triggers sample_decode (\<lambda>_. []) [sample_view ''aA'' 1, sample_view ''aB'' 2] = (items, acked) \<and>
     mset (map item_message items) + mset acked = mset [sample_view ''aA'' 1, sample_view ''aB'' 2]"
proof -
  obtain items acked where r: "latest_cart_triggers sample_decode (\<lambda>_. []) [sample_view ''aA'' 1, sample_view ''aB'' 2]
      = (items, acked)" by fastforce
  then show ?thesis using latest_cart_triggers_correct [OF r] by blast
qed

lemma and_mask_less: "n AND 0x7fffffffffffffff < (2::nat) ^ 63"
proof -
  have "n AND 0x7fffffffffffffff = take_bit 63 n"
    by (simp add: take_bit_eq_mask mask_eq_exp_minus_1)
  then show ?thesis using take_bit_nat_less_exp [of 63 n] by metis
qed

text \<open>The context version of a trigger is a positive 64-bit signed number whenever the session
  version and the timestamp of the envelope are: the fallback from the digest never yields zero
  and never sets the sign bit.\<close>

theorem context_version_positive_int64:
  assumes "0 \<le> aggregate_version e" and "aggregate_version e < 2 ^ 63"
    and "0 \<le> occurred_seconds e" and "occurred_seconds e < 9223372036"
    and "0 \<le> occurred_nanos e" and "occurred_nanos e < 1000000000"
  shows "0 < context_version sha256 e \<and> context_version sha256 e < 2 ^ 63"
proof -
  have "int (n AND 0x7fffffffffffffff) < 2 ^ 63" for n
    using and_mask_less [of n] by (metis of_nat_less_iff of_nat_numeral of_nat_power)
  then show ?thesis using assms by (auto simp: context_version_def Let_def)
qed

theorem context_version_positive_int64_witness:
  "0 < context_version (\<lambda>_. [255, 255, 255, 255, 255, 255, 255, 255])
       \<lparr>message_id = ''m'', message_type = [], occurred_seconds = 0, occurred_nanos = 0, aggregate_type = [],
        aggregate_id = [], aggregate_version = 0, correlation_id = [], causation_id = [], traceparent = [],
        tracestate = [], data = OtherPayload\<rparr>"
  using context_version_positive_int64
    [of "\<lparr>message_id = ''m'', message_type = [], occurred_seconds = 0, occurred_nanos = 0, aggregate_type = [],
        aggregate_id = [], aggregate_version = 0, correlation_id = [], causation_id = [], traceparent = [],
        tracestate = [], data = OtherPayload\<rparr>"] by simp

end
