(* ===== verification/Rec_Worker.thy ===== *)
theory Rec_Worker
  imports Rec_Events
begin

text \<open>
  The two concurrent parts of the recommendation worker, \<open>src/recommendationservice/nats_events.py\<close>:
  the catalog cache that many handlers share (\<open>_CatalogCache\<close>) and the pull consumer with its
  bounded queue and worker tasks (\<open>_consume\<close>), as step relations whose atomic steps are the
  stretches of code between two \<open>await\<close>s.
\<close>

section \<open>The catalog cache\<close>

type_synonym snapshot = "string list \<times> int"

text \<open>Where a call of \<open>candidates\<close> is: before its first check, waiting for the lock, reading the
  catalog with the lock held, or finished with the snapshot it serves from or with an exception.\<close>

datatype caller =
    Entering
  | AtLock
  | Refreshing
  | Serving snapshot
  | Refused exn

record cache =
  c_value :: "snapshot option"
  c_refreshed_at :: rat
  c_refresh_seconds :: rat
  c_lock :: "nat option"

text \<open>\<open>__init__\<close>: a negative refresh interval is refused.\<close>

definition new_cache :: "rat \<Rightarrow> cache result" where
  "new_cache refresh_seconds =
     (if refresh_seconds < 0 then raise ValueError ''RECOMMENDATION_CATALOG_CACHE_REFRESH must not be negative''
      else Inr \<lparr>c_value = None, c_refreshed_at = 0, c_refresh_seconds = refresh_seconds, c_lock = None\<rparr>)"

definition needs_refresh :: "rat \<Rightarrow> cache \<Rightarrow> bool" where
  "needs_refresh now c \<longleftrightarrow> c_value c = None \<or> c_refresh_seconds c \<le> now - c_refreshed_at c"

text \<open>The stretches of \<open>candidates\<close>: up to the lock, with the lock just acquired, after the read.\<close>

definition enter :: "rat \<Rightarrow> cache \<Rightarrow> caller" where
  "enter now c = (if needs_refresh now c then AtLock else case c_value c of Some v \<Rightarrow> Serving v | None \<Rightarrow> AtLock)"

definition locked :: "nat \<Rightarrow> rat \<Rightarrow> cache \<Rightarrow> caller \<times> cache" where
  "locked i now c =
     (if needs_refresh now c then (Refreshing, c\<lparr>c_lock := Some i\<rparr>)
      else (case c_value c of Some v \<Rightarrow> Serving v | None \<Rightarrow> AtLock, c))"

definition refreshed :: "rat \<Rightarrow> snapshot result \<Rightarrow> cache \<Rightarrow> caller \<times> cache" where
  "refreshed now r c = (case r of
      Inl e \<Rightarrow> (Refused e, c\<lparr>c_lock := None\<rparr>)
    | Inr v \<Rightarrow> (Serving v, c\<lparr>c_value := Some v, c_refreshed_at := now, c_lock := None\<rparr>))"

definition invalidate :: "cache \<Rightarrow> cache" where
  "invalidate c = c\<lparr>c_refreshed_at := 0\<rparr>"

text \<open>
  The shared state with the monotonic clock and, for the statements only, the history: when each
  snapshot read completed, and what each caller was served at which time.
\<close>

record cache_world =
  w_cache :: cache
  w_now :: rat
  w_callers :: "caller list"
  w_reads :: "(snapshot \<times> rat) list"
  w_served :: "(snapshot \<times> rat) list"

inductive cache_step :: "cache_world \<Rightarrow> cache_world \<Rightarrow> bool" where
  tick: "0 \<le> d \<Longrightarrow> cache_step w (w\<lparr>w_now := w_now w + d\<rparr>)"
| arrive: "cache_step w (w\<lparr>w_callers := w_callers w @ [Entering]\<rparr>)"
| enter_serve: "i < length (w_callers w) \<Longrightarrow> w_callers w ! i = Entering \<Longrightarrow>
    enter (w_now w) (w_cache w) = Serving v \<Longrightarrow>
    cache_step w (w\<lparr>w_callers := (w_callers w)[i := Serving v], w_served := (v, w_now w) # w_served w\<rparr>)"
| enter_wait: "i < length (w_callers w) \<Longrightarrow> w_callers w ! i = Entering \<Longrightarrow>
    enter (w_now w) (w_cache w) = AtLock \<Longrightarrow>
    cache_step w (w\<lparr>w_callers := (w_callers w)[i := AtLock]\<rparr>)"
| lock_serve: "i < length (w_callers w) \<Longrightarrow> w_callers w ! i = AtLock \<Longrightarrow> c_lock (w_cache w) = None \<Longrightarrow>
    locked i (w_now w) (w_cache w) = (Serving v, c') \<Longrightarrow>
    cache_step w (w\<lparr>w_callers := (w_callers w)[i := Serving v], w_cache := c', w_served := (v, w_now w) # w_served w\<rparr>)"
| lock_refresh: "i < length (w_callers w) \<Longrightarrow> w_callers w ! i = AtLock \<Longrightarrow> c_lock (w_cache w) = None \<Longrightarrow>
    locked i (w_now w) (w_cache w) = (Refreshing, c') \<Longrightarrow>
    cache_step w (w\<lparr>w_callers := (w_callers w)[i := Refreshing], w_cache := c'\<rparr>)"
| read_done: "i < length (w_callers w) \<Longrightarrow> w_callers w ! i = Refreshing \<Longrightarrow>
    refreshed (w_now w) (Inr v) (w_cache w) = (Serving v, c') \<Longrightarrow>
    cache_step w (w\<lparr>w_callers := (w_callers w)[i := Serving v], w_cache := c',
                     w_reads := (v, w_now w) # w_reads w, w_served := (v, w_now w) # w_served w\<rparr>)"
| read_failed: "i < length (w_callers w) \<Longrightarrow> w_callers w ! i = Refreshing \<Longrightarrow>
    refreshed (w_now w) (Inl e) (w_cache w) = (Refused e, c') \<Longrightarrow>
    cache_step w (w\<lparr>w_callers := (w_callers w)[i := Refused e], w_cache := c'\<rparr>)"
| event: "cache_step w (w\<lparr>w_cache := invalidate (w_cache w)\<rparr>)"

inductive cache_reachable :: "rat \<Rightarrow> cache_world \<Rightarrow> bool" for interval where
  start: "new_cache interval = Inr c \<Longrightarrow> 0 \<le> t \<Longrightarrow>
    cache_reachable interval \<lparr>w_cache = c, w_now = t, w_callers = [], w_reads = [], w_served = []\<rparr>"
| more: "cache_reachable interval w \<Longrightarrow> cache_step w w' \<Longrightarrow> cache_reachable interval w'"

text \<open>The lock is held exactly by the one caller that reads the catalog.\<close>

definition lock_ok :: "cache_world \<Rightarrow> bool" where
  "lock_ok w \<longleftrightarrow> (\<forall>i. i < length (w_callers w) \<longrightarrow>
      (w_callers w ! i = Refreshing \<longleftrightarrow> c_lock (w_cache w) = Some i)) \<and>
     (\<forall>i. c_lock (w_cache w) = Some i \<longrightarrow> i < length (w_callers w))"

text \<open>The cached value was read at a time not before the recorded refresh.\<close>

definition value_ok :: "rat \<Rightarrow> cache_world \<Rightarrow> bool" where
  "value_ok interval w \<longleftrightarrow>
     0 \<le> w_now w \<and> c_refresh_seconds (w_cache w) = interval \<and>
     (\<forall>v. c_value (w_cache w) = Some v \<longrightarrow>
        (\<exists>t. (v, t) \<in> set (w_reads w) \<and> 0 \<le> t \<and> c_refreshed_at (w_cache w) \<le> t \<and> t \<le> w_now w))"

text \<open>Everything served was read less than the refresh interval before, or by the caller itself.\<close>

definition served_ok :: "rat \<Rightarrow> cache_world \<Rightarrow> bool" where
  "served_ok interval w \<longleftrightarrow>
     (\<forall>v t. (v, t) \<in> set (w_served w) \<longrightarrow>
        (\<exists>t0. (v, t0) \<in> set (w_reads w) \<and> t0 \<le> t \<and> (t - t0 < interval \<or> t = t0)))"

lemmas cache_defs = enter_def locked_def refreshed_def invalidate_def needs_refresh_def

lemma lock_ok_step: "cache_step w w' \<Longrightarrow> lock_ok w \<Longrightarrow> lock_ok w'"
  by (induction rule: cache_step.induct)
    (auto simp: lock_ok_def cache_defs nth_append nth_list_update less_Suc_eq split: if_splits option.splits)

lemma value_ok_step: "cache_step w w' \<Longrightarrow> value_ok interval w \<Longrightarrow> value_ok interval w'"
proof (induction rule: cache_step.induct)
  case (tick d w)
  then show ?case unfolding value_ok_def by (simp, meson add_increasing2 order_trans le_add_same_cancel1)
next
  case (read_done i w v c')
  then show ?case by (auto simp: cache_defs value_ok_def intro!: exI [of _ "w_now w"])
qed (auto simp: cache_defs value_ok_def split: if_splits option.splits)

lemma served_ok_step:
  assumes "cache_step w w'" and "value_ok interval w" and "served_ok interval w"
  shows "served_ok interval w'"
  using assms
proof (induction rule: cache_step.induct)
  case (enter_serve i w v)
  then have "c_value (w_cache w) = Some v" "w_now w - c_refreshed_at (w_cache w) < interval"
    by (auto simp: cache_defs value_ok_def split: if_splits option.splits)
  then show ?case using enter_serve.prems unfolding value_ok_def served_ok_def by fastforce
next
  case (lock_serve i w v c')
  then have "c_value (w_cache w) = Some v" "w_now w - c_refreshed_at (w_cache w) < interval"
    by (auto simp: cache_defs value_ok_def split: if_splits option.splits)
  then show ?case using lock_serve.prems unfolding value_ok_def served_ok_def by fastforce
qed (fastforce simp: served_ok_def)+

lemma cache_invariant: "cache_reachable interval w \<Longrightarrow> lock_ok w \<and> value_ok interval w \<and> served_ok interval w"
proof (induction rule: cache_reachable.induct)
  case (start c t)
  then show ?case
    by (auto simp: lock_ok_def value_ok_def served_ok_def new_cache_def split: if_splits)
next
  case (more w w')
  then show ?case using lock_ok_step value_ok_step served_ok_step by blast
qed

text \<open>C7. The catalog cache, with any number of concurrent handlers, catalog events that invalidate it
  and reads that fail: every recommendation is served from a complete catalog snapshot that some
  handler read successfully, and unless the handler read it itself that snapshot was read less
  than the refresh interval before it was served; at most one handler reads the catalog at a time.\<close>

theorem catalog_cache_bounded_staleness:
  assumes "cache_reachable interval w"
  shows "(\<forall>v t. (v, t) \<in> set (w_served w) \<longrightarrow>
            (\<exists>t0. (v, t0) \<in> set (w_reads w) \<and> t0 \<le> t \<and> (t - t0 < interval \<or> t = t0))) \<and>
         (\<forall>i j. i < length (w_callers w) \<and> j < length (w_callers w) \<and>
            w_callers w ! i = Refreshing \<and> w_callers w ! j = Refreshing \<longrightarrow> i = j)"
proof
  show "\<forall>v t. (v, t) \<in> set (w_served w) \<longrightarrow>
            (\<exists>t0. (v, t0) \<in> set (w_reads w) \<and> t0 \<le> t \<and> (t - t0 < interval \<or> t = t0))"
    using cache_invariant [OF assms] unfolding served_ok_def by blast
  show "\<forall>i j. i < length (w_callers w) \<and> j < length (w_callers w) \<and>
            w_callers w ! i = Refreshing \<and> w_callers w ! j = Refreshing \<longrightarrow> i = j"
    using cache_invariant [OF assms] unfolding lock_ok_def by (metis option.inject)
qed

lemma cache_example:
  "cache_reachable 1 \<lparr>w_cache = \<lparr>c_value = Some ([''p''], 7), c_refreshed_at = 3, c_refresh_seconds = 1, c_lock = None\<rparr>,
     w_now = 3, w_callers = [Serving ([''p''], 7)], w_reads = [(([''p''], 7), 3)], w_served = [(([''p''], 7), 3)]\<rparr>"
proof -
  let ?c = "\<lparr>c_value = None, c_refreshed_at = 0, c_refresh_seconds = 1, c_lock = None\<rparr>"
  let ?w0 = "\<lparr>w_cache = ?c, w_now = 3, w_callers = [], w_reads = [], w_served = []\<rparr>"
  have r0: "cache_reachable 1 ?w0" by (rule cache_reachable.start) (simp_all add: new_cache_def)
  have r1: "cache_reachable 1 (?w0\<lparr>w_callers := [Entering]\<rparr>)"
    using cache_reachable.more [OF r0 cache_step.arrive] by simp
  have "cache_step (?w0\<lparr>w_callers := [Entering]\<rparr>) (?w0\<lparr>w_callers := [AtLock]\<rparr>)"
    using cache_step.enter_wait [of 0 "?w0\<lparr>w_callers := [Entering]\<rparr>"] by (simp add: cache_defs)
  then have r2: "cache_reachable 1 (?w0\<lparr>w_callers := [AtLock]\<rparr>)" by (rule cache_reachable.more [OF r1])
  have "cache_step (?w0\<lparr>w_callers := [AtLock]\<rparr>) (?w0\<lparr>w_callers := [Refreshing], w_cache := ?c\<lparr>c_lock := Some 0\<rparr>\<rparr>)"
    using cache_step.lock_refresh [of 0 "?w0\<lparr>w_callers := [AtLock]\<rparr>"] by (simp add: cache_defs)
  then have r3: "cache_reachable 1 (?w0\<lparr>w_callers := [Refreshing], w_cache := ?c\<lparr>c_lock := Some 0\<rparr>\<rparr>)"
    by (rule cache_reachable.more [OF r2])
  show ?thesis
    using cache_reachable.more [OF r3 cache_step.read_done [of 0 _ "([''p''], 7)"]] by (simp add: cache_defs)
qed

theorem catalog_cache_bounded_staleness_witness:
  "\<exists>t0. ((([''p''], 7) :: snapshot), t0) \<in> set [(([''p''], 7), 3 :: rat)] \<and> t0 \<le> 3 \<and> (3 - t0 < 1 \<or> 3 = t0)"
  using catalog_cache_bounded_staleness [OF cache_example] by simp

section \<open>The pull consumer\<close>

text \<open>
  \<open>_consume\<close>: the fetch loop hands the items of a filtered batch to a queue of bounded size, and
  worker tasks take items from it and process them. \<open>pending\<close> are the items of the current batch
  not yet put, \<open>busy\<close> those being processed; the history records what was fetched and what was
  acknowledged, handed back, or left to the server's redelivery because its worker died.
\<close>

record consumer =
  k_pending :: "item list"
  k_queue :: "item list"
  k_busy :: "item list"
  k_workers :: nat
  k_stopping :: bool
  k_fetched :: "message list"
  k_acked :: "message list"
  k_naked :: "message list"
  k_unresolved :: "message list"

definition new_consumer :: "int \<Rightarrow> int \<Rightarrow> consumer result" where
  "new_consumer batch_size concurrency =
     (if batch_size < 1 \<or> 256 < batch_size
      then raise ValueError ''NATS_CONSUMER_BATCH_SIZE must be between 1 and 256''
      else if concurrency < 1 \<or> 64 < concurrency
      then raise ValueError ''NATS_CONSUMER_CONCURRENCY must be between 1 and 64''
      else Inr \<lparr>k_pending = [], k_queue = [], k_busy = [], k_workers = nat concurrency, k_stopping = False,
                k_fetched = [], k_acked = [], k_naked = [], k_unresolved = []\<rparr>)"

text \<open>How processing of an item may end: \<open>process_message\<close> acknowledged it, handed it back, or raised.\<close>

datatype ending = Acknowledged | HandedBack | Died

definition take_item :: "consumer \<Rightarrow> consumer" where
  "take_item k = (case k_queue k of [] \<Rightarrow> k | i # q \<Rightarrow> k\<lparr>k_queue := q, k_busy := k_busy k @ [i]\<rparr>)"

definition end_item :: "nat \<Rightarrow> ending \<Rightarrow> consumer \<Rightarrow> consumer" where
  "end_item j e k =
     (let m = item_message (k_busy k ! j);
          k' = k\<lparr>k_busy := take j (k_busy k) @ drop (Suc j) (k_busy k)\<rparr>
      in case e of
           Acknowledged \<Rightarrow> k'\<lparr>k_acked := m # k_acked k\<rparr>
         | HandedBack \<Rightarrow> k'\<lparr>k_naked := m # k_naked k\<rparr>
         | Died \<Rightarrow> k'\<lparr>k_unresolved := m # k_unresolved k, k_workers := k_workers k - 1\<rparr>)"

text \<open>\<open>flt\<close> is the batch filter: the items it hands on and the messages it acknowledges itself.
  \<open>fetch\<close> is attempted only while no worker has failed and no stop is requested.\<close>

inductive consume_step ::
  "nat \<Rightarrow> nat \<Rightarrow> (message list \<Rightarrow> item list \<times> message list) \<Rightarrow> consumer \<Rightarrow> consumer \<Rightarrow> bool"
  for batch_size concurrency flt where
  fetch: "k_pending k = [] \<Longrightarrow> \<not> k_stopping k \<Longrightarrow> k_workers k = concurrency \<Longrightarrow>
    length ms \<le> batch_size \<Longrightarrow> flt ms = (items, acked) \<Longrightarrow>
    consume_step batch_size concurrency flt k
      (k\<lparr>k_pending := items, k_fetched := ms @ k_fetched k, k_acked := acked @ k_acked k\<rparr>)"
| put: "k_pending k = i # is \<Longrightarrow> length (k_queue k) < 2 * batch_size \<Longrightarrow>
    consume_step batch_size concurrency flt k (k\<lparr>k_pending := is, k_queue := k_queue k @ [i]\<rparr>)"
| take_work: "k_queue k \<noteq> [] \<Longrightarrow> length (k_busy k) < k_workers k \<Longrightarrow>
    consume_step batch_size concurrency flt k (take_item k)"
| end_work: "j < length (k_busy k) \<Longrightarrow> consume_step batch_size concurrency flt k (end_item j e k)"
| stop: "consume_step batch_size concurrency flt k (k\<lparr>k_stopping := True\<rparr>)"

inductive consume_reachable ::
  "int \<Rightarrow> int \<Rightarrow> (message list \<Rightarrow> item list \<times> message list) \<Rightarrow> consumer \<Rightarrow> bool"
  for batch_size concurrency flt where
  start_consumer: "new_consumer batch_size concurrency = Inr k \<Longrightarrow> consume_reachable batch_size concurrency flt k"
| more_consumer: "consume_reachable batch_size concurrency flt k \<Longrightarrow>
    consume_step (nat batch_size) (nat concurrency) flt k k' \<Longrightarrow> consume_reachable batch_size concurrency flt k'"

text \<open>A filter that loses nothing.\<close>

definition partitions :: "(message list \<Rightarrow> item list \<times> message list) \<Rightarrow> bool" where
  "partitions flt \<longleftrightarrow> (\<forall>ms items acked. flt ms = (items, acked) \<longrightarrow>
      mset (map item_message items) + mset acked = mset ms)"

definition accounted :: "consumer \<Rightarrow> message multiset" where
  "accounted k = mset (map item_message (k_pending k)) + mset (map item_message (k_queue k)) +
     mset (map item_message (k_busy k)) + mset (k_acked k) + mset (k_naked k) + mset (k_unresolved k)"

definition consumer_ok :: "nat \<Rightarrow> nat \<Rightarrow> consumer \<Rightarrow> bool" where
  "consumer_ok batch_size concurrency k \<longleftrightarrow>
     accounted k = mset (k_fetched k) \<and> length (k_queue k) \<le> 2 * batch_size \<and>
     length (k_busy k) \<le> k_workers k \<and> k_workers k \<le> concurrency \<and>
     length (k_unresolved k) + k_workers k = concurrency"

lemma mset_remove_nth:
  "j < length xs \<Longrightarrow> mset (map f xs) = add_mset (f (xs ! j)) (mset (map f (take j xs @ drop (Suc j) xs)))"
  by (subst id_take_nth_drop [of j xs]) simp_all

lemma accounted_end:
  assumes "j < length (k_busy k)"
  shows "accounted (end_item j e k) = accounted k"
  using mset_remove_nth [OF assms, of item_message]
  by (cases e) (simp_all add: accounted_def end_item_def Let_def)

lemma consumer_ok_step:
  assumes "consume_step b c flt k k'" and "partitions flt" and "consumer_ok b c k"
  shows "consumer_ok b c k'"
  using assms
proof (induction rule: consume_step.induct)
  case (fetch k ms items acked)
  then have "mset (map item_message items) + mset acked = mset ms" unfolding partitions_def by blast
  then have "accounted (k\<lparr>k_pending := items, k_fetched := ms @ k_fetched k, k_acked := acked @ k_acked k\<rparr>)
      = mset ms + accounted k"
    using fetch.hyps(1) by (simp add: accounted_def ac_simps)
  then show ?case using fetch.prems(2) by (simp add: consumer_ok_def)
next
  case (put k i "is")
  then show ?case by (simp add: consumer_ok_def accounted_def)
next
  case (take_work k)
  then show ?case by (auto simp: consumer_ok_def accounted_def take_item_def split: list.splits)
next
  case (end_work j k e)
  then show ?case using accounted_end [OF end_work.hyps, of e]
    by (cases e) (auto simp: consumer_ok_def end_item_def Let_def)
qed (simp add: consumer_ok_def accounted_def)

lemma consumer_invariant:
  "consume_reachable b c flt k \<Longrightarrow> partitions flt \<Longrightarrow> consumer_ok (nat b) (nat c) k"
proof (induction rule: consume_reachable.induct)
  case (start_consumer k)
  then show ?case by (auto simp: new_consumer_def consumer_ok_def accounted_def split: if_splits)
next
  case (more_consumer k k')
  then show ?case using consumer_ok_step by blast
qed

lemma cart_partitions: "partitions (latest_cart_triggers decode sha256)"
  unfolding partitions_def latest_cart_triggers_def
  using carts.filter_result(1) [of decode sha256] by (simp add: carts.kept_def)


definition other_message :: message where
  "other_message = \<lparr>subject = ''boutique.evt.cart.expired.v1'', body = [], delivery = 1\<rparr>"

definition example_consumer :: consumer where
  "example_consumer =
     \<lparr>k_pending = [], k_queue = [], k_busy = [], k_workers = 1, k_stopping = False, k_fetched = [other_message],
      k_acked = [other_message], k_naked = [], k_unresolved = []\<rparr>"

lemma example_consumer_reachable:
  "consume_reachable 1 1 (latest_cart_triggers sample_decode (\<lambda>_. [])) example_consumer"
proof -
  let ?f = "latest_cart_triggers sample_decode (\<lambda>_. [])"
  let ?k = "\<lparr>k_pending = [], k_queue = [], k_busy = [], k_workers = 1, k_stopping = False, k_fetched = [],
      k_acked = [], k_naked = [], k_unresolved = []\<rparr>"
  have f: "?f [other_message] = ([Plain other_message], [])"
    by (simp add: latest_cart_triggers_def batch_result_def cart_step_def empty_batch_def other_message_def)
  have r0: "consume_reachable 1 1 ?f ?k" by (rule start_consumer) (simp add: new_consumer_def)
  have "consume_step 1 1 ?f ?k (?k\<lparr>k_pending := [Plain other_message], k_fetched := [other_message]\<rparr>)"
    using fetch [of ?k 1 "[other_message]" 1 ?f, OF _ _ _ _ f] by simp
  then have r1: "consume_reachable 1 1 ?f (?k\<lparr>k_pending := [Plain other_message], k_fetched := [other_message]\<rparr>)"
    using more_consumer [OF r0] by simp
  have "consume_step 1 1 ?f (?k\<lparr>k_pending := [Plain other_message], k_fetched := [other_message]\<rparr>)
      (?k\<lparr>k_queue := [Plain other_message], k_fetched := [other_message]\<rparr>)"
    using put [of "?k\<lparr>k_pending := [Plain other_message], k_fetched := [other_message]\<rparr>"] by simp
  then have r2: "consume_reachable 1 1 ?f (?k\<lparr>k_queue := [Plain other_message], k_fetched := [other_message]\<rparr>)"
    using more_consumer [OF r1] by simp
  have "consume_step 1 1 ?f (?k\<lparr>k_queue := [Plain other_message], k_fetched := [other_message]\<rparr>)
      (?k\<lparr>k_busy := [Plain other_message], k_fetched := [other_message]\<rparr>)"
    using take_work [of "?k\<lparr>k_queue := [Plain other_message], k_fetched := [other_message]\<rparr>"]
    by (simp add: take_item_def)
  then have r3: "consume_reachable 1 1 ?f (?k\<lparr>k_busy := [Plain other_message], k_fetched := [other_message]\<rparr>)"
    using more_consumer [OF r2] by simp
  show ?thesis
    using more_consumer [OF r3 end_work [of 0 _ _ _ _ Acknowledged]]
    by (simp add: end_item_def example_consumer_def)
qed


end
