(* ===== verification/Bench_Config.thy ===== *)
theory Bench_Config
  imports Prelude
begin

text \<open>
  The benchmark service's request validation and work split, \<open>src/benchmarkservice/config.py\<close>:
  parsing of loosely typed values, \<open>BenchmarkConfig\<close> and the derived quantities, and \<open>for_worker\<close>,
  which divides a benchmark over parallel workers.

  \<open>urlparse\<close> is modelled for the components the code looks at; the check that a bracketed host is an
  IPv6 address is left out.
\<close>

section \<open>Values of a request\<close>

abbreviation config_error :: "string \<Rightarrow> 'a result" where
  "config_error m \<equiv> raise ConfigError m"

definition integer :: "dict \<Rightarrow> string \<Rightarrow> int \<Rightarrow> int \<Rightarrow> int \<Rightarrow> int result" where
  "integer values name fallback minimum maximum =
     (let raw = dict_get values name (JInt fallback) in
      if \<exists>b. raw = JBool b then config_error (name @ '' must be an integer'')
      else case py_int raw of
        Inl e \<Rightarrow> if exn_cls e \<in> {TypeError, ValueError} then config_error (name @ '' must be an integer'') else Inl e
      | Inr value \<Rightarrow>
          if value < minimum \<or> maximum < value
          then config_error (name @ '' must be between '' @ show_int minimum @ '' and '' @ show_int maximum)
          else Inr value)"

definition number :: "dict \<Rightarrow> string \<Rightarrow> rat \<Rightarrow> rat \<Rightarrow> rat \<Rightarrow> pyfloat result" where
  "number values name fallback minimum maximum =
     (let raw = dict_get values name (JFloat (Fin fallback)) in
      if \<exists>b. raw = JBool b then config_error (name @ '' must be a number'')
      else case py_float raw of
        Inl e \<Rightarrow> if exn_cls e \<in> {TypeError, ValueError} then config_error (name @ '' must be a number'') else Inl e
      | Inr value \<Rightarrow>
          if f_lt value (Fin minimum) \<or> f_lt (Fin maximum) value
          then config_error (name @ '' must be between '' @ show_rat minimum @ '' and '' @ show_rat maximum)
          else Inr value)"

definition boolean :: "dict \<Rightarrow> string \<Rightarrow> bool \<Rightarrow> bool result" where
  "boolean values name fallback =
     (case dict_get values name (JBool fallback) of
        JBool b \<Rightarrow> Inr b
      | JStr s \<Rightarrow>
          let normalized = lower (strip s) in
          if normalized \<in> {''1'', ''true'', ''yes'', ''on''} then Inr True
          else if normalized \<in> {''0'', ''false'', ''no'', ''off''} then Inr False
          else config_error (name @ '' must be a boolean'')
      | _ \<Rightarrow> config_error (name @ '' must be a boolean''))"

lemma is_bool_code [code_unfold]: "(\<exists>b. v = JBool b) \<longleftrightarrow> (case v of JBool _ \<Rightarrow> True | _ \<Rightarrow> False)"
  by (cases v) auto

section \<open>URLs\<close>

record url_parts =
  u_scheme :: string
  u_netloc :: string
  u_username :: string
  u_password :: string
  u_query :: string
  u_fragment :: string

definition is_alpha :: "char \<Rightarrow> bool" where
  "is_alpha c = (let n = of_char (to_lower c) :: nat in 97 \<le> n \<and> n \<le> 122)"

definition scheme_char :: "char \<Rightarrow> bool" where
  "scheme_char c \<longleftrightarrow> is_alpha c \<or> digit_val c \<noteq> None \<or> c \<in> set ''+-.''"

definition split_scheme :: "string \<Rightarrow> string \<times> string" where
  "split_scheme url =
     (let (a, found, rest) = partition_at (CHR '':'') url in
      if found \<and> a \<noteq> [] \<and> is_alpha (hd a) \<and> list_all scheme_char a then (lower a, rest) else ([], url))"

definition split_netloc :: "string \<Rightarrow> string \<times> string" where
  "split_netloc url =
     (if startswith url ''//''
      then (takeWhile (\<lambda>c. c \<notin> set ''/?#'') (drop 2 url), dropWhile (\<lambda>c. c \<notin> set ''/?#'') (drop 2 url))
      else ([], url))"

text \<open>\<open>rpartition("@")\<close> of the authority, and the user and password before it.\<close>

definition user_info :: "string \<Rightarrow> string \<times> string" where
  "user_info netloc =
     (if CHR ''@'' \<notin> set netloc then ([], [])
      else let info = rev (tl (dropWhile (\<lambda>c. c \<noteq> CHR ''@'') (rev netloc)));
               (user, _, password) = partition_at (CHR '':'') info
           in (user, password))"

definition urlparse :: "string \<Rightarrow> url_parts result" where
  "urlparse text =
     (let cleaned = filter (\<lambda>c. (of_char c :: nat) \<notin> {9, 10, 13}) (dropWhile (\<lambda>c. (of_char c :: nat) \<le> 32) text);
          (scheme, rest) = split_scheme cleaned;
          (netloc, tail) = split_netloc rest;
          (before_fragment, _, fragment) = partition_at (CHR ''#'') tail;
          (_, _, query) = partition_at (CHR ''?'') before_fragment;
          (user, password) = user_info netloc
      in if (CHR ''['' \<in> set netloc) \<noteq> (CHR '']'' \<in> set netloc) then raise ValueError ''Invalid IPv6 URL''
         else Inr \<lparr>u_scheme = scheme, u_netloc = netloc, u_username = user, u_password = password,
                   u_query = query, u_fragment = fragment\<rparr>)"

definition LOCAL_CLUSTER :: string where
  "LOCAL_CLUSTER = ''local''"

definition LOCAL_TARGET_URL :: string where
  "LOCAL_TARGET_URL = ''http://frontend:80''"

definition normalize_http_url :: "string \<Rightarrow> string \<Rightarrow> string result" where
  "normalize_http_url value name =
     (let candidate = strip value in
      if candidate = [] then config_error (name @ '' is required'')
      else rbind (urlparse candidate) (\<lambda>parsed.
        if u_scheme parsed \<notin> {''http'', ''https''} \<or> u_netloc parsed = []
        then config_error (name @ '' must be an absolute HTTP(S) URL'')
        else if u_username parsed \<noteq> [] \<or> u_password parsed \<noteq> [] \<or> u_query parsed \<noteq> [] \<or> u_fragment parsed \<noteq> []
        then config_error (name @ '' must not contain credentials, a query, or a fragment'')
        else Inr (rstrip_chars ''/'' candidate)))"

definition normalize_target_url :: "string \<Rightarrow> string result" where
  "normalize_target_url value =
     (if strip value = LOCAL_CLUSTER then Inr LOCAL_TARGET_URL else normalize_http_url value ''target_url'')"

definition normalize_metrics_url :: "string \<Rightarrow> string result" where
  "normalize_metrics_url value =
     (if strip value = LOCAL_CLUSTER then Inr LOCAL_CLUSTER else normalize_http_url value ''metrics_url'')"

section \<open>Configurations\<close>

record benchmark_config =
  application_type :: string
  target_url :: string
  metrics_url :: "string option"
  workload :: string
  warmup_seconds :: int
  duration_seconds :: int
  drain_seconds :: int
  users :: int
  spawn_rate :: pyfloat
  arrival_rate :: pyfloat
  saturation_start_rate :: pyfloat
  saturation_max_rate :: pyfloat
  saturation_step_seconds :: int
  outcome_timeout_seconds :: pyfloat
  settlement_timeout_seconds :: pyfloat
  resource_sample_interval_seconds :: pyfloat
  seed :: int
  collect_resources :: bool
  collect_nats_metrics :: bool

definition metrics_url_of :: "dict \<Rightarrow> string option result" where
  "metrics_url_of values =
     (let v = dict_get values ''metrics_url'' JNull;
          raw = py_str (if truthy v then v else JStr [])
      in if strip raw \<noteq> [] then rbind (normalize_metrics_url raw) (\<lambda>u. Inr (Some u)) else Inr None)"

definition from_values :: "dict \<Rightarrow> string \<Rightarrow> rat \<Rightarrow> benchmark_config result" where
  "from_values values application minimum_spawn_rate =
     (let app = upper (strip application) in
      if app \<notin> {''GRPC'', ''NATS''} then config_error ''APPLICATION_TYPE must be GRPC or NATS'' else
      let kind = lower (strip (py_str (dict_get values ''workload'' (JStr ''closed'')))) in
      if kind \<notin> {''closed'', ''open'', ''saturation'', ''fault_tolerance''}
      then config_error ''workload must be closed, open, saturation, or fault_tolerance'' else
      rbind (normalize_target_url (py_str (dict_get values ''target_url'' (JStr [])))) (\<lambda>target.
      rbind (boolean values ''collect_resources'' True) (\<lambda>resources.
      rbind (if app = ''NATS'' then boolean values ''collect_nats_metrics'' True else Inr False) (\<lambda>nats_metrics.
      rbind (metrics_url_of values) (\<lambda>metrics.
      if (resources \<or> nats_metrics) \<and> metrics = None
      then config_error ''metrics_url is required when metrics collection is enabled'' else
      rbind (number values ''resource_sample_interval_seconds'' 5 1 60) (\<lambda>interval.
      rbind (number values ''saturation_start_rate'' 10 (1 / 100) 10000) (\<lambda>start.
      rbind (number values ''saturation_max_rate'' 1000 (1 / 100) 10000) (\<lambda>maximum.
      if f_lt maximum start
      then config_error ''saturation_max_rate must be greater than or equal to saturation_start_rate'' else
      rbind (integer values ''warmup_seconds'' 30 0 3600) (\<lambda>warmup.
      rbind (integer values ''duration_seconds'' (if kind = ''saturation'' then 600 else 120) 1 3600) (\<lambda>dur.
      rbind (integer values ''drain_seconds'' 60 1 1800) (\<lambda>drain.
      rbind (integer values ''users'' 10 1 10000) (\<lambda>us.
      rbind (number values ''spawn_rate'' 1 minimum_spawn_rate 10000) (\<lambda>spawn.
      rbind (number values ''arrival_rate'' 1 (1 / 100) 10000) (\<lambda>arrival.
      rbind (integer values ''saturation_step_seconds'' 30 10 300) (\<lambda>step_seconds.
      rbind (number values ''outcome_timeout_seconds'' 30 1 1800) (\<lambda>outcome_timeout.
      rbind (number values ''settlement_timeout_seconds'' 60 1 3600) (\<lambda>settlement_timeout.
      rbind (integer values ''seed'' 1 0 2147483647) (\<lambda>sd.
        Inr \<lparr>application_type = app, target_url = target, metrics_url = metrics, workload = kind,
             warmup_seconds = warmup, duration_seconds = dur, drain_seconds = drain, users = us,
             spawn_rate = spawn, arrival_rate = arrival, saturation_start_rate = start,
             saturation_max_rate = maximum, saturation_step_seconds = step_seconds,
             outcome_timeout_seconds = outcome_timeout, settlement_timeout_seconds = settlement_timeout,
             resource_sample_interval_seconds = interval, seed = sd,
             collect_resources = resources, collect_nats_metrics = nats_metrics\<rparr>))))))))))))))))))"

definition from_request :: "dict \<Rightarrow> string \<Rightarrow> benchmark_config result" where
  "from_request values application = from_values values application (1 / 100)"

definition set_default :: "string \<Rightarrow> json \<Rightarrow> dict \<Rightarrow> dict" where
  "set_default k v d = (if dict_has d k then d else dict_set k v d)"

definition from_dict :: "dict \<Rightarrow> benchmark_config result" where
  "from_dict values =
     (let vs = set_default ''saturation_step_seconds'' (JInt 10) values
      in from_request vs (py_str (dict_get vs ''application_type'' (JStr []))))"

definition from_worker_dict :: "dict \<Rightarrow> benchmark_config result" where
  "from_worker_dict values =
     (let vs = set_default ''saturation_step_seconds'' (JInt 10) values
      in from_values vs (py_str (dict_get vs ''application_type'' (JStr []))) (1 / 1000))"

definition as_dict_config :: "benchmark_config \<Rightarrow> dict" where
  "as_dict_config c =
     [(''application_type'', JStr (application_type c)), (''target_url'', JStr (target_url c)),
      (''metrics_url'', case metrics_url c of None \<Rightarrow> JNull | Some u \<Rightarrow> JStr u),
      (''workload'', JStr (workload c)), (''warmup_seconds'', JInt (warmup_seconds c)),
      (''duration_seconds'', JInt (duration_seconds c)), (''drain_seconds'', JInt (drain_seconds c)),
      (''users'', JInt (users c)), (''spawn_rate'', JFloat (spawn_rate c)),
      (''arrival_rate'', JFloat (arrival_rate c)),
      (''saturation_start_rate'', JFloat (saturation_start_rate c)),
      (''saturation_max_rate'', JFloat (saturation_max_rate c)),
      (''saturation_step_seconds'', JInt (saturation_step_seconds c)),
      (''outcome_timeout_seconds'', JFloat (outcome_timeout_seconds c)),
      (''settlement_timeout_seconds'', JFloat (settlement_timeout_seconds c)),
      (''resource_sample_interval_seconds'', JFloat (resource_sample_interval_seconds c)),
      (''seed'', JInt (seed c)), (''collect_resources'', JBool (collect_resources c)),
      (''collect_nats_metrics'', JBool (collect_nats_metrics c))]"

section \<open>Derived quantities\<close>

definition submission_seconds :: "benchmark_config \<Rightarrow> int" where
  "submission_seconds c = warmup_seconds c + duration_seconds c"

definition run_seconds :: "benchmark_config \<Rightarrow> int" where
  "run_seconds c = submission_seconds c + drain_seconds c"

definition saturation_step_count :: "benchmark_config \<Rightarrow> int result" where
  "saturation_step_count c =
     (if saturation_step_seconds c = 0 then raise ZeroDivisionError ''division by zero''
      else Inr \<lceil>(of_int (duration_seconds c) / of_int (saturation_step_seconds c) :: rat)\<rceil>)"

definition saturation_effective_max_rate :: "benchmark_config \<Rightarrow> pyfloat result" where
  "saturation_effective_max_rate c =
     rbind (saturation_step_count c) (\<lambda>n.
       Inr (f_min (saturation_max_rate c)
                  (f_add (saturation_start_rate c) (Fin (of_int (n - 1) * 10)))))"

definition worker_count :: "benchmark_config \<Rightarrow> int result" where
  "worker_count c =
     (if workload c \<in> {''open'', ''fault_tolerance''}
      then rbind (f_ceil (f_scale (1 / 50) (arrival_rate c))) (\<lambda>n. Inr (max 1 n))
      else if workload c = ''saturation''
      then rbind (saturation_effective_max_rate c) (\<lambda>r. rbind (f_ceil (f_scale (1 / 50) r)) (\<lambda>n. Inr (max 1 n)))
      else Inr (max 1 \<lceil>(of_int (users c) / 1000 :: rat)\<rceil>))"

definition worker_share :: "benchmark_config \<Rightarrow> int \<Rightarrow> int \<Rightarrow> benchmark_config" where
  "worker_share c workers index =
     (let common = c\<lparr>seed := (seed c + index) mod 2147483648,
                     collect_resources := collect_resources c \<and> index = 0,
                     collect_nats_metrics := collect_nats_metrics c \<and> index = 0\<rparr>
      in if workload c \<in> {''open'', ''fault_tolerance''}
         then common\<lparr>arrival_rate := f_min (Fin 50) (f_sub (arrival_rate c) (Fin (of_int index * 50)))\<rparr>
         else if workload c = ''saturation'' then common
         else common\<lparr>users := users c div workers + (if index < users c mod workers then 1 else 0),
                      spawn_rate := f_scale (1 / of_int workers) (spawn_rate c)\<rparr>)"

definition for_worker :: "benchmark_config \<Rightarrow> int \<Rightarrow> benchmark_config result" where
  "for_worker c index =
     rbind (worker_count c) (\<lambda>workers.
       if index < 0 \<or> workers \<le> index
       then raise IndexError (''worker index '' @ show_int index @ '' is outside [0, '' @ show_int workers @ '')'')
       else Inr (worker_share c workers index))"

lemma for_worker_Inr:
  "for_worker c i = Inr w \<longleftrightarrow> (\<exists>n. worker_count c = Inr n \<and> 0 \<le> i \<and> i < n \<and> w = worker_share c n i)"
  by (auto simp: for_worker_def)

lemma worker_share_same [simp]:
  "target_url (worker_share c n i) = target_url c" "metrics_url (worker_share c n i) = metrics_url c"
  "seed (worker_share c n i) = (seed c + i) mod 2147483648"
  "collect_resources (worker_share c n i) \<longleftrightarrow> collect_resources c \<and> i = 0"
  "collect_nats_metrics (worker_share c n i) \<longleftrightarrow> collect_nats_metrics c \<and> i = 0"
  by (simp_all add: worker_share_def Let_def)

section \<open>Bounds\<close>

text \<open>A float inside its limits, or NaN, which no comparison excludes.\<close>

fun float_in :: "rat \<Rightarrow> rat \<Rightarrow> pyfloat \<Rightarrow> bool" where
  "float_in lo hi (Fin q) = (lo \<le> q \<and> q \<le> hi)"
| "float_in lo hi NaN = True"
| "float_in lo hi _ = False"

definition valid_config :: "rat \<Rightarrow> benchmark_config \<Rightarrow> bool" where
  "valid_config minimum_spawn c \<longleftrightarrow>
     application_type c \<in> {''GRPC'', ''NATS''} \<and>
     workload c \<in> {''closed'', ''open'', ''saturation'', ''fault_tolerance''} \<and>
     (application_type c = ''GRPC'' \<longrightarrow> \<not> collect_nats_metrics c) \<and>
     (collect_resources c \<or> collect_nats_metrics c \<longrightarrow> metrics_url c \<noteq> None) \<and>
     0 \<le> warmup_seconds c \<and> warmup_seconds c \<le> 3600 \<and>
     1 \<le> duration_seconds c \<and> duration_seconds c \<le> 3600 \<and>
     1 \<le> drain_seconds c \<and> drain_seconds c \<le> 1800 \<and>
     1 \<le> users c \<and> users c \<le> 10000 \<and>
     float_in minimum_spawn 10000 (spawn_rate c) \<and> float_in (1 / 100) 10000 (arrival_rate c) \<and>
     float_in (1 / 100) 10000 (saturation_start_rate c) \<and> float_in (1 / 100) 10000 (saturation_max_rate c) \<and>
     \<not> f_lt (saturation_max_rate c) (saturation_start_rate c) \<and>
     10 \<le> saturation_step_seconds c \<and> saturation_step_seconds c \<le> 300 \<and>
     float_in 1 1800 (outcome_timeout_seconds c) \<and> float_in 1 3600 (settlement_timeout_seconds c) \<and>
     float_in 1 60 (resource_sample_interval_seconds c) \<and>
     0 \<le> seed c \<and> seed c \<le> 2147483647"

lemma integer_bounds: "integer vs n d lo hi = Inr v \<Longrightarrow> lo \<le> v \<and> v \<le> hi"
  by (auto simp: integer_def Let_def split: if_splits sum.splits)

lemma float_in_iff: "float_in lo hi f \<longleftrightarrow> \<not> f_lt f (Fin lo) \<and> \<not> f_lt (Fin hi) f"
  by (cases f) auto

lemma number_bounds: "number vs n d lo hi = Inr f \<Longrightarrow> float_in lo hi f"
  by (auto simp: number_def float_in_iff Let_def split: if_splits sum.splits)

lemmas value_bounds = integer_bounds number_bounds

text \<open>What an accepted request tells about the result, field by field.\<close>

lemmas from_values_unfold = from_values_def Let_def if_raise_eq rbind_eq_Inr sum.inject(2)

lemma from_values_valid:
  assumes "from_values vs app m = Inr c"
  shows "valid_config m c"
  using assms unfolding from_values_unfold
  apply (elim exE conjE)
  apply hypsubst
  apply (drule integer_bounds number_bounds)+
  apply (unfold valid_config_def benchmark_config.select_convs)
  apply (elim conjE)
  apply (intro conjI)
  apply (assumption | blast | (rule impI, simp; fail))+
  done

lemma from_values_urls:
  assumes "from_values vs app m = Inr c"
  shows "normalize_target_url (py_str (dict_get vs ''target_url'' (JStr []))) = Inr (target_url c) \<and>
         metrics_url_of vs = Inr (metrics_url c)"
  using assms unfolding from_values_unfold
  apply (elim exE conjE)
  apply hypsubst
  apply (unfold benchmark_config.select_convs)
  apply (intro conjI; assumption)
  done

section \<open>Loading a stored configuration\<close>

text \<open>URLs that normalisation leaves alone.\<close>

definition stable_urls :: "benchmark_config \<Rightarrow> bool" where
  "stable_urls c \<longleftrightarrow>
     normalize_target_url (target_url c) = Inr (target_url c) \<and>
     (\<forall>u. metrics_url c = Some u \<longrightarrow> strip u \<noteq> [] \<and> normalize_metrics_url u = Inr u)"

lemma integer_read: "dict_get d k (JInt v) = JInt w \<Longrightarrow> lo \<le> w \<Longrightarrow> w \<le> hi \<Longrightarrow> integer d k v lo hi = Inr w"
  by (simp add: integer_def)

lemma number_read: "dict_get d k (JFloat (Fin v)) = JFloat f \<Longrightarrow> float_in lo hi f \<Longrightarrow> number d k v lo hi = Inr f"
  by (simp add: number_def float_in_iff)

lemma boolean_read: "dict_get d k (JBool v) = JBool b \<Longrightarrow> boolean d k v = Inr b"
  by (simp add: boolean_def)

lemma as_dict_get:
  "dict_get (as_dict_config c) ''application_type'' x = JStr (application_type c)"
  "dict_get (as_dict_config c) ''target_url'' x = JStr (target_url c)"
  "dict_get (as_dict_config c) ''metrics_url'' x = (case metrics_url c of None \<Rightarrow> JNull | Some u \<Rightarrow> JStr u)"
  "dict_get (as_dict_config c) ''workload'' x = JStr (workload c)"
  "dict_get (as_dict_config c) ''warmup_seconds'' x = JInt (warmup_seconds c)"
  "dict_get (as_dict_config c) ''duration_seconds'' x = JInt (duration_seconds c)"
  "dict_get (as_dict_config c) ''drain_seconds'' x = JInt (drain_seconds c)"
  "dict_get (as_dict_config c) ''users'' x = JInt (users c)"
  "dict_get (as_dict_config c) ''spawn_rate'' x = JFloat (spawn_rate c)"
  "dict_get (as_dict_config c) ''arrival_rate'' x = JFloat (arrival_rate c)"
  "dict_get (as_dict_config c) ''saturation_start_rate'' x = JFloat (saturation_start_rate c)"
  "dict_get (as_dict_config c) ''saturation_max_rate'' x = JFloat (saturation_max_rate c)"
  "dict_get (as_dict_config c) ''saturation_step_seconds'' x = JInt (saturation_step_seconds c)"
  "dict_get (as_dict_config c) ''outcome_timeout_seconds'' x = JFloat (outcome_timeout_seconds c)"
  "dict_get (as_dict_config c) ''settlement_timeout_seconds'' x = JFloat (settlement_timeout_seconds c)"
  "dict_get (as_dict_config c) ''resource_sample_interval_seconds'' x = JFloat (resource_sample_interval_seconds c)"
  "dict_get (as_dict_config c) ''seed'' x = JInt (seed c)"
  "dict_get (as_dict_config c) ''collect_resources'' x = JBool (collect_resources c)"
  "dict_get (as_dict_config c) ''collect_nats_metrics'' x = JBool (collect_nats_metrics c)"
  by (simp_all add: as_dict_config_def dict_get_def)

lemma canonical_names:
  "app \<in> {''GRPC'', ''NATS''} \<Longrightarrow> upper (strip app) = app"
  "w \<in> {''closed'', ''open'', ''saturation'', ''fault_tolerance''} \<Longrightarrow> lower (strip w) = w"
  by (elim insertE; (simp; fail)?; hypsubst; code_simp)+

lemma metrics_url_read: "stable_urls c \<Longrightarrow> metrics_url_of (as_dict_config c) = Inr (metrics_url c)"
  by (cases "metrics_url c") (auto simp: metrics_url_of_def as_dict_get stable_urls_def Let_def strip_def)

lemma from_values_as_dict:
  assumes v: "valid_config m c" and "stable_urls c"
  shows "from_values (as_dict_config c) (application_type c) m = Inr c"
proof -
  note v' = v [unfolded valid_config_def]
  have app: "upper (strip (application_type c)) = application_type c" and w: "lower (strip (workload c)) = workload c"
    using v' canonical_names by blast+
  have target: "normalize_target_url (target_url c) = Inr (target_url c)"
    using assms(2) by (simp add: stable_urls_def)
  have nats: "(if application_type c = ''NATS'' then Inr (collect_nats_metrics c) else Inr False) = Inr (collect_nats_metrics c)"
    using v' by auto
  have flags: "((collect_resources c \<or> collect_nats_metrics c) \<and> metrics_url c = None) = False"
      "(application_type c \<notin> {''GRPC'', ''NATS''}) = False"
      "(workload c \<notin> {''closed'', ''open'', ''saturation'', ''fault_tolerance''}) = False"
      "f_lt (saturation_max_rate c) (saturation_start_rate c) = False"
    using v' by blast+
  have ints: "integer (as_dict_config c) ''warmup_seconds'' 30 0 3600 = Inr (warmup_seconds c)"
    "integer (as_dict_config c) ''duration_seconds'' d 1 3600 = Inr (duration_seconds c)"
    "integer (as_dict_config c) ''drain_seconds'' 60 1 1800 = Inr (drain_seconds c)"
    "integer (as_dict_config c) ''users'' 10 1 10000 = Inr (users c)"
    "integer (as_dict_config c) ''saturation_step_seconds'' 30 10 300 = Inr (saturation_step_seconds c)"
    "integer (as_dict_config c) ''seed'' 1 0 2147483647 = Inr (seed c)" for d
    by (rule integer_read, rule as_dict_get; use v' in blast)+
  have nums: "number (as_dict_config c) ''resource_sample_interval_seconds'' 5 1 60 = Inr (resource_sample_interval_seconds c)"
    "number (as_dict_config c) ''saturation_start_rate'' 10 (1 / 100) 10000 = Inr (saturation_start_rate c)"
    "number (as_dict_config c) ''saturation_max_rate'' 1000 (1 / 100) 10000 = Inr (saturation_max_rate c)"
    "number (as_dict_config c) ''spawn_rate'' 1 m 10000 = Inr (spawn_rate c)"
    "number (as_dict_config c) ''arrival_rate'' 1 (1 / 100) 10000 = Inr (arrival_rate c)"
    "number (as_dict_config c) ''outcome_timeout_seconds'' 30 1 1800 = Inr (outcome_timeout_seconds c)"
    "number (as_dict_config c) ''settlement_timeout_seconds'' 60 1 3600 = Inr (settlement_timeout_seconds c)"
    by (rule number_read, rule as_dict_get; use v' in blast)+
  have bools: "boolean (as_dict_config c) ''collect_resources'' True = Inr (collect_resources c)"
    "boolean (as_dict_config c) ''collect_nats_metrics'' True = Inr (collect_nats_metrics c)"
    by (rule boolean_read, rule as_dict_get)+
  show ?thesis
    unfolding from_values_def Let_def as_dict_get py_str_JStr app w flags target ints nums bools nats
      metrics_url_read [OF assms(2)] rbind.simps if_False
    by simp
qed

end
