(* ===== verification/Config_Props.thy ===== *)
theory Config_Props
  imports Bench_Config
begin

text \<open>
  Properties of the benchmark configuration: every accepted request is within its limits, a stored
  configuration loads back unchanged, and the split over workers loses no load.
\<close>

section \<open>Normalised URLs\<close>

text \<open>Text without whitespace and control characters.\<close>

definition plain :: "string \<Rightarrow> bool" where
  "plain s \<longleftrightarrow> list_all (\<lambda>c. 32 < (of_char c :: nat) \<and> \<not> is_space c) s"

lemma dropWhile_none: "list_all (\<lambda>c. \<not> P c) s \<Longrightarrow> dropWhile P s = s"
  by (cases s) auto

lemma plain_strip: "plain s \<Longrightarrow> strip s = s"
proof -
  assume "plain s"
  then have "list_all (\<lambda>c. \<not> is_space c) s" "list_all (\<lambda>c. \<not> is_space c) (rev s)"
    by (auto simp: plain_def list_all_iff)
  then show ?thesis by (simp add: strip_def dropWhile_none)
qed

lemma rstrip_split:
  obtains sl where "s = rstrip_chars cs s @ sl" and "set sl \<subseteq> set cs"
proof
  let ?p = "\<lambda>c. c \<in> set cs"
  show "s = rstrip_chars cs s @ rev (takeWhile ?p (rev s))"
    unfolding rstrip_chars_def by (metis rev_append rev_rev_ident takeWhile_dropWhile_id)
  show "set (rev (takeWhile ?p (rev s))) \<subseteq> set cs" by (auto dest: set_takeWhileD)
qed

lemma rstrip_idem [simp]: "rstrip_chars cs (rstrip_chars cs s) = rstrip_chars cs s"
  by (simp add: rstrip_chars_def)

lemma dropWhile_absent [simp]: "c \<notin> set s \<Longrightarrow> dropWhile (\<lambda>x. x \<noteq> c) s = []"
  by (simp add: dropWhile_eq_Nil_conv) metis

lemma partition_at_append_absent:
  "c \<notin> set sl \<Longrightarrow> partition_at c (u @ sl) =
     (case partition_at c u of (a, f, b) \<Rightarrow> if f then (a, True, b @ sl) else (a @ sl, False, []))"
proof (cases "c \<in> set u")
  case True
  then show ?thesis
    by (auto simp: partition_at_def Let_def tl_append split: list.splits)
next
  case False
  moreover assume "c \<notin> set sl"
  ultimately show ?thesis by (induction u) (auto simp: partition_at_def Let_def)
qed

lemma while_append_stop:
  assumes "takeWhile P sl = []" and "dropWhile P sl = sl"
  shows "takeWhile P (xs @ sl) = takeWhile P xs" and "dropWhile P (xs @ sl) = dropWhile P xs @ sl"
  using assms by (induction xs) auto

lemma split_netloc_append:
  assumes "set sl \<subseteq> {CHR ''/''}" and "split_netloc (r @ sl) = (netloc, tail)" and "netloc \<noteq> []"
  obtains t where "split_netloc r = (netloc, t)" and "tail = t @ sl"
proof -
  let ?P = "\<lambda>c. c \<notin> set ''/?#''"
  have sw: "startswith (r @ sl) ''//''" and n: "netloc = takeWhile ?P (drop 2 (r @ sl))"
      and t: "tail = dropWhile ?P (drop 2 (r @ sl))"
    using assms(2,3) by (auto simp: split_netloc_def split: if_splits)
  have slP: "takeWhile ?P sl = []" "dropWhile ?P sl = sl" using assms(1) by (cases sl; auto)+
  have len: "2 \<le> length r"
  proof (rule ccontr)
    assume "\<not> 2 \<le> length r"
    then obtain k where "drop 2 (r @ sl) = drop k sl" by simp
    moreover have "takeWhile ?P (drop k sl) = []"
    proof (cases "drop k sl")
      case (Cons a as)
      then have "a \<in> set sl" by (metis in_set_dropD list.set_intros(1))
      then show ?thesis using assms(1) Cons by auto
    qed simp
    ultimately have "takeWhile ?P (drop 2 (r @ sl)) = []" by simp
    then show False using n assms(3) by simp
  qed
  have d: "drop 2 (r @ sl) = drop 2 r @ sl" using len by simp
  have "takeWhile ?P (drop 2 r @ sl) = takeWhile ?P (drop 2 r)" and dw: "dropWhile ?P (drop 2 r @ sl) = dropWhile ?P (drop 2 r) @ sl"
    using while_append_stop [OF slP] by simp_all
  moreover have "startswith r ''//''" using sw len by (simp add: startswith_def)
  ultimately show thesis using that [of "dropWhile ?P (drop 2 r)"] n t d by (simp add: split_netloc_def)
qed

lemma urlparse_prefix:
  assumes "plain u" and "set sl \<subseteq> {CHR ''/''}" and "urlparse (u @ sl) = Inr parsed"
    and "u_scheme parsed \<noteq> []" and "u_netloc parsed \<noteq> []" and "u_query parsed = []" and "u_fragment parsed = []"
  shows "urlparse u = Inr parsed"
proof -
  have cleaned: "filter (\<lambda>c. (of_char c :: nat) \<notin> {9, 10, 13}) (dropWhile (\<lambda>c. (of_char c :: nat) \<le> 32) x) = x"
    if "plain x" for x
  proof -
    have "dropWhile (\<lambda>c. (of_char c :: nat) \<le> 32) x = x"
      using that by (intro dropWhile_none) (auto simp: plain_def list_all_iff)
    then show ?thesis using that by (auto simp: plain_def list_all_iff filter_id_conv)
  qed
  have "plain sl" using assms(2) by (auto simp: plain_def list_all_iff is_space_def)
  then have p: "plain (u @ sl)" using assms(1) by (simp add: plain_def)
  obtain scheme rest netloc tail bf f1 fragment qa f2 query user password where
      sc: "split_scheme (u @ sl) = (scheme, rest)" and nl: "split_netloc rest = (netloc, tail)"
      and fr: "partition_at (CHR ''#'') tail = (bf, f1, fragment)" and qu: "partition_at (CHR ''?'') bf = (qa, f2, query)"
      and us: "user_info netloc = (user, password)"
    by (metis prod_cases3 surj_pair)
  have br: "(CHR ''['' \<in> set netloc) = (CHR '']'' \<in> set netloc)"
    and parsed: "parsed = \<lparr>u_scheme = scheme, u_netloc = netloc, u_username = user, u_password = password,
         u_query = query, u_fragment = fragment\<rparr>"
    using assms(3) unfolding urlparse_def cleaned [OF p] sc Let_def
    by (simp_all add: nl fr qu us split: if_splits)
  have ne: "scheme \<noteq> []" "netloc \<noteq> []" "query = []" "fragment = []" using assms(4-7) parsed by auto
  have slc: "c \<notin> set sl" if "c \<noteq> CHR ''/''" for c using assms(2) that by auto
  obtain r where sc': "split_scheme u = (scheme, r)" and r: "rest = r @ sl"
    using sc ne(1) partition_at_append_absent [OF slc, of "CHR '':''" u]
    by (auto simp: split_scheme_def Let_def split: prod.splits if_splits)
  obtain t where nl': "split_netloc r = (netloc, t)" and t: "tail = t @ sl"
    using split_netloc_append [OF assms(2)] nl r ne(2) by metis
  obtain ba fa fr' where pt: "partition_at (CHR ''#'') t = (ba, fa, fr')" by (metis prod_cases3)
  have fr'0: "fr' = []" and ba: "bf = ba \<or> bf = ba @ sl"
    using fr ne(4) partition_at_append_absent [OF slc, of "CHR ''#''" t] pt t
    by (auto split: if_splits simp: partition_at_def Let_def)
  obtain qb fb q' where pq: "partition_at (CHR ''?'') ba = (qb, fb, q')" by (metis prod_cases3)
  have "q' = []"
    using ba qu ne(3) partition_at_append_absent [OF slc, of "CHR ''?''" ba] pq
    by (auto split: if_splits simp: partition_at_def Let_def)
  then show ?thesis
    unfolding urlparse_def cleaned [OF assms(1)] sc' Let_def using parsed ne br fr'0 by (simp add: nl' pt pq us)
qed

lemma normalize_http_url_idem:
  assumes "normalize_http_url v n = Inr u" and "plain u"
  shows "normalize_http_url u n' = Inr u"
proof -
  let ?cand = "strip v"
  have acc: "?cand \<noteq> []" and u: "u = rstrip_chars ''/'' ?cand"
    using assms(1) by (auto simp: normalize_http_url_def Let_def)
  obtain parsed where parsed: "urlparse ?cand = Inr parsed" "u_scheme parsed \<in> {''http'', ''https''}"
      "u_netloc parsed \<noteq> []" "u_username parsed = []" "u_password parsed = []" "u_query parsed = []" "u_fragment parsed = []"
    using assms(1) by (auto simp: normalize_http_url_def Let_def)
  obtain sl where sl: "?cand = u @ sl" "set sl \<subseteq> {CHR ''/''}"
    using rstrip_split [of ?cand "''/''"] u by auto
  have pu: "urlparse u = Inr parsed"
    using urlparse_prefix [OF assms(2) sl(2)] parsed sl(1) by auto
  have "u \<noteq> []"
  proof
    assume "u = []"
    then have "urlparse [] = Inr parsed" using pu by simp
    then have "u_netloc parsed = []" by (auto simp: urlparse_def split_scheme_def split_netloc_def startswith_def
          partition_at_def user_info_def)
    then show False using parsed(3) by simp
  qed
  moreover have "rstrip_chars ''/'' u = u" using u by simp
  ultimately show ?thesis
    using pu parsed plain_strip [OF assms(2)] by (auto simp: normalize_http_url_def Let_def)
qed

lemma local_urls:
  "normalize_target_url LOCAL_TARGET_URL = Inr LOCAL_TARGET_URL"
  "normalize_metrics_url LOCAL_CLUSTER = Inr LOCAL_CLUSTER" "strip LOCAL_CLUSTER \<noteq> []"
  by code_simp+

lemma normalize_http_url_nonempty: "normalize_http_url v n = Inr u \<Longrightarrow> plain u \<Longrightarrow> u \<noteq> []"
  using normalize_http_url_idem [of v n u n] by (auto simp: normalize_http_url_def Let_def strip_def)

lemma normalize_target_url_idem:
  assumes "normalize_target_url v = Inr u" and "plain u"
  shows "normalize_target_url u = Inr u"
proof (cases "strip v = LOCAL_CLUSTER")
  case True
  then show ?thesis using assms(1) local_urls(1) by (simp add: normalize_target_url_def)
next
  case False
  then have n: "normalize_http_url v ''target_url'' = Inr u" using assms(1) by (simp add: normalize_target_url_def)
  have "normalize_http_url LOCAL_CLUSTER ''target_url'' \<noteq> Inr LOCAL_CLUSTER" by code_simp
  then have "strip u \<noteq> LOCAL_CLUSTER"
    using normalize_http_url_idem [OF n assms(2)] plain_strip [OF assms(2)] by metis
  then show ?thesis using normalize_http_url_idem [OF n assms(2)] by (simp add: normalize_target_url_def)
qed

lemma normalize_metrics_url_idem:
  assumes "normalize_metrics_url v = Inr u" and "plain u"
  shows "strip u \<noteq> [] \<and> normalize_metrics_url u = Inr u"
proof (cases "strip v = LOCAL_CLUSTER")
  case True
  then show ?thesis using assms(1) local_urls by (simp add: normalize_metrics_url_def)
next
  case False
  then have n: "normalize_http_url v ''metrics_url'' = Inr u" using assms(1) by (simp add: normalize_metrics_url_def)
  have "normalize_http_url LOCAL_CLUSTER ''metrics_url'' \<noteq> Inr LOCAL_CLUSTER" by code_simp
  then have "strip u \<noteq> LOCAL_CLUSTER"
    using normalize_http_url_idem [OF n assms(2)] plain_strip [OF assms(2)] by metis
  then show ?thesis
    using normalize_http_url_idem [OF n assms(2)] normalize_http_url_nonempty [OF n assms(2)] plain_strip [OF assms(2)]
    by (simp add: normalize_metrics_url_def)
qed

definition plain_urls :: "benchmark_config \<Rightarrow> bool" where
  "plain_urls c \<longleftrightarrow> plain (target_url c) \<and> (case metrics_url c of None \<Rightarrow> True | Some u \<Rightarrow> plain u)"

lemma from_values_stable:
  assumes "from_values vs app m = Inr c" and "plain_urls c"
  shows "stable_urls c"
  using from_values_urls [OF assms(1)] assms(2) normalize_target_url_idem normalize_metrics_url_idem
  by (auto simp: stable_urls_def plain_urls_def metrics_url_of_def Let_def split: if_splits)

lemma set_default_as_dict [simp]: "set_default ''saturation_step_seconds'' v (as_dict_config c) = as_dict_config c"
  by (simp add: set_default_def dict_has_def as_dict_config_def)

section \<open>Acceptance and storage\<close>

definition sample_request :: dict where
  "sample_request = [(''target_url'', JStr ''http://shop.example/''), (''metrics_url'', JStr ''local''),
     (''workload'', JStr '' Open ''), (''arrival_rate'', JInt 120), (''seed'', JStr ''42'')]"

definition sample_config :: benchmark_config where
  "sample_config =
     \<lparr>application_type = ''NATS'', target_url = ''http://shop.example'', metrics_url = Some ''local'',
      workload = ''open'', warmup_seconds = 30, duration_seconds = 120, drain_seconds = 60, users = 10,
      spawn_rate = Fin 1, arrival_rate = Fin 120, saturation_start_rate = Fin 10, saturation_max_rate = Fin 1000,
      saturation_step_seconds = 30, outcome_timeout_seconds = Fin 30, settlement_timeout_seconds = Fin 60,
      resource_sample_interval_seconds = Fin 5, seed = 42, collect_resources = True, collect_nats_metrics = True\<rparr>"

lemma sample_config_accepted: "from_request sample_request ''nats'' = Inr sample_config"
  by code_simp

text \<open>C10. Every accepted benchmark request is within the limits the service promises: a known
  application type and workload, durations, user counts, rates, timeouts, intervals and the seed
  in their ranges (a rate or timeout may still be NaN), a maximal saturation rate not below the
  initial one, no NATS metrics for a gRPC application, and a metrics endpoint whenever metrics are
  collected.\<close>

theorem from_request_within_limits:
  assumes "from_request values application = Inr c"
  shows "valid_config (1 / 100) c"
  by (rule from_values_valid [OF assms [unfolded from_request_def]])

theorem from_request_within_limits_witness: "valid_config (1 / 100) sample_config"
  by (rule from_request_within_limits [OF sample_config_accepted])

text \<open>C11. A configuration survives storage: the record that the control plane writes for an accepted
  request is loaded by the job as the same configuration, if its URLs contain no whitespace or
  control characters.\<close>

theorem stored_config_roundtrip:
  assumes "from_request values application = Inr c" and "plain_urls c"
  shows "from_dict (as_dict_config c) = Inr c"
proof -
  have "from_values (as_dict_config c) (application_type c) (1 / 100) = Inr c"
    using from_values_as_dict from_values_valid from_values_stable assms by (metis from_request_def)
  then show ?thesis by (simp add: from_dict_def from_request_def as_dict_get)
qed

theorem stored_config_roundtrip_witness: "from_dict (as_dict_config sample_config) = Inr sample_config"
proof (rule stored_config_roundtrip [OF sample_config_accepted])
  show "plain_urls sample_config"
    by (simp add: plain_urls_def sample_config_def plain_def is_space_def)
qed

text \<open>A finding: NaN passes the range checks, and the accepted request then has no number of
  workers, because the rate is rounded up.\<close>

theorem nan_rate_is_accepted_without_worker_count:
  "(case from_request [(''target_url'', JStr ''local''), (''metrics_url'', JStr ''local''), (''workload'', JStr ''open''),
                       (''arrival_rate'', JStr ''nan'')] ''GRPC'' of
      Inr c \<Rightarrow> arrival_rate c = NaN \<and> worker_count c = raise ValueError ''cannot convert float NaN to integer''
    | Inl _ \<Rightarrow> False)"
  by code_simp

section \<open>The split over workers\<close>

fun finite_rate :: "pyfloat \<Rightarrow> rat" where
  "finite_rate (Fin q) = q"
| "finite_rate _ = 0"

lemma sum_list_upto: "0 \<le> n \<Longrightarrow> (\<Sum>i\<leftarrow>[0..n - 1]. f i) = (\<Sum>i<nat n. f (int i))" for f :: "int \<Rightarrow> 'a::comm_monoid_add"
proof -
  assume n: "0 \<le> n"
  have "(\<Sum>i\<leftarrow>[0..n - 1]. f i) = (\<Sum>i\<in>{0..n - 1}. f i)"
    using sum_list_distinct_conv_sum_set [of "[0..n - 1]" f] by simp
  also have "\<dots> = (\<Sum>i<nat n. f (int i))"
    by (rule sum.reindex_bij_witness [of _ int nat]) (use n in auto)
  finally show ?thesis .
qed

lemma open_share_sum:
  "50 * of_nat k \<le> q + 50 \<Longrightarrow> 0 < k \<Longrightarrow> (\<Sum>i<k. min 50 (q - of_nat i * 50)) = min (50 * of_nat k) (q::rat)"
proof (induction k)
  case (Suc k)
  show ?case
  proof (cases "k = 0")
    case True
    then show ?thesis by simp
  next
    case False
    then have "(\<Sum>i<k. min 50 (q - of_nat i * 50)) = 50 * of_nat k" using Suc by simp
    then show ?thesis using Suc.prems(1) by (simp add: min_def algebra_simps)
  qed
qed simp

lemma open_workers:
  assumes "workload c \<in> {''open'', ''fault_tolerance''}" and "arrival_rate c = Fin q" and "0 < q"
  shows "worker_count c = Inr \<lceil>q / 50\<rceil>" and "1 \<le> \<lceil>q / 50\<rceil>"
proof -
  show "1 \<le> \<lceil>q / 50\<rceil>" using assms(3) by (simp add: one_le_ceiling)
  then show "worker_count c = Inr \<lceil>q / 50\<rceil>" using assms by (auto simp: worker_count_def)
qed

lemma open_split:
  assumes "valid_config m c" and "workload c \<in> {''open'', ''fault_tolerance''}" and "arrival_rate c = Fin q"
  shows "\<exists>n ws. worker_count c = Inr n \<and> 1 \<le> n \<and> n \<le> 200 \<and> rmap (for_worker c) [0..n - 1] = Inr ws \<and>
           (\<Sum>w\<leftarrow>ws. finite_rate (arrival_rate w)) = q \<and>
           list_all (\<lambda>w. 0 < finite_rate (arrival_rate w) \<and> finite_rate (arrival_rate w) \<le> 50) ws"
proof -
  have q: "0 < q" "q \<le> 10000" using assms(1,3) by (auto simp: valid_config_def)
  let ?n = "\<lceil>q / 50\<rceil>"
  note n = open_workers [OF assms(2,3) q(1)]
  have up: "?n \<le> 200" using q(2) by (simp add: ceiling_le_iff)
  have lo: "of_int ?n < q / 50 + 1" and hi: "q / 50 \<le> of_int ?n" by linarith+
  let ?w = "\<lambda>i. c\<lparr>seed := (seed c + i) mod 2147483648, collect_resources := collect_resources c \<and> i = 0,
      collect_nats_metrics := collect_nats_metrics c \<and> i = 0, arrival_rate := Fin (min 50 (q - of_int i * 50))\<rparr>"
  have w: "for_worker c i = Inr (?w i)" if "i \<in> set [0..?n - 1]" for i
    using that n(1) assms(2,3) by (simp add: for_worker_Inr worker_share_def Let_def f_sub_def)
  have ws: "rmap (for_worker c) [0..?n - 1] = Inr (map ?w [0..?n - 1])" by (rule rmap_all [OF w])
  have "(\<Sum>i\<leftarrow>[0..?n - 1]. min 50 (q - of_int i * 50)) = (\<Sum>i<nat ?n. min 50 (q - of_nat i * 50))"
    using sum_list_upto [of ?n "\<lambda>i. min 50 (q - of_int i * 50)"] n(2) by simp
  also have "\<dots> = min (50 * of_nat (nat ?n)) q"
    using open_share_sum [of "nat ?n" q] lo n(2) by (simp add: field_simps)
  also have "\<dots> = q"
  proof -
    have "of_nat (nat ?n) = (of_int ?n :: rat)" using n(2) by simp
    moreover have "q \<le> 50 * of_int ?n" using hi by linarith
    ultimately show ?thesis by (simp only: min_absorb2)
  qed
  finally have total: "(\<Sum>w\<leftarrow>map ?w [0..?n - 1]. finite_rate (arrival_rate w)) = q" by (simp add: comp_def)
  have "0 < q - of_int i * 50" if "i \<le> ?n - 1" for i
  proof -
    have "(of_int i :: rat) \<le> of_int (?n - 1)" using that by (rule of_int_le_iff [THEN iffD2])
    then show ?thesis using lo by (simp add: field_simps)
  qed
  then have "list_all (\<lambda>w. 0 < finite_rate (arrival_rate w) \<and> finite_rate (arrival_rate w) \<le> 50) (map ?w [0..?n - 1])"
    by (simp add: list_all_iff)
  then show ?thesis using n up ws total by blast
qed

text \<open>C12. An open workload is divided without loss: the workers' arrival rates are positive, at most
  fifty per second each, and add up to the requested rate; there are at most 200 workers.\<close>

theorem open_split_preserves_rate:
  assumes "valid_config m c" and "workload c \<in> {''open'', ''fault_tolerance''}" and "arrival_rate c = Fin q"
  shows "\<exists>n ws. worker_count c = Inr n \<and> 1 \<le> n \<and> n \<le> 200 \<and> rmap (for_worker c) [0..n - 1] = Inr ws \<and>
           (\<Sum>w\<leftarrow>ws. finite_rate (arrival_rate w)) = q \<and>
           list_all (\<lambda>w. 0 < finite_rate (arrival_rate w) \<and> finite_rate (arrival_rate w) \<le> 50) ws"
  by (rule open_split [OF assms])

theorem open_split_preserves_rate_witness:
  "\<exists>n ws. worker_count sample_config = Inr n \<and> 1 \<le> n \<and> n \<le> 200 \<and>
     rmap (for_worker sample_config) [0..n - 1] = Inr ws \<and> (\<Sum>w\<leftarrow>ws. finite_rate (arrival_rate w)) = 120"
proof -
  have "valid_config (1 / 100) sample_config" "workload sample_config \<in> {''open'', ''fault_tolerance''}"
      "arrival_rate sample_config = Fin 120"
    by (simp_all add: sample_config_def valid_config_def)
  from open_split_preserves_rate [OF this] show ?thesis by blast
qed

lemma closed_share_sum: "0 < n \<Longrightarrow> (\<Sum>i<n. u div n + (if i < u mod n then 1 else 0)) = (u::nat)"
proof -
  assume n: "0 < n"
  have "(\<Sum>i<n. if i < u mod n then 1 else 0) = card {i \<in> {..<n}. i < u mod n}"
    by (simp add: sum.If_cases Int_def)
  also have "{i \<in> {..<n}. i < u mod n} = {..<u mod n}"
    using mod_less_divisor [OF n, of u] by (auto intro: less_trans)
  finally show ?thesis by (simp add: sum.distrib)
qed

lemma closed_workers:
  assumes "workload c = ''closed''" and "1 \<le> users c" and "users c \<le> 10000"
  shows "worker_count c = Inr \<lceil>(of_int (users c) / 1000 :: rat)\<rceil>"
    and "1 \<le> \<lceil>(of_int (users c) / 1000 :: rat)\<rceil>" and "\<lceil>(of_int (users c) / 1000 :: rat)\<rceil> \<le> 10"
    and "\<lceil>(of_int (users c) / 1000 :: rat)\<rceil> \<le> users c" and "users c \<le> 1000 * \<lceil>(of_int (users c) / 1000 :: rat)\<rceil>"
proof -
  let ?u = "of_int (users c) :: rat" and ?n = "\<lceil>(of_int (users c) / 1000 :: rat)\<rceil>"
  have u: "1 \<le> ?u" "?u \<le> 10000" using assms(2,3) by simp_all
  show one: "1 \<le> ?n" using u by (simp add: one_le_ceiling)
  then show "worker_count c = Inr ?n" using assms(1) by (simp add: worker_count_def)
  show "?n \<le> 10" using u by (simp add: ceiling_le_iff)
  show "?n \<le> users c" using u by (simp add: ceiling_le_iff)
  have "?u / 1000 \<le> of_int ?n" by (rule le_of_int_ceiling)
  then have "?u \<le> 1000 * of_int ?n" by linarith
  then have "?u \<le> of_int (1000 * ?n)" by (simp only: of_int_mult of_int_numeral)
  then show "users c \<le> 1000 * ?n" by (simp only: of_int_le_iff)
qed

lemma equal_share_sum: "1 \<le> n \<Longrightarrow> (\<Sum>i\<leftarrow>[0..n - 1]. 1 / of_int n * r) = (r::rat)"
  by (simp add: sum_list_triv)

lemma share_bounds:
  fixes u n i :: int
  assumes "1 \<le> n" and "n \<le> u" and "u \<le> 1000 * n" and "0 \<le> i"
  shows "1 \<le> u div n + (if i < u mod n then 1 else 0) \<and> u div n + (if i < u mod n then 1 else 0) \<le> 1000"
proof -
  have r: "0 \<le> u mod n" and d: "u = n * (u div n) + u mod n" using assms(1) by simp_all
  have lo: "1 \<le> u div n" using assms(1,2) by (simp add: pos_imp_zdiv_pos_iff int_one_le_iff_zero_less)
  have "n * (u div n) + u mod n \<le> n * 1000" using d assms(3) by linarith
  then have "n * (u div n) \<le> n * 1000" "0 < u mod n \<Longrightarrow> n * (u div n) < n * 1000" using r by linarith+
  then have "u div n \<le> 1000" "0 < u mod n \<Longrightarrow> u div n < 1000" using assms(1) by simp_all
  then show ?thesis using lo assms(4) by auto
qed

text \<open>A closed workload is divided without loss: every worker runs between one and a thousand users,
  the users add up to the requested number, and the spawn rates to the requested rate.\<close>

theorem closed_split_preserves_users:
  assumes "valid_config m c" and "workload c = ''closed''" and "spawn_rate c = Fin r"
  shows "\<exists>n ws. worker_count c = Inr n \<and> 1 \<le> n \<and> n \<le> 10 \<and> rmap (for_worker c) [0..n - 1] = Inr ws \<and>
           (\<Sum>w\<leftarrow>ws. users w) = users c \<and> (\<Sum>w\<leftarrow>ws. finite_rate (spawn_rate w)) = r \<and>
           list_all (\<lambda>w. 1 \<le> users w \<and> users w \<le> 1000) ws"
proof -
  have u: "1 \<le> users c" "users c \<le> 10000" using assms(1) by (auto simp: valid_config_def)
  let ?n = "\<lceil>(of_int (users c) / 1000 :: rat)\<rceil>"
  note n = closed_workers [OF assms(2) u]
  let ?s = "\<lambda>i. users c div ?n + (if i < users c mod ?n then 1 else 0)"
  let ?w = "\<lambda>i. c\<lparr>seed := (seed c + i) mod 2147483648, collect_resources := collect_resources c \<and> i = 0,
      collect_nats_metrics := collect_nats_metrics c \<and> i = 0, users := ?s i, spawn_rate := Fin (1 / of_int ?n * r)\<rparr>"
  have w: "for_worker c i = Inr (?w i)" if "i \<in> set [0..?n - 1]" for i
    using that n(1) assms(2,3) by (simp add: for_worker_Inr worker_share_def Let_def)
  have ws: "rmap (for_worker c) [0..?n - 1] = Inr (map ?w [0..?n - 1])" by (rule rmap_all [OF w])
  have eq: "?s (int i) = int (nat (users c) div nat ?n + (if i < nat (users c) mod nat ?n then 1 else 0))" for i
  proof -
    have "int (nat (users c) div nat ?n) = users c div ?n" "int (nat (users c) mod nat ?n) = users c mod ?n"
      using u n(2) by (simp_all add: zdiv_int zmod_int)
    then show ?thesis by (simp flip: of_nat_less_iff)
  qed
  have "(\<Sum>i\<leftarrow>[0..?n - 1]. ?s i) = (\<Sum>i<nat ?n. ?s (int i))"
    by (rule sum_list_upto) (use n(2) in linarith)
  also have "\<dots> = int (\<Sum>i<nat ?n. nat (users c) div nat ?n + (if i < nat (users c) mod nat ?n then 1 else 0))"
    unfolding eq by (simp only: of_nat_sum)
  also have "\<dots> = users c" using closed_share_sum [of "nat ?n" "nat (users c)"] n(2) u by simp
  finally have total: "(\<Sum>w\<leftarrow>map ?w [0..?n - 1]. users w) = users c" by (simp add: comp_def)
  have "(\<Sum>w\<leftarrow>map ?w [0..?n - 1]. finite_rate (spawn_rate w)) = r"
    using equal_share_sum [OF n(2), of r] by (simp add: comp_def)
  moreover have "1 \<le> ?s i \<and> ?s i \<le> 1000" if "0 \<le> i" for i
    using share_bounds [OF n(2,4,5) that] .
  ultimately show ?thesis using n ws total by (auto simp: list_all_iff)
qed

definition closed_config :: benchmark_config where
  "closed_config = sample_config\<lparr>workload := ''closed'', users := 2500, spawn_rate := Fin 6\<rparr>"

theorem closed_split_preserves_users_witness:
  "\<exists>n ws. worker_count closed_config = Inr n \<and> 1 \<le> n \<and> n \<le> 10 \<and>
     rmap (for_worker closed_config) [0..n - 1] = Inr ws \<and> (\<Sum>w\<leftarrow>ws. users w) = 2500 \<and>
     (\<Sum>w\<leftarrow>ws. finite_rate (spawn_rate w)) = 6"
proof -
  have "valid_config (1 / 100) closed_config" "workload closed_config = ''closed''" "spawn_rate closed_config = Fin 6"
      "users closed_config = 2500"
    by (simp_all add: closed_config_def sample_config_def valid_config_def)
  with closed_split_preserves_users [OF this(1-3)] show ?thesis by auto
qed

text \<open>Whatever the workload, the workers' seeds are pairwise different, and exactly the first
  worker collects the shared target's metrics if they are to be collected at all; an index outside
  the range is refused.\<close>

theorem workers_are_distinct:
  assumes "worker_count c = Inr n" and "n \<le> 2147483648"
    and "0 \<le> i" and "i < n" and "0 \<le> j" and "j < n"
  shows "\<exists>a b. for_worker c i = Inr a \<and> for_worker c j = Inr b \<and> (seed a = seed b \<longleftrightarrow> i = j) \<and>
           0 \<le> seed a \<and> seed a \<le> 2147483647 \<and>
           (collect_resources a \<longleftrightarrow> collect_resources c \<and> i = 0) \<and>
           (collect_nats_metrics a \<longleftrightarrow> collect_nats_metrics c \<and> i = 0) \<and>
           (\<exists>msg. for_worker c n = raise IndexError msg)"
proof -
  have f: "for_worker c k = Inr (worker_share c n k)" if "0 \<le> k" "k < n" for k
    using assms(1) that by (simp add: for_worker_Inr)
  have eq: "(seed c + i) mod 2147483648 = (seed c + j) mod 2147483648 \<longleftrightarrow> i = j"
  proof
    assume "(seed c + i) mod 2147483648 = (seed c + j) mod 2147483648"
    then have "2147483648 dvd (i - j)" by (simp add: mod_eq_dvd_iff)
    moreover have "\<bar>i - j\<bar> < 2147483648" using assms(2-6) by linarith
    ultimately show "i = j" using dvd_imp_le_int [of "i - j" 2147483648] by fastforce
  qed simp
  have "\<exists>msg. for_worker c n = raise IndexError msg" using assms(1) by (simp add: for_worker_def)
  then show ?thesis using f [OF assms(3,4)] f [OF assms(5,6)] eq by auto
qed

theorem workers_are_distinct_witness:
  "\<exists>a b. for_worker sample_config 0 = Inr a \<and> for_worker sample_config 2 = Inr b \<and> seed a \<noteq> seed b"
proof -
  have "worker_count sample_config = Inr 3" by code_simp
  from workers_are_distinct [OF this, of 0 2] show ?thesis by auto
qed

lemma float_in_mono: "float_in lo hi f \<Longrightarrow> lo' \<le> lo \<Longrightarrow> hi \<le> hi' \<Longrightarrow> float_in lo' hi' f"
  by (cases f) auto

lemma worker_urls: "stable_urls c \<Longrightarrow> for_worker c i = Inr w \<Longrightarrow> stable_urls w"
  by (auto simp: for_worker_Inr stable_urls_def)

lemma share_rate_in:
  assumes "1 \<le> n" and "n \<le> 10" and "float_in (1 / 100) 10000 f"
  shows "float_in (1 / 1000) 10000 (f_scale (1 / of_int n) f)"
proof (cases f)
  case (Fin q)
  have n: "1 \<le> (of_int n :: rat)" "(of_int n :: rat) \<le> 10" using assms(1,2) by simp_all
  have q: "1 / 100 \<le> q" "q \<le> 10000" using assms(3) Fin by simp_all
  have "1 / 1000 * of_int n \<le> q" using n q by linarith
  moreover have "q \<le> 10000 * of_int n" using n q by linarith
  ultimately show ?thesis using n by (simp add: Fin field_simps)
qed (use assms in auto)

lemma worker_valid:
  assumes "valid_config (1 / 100) c" and "for_worker c i = Inr w"
    and "workload c \<in> {''open'', ''fault_tolerance''} \<Longrightarrow> \<exists>r. arrival_rate w = Fin r \<and> 1 / 100 \<le> r"
  shows "valid_config (1 / 1000) w"
proof -
  note v = assms(1) [unfolded valid_config_def]
  have spawn: "float_in (1 / 1000) 10000 (spawn_rate c)" using v by (auto intro: float_in_mono)
  obtain n where n: "worker_count c = Inr n" and i: "0 \<le> i" "i < n" and share: "w = worker_share c n i"
    using assms(2) by (auto simp: for_worker_Inr)
  let ?w = "c\<lparr>seed := (seed c + i) mod 2147483648, collect_resources := collect_resources c \<and> i = 0,
              collect_nats_metrics := collect_nats_metrics c \<and> i = 0\<rparr>"
  have base: "valid_config (1 / 1000) ?w" unfolding valid_config_def benchmark_config.simps
    by (intro conjI) (use v spawn in \<open>blast | simp\<close>)+
  consider (o) "workload c \<in> {''open'', ''fault_tolerance''}" | (s) "workload c = ''saturation''" | (c) "workload c = ''closed''"
    using v by blast
  then show ?thesis
  proof cases
    case o
    then obtain r where r: "arrival_rate w = Fin r" "1 / 100 \<le> r" using assms(3) by blast
    have w: "w = ?w\<lparr>arrival_rate := arrival_rate w\<rparr>" and "arrival_rate w = f_min (Fin 50) (f_sub (arrival_rate c) (Fin (of_int i * 50)))"
      using share o by (simp_all add: worker_share_def Let_def)
    then have "r \<le> 50" using r by (cases "arrival_rate c") (auto simp: f_sub_def f_min_def split: if_splits)
    then have "float_in (1 / 100) 10000 (arrival_rate w)" using r by simp
    then show ?thesis using base by (subst w) (simp add: valid_config_def)
  next
    case s
    then have "w = ?w" using share by (simp add: worker_share_def Let_def)
    then show ?thesis using base by simp
  next
    case c
    have u: "1 \<le> users c" "users c \<le> 10000" using v by auto
    note W = closed_workers [OF c u]
    have nn: "n = \<lceil>(of_int (users c) / 1000 :: rat)\<rceil>" using n W(1) by simp
    have "1 \<le> n" "n \<le> 10" "n \<le> users c" "users c \<le> 1000 * n" using W(2-5) unfolding nn .
    note b = share_bounds [OF this(1,3,4) i(1)] and f = share_rate_in [OF this(1,2), of "spawn_rate c"]
    have "w = ?w\<lparr>users := users c div n + (if i < users c mod n then 1 else 0), spawn_rate := f_scale (1 / of_int n) (spawn_rate c)\<rparr>"
      using share c by (simp add: worker_share_def Let_def)
    then show ?thesis using base b f v by (simp add: valid_config_def)
  qed
qed

lemma low_rate_refused:
  assumes "arrival_rate w = Fin r" and "r < 1 / 100"
  shows "from_values (as_dict_config w) app m \<noteq> Inr c"
proof
  assume "from_values (as_dict_config w) app m = Inr c"
  then have "\<exists>f. number (as_dict_config w) ''arrival_rate'' 1 (1 / 100) 10000 = Inr f"
    unfolding from_values_unfold by blast
  then show False using assms by (simp add: number_def as_dict_get)
qed

text \<open>A worker can load the configuration the control plane derives for it: for closed and
  saturation workloads always, for open ones if the rate left for it is at least the minimum.\<close>

theorem worker_config_loads:
  assumes "valid_config (1 / 100) c" and "stable_urls c" and "for_worker c i = Inr w"
    and "workload c \<in> {''open'', ''fault_tolerance''} \<Longrightarrow> \<exists>r. arrival_rate w = Fin r \<and> 1 / 100 \<le> r"
  shows "from_worker_dict (as_dict_config w) = Inr w"
proof -
  have "from_values (as_dict_config w) (application_type w) (1 / 1000) = Inr w"
    by (rule from_values_as_dict) (use worker_valid worker_urls assms in blast)+
  then show ?thesis by (simp add: from_worker_dict_def as_dict_get)
qed

theorem worker_config_loads_witness:
  "\<exists>w. for_worker closed_config 1 = Inr w \<and> from_worker_dict (as_dict_config w) = Inr w"
proof -
  have "worker_count closed_config = Inr 3" by code_simp
  then obtain w where w: "for_worker closed_config 1 = Inr w"
    by (simp add: for_worker_def)
  have "valid_config (1 / 100) closed_config"
    by (simp add: closed_config_def sample_config_def valid_config_def)
  moreover have "stable_urls closed_config"
    using from_values_stable [OF sample_config_accepted [unfolded from_request_def]]
    by (simp add: stable_urls_def plain_urls_def closed_config_def sample_config_def plain_def is_space_def)
  ultimately show ?thesis
    using worker_config_loads [OF _ _ w] w by (auto simp: closed_config_def)
qed

text \<open>A finding: the rate left for the last worker of an open workload can be below the minimum
  that the worker's own loading demands, so that worker refuses its configuration.\<close>

theorem last_worker_can_be_refused:
  "valid_config (1 / 100) (sample_config\<lparr>arrival_rate := Fin (50005 / 1000)\<rparr>) \<and>
   (\<exists>w. for_worker (sample_config\<lparr>arrival_rate := Fin (50005 / 1000)\<rparr>) 1 = Inr w \<and> arrival_rate w = Fin (1 / 200) \<and>
        (\<nexists>c. from_worker_dict (as_dict_config w) = Inr c))"
proof -
  let ?c = "sample_config\<lparr>arrival_rate := Fin (50005 / 1000)\<rparr>"
  have "worker_count ?c = Inr 2" by code_simp
  then obtain w where w: "for_worker ?c 1 = Inr w" "arrival_rate w = Fin (1 / 200)"
    by (simp add: for_worker_def worker_share_def Let_def sample_config_def f_sub_def min_def)
  then have "\<nexists>c. from_worker_dict (as_dict_config w) = Inr c"
    using low_rate_refused [of w "1 / 200"] by (simp add: from_worker_dict_def as_dict_get)
  then show ?thesis using w by (auto simp: sample_config_def valid_config_def)
qed

end
