(* ===== verification/Control.thy ===== *)
theory Control
  imports Effects Bench_Config
begin

text \<open>
  The benchmark control plane, \<open>src/benchmarkservice/control.py\<close>, and the part of a benchmark job
  that shares its records, \<open>src/benchmarkservice/job.py\<close>: the lease that keeps two benchmarks from
  running at once, and the run records in the revisioned bucket. Each method is a tree of requests
  to the bucket and to the outside (clock, identifiers, Kubernetes jobs, the object store).
\<close>

datatype ctl_eff =
    Clock
  | UtcNow
  | NewUuid
  | NewRunId
  | JobCreate string int int
  | JobState string
  | JobDelete string
  | StoreKeys string
  | GetObject string

definition ask :: "ctl_eff \<Rightarrow> (json \<Rightarrow> (ctl_eff, 'a) prog) \<Rightarrow> (ctl_eff, 'a) prog" where
  "ask x f = Ext x (\<lambda>r. lift r f)"

definition LEASE_KEY :: string where
  "LEASE_KEY = ''lease.active''"

definition RUN_PREFIX :: string where
  "RUN_PREFIX = ''run.''"

definition run_key :: "string \<Rightarrow> string" where
  "run_key run_id = RUN_PREFIX @ run_id"

abbreviation ACTIVE_STATES :: "string set" where
  "ACTIVE_STATES \<equiv> {''submitted'', ''starting'', ''running'', ''stopping''}"

text \<open>\<open>decode_json\<close> of the shared store: a record must be an object.\<close>

definition decode_record :: "json \<Rightarrow> dict result" where
  "decode_record v = (case v of JObj d \<Rightarrow> Inr d | _ \<Rightarrow> raise ValueError ''shared record is not a JSON object'')"

section \<open>The lease\<close>

definition lease_doc :: "string \<Rightarrow> string \<Rightarrow> pyfloat \<Rightarrow> json \<Rightarrow> json" where
  "lease_doc run_id owner until date = JObj
     [(''schema_version'', JInt 1), (''run_id'', JStr run_id), (''owner'', JStr owner),
      (''lease_until'', JFloat until), (''updated_at'', date)]"

definition lease_until :: "dict \<Rightarrow> pyfloat result" where
  "lease_until d = py_float (dict_get d ''lease_until'' (JInt 0))"

fun acquire_lease :: "string \<Rightarrow> int \<Rightarrow> nat \<Rightarrow> (ctl_eff, unit) prog" where
  "acquire_lease run_id duration 0 = Raise (Exn RunConflict ''active benchmark lease is contended'')"
| "acquire_lease run_id duration (Suc n) =
     ask Clock (\<lambda>j. lift (py_float j) (\<lambda>now.
     ask NewUuid (\<lambda>u. ask UtcNow (\<lambda>date.
       let lease = lease_doc run_id (''controller:'' @ py_str u) (f_add now (Fin (of_int duration))) date in
       KvGet LEASE_KEY (\<lambda>r. case r of
         Inl e \<Rightarrow>
           if exn_cls e = RecordNotFound then
             KvCreate LEASE_KEY lease (\<lambda>r. case r of
               Inr _ \<Rightarrow> Ret ()
             | Inl e \<Rightarrow> if exn_cls e = RevisionConflict then acquire_lease run_id duration n else Raise e)
           else Raise e
       | Inr (v, revision) \<Rightarrow>
           lift (decode_record v) (\<lambda>existing.
           lift (lease_until existing) (\<lambda>until.
             if f_lt now until
             then Raise (Exn RunConflict (''run '' @ py_str (dict_get existing ''run_id'' (JStr ''unknown'')) @ '' is still active''))
             else KvUpdate LEASE_KEY lease revision (\<lambda>r. case r of
               Inr _ \<Rightarrow> Ret ()
             | Inl e \<Rightarrow> if exn_cls e = RevisionConflict then acquire_lease run_id duration n else Raise e))))))))"

fun release_lease :: "string \<Rightarrow> nat \<Rightarrow> (ctl_eff, unit) prog" where
  "release_lease run_id 0 = Ret ()"
| "release_lease run_id (Suc n) =
     KvGet LEASE_KEY (\<lambda>r. case r of
       Inl e \<Rightarrow> if exn_cls e = RecordNotFound then Ret () else Raise e
     | Inr (v, revision) \<Rightarrow>
         lift (decode_record v) (\<lambda>current.
           if dict_get current ''run_id'' JNull \<noteq> JStr run_id then Ret ()
           else ask UtcNow (\<lambda>date.
             KvUpdate LEASE_KEY
               (JObj (dict_update current [(''lease_until'', JInt 0), (''updated_at'', date), (''released'', JBool True)]))
               revision (\<lambda>r. case r of
                 Inr _ \<Rightarrow> Ret ()
               | Inl e \<Rightarrow> if exn_cls e = RevisionConflict then release_lease run_id n else Raise e))))"

text \<open>The job's renewal; \<open>until\<close> is computed once, before the first attempt.\<close>

fun renew_lease_loop :: "string \<Rightarrow> string \<Rightarrow> pyfloat \<Rightarrow> nat \<Rightarrow> (ctl_eff, pyfloat) prog" where
  "renew_lease_loop run_id pod until 0 = Raise (Exn RunConflict ''benchmark lease renewal remained contended'')"
| "renew_lease_loop run_id pod until (Suc n) =
     KvGet LEASE_KEY (\<lambda>r. case r of
       Inl e \<Rightarrow> Raise e
     | Inr (v, revision) \<Rightarrow>
         lift (decode_record v) (\<lambda>current.
           if dict_get current ''run_id'' JNull \<noteq> JStr run_id
           then Raise (Exn RunConflict ''benchmark lease belongs to another run'')
           else if truthy (dict_get current ''released'' JNull)
           then Raise (Exn RunConflict ''benchmark lease was already released'')
           else ask UtcNow (\<lambda>date.
             KvUpdate LEASE_KEY
               (JObj (dict_update current [(''owner'', JStr (''job:'' @ pod)), (''lease_until'', JFloat until), (''updated_at'', date)]))
               revision (\<lambda>r. case r of
                 Inr _ \<Rightarrow> Ret until
               | Inl e \<Rightarrow> if exn_cls e = RevisionConflict then renew_lease_loop run_id pod until n else Raise e))))"

definition renew_lease :: "string \<Rightarrow> string \<Rightarrow> (ctl_eff, pyfloat) prog" where
  "renew_lease run_id pod =
     ask Clock (\<lambda>j. lift (py_float j) (\<lambda>now. renew_lease_loop run_id pod (f_add now (Fin 90)) 12))"

section \<open>Run records\<close>

text \<open>\<open>_get\<close>: the record and its revision.\<close>

definition get_run :: "string \<Rightarrow> (dict \<times> nat \<Rightarrow> (ctl_eff, 'a) prog) \<Rightarrow> (ctl_eff, 'a) prog" where
  "get_run run_id f =
     (if run_id = [] \<or> 64 < length run_id then Raise (Exn RunNotFound run_id)
      else KvGet (run_key run_id) (\<lambda>r. case r of
        Inl e \<Rightarrow> if exn_cls e = RecordNotFound then Raise (Exn RunNotFound run_id) else Raise e
      | Inr (v, revision) \<Rightarrow>
          lift (decode_record v) (\<lambda>d.
            if dict_get d ''run_id'' JNull \<noteq> JStr run_id then Raise (Exn RunNotFound run_id)
            else f (d, revision))))"

text \<open>\<open>mutate\<close> with a change that may itself ask for the time.\<close>

fun mutate :: "string \<Rightarrow> (dict \<Rightarrow> (ctl_eff, dict) prog) \<Rightarrow> nat \<Rightarrow> (ctl_eff, dict) prog" where
  "mutate run_id change 0 = Raise (Exn RunConflict (''run '' @ run_id @ '' is being updated concurrently''))"
| "mutate run_id change (Suc n) =
     get_run run_id (\<lambda>(current, revision).
       bindp (change current) (\<lambda>changed.
         ask UtcNow (\<lambda>date.
           let updated = dict_set ''updated_at'' date changed in
           KvUpdate (run_key run_id) (JObj updated) revision (\<lambda>r. case r of
             Inr _ \<Rightarrow> Ret updated
           | Inl e \<Rightarrow> if exn_cls e = RevisionConflict then mutate run_id change n else Raise e))))"

text \<open>\<open>value["status"].update(fields)\<close>.\<close>

definition set_status :: "dict \<Rightarrow> dict \<Rightarrow> (ctl_eff, dict) prog" where
  "set_status new value =
     lift (dict_item value ''status'') (\<lambda>st. lift (as_dict st) (\<lambda>d.
       Ret (dict_set ''status'' (JObj (dict_update d new)) value)))"

definition public :: "dict \<Rightarrow> json result" where
  "public record =
     rbind (dict_item record ''status'') (\<lambda>st.
     rbind (dict_item record ''config'') (\<lambda>cf.
       Inr (JObj ([(''status'', st), (''config'', cf)] @
         (let s = dict_get record ''summary'' JNull in if s = JNull then [] else [(''summary'', s)])))))"

definition start_record :: "string \<Rightarrow> benchmark_config \<Rightarrow> json \<Rightarrow> pyfloat \<Rightarrow> json \<Rightarrow> dict" where
  "start_record run_id c created until date =
     [(''schema_version'', JInt 1), (''run_id'', JStr run_id), (''config'', JObj (as_dict_config c)),
      (''status'', JObj [(''run_id'', JStr run_id), (''state'', JStr ''submitted''), (''created_at'', created),
         (''application_type'', JStr (application_type c)), (''target_url'', JStr (target_url c)),
         (''workload'', JStr (workload c)), (''lease_until'', JFloat until)]),
      (''summary'', JNull), (''artifacts'', JObj []), (''updated_at'', date)]"

text \<open>The submission of a stored run: the Kubernetes job, and its name in the record.\<close>

definition submit :: "string \<Rightarrow> benchmark_config \<Rightarrow> dict \<Rightarrow> (ctl_eff, dict) prog" where
  "submit run_id c record =
     KvCreate (run_key run_id) (JObj record) (\<lambda>r. lift r (\<lambda>_.
       lift (worker_count c) (\<lambda>workers.
       ask (JobCreate run_id (run_seconds c + 300) workers) (\<lambda>name.
         mutate run_id (set_status [(''job_name'', name), (''worker_count'', JInt workers)]) 12))))"

definition submission_failed :: "string \<Rightarrow> exn \<Rightarrow> (ctl_eff, 'a) prog" where
  "submission_failed run_id error =
     bindp
       (catchp
         (bindp (mutate run_id (\<lambda>v. ask UtcNow (\<lambda>date.
             set_status [(''state'', JStr ''failed''), (''ended_at'', date),
               (''message'', JStr (''could not submit benchmark Job: '' @ exn_msg error))] v)) 12) (\<lambda>_. Ret ()))
         (\<lambda>e. if exn_cls e \<in> {RunNotFound, RunConflict} then Ret () else Raise e))
       (\<lambda>_. bindp (release_lease run_id 12) (\<lambda>_. Raise error))"

definition start_run :: "string \<Rightarrow> dict \<Rightarrow> (ctl_eff, json) prog" where
  "start_run application values =
     (if lower (strip (py_str (dict_get values ''workload'' (JStr [])))) = ''fault_tolerance''
      then Raise (Exn ConfigError ''fault_tolerance must be run with fault_tolerance.py so faults are injected into the target cluster'')
      else lift (from_request values application) (\<lambda>c.
        ask NewRunId (\<lambda>rid.
          let run_id = py_str rid; maximum_seconds = run_seconds c + 300 in
          bindp (acquire_lease run_id maximum_seconds 12) (\<lambda>_.
          ask UtcNow (\<lambda>created.
          ask Clock (\<lambda>j. lift (py_float j) (\<lambda>now.
          ask UtcNow (\<lambda>date.
            let record = start_record run_id c created (f_add now (Fin (of_int maximum_seconds))) date in
            bindp (catchp (submit run_id c record) (\<lambda>e. submission_failed run_id e)) (\<lambda>stored.
              lift (public stored) Ret)))))))))"

section \<open>Observing and stopping a run\<close>

definition finish_as :: "string \<Rightarrow> string \<Rightarrow> string \<Rightarrow> (ctl_eff, dict) prog" where
  "finish_as run_id terminal msg =
     bindp (mutate run_id (\<lambda>v. ask UtcNow (\<lambda>date.
         set_status [(''state'', JStr terminal), (''ended_at'', date), (''message'', JStr msg)] v)) 12) (\<lambda>record.
       bindp (release_lease run_id 12) (\<lambda>_. Ret record))"

definition reconcile :: "dict \<Rightarrow> (ctl_eff, dict) prog" where
  "reconcile record =
     lift (dict_item record ''status'') (\<lambda>st. lift (as_dict st) (\<lambda>status.
       let state = py_str (dict_get status ''state'' (JStr ''unknown''));
           name = dict_get status ''job_name'' JNull
       in if state \<notin> ACTIVE_STATES \<or> \<not> truthy name then Ret record
          else Ext (JobState (py_str name)) (\<lambda>r. case r of
            Inl e \<Rightarrow>
              if exn_cls e = JobNotFound then
                lift (lease_until status) (\<lambda>until.
                ask Clock (\<lambda>j. lift (py_float j) (\<lambda>now.
                  if f_lt now until then Ret record
                  else lift (dict_item record ''run_id'') (\<lambda>rid.
                    finish_as (py_str rid)
                      (if truthy (dict_get status ''stop_requested'' JNull) then ''stopped'' else ''interrupted'')
                      ''benchmark Job disappeared before finalization''))))
              else Ret record
          | Inr job_state \<Rightarrow>
              if job_state \<noteq> JStr ''failed'' then Ret record
              else lift (dict_item record ''run_id'') (\<lambda>rid.
                finish_as (py_str rid) ''failed''
                  ''benchmark Job failed before publishing a terminal status''))))"

definition details :: "string \<Rightarrow> (ctl_eff, json) prog" where
  "details run_id = get_run run_id (\<lambda>(record, _). bindp (reconcile record) (\<lambda>record. lift (public record) Ret))"

definition stop_run :: "string \<Rightarrow> (ctl_eff, json) prog" where
  "stop_run run_id =
     get_run run_id (\<lambda>(current, _).
       lift (dict_item current ''status'') (\<lambda>st. lift (as_dict st) (\<lambda>status.
         if \<not> (case dict_get status ''state'' JNull of JStr s \<Rightarrow> s \<in> ACTIVE_STATES | _ \<Rightarrow> False)
         then Raise (Exn RunConflict ''the requested run is not active'')
         else
           let name = dict_get status ''job_name'' JNull in
           bindp (mutate run_id (\<lambda>v. ask UtcNow (\<lambda>date.
               set_status [(''state'', JStr ''stopping''), (''stop_requested'', JBool True), (''stop_requested_at'', date)] v)) 12)
             (\<lambda>_. bindp (if truthy name then ask (JobDelete (py_str name)) (\<lambda>_. Ret ()) else Ret ())
             (\<lambda>_. bindp (mutate run_id (\<lambda>v. ask UtcNow (\<lambda>date.
                 set_status [(''state'', JStr ''stopped''), (''ended_at'', date)] v)) 12)
             (\<lambda>record. bindp (release_lease run_id 12) (\<lambda>_. lift (public record) Ret)))))))"

text \<open>The summary of a run in a listing.\<close>

definition available :: "json \<Rightarrow> string \<Rightarrow> bool result" where
  "available artifacts name =
     rbind (jget artifacts name JNull) (\<lambda>m.
       Inr (case m of JObj d \<Rightarrow> truthy (dict_get d ''object'' JNull) | _ \<Rightarrow> False))"

definition listing_entry :: "dict \<Rightarrow> json result" where
  "listing_entry record =
     rbind (dict_item record ''status'') (\<lambda>st. rbind (as_dict st) (\<lambda>status.
     let summary = (let s = dict_get record ''summary'' JNull in if truthy s then s else JObj []) in
     rbind (jget summary ''business'' (JObj [])) (\<lambda>business.
     rbind (jget business ''completed'' JNull) (\<lambda>completed.
     rbind (jget business ''checkout_to_outcome'' (JObj [])) (\<lambda>outcome.
     rbind (jget outcome ''p95_ms'' JNull) (\<lambda>p95.
     let artifacts = dict_get record ''artifacts'' (JObj []) in
     rbind (available artifacts ''summary.json'') (\<lambda>sa.
     rbind (available artifacts ''artifacts.zip'') (\<lambda>aa.
       Inr (JObj (dict_update status
         [(''completed_orders'', completed), (''p95_ms'', p95),
          (''summary_available'', JBool sa), (''artifacts_available'', JBool aa)]))))))))))"

fun list_entries :: "string list \<Rightarrow> json list \<Rightarrow> (ctl_eff, json list) prog" where
  "list_entries [] runs = Ret runs"
| "list_entries (key # ks) runs =
     bindp
       (catchp
         (KvGet key (\<lambda>r. lift r (\<lambda>(v, _). lift (decode_record v) (\<lambda>d.
            bindp (reconcile d) (\<lambda>record. lift (dict_item record ''status'') (\<lambda>_. Ret (Some record)))))))
         (\<lambda>e. if exn_cls e \<in> {RecordNotFound, RunNotFound} then Ret None else Raise e))
       (\<lambda>found. case found of
          None \<Rightarrow> list_entries ks runs
        | Some record \<Rightarrow> lift (listing_entry record) (\<lambda>entry. list_entries ks (runs @ [entry])))"

definition string_items :: "json \<Rightarrow> string list" where
  "string_items v = (case v of JList xs \<Rightarrow> map py_str xs | _ \<Rightarrow> [])"

definition list_runs :: "(ctl_eff, json list) prog" where
  "list_runs = ask (StoreKeys RUN_PREFIX) (\<lambda>v. list_entries (rev (string_items v)) [])"

definition artifact :: "string \<Rightarrow> string \<Rightarrow> (ctl_eff, json) prog" where
  "artifact run_id name =
     get_run run_id (\<lambda>(record, _).
       lift (jget (dict_get record ''artifacts'' (JObj [])) name JNull) (\<lambda>metadata.
         case metadata of
           JObj d \<Rightarrow>
             if \<not> truthy (dict_get d ''object'' JNull) then Raise (Exn RunNotFound (run_id @ ''/'' @ name))
             else Ext (GetObject (py_str (dict_get d ''object'' JNull))) (\<lambda>r. case r of
                 Inr bytes \<Rightarrow> Ret bytes
               | Inl e \<Rightarrow> if exn_cls e = RecordNotFound then Raise (Exn RunNotFound (run_id @ ''/'' @ name)) else Raise e)
         | _ \<Rightarrow> Raise (Exn RunNotFound (run_id @ ''/'' @ name))))"

section \<open>The job's records\<close>

text \<open>\<open>mutate\<close> of \<open>job.py\<close>: no check of the identity, shallow copies of the nested parts.\<close>

fun job_mutate :: "string \<Rightarrow> (dict \<Rightarrow> (ctl_eff, dict) prog) \<Rightarrow> nat \<Rightarrow> (ctl_eff, dict) prog" where
  "job_mutate run_id change 0 = Raise (Exn RunConflict (''run '' @ run_id @ '' is being updated concurrently''))"
| "job_mutate run_id change (Suc n) =
     KvGet (run_key run_id) (\<lambda>r. lift r (\<lambda>(v, revision). lift (decode_record v) (\<lambda>current.
       lift (dict_item current ''status'') (\<lambda>st. lift (as_dict st) (\<lambda>_.
       lift (as_dict (dict_get current ''artifacts'' (JObj []))) (\<lambda>arts.
       bindp (change (dict_set ''artifacts'' (JObj arts) current)) (\<lambda>changed.
         ask UtcNow (\<lambda>date.
           let updated = dict_set ''updated_at'' date changed in
           KvUpdate (run_key run_id) (JObj updated) revision (\<lambda>r. case r of
             Inr _ \<Rightarrow> Ret updated
           | Inl e \<Rightarrow> if exn_cls e = RevisionConflict then job_mutate run_id change n else Raise e)))))))))"

definition job_starting :: "string \<Rightarrow> string \<Rightarrow> int \<Rightarrow> (ctl_eff, dict) prog" where
  "job_starting run_id pod workers =
     bindp (renew_lease run_id pod) (\<lambda>until.
       job_mutate run_id (\<lambda>v. ask UtcNow (\<lambda>date.
         set_status [(''state'', JStr ''starting''), (''started_at'', date), (''pod_name'', JStr pod),
           (''worker_count'', JInt workers), (''lease_until'', JFloat until)] v)) 12)"

definition job_heartbeat :: "string \<Rightarrow> string \<Rightarrow> (ctl_eff, dict) prog" where
  "job_heartbeat run_id pod =
     bindp (renew_lease run_id pod) (\<lambda>until.
       job_mutate run_id (\<lambda>v. ask UtcNow (\<lambda>date.
         set_status [(''heartbeat_at'', date), (''lease_until'', JFloat until)] v)) 12)"

definition job_running :: "string \<Rightarrow> int \<Rightarrow> (ctl_eff, dict) prog" where
  "job_running run_id pid =
     job_mutate run_id (set_status [(''state'', JStr ''running''), (''pid'', JInt pid)]) 12"

text \<open>\<open>summary_overview\<close>: the bounded part of a summary that is kept in the record.\<close>

definition SUMMARY_OVERVIEW_FIELDS :: "string list" where
  "SUMMARY_OVERVIEW_FIELDS =
     [''application_type'', ''workload'', ''worker_count'', ''users'', ''arrival_rate'', ''warmup_seconds'',
      ''steady_seconds'', ''configured_steady_seconds'', ''drain_seconds'', ''business'', ''workflow_events'',
      ''capacity'']"

definition summary_overview :: "dict option \<Rightarrow> json" where
  "summary_overview summary = (case summary of
      None \<Rightarrow> JNull
    | Some d \<Rightarrow> JObj (List.map_filter (\<lambda>f. map_option (Pair f) (map_of d f)) SUMMARY_OVERVIEW_FIELDS))"

definition finish_change :: "string \<Rightarrow> int \<Rightarrow> string option \<Rightarrow> dict option \<Rightarrow> json \<Rightarrow> dict \<Rightarrow> (ctl_eff, dict) prog" where
  "finish_change state exit_code msg summary artifacts value =
     lift (dict_item value ''status'') (\<lambda>st. lift (as_dict st) (\<lambda>status.
       ask UtcNow (\<lambda>date.
         let requested = truthy (dict_get status ''stop_requested'' JNull);
             status1 = dict_update status
               [(''state'', JStr (if requested then ''stopped'' else state)), (''ended_at'', date), (''exit_code'', JInt exit_code)];
             status2 = dict_pop ''lease_until'' status1;
             status3 = (case msg of None \<Rightarrow> status2 | Some m \<Rightarrow> if m = [] then status2 else dict_set ''message'' (JStr m) status2)
         in Ret (dict_update value
              [(''status'', JObj status3), (''summary'', summary_overview summary), (''artifacts'', artifacts)]))))"

definition job_finish :: "string \<Rightarrow> string \<Rightarrow> int \<Rightarrow> string option \<Rightarrow> dict option \<Rightarrow> json \<Rightarrow> (ctl_eff, unit) prog" where
  "job_finish run_id state exit_code msg summary artifacts =
     bindp (job_mutate run_id (finish_change state exit_code msg summary artifacts) 12)
       (\<lambda>_. release_lease run_id 12)"

definition job_failed :: "string \<Rightarrow> string \<Rightarrow> (ctl_eff, unit) prog" where
  "job_failed run_id error =
     catchp
       (bindp (job_mutate run_id (\<lambda>v. ask UtcNow (\<lambda>date.
          set_status [(''state'', JStr ''failed''), (''ended_at'', date), (''message'', JStr error)] v)) 12)
          (\<lambda>_. release_lease run_id 12))
       (\<lambda>_. Ret ())"

end
