(* ===== verification/Control_Protocol.thy ===== *)
theory Control_Protocol
  imports Control
begin

text \<open>
  The write protocol of the benchmark's records: the lease passes from one run to another only when
  the taker has read a clock at or after its expiry, and the identity and configuration of a run
  never change. Every operation of the control plane and of the jobs respects it.
\<close>

definition lease_change :: "ctl_eff knowledge \<Rightarrow> json \<Rightarrow> json \<Rightarrow> bool" where
  "lease_change K w v \<longleftrightarrow>
     (\<exists>dw dv. w = JObj dw \<and> v = JObj dv \<and>
        (dict_get dv ''run_id'' JNull = dict_get dw ''run_id'' JNull \<or>
         (\<exists>j t u. Got Clock j \<in> K \<and> py_float j = Inr t \<and> lease_until dw = Inr u \<and> \<not> f_lt t u)))"

definition same_run :: "dict \<Rightarrow> dict \<Rightarrow> bool" where
  "same_run dw dv \<longleftrightarrow>
     dict_get dv ''run_id'' JNull = dict_get dw ''run_id'' JNull \<and>
     dict_get dv ''config'' JNull = dict_get dw ''config'' JNull"

definition ctl_I :: "string \<Rightarrow> json \<Rightarrow> bool" where
  "ctl_I k v \<longleftrightarrow> (\<forall>run_id. k = run_key run_id \<longrightarrow>
      (\<exists>d. v = JObj d \<and> dict_get d ''run_id'' JNull = JStr run_id))"

definition ctl_R :: "ctl_eff knowledge \<Rightarrow> string \<Rightarrow> json \<Rightarrow> json \<Rightarrow> bool" where
  "ctl_R K k w v \<longleftrightarrow>
     (if k = LEASE_KEY then lease_change K w v else \<exists>dw dv. w = JObj dw \<and> v = JObj dv \<and> same_run dw dv)"

abbreviation any_post :: "'a \<Rightarrow> ctl_eff knowledge \<Rightarrow> bool" where
  "any_post \<equiv> \<lambda>_ _. True"

abbreviation ctl_ok :: "('a \<Rightarrow> ctl_eff knowledge \<Rightarrow> bool) \<Rightarrow> (ctl_eff, 'a) prog \<Rightarrow> ctl_eff knowledge \<Rightarrow> bool" where
  "ctl_ok \<equiv> cas_ok ctl_I ctl_R"

lemma run_key_not_lease [simp]: "run_key r \<noteq> LEASE_KEY" "LEASE_KEY \<noteq> run_key r"
  by (simp_all add: run_key_def RUN_PREFIX_def LEASE_KEY_def)

lemma run_key_inject [simp]: "run_key a = run_key b \<longleftrightarrow> a = b"
  by (simp add: run_key_def)

lemma ctl_I_lease [simp]: "ctl_I LEASE_KEY v"
  by (simp add: ctl_I_def)

lemma ctl_keeps: "ctl_R K k w v \<Longrightarrow> ctl_I k w \<Longrightarrow> ctl_I k v"
  by (auto simp: ctl_R_def ctl_I_def same_run_def split: if_splits)

lemma decode_record_Inr [simp]: "decode_record v = Inr d \<longleftrightarrow> v = JObj d"
  by (cases v) (auto simp: decode_record_def)

lemma ask_ok [cas_intros]: "(\<And>j. ctl_ok Q (f j) (insert (Got x j) K)) \<Longrightarrow> ctl_ok Q (ask x f) K"
  by (auto simp: ask_def intro!: cas_intros)

lemma same_run_refl [simp]: "same_run d d"
  by (simp add: same_run_def)

lemma same_run_trans: "same_run a b \<Longrightarrow> same_run b c \<Longrightarrow> same_run a c"
  by (simp add: same_run_def)

lemma same_run_set [simp]: "k \<noteq> ''run_id'' \<Longrightarrow> k \<noteq> ''config'' \<Longrightarrow> same_run d (dict_set k v d)"
  by (simp add: same_run_def)

lemma same_run_dated: "same_run a b \<Longrightarrow> same_run a (dict_set ''updated_at'' v b)"
  by (simp add: same_run_def)

section \<open>The lease operations\<close>

lemma acquire_lease_ok: "ctl_ok any_post (acquire_lease run_id duration n) K"
proof (induction n arbitrary: K)
  case 0
  then show ?case by simp
next
  case (Suc n)
  have upd: "ctl_R L LEASE_KEY (JObj d) (lease_doc run_id owner u date)"
    if "Got Clock j \<in> L" "py_float j = Inr now" "lease_until d = Inr until" "\<not> f_lt now until"
    for L d owner u date j now until
    using that by (auto simp: ctl_R_def lease_change_def lease_doc_def)
  show ?case
    by (auto simp: Let_def intro!: cas_intros Suc) (rule upd; auto)
qed

lemma lease_change_same:
  "dict_get dv ''run_id'' JNull = dict_get dw ''run_id'' JNull \<Longrightarrow> ctl_R K LEASE_KEY (JObj dw) (JObj dv)"
  by (simp add: ctl_R_def lease_change_def)

lemma release_lease_ok: "ctl_ok any_post (release_lease run_id n) K"
proof (induction n arbitrary: K)
  case 0
  then show ?case by simp
next
  case (Suc n)
  show ?case
    by (auto intro!: cas_intros Suc cas_ok_update [OF insertI2 [OF insertI1]] lease_change_same)
qed

lemma renew_lease_ok: "ctl_ok any_post (renew_lease run_id pod) K"
proof -
  have "ctl_ok any_post (renew_lease_loop run_id pod until n) K" for until n K
  proof (induction n arbitrary: K)
    case 0
    then show ?case by simp
  next
    case (Suc n)
    show ?case
      by (auto intro!: cas_intros Suc cas_ok_update [OF insertI2 [OF insertI1]] lease_change_same)
  qed
  then show ?thesis by (auto simp: renew_lease_def intro!: cas_intros)
qed

section \<open>Changes of a run record\<close>

definition keeps_run :: "(dict \<Rightarrow> (ctl_eff, dict) prog) \<Rightarrow> bool" where
  "keeps_run change \<longleftrightarrow> (\<forall>d K. ctl_ok (\<lambda>d' _. same_run d d') (change d) K)"

lemma set_status_keeps: "ctl_ok (\<lambda>d' _. same_run d d') (set_status new d) K"
  by (auto simp: set_status_def intro!: cas_intros)

lemma keeps_run_status [simp]: "keeps_run (set_status new)"
  by (simp add: keeps_run_def set_status_keeps)

lemma keeps_run_dated [simp]: "keeps_run (\<lambda>v. ask UtcNow (\<lambda>date. set_status (new date) v))"
  by (auto simp: keeps_run_def intro!: cas_intros set_status_keeps)

lemma keeps_run_finish [simp]: "keeps_run (finish_change state exit_code msg summary artifacts)"
  by (auto simp: keeps_run_def finish_change_def Let_def same_run_def intro!: cas_intros)

lemma get_run_ok:
  assumes "\<And>d m L. K \<subseteq> L \<Longrightarrow> Saw (run_key run_id) (JObj d) m \<in> L \<Longrightarrow>
      dict_get d ''run_id'' JNull = JStr run_id \<Longrightarrow> ctl_ok Q (f (d, m)) L"
  shows "ctl_ok Q (get_run run_id f) K"
  by (auto simp: get_run_def intro!: cas_intros) (rule assms; auto)

lemma write_run_ok:
  assumes "Saw (run_key run_id) (JObj d) m \<in> K" and "same_run d updated" and "Q updated"
    and "\<And>L. ctl_ok (\<lambda>a _. Q a) again L"
  shows "ctl_ok (\<lambda>a _. Q a) (KvUpdate (run_key run_id) (JObj updated) m (\<lambda>r. case r of
             Inr _ \<Rightarrow> Ret updated
           | Inl e \<Rightarrow> if exn_cls e = RevisionConflict then again else Raise e)) K"
  using assms by (intro cas_ok_update [OF assms(1)]) (auto simp: ctl_R_def)

lemma mutate_ok:
  assumes "keeps_run change"
  shows "ctl_ok any_post (mutate run_id change n) K"
proof (induction n arbitrary: K)
  case 0
  then show ?case by simp
next
  case (Suc n)
  show ?case unfolding mutate.simps
  proof (rule get_run_ok, simp only: prod.case)
    fix d m and L :: "ctl_eff knowledge"
    assume saw: "Saw (run_key run_id) (JObj d) m \<in> L"
    have ch: "ctl_ok (\<lambda>d' _. same_run d d') (change d) L" using assms by (simp add: keeps_run_def)
    show "ctl_ok any_post (bindp (change d) (\<lambda>changed. ask UtcNow (\<lambda>date.
           let updated = dict_set ''updated_at'' date changed in
           KvUpdate (run_key run_id) (JObj updated) m (\<lambda>r. case r of
             Inr _ \<Rightarrow> Ret updated
           | Inl e \<Rightarrow> if exn_cls e = RevisionConflict then mutate run_id change n else Raise e)))) L"
    proof (rule cas_ok_bindp [OF ch])
      fix changed L'
      assume "L \<subseteq> L'" and s: "same_run d changed"
      then have "Saw (run_key run_id) (JObj d) m \<in> insert (Got UtcNow j) L'" for j using saw by auto
      then show "ctl_ok any_post (ask UtcNow (\<lambda>date.
           let updated = dict_set ''updated_at'' date changed in
           KvUpdate (run_key run_id) (JObj updated) m (\<lambda>r. case r of
             Inr _ \<Rightarrow> Ret updated
           | Inl e \<Rightarrow> if exn_cls e = RevisionConflict then mutate run_id change n else Raise e))) L'"
        unfolding Let_def
        by (intro ask_ok write_run_ok [where Q = "\<lambda>_. True"] Suc) (auto simp: same_run_dated [OF s])
    qed
  qed
qed

lemma job_mutate_ok:
  assumes "keeps_run change"
  shows "ctl_ok any_post (job_mutate run_id change n) K"
proof (induction n arbitrary: K)
  case 0
  then show ?case by simp
next
  case (Suc n)
  have body: "ctl_ok any_post (bindp (change (dict_set ''artifacts'' (JObj arts) d)) (\<lambda>changed. ask UtcNow (\<lambda>date.
           let updated = dict_set ''updated_at'' date changed in
           KvUpdate (run_key run_id) (JObj updated) m (\<lambda>r. case r of
             Inr _ \<Rightarrow> Ret updated
           | Inl e \<Rightarrow> if exn_cls e = RevisionConflict then job_mutate run_id change n else Raise e))))
         (insert (Saw (run_key run_id) (JObj d) m) L)" for arts d m L
  proof (rule cas_ok_bindp)
    show "ctl_ok (\<lambda>d' _. same_run (dict_set ''artifacts'' (JObj arts) d) d') (change (dict_set ''artifacts'' (JObj arts) d))
        (insert (Saw (run_key run_id) (JObj d) m) L)"
      using assms by (simp add: keeps_run_def)
  next
    fix changed L'
    assume sub: "insert (Saw (run_key run_id) (JObj d) m) L \<subseteq> L'"
      and s: "same_run (dict_set ''artifacts'' (JObj arts) d) changed"
    have sd: "same_run d changed" by (rule same_run_trans [OF _ s]) simp
    show "ctl_ok any_post (ask UtcNow (\<lambda>date.
           let updated = dict_set ''updated_at'' date changed in
           KvUpdate (run_key run_id) (JObj updated) m (\<lambda>r. case r of
             Inr _ \<Rightarrow> Ret updated
           | Inl e \<Rightarrow> if exn_cls e = RevisionConflict then job_mutate run_id change n else Raise e))) L'"
      unfolding Let_def
      by (intro ask_ok write_run_ok [where Q = "\<lambda>_. True"] Suc) (use sub in \<open>auto simp: same_run_dated [OF sd]\<close>)
  qed
  show ?case by (auto intro!: cas_intros body)
qed

section \<open>The methods\<close>

lemma ctl_bind_any:
  assumes "ctl_ok any_post p K" and "\<And>a L. ctl_ok Q (f a) L"
  shows "ctl_ok Q (bindp p f) K"
  by (rule cas_ok_bindp [OF assms(1)]) (rule assms(2))

lemma ctl_catch_any:
  assumes "ctl_ok any_post p K" and "\<And>e L. ctl_ok any_post (h e) L"
  shows "ctl_ok any_post (catchp p h) K"
  by (rule cas_ok_catchp [OF assms(1)]) (rule assms(2))

lemmas ctl_intros = cas_intros ctl_bind_any ctl_catch_any acquire_lease_ok release_lease_ok renew_lease_ok
  mutate_ok job_mutate_ok get_run_ok keeps_run_status keeps_run_dated keeps_run_finish

lemma submit_ok: "dict_get record ''run_id'' JNull = JStr run_id \<Longrightarrow> ctl_ok any_post (submit run_id c record) K"
  by (auto simp: submit_def ctl_I_def intro!: ctl_intros)

lemma submission_failed_ok: "ctl_ok any_post (submission_failed run_id e) K"
  unfolding submission_failed_def
  by (intro ctl_intros) auto

lemma start_run_ok: "ctl_ok any_post (start_run application values) K"
proof -
  have rec: "dict_get (start_record run_id c created until date) ''run_id'' JNull = JStr run_id"
    for run_id c created until date by (simp add: start_record_def dict_get_def)
  show ?thesis unfolding start_run_def Let_def
    by (auto intro!: ctl_intros submit_ok [OF rec] submission_failed_ok)
qed

lemma finish_as_ok: "ctl_ok any_post (finish_as run_id terminal msg) K"
  unfolding finish_as_def by (intro ctl_intros) auto

lemma reconcile_run_ok: "ctl_ok any_post (reconcile record) K"
  unfolding reconcile_def Let_def by (auto intro!: ctl_intros finish_as_ok)

lemma details_ok: "ctl_ok any_post (details run_id) K"
  unfolding details_def by (auto intro!: ctl_intros reconcile_run_ok)

lemma stop_run_ok: "ctl_ok any_post (stop_run run_id) K"
  unfolding stop_run_def Let_def by (auto intro!: ctl_intros)

lemma list_entries_ok: "ctl_ok any_post (list_entries ks runs) K"
proof (induction ks arbitrary: runs K)
  case Nil
  then show ?case by simp
next
  case (Cons key ks)
  show ?case unfolding list_entries.simps
    by (rule ctl_bind_any, rule ctl_catch_any)
      (auto intro!: ctl_intros reconcile_run_ok Cons split: option.splits)
qed

lemma list_runs_ok: "ctl_ok any_post list_runs K"
  unfolding list_runs_def by (auto intro!: ctl_intros list_entries_ok)

lemma artifact_ok: "ctl_ok any_post (artifact run_id name) K"
  unfolding artifact_def by (auto intro!: ctl_intros split: json.splits)

lemma job_starting_ok: "ctl_ok any_post (job_starting run_id pod workers) K"
  unfolding job_starting_def by (intro ctl_intros)

lemma job_heartbeat_ok: "ctl_ok any_post (job_heartbeat run_id pod) K"
  unfolding job_heartbeat_def by (intro ctl_intros)

lemma job_running_ok: "ctl_ok any_post (job_running run_id pid) K"
  unfolding job_running_def by (intro ctl_intros)

lemma job_finish_ok: "ctl_ok any_post (job_finish run_id state exit_code msg summary artifacts) K"
  unfolding job_finish_def by (intro ctl_intros)

lemma job_failed_ok: "ctl_ok any_post (job_failed run_id error) K"
  unfolding job_failed_def by (intro ctl_intros) auto

end
