(* ===== verification/Control_Props.thy ===== *)
theory Control_Props
  imports Control_Protocol Catalog_Seq
begin

text \<open>
  Properties of the benchmark control plane and jobs in every interleaving, and an in-memory store
  with a clock on which they are instantiated. The store can lose the acknowledgement of a committed
  write, which the recovery of \<open>src/benchmarkservice/shared_store.py\<close> turns into a conflict.
\<close>

section \<open>Calls\<close>

datatype ctl_call =
    Start string dict
  | Details string
  | ListRuns
  | Stop string
  | Artifact string string
  | JobStarting string string int
  | JobHeartbeat string string
  | JobRunning string int
  | JobFinish string string int "string option" "dict option" json
  | JobFailed string string

definition ending :: "(ctl_eff, 'a) prog \<Rightarrow> (ctl_eff, unit) prog" where
  "ending p = bindp p (\<lambda>_. Ret ())"

primrec ctl_tree :: "ctl_call \<Rightarrow> (ctl_eff, unit) prog" where
  "ctl_tree (Start application values) = ending (start_run application values)"
| "ctl_tree (Details r) = ending (details r)"
| "ctl_tree ListRuns = ending list_runs"
| "ctl_tree (Stop r) = ending (stop_run r)"
| "ctl_tree (Artifact r name) = ending (artifact r name)"
| "ctl_tree (JobStarting r pod workers) = ending (job_starting r pod workers)"
| "ctl_tree (JobHeartbeat r pod) = ending (job_heartbeat r pod)"
| "ctl_tree (JobRunning r pid) = ending (job_running r pid)"
| "ctl_tree (JobFinish r state code msg summary arts) = ending (job_finish r state code msg summary arts)"
| "ctl_tree (JobFailed r error) = ending (job_failed r error)"

lemma ctl_tree_ok: "ctl_ok any_post (ctl_tree c) K"
  by (cases c)
    (auto simp: ending_def intro!: ctl_bind_any start_run_ok details_ok list_runs_ok stop_run_ok artifact_ok
      job_starting_ok job_heartbeat_ok job_running_ok job_finish_ok job_failed_ok)

text \<open>No clock is ahead of the time \<open>now\<close>.\<close>

definition clocks_behind :: "('s \<Rightarrow> rat) \<Rightarrow> 's \<Rightarrow> ctl_eff \<Rightarrow> json \<Rightarrow> bool" where
  "clocks_behind now s x j \<longleftrightarrow> (x = Clock \<longrightarrow> (\<exists>t. j = JFloat (Fin t) \<and> t \<le> now s))"

definition records_ok :: "(string \<Rightarrow> (json \<times> nat) option) \<Rightarrow> bool" where
  "records_ok m \<longleftrightarrow> (\<forall>k v n. m k = Some (v, n) \<longrightarrow> ctl_I k v)"

lemma ctl_protocol:
  "cas_bucket H kv lastrev known okst \<Longrightarrow> cas_protocol H kv lastrev known okst ctl_I ctl_R"
  by (intro cas_protocol.intro cas_protocol_axioms.intro) (auto intro: ctl_keeps)

lemma ctl_start:
  assumes "cas_bucket H kv lastrev known okst" and "okst s0" and "records_ok (kv s0)"
  shows "cas_protocol.cfg_ok kv known okst ctl_I ctl_R (\<lambda>_. any_post) (s0, map ctl_tree calls)"
  by (rule cas_protocol.initial_ok [OF ctl_protocol [OF assms(1)] assms(2)])
    (use assms(3) in \<open>simp_all add: cas_protocol.values_ok_def [OF ctl_protocol [OF assms(1)]] records_ok_def ctl_tree_ok\<close>)

lemma f_lt_later: "f_lt (Fin a) u \<Longrightarrow> t \<le> a \<Longrightarrow> f_lt (Fin t) u"
  by (cases u) auto

lemma lease_takeover:
  assumes "cas_bucket H kv lastrev (clocks_behind now) okst" and "okst s0" and "records_ok (kv s0)"
    and "reaches H (s0, map ctl_tree calls) (s, ps)" and "step H (s, ps) (s', ps')"
    and "kv s LEASE_KEY = Some (JObj d, m)" and "kv s' LEASE_KEY = Some (JObj d', m')"
    and "dict_get d' ''run_id'' JNull \<noteq> dict_get d ''run_id'' JNull"
  shows "\<exists>u. lease_until d = Inr u \<and> \<not> f_lt (Fin (now s)) u"
proof -
  note P = ctl_protocol [OF assms(1)]
  have "cas_protocol.cfg_ok kv (clocks_behind now) okst ctl_I ctl_R (\<lambda>_. any_post) (s, ps)"
    by (rule cas_protocol.reaches_ok [OF P assms(4) ctl_start [OF assms(1-3)]])
  then obtain K where g: "cas_protocol.grounded kv (clocks_behind now) ctl_R s K"
      and mv: "cas_protocol.moves kv lastrev (clocks_behind now) ctl_I ctl_R K s s'"
    using cas_protocol.step_ok [OF P assms(5)] by blast
  have "ctl_R K LEASE_KEY (JObj d) (JObj d')"
    using cas_protocol.moves_some [OF P mv assms(6)] assms(6-8) by auto
  then obtain j t u where t: "Got Clock j \<in> K" "py_float j = Inr t" "lease_until d = Inr u" "\<not> f_lt t u"
    using assms(8) by (auto simp: ctl_R_def lease_change_def)
  have "clocks_behind now s Clock j" using g t(1) unfolding cas_protocol.grounded_def [OF P] by blast
  then obtain q where "t = Fin q" "q \<le> now s" using t(2) by (auto simp: clocks_behind_def)
  then show ?thesis using t(3,4) f_lt_later by blast
qed

lemma same_run_closure:
  assumes "(\<lambda>w v. \<exists>K. ctl_R K (run_key r) w v)\<^sup>*\<^sup>* w v" and "w = JObj d"
  shows "\<exists>d'. v = JObj d' \<and> same_run d d'"
  using assms(1)
proof (induction rule: rtranclp_induct)
  case base
  then show ?case using assms(2) by simp
next
  case (step u v)
  then obtain d1 where "u = JObj d1" "same_run d d1" by blast
  then show ?case using step(2) same_run_trans by (auto simp: ctl_R_def)
qed

section \<open>An in-memory store with a clock\<close>

record ctl_world =
  cw_mem :: mem_catalog
  cw_now :: rat
  cw_lost :: nat

text \<open>A write whose acknowledgement is lost has been committed and is answered with a conflict.\<close>

definition cw_put :: "string \<Rightarrow> json \<Rightarrow> ctl_world \<Rightarrow> nat result \<times> ctl_world" where
  "cw_put k v s =
     (case mem_put k v (cw_mem s) of (r, m) \<Rightarrow>
        if 0 < cw_lost s then (raise RevisionConflict k, s\<lparr>cw_mem := m, cw_lost := cw_lost s - 1\<rparr>)
        else (r, s\<lparr>cw_mem := m\<rparr>))"

definition cw_get :: "string \<Rightarrow> ctl_world \<Rightarrow> (json \<times> nat) result \<times> ctl_world" where
  "cw_get k s = (case mem_kv (cw_mem s) k of None \<Rightarrow> raise RecordNotFound k | Some vn \<Rightarrow> Inr vn, s)"

definition cw_create :: "string \<Rightarrow> json \<Rightarrow> ctl_world \<Rightarrow> nat result \<times> ctl_world" where
  "cw_create k v s = (if mem_kv (cw_mem s) k \<noteq> None then (raise RevisionConflict k, s) else cw_put k v s)"

definition cw_update :: "string \<Rightarrow> json \<Rightarrow> nat \<Rightarrow> ctl_world \<Rightarrow> nat result \<times> ctl_world" where
  "cw_update k v m s =
     (if map_option snd (mem_kv (cw_mem s) k) \<noteq> Some m then (raise RevisionConflict k, s) else cw_put k v s)"

fun cw_ext :: "ctl_eff \<Rightarrow> ctl_world \<Rightarrow> json result \<times> ctl_world" where
  "cw_ext Clock s = (Inr (JFloat (Fin (cw_now s))), s\<lparr>cw_now := cw_now s + 1\<rparr>)"
| "cw_ext UtcNow s = (Inr (JStr ''2026-01-01T00:00:00+00:00''), s)"
| "cw_ext NewUuid s = (Inr (JStr ''u''), s)"
| "cw_ext NewRunId s = (Inr (JStr ''r'' ), s)"
| "cw_ext (JobCreate run_id seconds workers) s = (Inr (JStr (''benchmark-'' @ run_id)), s)"
| "cw_ext (JobState name) s = (Inr (JStr ''running''), s)"
| "cw_ext (JobDelete name) s = (Inr JNull, s)"
| "cw_ext (StoreKeys p) s =
     (Inr (JList (map JStr (sort (filter (\<lambda>k. startswith k p) (map fst (m_values (cw_mem s))))))), s)"
| "cw_ext (GetObject name) s = (raise RecordNotFound name, s)"

definition cw_ops :: "(ctl_eff, ctl_world) kv_ops" where
  "cw_ops = \<lparr>op_get = cw_get, op_create = cw_create, op_update = cw_update, op_ext = cw_ext\<rparr>"

abbreviation cw_kv :: "ctl_world \<Rightarrow> string \<Rightarrow> (json \<times> nat) option" where
  "cw_kv s \<equiv> mem_kv (cw_mem s)"

abbreviation cw_rev :: "ctl_world \<Rightarrow> nat" where
  "cw_rev s \<equiv> m_revision (cw_mem s)"

abbreviation cw_ok :: "ctl_world \<Rightarrow> bool" where
  "cw_ok s \<equiv> mem_ok (cw_mem s)"

lemma cw_put_facts:
  assumes "cw_ok s" and "cw_put k v s = (r, s')"
  shows "cw_ok s' \<and> cw_now s' = cw_now s \<and> (\<exists>n. commits cw_kv cw_rev k v s s' n \<and> (r = Inr n \<or> (\<exists>e. r = Inl e)))"
proof -
  obtain q m where p: "mem_put k v (cw_mem s) = (q, m)" by fastforce
  then have "mem_ok m \<and> (\<exists>n. commits mem_kv m_revision k v (cw_mem s) m n \<and> q = Inr n)"
    using mem_put_facts [OF assms(1)] by blast
  then show ?thesis using assms(2) p by (auto simp: cw_put_def commits_def split: if_splits)
qed

interpretation cw: cas_bucket cw_ops cw_kv cw_rev "clocks_behind cw_now" cw_ok
proof
  fix s k r s'
  assume "cw_ok s" "op_get cw_ops k s = (r, s')"
  then show "cw_ok s' \<and> unchanged cw_kv cw_rev s s' \<and> (\<forall>v n. r = Inr (v, n) \<longrightarrow> cw_kv s k = Some (v, n))"
    by (auto simp: cw_ops_def cw_get_def unchanged_def split: option.splits)
next
  fix s k v r s'
  assume "cw_ok s" "op_create cw_ops k v s = (r, s')"
  then show "cw_ok s' \<and> (unchanged cw_kv cw_rev s s' \<and> (\<exists>e. r = Inl e) \<or>
                 cw_kv s k = None \<and> (\<exists>n. commits cw_kv cw_rev k v s s' n \<and> (r = Inr n \<or> (\<exists>e. r = Inl e))))"
    using cw_put_facts [of s k v r s'] by (auto simp: cw_ops_def cw_create_def unchanged_def split: if_splits)
next
  fix s k v m r s'
  assume "cw_ok s" "op_update cw_ops k v m s = (r, s')"
  then show "cw_ok s' \<and> (unchanged cw_kv cw_rev s s' \<and> (\<exists>e. r = Inl e) \<or>
                 (\<exists>w. cw_kv s k = Some (w, m)) \<and>
                 (\<exists>n. commits cw_kv cw_rev k v s s' n \<and> (r = Inr n \<or> (\<exists>e. r = Inl e))))"
    using cw_put_facts [of s k v r s'] by (auto simp: cw_ops_def cw_update_def unchanged_def split: if_splits)
next
  fix s x r s'
  assume "cw_ok s" "op_ext cw_ops x s = (r, s')"
  then show "cw_ok s' \<and> unchanged cw_kv cw_rev s s' \<and> (\<forall>j. r = Inr j \<longrightarrow> clocks_behind cw_now s' x j)"
    by (cases x) (auto simp: cw_ops_def unchanged_def clocks_behind_def)
next
  fix s k v n
  assume "cw_ok s" "cw_kv s k = Some (v, n)"
  then show "n \<le> cw_rev s" by (rule mem_rev_bound)
next
  fix s x j k v
  assume "cw_ok s" "clocks_behind cw_now s x j"
  then show "clocks_behind cw_now (snd (op_create cw_ops k v s)) x j"
    using cw_put_facts [of s k v "fst (cw_put k v s)" "snd (cw_put k v s)"]
    by (simp add: cw_ops_def cw_create_def clocks_behind_def)
next
  fix s x j k v m
  assume "cw_ok s" "clocks_behind cw_now s x j"
  then show "clocks_behind cw_now (snd (op_update cw_ops k v m s)) x j"
    using cw_put_facts [of s k v "fst (cw_put k v s)" "snd (cw_put k v s)"]
    by (simp add: cw_ops_def cw_update_def clocks_behind_def)
next
  fix s x j y
  assume "cw_ok s" "clocks_behind cw_now s x j"
  then show "clocks_behind cw_now (snd (op_ext cw_ops y s)) x j"
    by (cases y) (auto simp: cw_ops_def clocks_behind_def intro: order_trans)
qed (auto simp: cw_ops_def cw_get_def clocks_behind_def)

lemma cw_bucket: "cas_bucket cw_ops cw_kv cw_rev (clocks_behind cw_now) cw_ok"
  by (rule cw.cas_bucket_axioms)

section \<open>Properties\<close>

definition old_lease :: dict where
  "old_lease = [(''run_id'', JStr ''old''), (''lease_until'', JInt 0), (''released'', JBool True)]"

definition lease_world :: ctl_world where
  "lease_world = \<lparr>cw_mem = \<lparr>m_values = [(LEASE_KEY, JObj old_lease, 1)], m_revision = 1\<rparr>, cw_now = 100, cw_lost = 0\<rparr>"

definition start_call :: ctl_call where
  "start_call = Start ''GRPC'' [(''target_url'', JStr ''local''), (''metrics_url'', JStr ''local'')]"

definition before_takeover :: "(ctl_eff, ctl_world, unit) config" where
  "before_takeover = run_sched cw_ops [0,0,0,0,0] (lease_world, map ctl_tree [start_call])"

definition after_takeover :: "(ctl_eff, ctl_world, unit) config" where
  "after_takeover = run_sched cw_ops [0] before_takeover"

text \<open>C13. Mutual exclusion of benchmarks: in any interleaving of any number of control-plane requests
  (starting, stopping, observing, listing runs) and benchmark jobs (starting, renewing, finishing,
  failing), and whatever the failures of the store, the lease passes from one run to another only
  when it has expired: at the moment of the change the time is not before its \<open>lease_until\<close>. The
  clocks of the participants may lag behind but not run ahead of that time.\<close>

theorem lease_changes_hands_only_when_expired:
  assumes "cas_bucket H kv lastrev (clocks_behind now) okst" and "okst s0" and "records_ok (kv s0)"
    and "reaches H (s0, map ctl_tree calls) (s, ps)" and "step H (s, ps) (s', ps')"
    and "kv s LEASE_KEY = Some (JObj d, m)" and "kv s' LEASE_KEY = Some (JObj d', m')"
    and "dict_get d' ''run_id'' JNull \<noteq> dict_get d ''run_id'' JNull"
  shows "\<exists>u. lease_until d = Inr u \<and> \<not> f_lt (Fin (now s)) u"
  by (rule lease_takeover [OF assms])

lemma takeover_reaches:
  "reaches cw_ops (lease_world, map ctl_tree [start_call]) (fst before_takeover, snd before_takeover)"
  unfolding prod.collapse before_takeover_def by (rule run_sched_reaches)

lemma lease_world_ok: "cw_ok lease_world" "records_ok (cw_kv lease_world)"
  by (auto simp: lease_world_def mem_ok_def records_ok_def mem_kv_def split: if_splits)

theorem lease_changes_hands_only_when_expired_witness:
  "\<exists>u. lease_until old_lease = Inr u \<and> \<not> f_lt (Fin (cw_now (fst before_takeover))) u"
proof (rule lease_changes_hands_only_when_expired [OF cw_bucket lease_world_ok takeover_reaches])
  have "step cw_ops before_takeover after_takeover"
    unfolding after_takeover_def by (rule run_sched_step; code_simp)
  then show "step cw_ops (fst before_takeover, snd before_takeover) (fst after_takeover, snd after_takeover)" by simp
  show "cw_kv (fst before_takeover) LEASE_KEY = Some (JObj old_lease, 1)" by code_simp
  show "cw_kv (fst after_takeover) LEASE_KEY =
      Some (JObj [(''schema_version'', JInt 1), (''run_id'', JStr ''r''), (''owner'', JStr ''controller:u''),
          (''lease_until'', JFloat (Fin 610)), (''updated_at'', JStr ''2026-01-01T00:00:00+00:00'')], 2)"
    by code_simp
  show "dict_get [(''schema_version'', JInt 1), (''run_id'', JStr ''r''), (''owner'', JStr ''controller:u''),
          (''lease_until'', JFloat (Fin 610)), (''updated_at'', JStr ''2026-01-01T00:00:00+00:00'')] ''run_id'' JNull
      \<noteq> dict_get old_lease ''run_id'' JNull" by code_simp
qed

text \<open>C14. In every interleaving the record of a run keeps its identity and its configuration: once
  stored it is never removed, and later versions have the same run id and the same configuration.\<close>

theorem run_record_keeps_identity_and_config:
  assumes "cas_bucket H kv lastrev known okst" and "okst s0" and "records_ok (kv s0)"
    and "reaches H (s0, map ctl_tree calls) (s, ps)" and "reaches H (s, ps) (s', ps')"
    and "kv s (run_key r) = Some (JObj d, m)"
  shows "\<exists>d' m'. kv s' (run_key r) = Some (JObj d', m') \<and>
           dict_get d' ''run_id'' JNull = JStr r \<and> dict_get d' ''config'' JNull = dict_get d ''config'' JNull"
proof -
  note P = ctl_protocol [OF assms(1)]
  have ok: "cas_protocol.cfg_ok kv known okst ctl_I ctl_R (\<lambda>_. any_post) (s, ps)"
    by (rule cas_protocol.reaches_ok [OF P assms(4) ctl_start [OF assms(1-3)]])
  then have "ctl_I (run_key r) (JObj d)"
    using assms(6) unfolding cas_protocol.cfg_ok_def [OF P] cas_protocol.values_ok_def [OF P] by auto
  then have id: "dict_get d ''run_id'' JNull = JStr r" by (simp add: ctl_I_def)
  obtain v m' where v: "kv s' (run_key r) = Some (v, m')" "cas_protocol.becomes ctl_R (run_key r) (JObj d) v"
    using cas_protocol.reaches_becomes [OF P assms(5) ok assms(6)] by blast
  then obtain d' where "v = JObj d'" "same_run d d'"
    using same_run_closure [OF _ refl] unfolding cas_protocol.becomes_def [OF P] by blast
  then show ?thesis using v(1) id by (auto simp: same_run_def)
qed

definition run_doc :: dict where
  "run_doc = [(''run_id'', JStr ''r''), (''config'', JObj [(''users'', JInt 5)]),
     (''status'', JObj [(''state'', JStr ''running''), (''job_name'', JStr ''benchmark-r'')])]"

definition run_world :: ctl_world where
  "run_world = \<lparr>cw_mem = \<lparr>m_values = [(''run.r'', JObj run_doc, 1),
       (LEASE_KEY, JObj [(''run_id'', JStr ''r''), (''lease_until'', JInt 500)], 2)], m_revision = 2\<rparr>,
     cw_now = 100, cw_lost = 0\<rparr>"

definition stop_and_finish :: "(ctl_eff, ctl_world, unit) config" where
  "stop_and_finish = run_sched cw_ops [0,1,1,1,1,1,1,1,0,0,0,0,0,0,0,0,0,0,0,0]
     (run_world, map ctl_tree [Stop ''r'', JobFinish ''r'' ''completed'' 0 None None (JObj [])])"

lemma run_world_ok: "cw_ok run_world" "records_ok (cw_kv run_world)"
  by (auto simp: run_world_def mem_ok_def records_ok_def mem_kv_def ctl_I_def run_key_def RUN_PREFIX_def LEASE_KEY_def
        run_doc_def dict_get_def split: if_splits)

theorem run_record_keeps_identity_and_config_witness:
  "\<exists>d' m'. cw_kv (fst stop_and_finish) (run_key ''r'') = Some (JObj d', m') \<and>
     dict_get d' ''run_id'' JNull = JStr ''r'' \<and> dict_get d' ''config'' JNull = dict_get run_doc ''config'' JNull"
proof (rule run_record_keeps_identity_and_config [OF cw_bucket run_world_ok reaches_refl])
  show "reaches cw_ops (run_world, map ctl_tree [Stop ''r'', JobFinish ''r'' ''completed'' 0 None None (JObj [])])
      (fst stop_and_finish, snd stop_and_finish)"
    unfolding prod.collapse stop_and_finish_def by (rule run_sched_reaches)
  show "cw_kv run_world (run_key ''r'') = Some (JObj run_doc, 1)" by code_simp
qed



end
