(* ===== verification/Shared_Store.thy ===== *)
theory Shared_Store
  imports Control_Props
begin

text \<open>
  The benchmark service's store, \<open>src/benchmarkservice/shared_store.py\<close>: the translation of the NATS
  client's errors, and \<open>_with_recovery\<close>, which repeats an operation that failed transiently until a
  deadline. Recovery is a transformation of request trees: each request of a client becomes a loop
  of attempts, and other clients may act between two attempts of the same request.
\<close>

section \<open>Errors of the client\<close>

record client_error =
  ce_type :: string
  ce_text :: string

text \<open>The transient errors, by the name of their class.\<close>

definition is_transient :: "client_error \<Rightarrow> bool" where
  "is_transient e \<longleftrightarrow> ce_type e \<in> set [''TimeoutError'', ''ConnectionClosedError'', ''NoServersError'',
      ''UnexpectedEOF'', ''ServiceUnavailableError'']"

definition shared_error :: "string \<Rightarrow> exn_class \<Rightarrow> string \<Rightarrow> client_error \<Rightarrow> exn" where
  "shared_error expected translated key e =
     (if ce_type e = expected then Exn translated key
      else if is_transient e then Exn NatsTransient (ce_text e) else Exn NatsError (ce_text e))"

definition shared_get :: "(string \<Rightarrow> 's \<Rightarrow> (client_error + json \<times> nat) \<times> 's) \<Rightarrow> string \<Rightarrow> 's \<Rightarrow> (json \<times> nat) result \<times> 's" where
  "shared_get raw key s = (case raw key s of
      (Inl e, s') \<Rightarrow> (Inl (shared_error ''KeyNotFoundError'' RecordNotFound key e), s')
    | (Inr (v, n), s') \<Rightarrow> (rbind (decode_record v) (\<lambda>d. Inr (JObj d, n)), s'))"

definition shared_put :: "('s \<Rightarrow> (client_error + nat) \<times> 's) \<Rightarrow> string \<Rightarrow> 's \<Rightarrow> nat result \<times> 's" where
  "shared_put raw key s = (case raw s of
      (Inl e, s') \<Rightarrow> (Inl (shared_error ''KeyWrongLastSequenceError'' RevisionConflict key e), s')
    | (Inr n, s') \<Rightarrow> (Inr n, s'))"

definition shared_keys :: "(client_error + string list) \<Rightarrow> string \<Rightarrow> string list result" where
  "shared_keys answer prefix = (case answer of
      Inl e \<Rightarrow> if ce_type e = ''NoKeysError'' then Inr [] else Inl (shared_error [] OtherError [] e)
    | Inr ks \<Rightarrow> Inr (sort (filter (\<lambda>k. startswith k prefix) ks)))"

section \<open>Recovery\<close>

datatype 'x rec_eff = Client 'x | Monotonic | SleepFor rat | Invalidate

text \<open>
  The loop around one request \<open>req\<close> whose answer goes to \<open>c\<close>. The number of attempts is fuel; the
  delays grow from a quarter of a second to two.
\<close>

fun recover ::
  "(('r result \<Rightarrow> ('x rec_eff, 'a) prog) \<Rightarrow> ('x rec_eff, 'a) prog) \<Rightarrow> nat \<Rightarrow> rat \<Rightarrow> rat
   \<Rightarrow> ('r result \<Rightarrow> ('x rec_eff, 'a) prog) \<Rightarrow> ('x rec_eff, 'a) prog" where
  "recover req 0 deadline delay c = Raise (Exn OtherError ''no attempts left'')"
| "recover req (Suc n) deadline delay c =
     req (\<lambda>r. case r of
       Inr a \<Rightarrow> c (Inr a)
     | Inl e \<Rightarrow>
         if exn_cls e \<noteq> NatsTransient then c (Inl e)
         else Ext Invalidate (\<lambda>_. Ext Monotonic (\<lambda>t. lift (rbind t py_float) (\<lambda>now.
           if f_le (f_sub (Fin deadline) now) (Fin delay) then c (Inl e)
           else Ext (SleepFor delay) (\<lambda>_. recover req n deadline (min (delay * 2) 2) c)))))"

definition recover_request ::
  "nat \<Rightarrow> rat \<Rightarrow> (('r result \<Rightarrow> ('x rec_eff, 'a) prog) \<Rightarrow> ('x rec_eff, 'a) prog)
   \<Rightarrow> ('r result \<Rightarrow> ('x rec_eff, 'a) prog) \<Rightarrow> ('x rec_eff, 'a) prog" where
  "recover_request attempts operation_timeout req c =
     Ext Monotonic (\<lambda>t. lift (rbind t py_float) (\<lambda>now.
       case now of
         Fin q \<Rightarrow> recover req attempts (q + operation_timeout) (1 / 4) c
       | _ \<Rightarrow> Raise (Exn ValueError ''clock'')))"

text \<open>A client of the store, with recovery around each of its requests to the store.\<close>

primrec recovering :: "nat \<Rightarrow> rat \<Rightarrow> ('x, 'a) prog \<Rightarrow> ('x rec_eff, 'a) prog" where
  "recovering n timeout (Ret a) = Ret a"
| "recovering n timeout (Raise e) = Raise e"
| "recovering n timeout (KvGet k c) = recover_request n timeout (KvGet k) (\<lambda>r. recovering n timeout (c r))"
| "recovering n timeout (KvCreate k v c) = recover_request n timeout (KvCreate k v) (\<lambda>r. recovering n timeout (c r))"
| "recovering n timeout (KvUpdate k v m c) = recover_request n timeout (KvUpdate k v m) (\<lambda>r. recovering n timeout (c r))"
| "recovering n timeout (Ext x c) = Ext (Client x) (\<lambda>r. recovering n timeout (c r))"

section \<open>Recovery respects the write protocol\<close>

text \<open>What a recovering client knows, seen as the client's own knowledge.\<close>

definition client_view :: "'x rec_eff knowledge \<Rightarrow> 'x knowledge" where
  "client_view K = {Saw k v n |k v n. Saw k v n \<in> K} \<union> {Got x j |x j. Got (Client x) j \<in> K}"

lemma client_view_simps [simp]:
  "Saw k v n \<in> client_view K \<longleftrightarrow> Saw k v n \<in> K" "Got x j \<in> client_view K \<longleftrightarrow> Got (Client x) j \<in> K"
  by (auto simp: client_view_def)

lemma client_view_insert:
  "client_view (insert (Saw k v n) K) = insert (Saw k v n) (client_view K)"
  "client_view (insert (Got (Client x) j) K) = insert (Got x j) (client_view K)"
  "client_view (insert (Got Monotonic j) K) = client_view K"
  "client_view (insert (Got (SleepFor t) j) K) = client_view K"
  "client_view (insert (Got Invalidate j) K) = client_view K"
  by (auto simp: client_view_def)

definition view_R :: "('x knowledge \<Rightarrow> string \<Rightarrow> json \<Rightarrow> json \<Rightarrow> bool) \<Rightarrow> 'x rec_eff knowledge \<Rightarrow> string \<Rightarrow> json \<Rightarrow> json \<Rightarrow> bool" where
  "view_R R K = R (client_view K)"

definition view_Q :: "('a \<Rightarrow> 'x knowledge \<Rightarrow> bool) \<Rightarrow> 'a \<Rightarrow> 'x rec_eff knowledge \<Rightarrow> bool" where
  "view_Q Q a K = Q a (client_view K)"

lemma recover_ok:
  assumes "\<And>K' f. client_view K' = V \<Longrightarrow> (\<And>r L. client_view L = learn r V \<Longrightarrow> cas_ok I R' Q' (f r) L) \<Longrightarrow>
      cas_ok I R' Q' (req f) K'"
    and "\<And>e. learn (Inl e) V = V" and "client_view K = V"
    and c: "\<And>r L. client_view L = learn r V \<Longrightarrow> cas_ok I R' Q' (c r) L"
  shows "cas_ok I R' Q' (recover req n deadline delay c) K"
  using assms(3)
proof (induction n arbitrary: delay K)
  case 0
  then show ?case by simp
next
  case (Suc n)
  show ?case unfolding recover.simps
  proof (rule assms(1) [OF Suc.prems])
    fix r L
    assume L: "client_view L = learn r V"
    show "cas_ok I R' Q' (case r of Inr a \<Rightarrow> c (Inr a)
       | Inl e \<Rightarrow> if exn_cls e \<noteq> NatsTransient then c (Inl e)
         else Ext Invalidate (\<lambda>_. Ext Monotonic (\<lambda>t. lift (rbind t py_float) (\<lambda>now.
           if f_le (f_sub (Fin deadline) now) (Fin delay) then c (Inl e)
           else Ext (SleepFor delay) (\<lambda>_. recover req n deadline (min (delay * 2) 2) c))))) L"
    proof (cases r)
      case (Inl e)
      have v: "client_view L = V" using L Inl assms(2) by simp
      show ?thesis unfolding Inl using v assms(2)
        by (auto intro!: cas_intros c Suc.IH simp: client_view_insert)
    next
      case (Inr a)
      then show ?thesis using c L by simp
    qed
  qed
qed

lemma recover_request_ok:
  assumes "\<And>K' f. client_view K' = V \<Longrightarrow> (\<And>r L. client_view L = learn r V \<Longrightarrow> cas_ok I R' Q' (f r) L) \<Longrightarrow>
      cas_ok I R' Q' (req f) K'"
    and "\<And>e. learn (Inl e) V = V" and "client_view K = V"
    and "\<And>r L. client_view L = learn r V \<Longrightarrow> cas_ok I R' Q' (c r) L"
  shows "cas_ok I R' Q' (recover_request n timeout req c) K"
proof -
  have "cas_ok I R' Q' (recover req n deadline delay c) L" if "client_view L = V" for L deadline delay
    by (rule recover_ok [where V = V and learn = learn, OF assms(1) assms(2) that assms(4)])
  then show ?thesis unfolding recover_request_def using assms(3)
    by (auto intro!: cas_intros simp: client_view_insert split: pyfloat.splits)
qed

lemma recovering_ok:
  "cas_ok I R Q p (client_view K) \<Longrightarrow> cas_ok I (view_R R) (view_Q Q) (recovering n timeout p) K"
proof (induction p arbitrary: K)
  case (Ret a)
  then show ?case by (simp add: view_Q_def)
next
  case (Raise e)
  then show ?case by simp
next
  case (KvGet k c)
  have c: "cas_ok I R Q (c r) (learn_get k r (client_view K))" for r using KvGet.prems by (simp add: cas_ok.simps(3))
  show ?case unfolding recovering.simps
  proof (rule recover_request_ok [where V = "client_view K" and learn = "learn_get k"])
    fix K' f
    assume "client_view K' = client_view K"
      and f: "\<And>r L. client_view L = learn_get k r (client_view K) \<Longrightarrow> cas_ok I (view_R R) (view_Q Q) (f r) L"
    then show "cas_ok I (view_R R) (view_Q Q) (KvGet k f) K'"
      by (auto intro!: cas_ok_get f simp: client_view_insert)
  qed (use c KvGet.IH in auto)
next
  case (KvCreate k v c)
  have i: "I k v" and c: "cas_ok I R Q (c r) (learn_put k v r (client_view K))" for r
    using KvCreate.prems by (simp_all add: cas_ok.simps(4))
  show ?case unfolding recovering.simps
  proof (rule recover_request_ok [where V = "client_view K" and learn = "learn_put k v"])
    fix K' f
    assume "client_view K' = client_view K"
      and f: "\<And>r L. client_view L = learn_put k v r (client_view K) \<Longrightarrow> cas_ok I (view_R R) (view_Q Q) (f r) L"
    then show "cas_ok I (view_R R) (view_Q Q) (KvCreate k v f) K'"
      by (auto intro!: cas_ok_create f i simp: client_view_insert)
  qed (use c KvCreate.IH in auto)
next
  case (KvUpdate k v m c)
  obtain w where w: "Saw k w m \<in> client_view K" "R (client_view K) k w v"
    using KvUpdate.prems by (auto simp: cas_ok.simps(5))
  have c: "cas_ok I R Q (c r) (learn_put k v r (client_view K))" for r
    using KvUpdate.prems by (simp add: cas_ok.simps(5))
  show ?case unfolding recovering.simps
  proof (rule recover_request_ok [where V = "client_view K" and learn = "learn_put k v"])
    fix K' f
    assume K': "client_view K' = client_view K"
      and f: "\<And>r L. client_view L = learn_put k v r (client_view K) \<Longrightarrow> cas_ok I (view_R R) (view_Q Q) (f r) L"
    have "Saw k w m \<in> K'" using w(1) K' by (metis client_view_simps(1))
    then show "cas_ok I (view_R R) (view_Q Q) (KvUpdate k v m f) K'"
    proof (rule cas_ok_update)
      show "view_R R K' k w v" using w(2) K' by (simp add: view_R_def)
    qed (use f K' in \<open>simp_all add: client_view_insert\<close>)
  qed (use c KvUpdate.IH in auto)
next
  case (Ext x c)
  have c: "cas_ok I R Q (c r) (learn_ext x r (client_view K))" for r using Ext.prems by (simp add: cas_ok.simps(6))
  show ?case unfolding recovering.simps
  proof (rule cas_ok_ext)
    show "cas_ok I (view_R R) (view_Q Q) (recovering n timeout (c (Inl e))) K" for e
      using Ext.IH c [of "Inl e"] by auto
    show "cas_ok I (view_R R) (view_Q Q) (recovering n timeout (c (Inr j))) (insert (Got (Client x) j) K)" for j
      using Ext.IH c [of "Inr j"] by (auto simp: client_view_insert)
  qed
qed

section \<open>The control plane on the recovering store\<close>

definition client_clocks_behind :: "('s \<Rightarrow> rat) \<Rightarrow> 's \<Rightarrow> ctl_eff rec_eff \<Rightarrow> json \<Rightarrow> bool" where
  "client_clocks_behind now s x j \<longleftrightarrow> (x = Client Clock \<longrightarrow> (\<exists>t. j = JFloat (Fin t) \<and> t \<le> now s))"

lemma recovering_protocol:
  "cas_bucket H kv lastrev known okst \<Longrightarrow> cas_protocol H kv lastrev known okst ctl_I (view_R ctl_R)"
  by (intro cas_protocol.intro cas_protocol_axioms.intro) (auto simp: view_R_def intro: ctl_keeps)

lemma recovering_start:
  assumes "cas_bucket H kv lastrev known okst" and "okst s0" and "records_ok (kv s0)"
  shows "cas_protocol.cfg_ok kv known okst ctl_I (view_R ctl_R) (\<lambda>_. view_Q any_post)
           (s0, map (recovering n timeout \<circ> ctl_tree) calls)"
  by (rule cas_protocol.initial_ok [OF recovering_protocol [OF assms(1)] assms(2)])
    (use assms(3) in \<open>simp_all add: cas_protocol.values_ok_def [OF recovering_protocol [OF assms(1)]] records_ok_def
        recovering_ok ctl_tree_ok\<close>)

text \<open>The in-memory store with the effects of the recovering facade.\<close>

fun rw_ext :: "ctl_eff rec_eff \<Rightarrow> ctl_world \<Rightarrow> json result \<times> ctl_world" where
  "rw_ext (Client x) s = cw_ext x s"
| "rw_ext Monotonic s = (Inr (JFloat (Fin (cw_now s))), s)"
| "rw_ext (SleepFor d) s = (Inr JNull, s\<lparr>cw_now := cw_now s + max d 0\<rparr>)"
| "rw_ext Invalidate s = (Inr JNull, s)"

definition rw_ops :: "(ctl_eff rec_eff, ctl_world) kv_ops" where
  "rw_ops = \<lparr>op_get = cw_get, op_create = cw_create, op_update = cw_update, op_ext = rw_ext\<rparr>"

interpretation rw: cas_bucket rw_ops cw_kv cw_rev "client_clocks_behind cw_now" cw_ok
proof
  fix s x r s'
  assume "cw_ok s" "op_ext rw_ops x s = (r, s')"
  then show "cw_ok s' \<and> unchanged cw_kv cw_rev s s' \<and> (\<forall>j. r = Inr j \<longrightarrow> client_clocks_behind cw_now s' x j)"
    using cw.ext_law [of s _ r s']
    by (cases x) (auto simp: rw_ops_def cw_ops_def unchanged_def client_clocks_behind_def clocks_behind_def)
next
  fix s x j k v
  assume "cw_ok s" "client_clocks_behind cw_now s x j"
  then show "client_clocks_behind cw_now (snd (op_create rw_ops k v s)) x j"
    using cw.known_create [of s Clock j k v]
    by (auto simp: rw_ops_def cw_ops_def clocks_behind_def client_clocks_behind_def)
next
  fix s x j k v m
  assume "cw_ok s" "client_clocks_behind cw_now s x j"
  then show "client_clocks_behind cw_now (snd (op_update rw_ops k v m s)) x j"
    using cw.known_update [of s Clock j k v m]
    by (auto simp: rw_ops_def cw_ops_def clocks_behind_def client_clocks_behind_def)
next
  fix s x j y
  assume "cw_ok s" "client_clocks_behind cw_now s x j"
  then show "client_clocks_behind cw_now (snd (op_ext rw_ops y s)) x j"
    using cw.known_ext [of s Clock j]
    by (cases y) (auto simp: rw_ops_def cw_ops_def clocks_behind_def client_clocks_behind_def intro: order_trans)
next
  fix s k r s'
  assume "cw_ok s" "op_get rw_ops k s = (r, s')"
  then show "cw_ok s' \<and> unchanged cw_kv cw_rev s s' \<and> (\<forall>v n. r = Inr (v, n) \<longrightarrow> cw_kv s k = Some (v, n))"
    using cw.get_law [of s k r s'] by (simp add: rw_ops_def cw_ops_def)
next
  fix s k v r s'
  assume "cw_ok s" "op_create rw_ops k v s = (r, s')"
  then show "cw_ok s' \<and> (unchanged cw_kv cw_rev s s' \<and> (\<exists>e. r = Inl e) \<or>
      cw_kv s k = None \<and> (\<exists>n. commits cw_kv cw_rev k v s s' n \<and> (r = Inr n \<or> (\<exists>e. r = Inl e))))"
    using cw.create_law [of s k v r s'] by (simp add: rw_ops_def cw_ops_def)
next
  fix s k v m r s'
  assume "cw_ok s" "op_update rw_ops k v m s = (r, s')"
  then show "cw_ok s' \<and> (unchanged cw_kv cw_rev s s' \<and> (\<exists>e. r = Inl e) \<or>
      (\<exists>w. cw_kv s k = Some (w, m)) \<and> (\<exists>n. commits cw_kv cw_rev k v s s' n \<and> (r = Inr n \<or> (\<exists>e. r = Inl e))))"
    using cw.update_law [of s k v m r s'] by (simp add: rw_ops_def cw_ops_def)
next
  fix s k v n
  assume "cw_ok s" "cw_kv s k = Some (v, n)"
  then show "n \<le> cw_rev s" by (rule cw.rev_bound)
next
  fix s x j k
  assume "cw_ok s" "client_clocks_behind cw_now s x j"
  then show "client_clocks_behind cw_now (snd (op_get rw_ops k s)) x j"
    by (simp add: rw_ops_def cw_get_def)
qed

lemma rw_bucket: "cas_bucket rw_ops cw_kv cw_rev (client_clocks_behind cw_now) cw_ok"
  by (rule rw.cas_bucket_axioms)

definition rec_before :: "(ctl_eff rec_eff, ctl_world, unit) config" where
  "rec_before = run_sched rw_ops [0,0,0,0,0,0,0] (lease_world, map (recovering 41 10 \<circ> ctl_tree) [start_call])"

definition rec_after :: "(ctl_eff rec_eff, ctl_world, unit) config" where
  "rec_after = run_sched rw_ops [0] rec_before"

lemma rec_reaches:
  "reaches rw_ops (lease_world, map (recovering 41 10 \<circ> ctl_tree) [start_call]) (fst rec_before, snd rec_before)"
  unfolding prod.collapse rec_before_def by (rule run_sched_reaches)

text \<open>C17. Mutual exclusion survives recovery: with every request of every participant repeated by
  \<open>_with_recovery\<close> until its deadline, attempts of different participants interleaved, and
  acknowledgements lost, the lease still changes hands only when it has expired.\<close>

theorem lease_exclusion_with_recovery:
  assumes "cas_bucket H kv lastrev (client_clocks_behind now) okst" and "okst s0" and "records_ok (kv s0)"
    and "reaches H (s0, map (recovering n timeout \<circ> ctl_tree) calls) (s, ps)" and "step H (s, ps) (s', ps')"
    and "kv s LEASE_KEY = Some (JObj d, m)" and "kv s' LEASE_KEY = Some (JObj d', m')"
    and "dict_get d' ''run_id'' JNull \<noteq> dict_get d ''run_id'' JNull"
  shows "\<exists>u. lease_until d = Inr u \<and> \<not> f_lt (Fin (now s)) u"
proof -
  note P = recovering_protocol [OF assms(1)]
  have "cas_protocol.cfg_ok kv (client_clocks_behind now) okst ctl_I (view_R ctl_R) (\<lambda>_. view_Q any_post) (s, ps)"
    by (rule cas_protocol.reaches_ok [OF P assms(4) recovering_start [OF assms(1-3)]])
  then obtain K where g: "cas_protocol.grounded kv (client_clocks_behind now) (view_R ctl_R) s K"
      and mv: "cas_protocol.moves kv lastrev (client_clocks_behind now) ctl_I (view_R ctl_R) K s s'"
    using cas_protocol.step_ok [OF P assms(5)] by blast
  have "ctl_R (client_view K) LEASE_KEY (JObj d) (JObj d')"
    using cas_protocol.moves_some [OF P mv assms(6)] assms(6-8) by (auto simp: view_R_def)
  then obtain j t u where t: "Got (Client Clock) j \<in> K" "py_float j = Inr t" "lease_until d = Inr u" "\<not> f_lt t u"
    using assms(8) by (auto simp: ctl_R_def lease_change_def)
  have "client_clocks_behind now s (Client Clock) j"
    using g t(1) unfolding cas_protocol.grounded_def [OF P] by blast
  then obtain q where "t = Fin q" "q \<le> now s" using t(2) by (auto simp: client_clocks_behind_def)
  then show ?thesis using t(3,4) f_lt_later by blast
qed

theorem lease_exclusion_with_recovery_witness:
  "\<exists>u. lease_until old_lease = Inr u \<and> \<not> f_lt (Fin (cw_now (fst rec_before))) u"
proof (rule lease_exclusion_with_recovery [OF rw_bucket lease_world_ok rec_reaches])
  have "step rw_ops rec_before rec_after"
    unfolding rec_after_def by (rule run_sched_step; code_simp)
  then show "step rw_ops (fst rec_before, snd rec_before) (fst rec_after, snd rec_after)" by simp
  show "cw_kv (fst rec_before) LEASE_KEY = Some (JObj old_lease, 1)" by code_simp
  show "cw_kv (fst rec_after) LEASE_KEY =
      Some (JObj [(''schema_version'', JInt 1), (''run_id'', JStr ''r''), (''owner'', JStr ''controller:u''),
          (''lease_until'', JFloat (Fin 610)), (''updated_at'', JStr ''2026-01-01T00:00:00+00:00'')], 2)"
    by code_simp
  show "dict_get [(''schema_version'', JInt 1), (''run_id'', JStr ''r''), (''owner'', JStr ''controller:u''),
          (''lease_until'', JFloat (Fin 610)), (''updated_at'', JStr ''2026-01-01T00:00:00+00:00'')] ''run_id'' JNull
      \<noteq> dict_get old_lease ''run_id'' JNull" by code_simp
qed

section \<open>Recovery ends\<close>

text \<open>Time does not go back, a sleep takes at least as long as asked, and \<open>req\<close> is answered by \<open>op\<close>.\<close>

locale ticking =
  fixes H :: "('x rec_eff, 's) kv_ops"
    and time :: "'s \<Rightarrow> rat"
    and req :: "('r result \<Rightarrow> ('x rec_eff, 'a) prog) \<Rightarrow> ('x rec_eff, 'a) prog"
    and attempt :: "'s \<Rightarrow> 'r result \<times> 's"
  assumes req_run: "run (req f) H s = (case attempt s of (r, s') \<Rightarrow> run (f r) H s')"
    and attempt_time: "time s \<le> time (snd (attempt s))"
    and clock_run: "\<exists>s'. op_ext H Monotonic s = (Inr (JFloat (Fin (time s'))), s') \<and> time s \<le> time s'"
    and invalidate_time: "time s \<le> time (snd (op_ext H Invalidate s))"
    and sleep_time: "time s + d \<le> time (snd (op_ext H (SleepFor d) s))"
begin

lemma recover_step:
  obtains r s' where "attempt s = (r, s')" "time s \<le> time s'"
    "\<And>n. (\<And>e. r \<noteq> Inl e \<or> exn_cls e \<noteq> NatsTransient) \<Longrightarrow>
       run (recover req (Suc n) deadline delay c) H s = run (c r) H s'"
    "\<And>e. r = Inl e \<Longrightarrow> exn_cls e = NatsTransient \<Longrightarrow>
       \<exists>s2 s3. time s \<le> time s2 \<and> time s2 + delay \<le> time s3 \<and>
         (\<forall>n. run (recover req (Suc n) deadline delay c) H s =
            (if deadline - time s2 \<le> delay then run (c (Inl e)) H s2
             else run (recover req n deadline (min (delay * 2) 2) c) H s3))"
proof -
  obtain r s' where a: "attempt s = (r, s')" by fastforce
  have t: "time s \<le> time s'" using attempt_time [of s] a by simp
  show thesis
  proof (rule that [OF a t])
    fix n
    assume "\<And>e. r \<noteq> Inl e \<or> exn_cls e \<noteq> NatsTransient"
    then show "run (recover req (Suc n) deadline delay c) H s = run (c r) H s'"
      by (cases r) (auto simp: req_run a)
  next
    fix e
    assume r: "r = Inl e" "exn_cls e = NatsTransient"
    obtain q1 s1 where i: "op_ext H Invalidate s' = (q1, s1)" by fastforce
    obtain s2 where m: "op_ext H Monotonic s1 = (Inr (JFloat (Fin (time s2))), s2)" "time s1 \<le> time s2"
      using clock_run by blast
    obtain q3 s3 where sl: "op_ext H (SleepFor delay) s2 = (q3, s3)" by fastforce
    have "time s \<le> time s2" using t invalidate_time [of s'] i m(2) by simp
    moreover have "time s2 + delay \<le> time s3" using sleep_time [of s2 delay] sl by simp
    moreover have "run (recover req (Suc n) deadline delay c) H s =
            (if deadline - time s2 \<le> delay then run (c (Inl e)) H s2
             else run (recover req n deadline (min (delay * 2) 2) c) H s3)" for n
      using r i m(1) sl by (simp add: req_run a f_sub_def)
    ultimately show "\<exists>s2 s3. time s \<le> time s2 \<and> time s2 + delay \<le> time s3 \<and>
         (\<forall>n. run (recover req (Suc n) deadline delay c) H s =
            (if deadline - time s2 \<le> delay then run (c (Inl e)) H s2
             else run (recover req n deadline (min (delay * 2) 2) c) H s3))" by blast
  qed
qed

lemma fuel_suffices:
  assumes "4 * (deadline - time s) < of_nat (Suc n)" and "1 / 4 \<le> delay" and "n \<le> m"
  shows "run (recover req (Suc m) deadline delay c) H s = run (recover req (Suc n) deadline delay c) H s"
  using assms
proof (induction n arbitrary: s delay m)
  case 0
  obtain r s' where st: "\<And>n. (\<And>e. r \<noteq> Inl e \<or> exn_cls e \<noteq> NatsTransient) \<Longrightarrow>
       run (recover req (Suc n) deadline delay c) H s = run (c r) H s'"
    "\<And>e. r = Inl e \<Longrightarrow> exn_cls e = NatsTransient \<Longrightarrow>
       \<exists>s2 s3. time s \<le> time s2 \<and> time s2 + delay \<le> time s3 \<and>
         (\<forall>n. run (recover req (Suc n) deadline delay c) H s =
            (if deadline - time s2 \<le> delay then run (c (Inl e)) H s2
             else run (recover req n deadline (min (delay * 2) 2) c) H s3))"
    by (rule recover_step [of s deadline delay c]) blast
  show ?case
  proof (cases "\<exists>e. r = Inl e \<and> exn_cls e = NatsTransient")
    case True
    then obtain e s2 s3 where "time s \<le> time s2" "\<forall>n. run (recover req (Suc n) deadline delay c) H s =
            (if deadline - time s2 \<le> delay then run (c (Inl e)) H s2
             else run (recover req n deadline (min (delay * 2) 2) c) H s3)"
      using st(2) by blast
    moreover have "deadline - time s2 \<le> delay" using 0 \<open>time s \<le> time s2\<close> by simp
    ultimately show ?thesis by simp
  next
    case False
    then have n: "\<And>e. r \<noteq> Inl e \<or> exn_cls e \<noteq> NatsTransient" by blast
    show ?thesis by (simp only: st(1) [OF n])
  qed
next
  case (Suc n)
  obtain m' where m: "m = Suc m'" "n \<le> m'" using Suc.prems(3) by (cases m) auto
  obtain r s' where st: "\<And>n. (\<And>e. r \<noteq> Inl e \<or> exn_cls e \<noteq> NatsTransient) \<Longrightarrow>
       run (recover req (Suc n) deadline delay c) H s = run (c r) H s'"
    "\<And>e. r = Inl e \<Longrightarrow> exn_cls e = NatsTransient \<Longrightarrow>
       \<exists>s2 s3. time s \<le> time s2 \<and> time s2 + delay \<le> time s3 \<and>
         (\<forall>n. run (recover req (Suc n) deadline delay c) H s =
            (if deadline - time s2 \<le> delay then run (c (Inl e)) H s2
             else run (recover req n deadline (min (delay * 2) 2) c) H s3))"
    by (rule recover_step [of s deadline delay c]) blast
  show ?case
  proof (cases "\<exists>e. r = Inl e \<and> exn_cls e = NatsTransient")
    case True
    then obtain e s2 s3 where t: "time s \<le> time s2" "time s2 + delay \<le> time s3"
      and eq: "\<forall>n. run (recover req (Suc n) deadline delay c) H s =
            (if deadline - time s2 \<le> delay then run (c (Inl e)) H s2
             else run (recover req n deadline (min (delay * 2) 2) c) H s3)"
      using st(2) by blast
    have "4 * (deadline - time s3) < of_nat (Suc n)" using Suc.prems(1,2) t by simp
    then have "run (recover req (Suc m') deadline (min (delay * 2) 2) c) H s3
        = run (recover req (Suc n) deadline (min (delay * 2) 2) c) H s3"
      using Suc.IH [OF _ _ m(2)] Suc.prems(2) by simp
    then show ?thesis using eq m by (simp del: recover.simps)
  next
    case False
    then have n: "\<And>e. r \<noteq> Inl e \<or> exn_cls e \<noteq> NatsTransient" by blast
    show ?thesis by (simp only: st(1) [OF n])
  qed
qed

end

interpretation rw_create: ticking rw_ops cw_now "KvCreate k v" "cw_create k v" for k v
proof
  fix s :: ctl_world
  show "cw_now s \<le> cw_now (snd (cw_create k v s))"
    by (auto simp: cw_create_def cw_put_def split: prod.splits)
qed (auto simp: rw_ops_def split: prod.splits)

text \<open>C18. Recovery ends by its deadline: whatever the failures of the store, as long as time passes while it
  sleeps, a request with an operation timeout of \<open>t\<close> seconds is attempted at most \<open>4 t + 1\<close> times,
  so more attempts than that never change the outcome.\<close>

theorem recovery_is_bounded:
  assumes "ticking H time req attempt" and "4 * t < of_nat (Suc n)" and "n \<le> m"
  shows "run (recover req (Suc m) (time s + t) (1 / 4) c) H s = run (recover req (Suc n) (time s + t) (1 / 4) c) H s"
  by (rule ticking.fuel_suffices [OF assms(1)]) (use assms(2,3) in simp_all)

theorem recovery_is_bounded_witness:
  "run (recover (KvCreate ''k'' JNull) (Suc 1000) (cw_now lease_world + 10) (1 / 4) finished) rw_ops lease_world
   = run (recover (KvCreate ''k'' JNull) (Suc 40) (cw_now lease_world + 10) (1 / 4) finished) rw_ops lease_world"
  by (rule recovery_is_bounded [OF rw_create.ticking_axioms]) simp_all

end
