(* ===== verification/Py_Records.thy ===== *)
theory Py_Records
  imports Prelude "HOL-Library.Multiset"
begin

text \<open>
  What the reporting code of the benchmark service uses of Python beyond the prelude: rounding and
  arithmetic of floats, \<open>max\<close> and \<open>sum\<close> over lists, \<open>sorted\<close>, sequence indexing, \<open>defaultdict\<close> and
  \<open>Counter\<close>, and the lookups in the records of a run.

  \<open>sorted\<close> on floats inserts the values one by one; on lists with a NaN, which no total order ranks,
  Python's order depends on the merge pattern and is not represented.
\<close>

section \<open>Floats\<close>

fun f_round :: "nat \<Rightarrow> pyfloat \<Rightarrow> pyfloat" where
  "f_round k (Fin q) = Fin (round_to k q)"
| "f_round k f = f"

fun f_floor :: "pyfloat \<Rightarrow> int result" where
  "f_floor (Fin a) = Inr \<lfloor>a\<rfloor>"
| "f_floor NaN = raise ValueError ''cannot convert float NaN to integer''"
| "f_floor _ = raise OverflowError ''cannot convert float infinity to integer''"

fun f_mul :: "pyfloat \<Rightarrow> pyfloat \<Rightarrow> pyfloat" where
  "f_mul (Fin a) b = f_scale a b"
| "f_mul a (Fin b) = f_scale b a"
| "f_mul NaN _ = NaN"
| "f_mul _ NaN = NaN"
| "f_mul a b = (if a = b then PosInf else NegInf)"

fun f_quot :: "pyfloat \<Rightarrow> pyfloat \<Rightarrow> pyfloat result" where
  "f_quot a (Fin d) = f_div a d"
| "f_quot a NaN = Inr NaN"
| "f_quot (Fin _) _ = Inr (Fin 0)"
| "f_quot _ _ = Inr NaN"

definition f_sum :: "pyfloat list \<Rightarrow> pyfloat" where
  "f_sum = foldl f_add (Fin 0)"

definition f_maximum :: "pyfloat list \<Rightarrow> pyfloat result" where
  "f_maximum xs = (case xs of
      [] \<Rightarrow> raise ValueError ''max() arg is an empty sequence''
    | x # ys \<Rightarrow> Inr (foldl f_max x ys))"

definition int_maximum :: "int list \<Rightarrow> int result" where
  "int_maximum xs = (case xs of
      [] \<Rightarrow> raise ValueError ''max() arg is an empty sequence''
    | x # ys \<Rightarrow> Inr (foldl max x ys))"

fun f_insort :: "pyfloat \<Rightarrow> pyfloat list \<Rightarrow> pyfloat list" where
  "f_insort x [] = [x]"
| "f_insort x (y # ys) = (if f_lt x y then x # y # ys else y # f_insort x ys)"

definition f_sort :: "pyfloat list \<Rightarrow> pyfloat list" where
  "f_sort xs = foldl (\<lambda>ys x. f_insort x ys) [] xs"

lemma f_sum_Fin: "f_sum (map Fin qs) = Fin (sum_list qs)"
proof -
  have "foldl f_add (Fin a) (map Fin qs) = Fin (a + sum_list qs)" for a
    by (induction qs arbitrary: a) (auto simp: add.assoc)
  then show ?thesis by (simp add: f_sum_def)
qed

lemma f_insort_Fin: "sorted qs \<Longrightarrow> f_insort (Fin q) (map Fin qs) = map Fin (insort q qs)"
proof (induction qs)
  case Nil
  then show ?case by simp
next
  case (Cons a qs)
  have "insort q qs = q # qs" if "q = a" using Cons.prems that by (cases qs) auto
  then show ?case using Cons by (cases "q = a") auto
qed

lemma f_sort_Fin: "f_sort (map Fin qs) = map Fin (sort qs)"
proof -
  have "foldl (\<lambda>ys x. f_insort x ys) (map Fin (sort ps)) (map Fin qs) = map Fin (sort (ps @ qs))" for ps
  proof (induction qs arbitrary: ps)
    case Nil
    then show ?case by simp
  next
    case (Cons q qs)
    have "f_insort (Fin q) (map Fin (sort ps)) = map Fin (sort (ps @ [q]))"
      using properties_for_sort [of "insort q (sort ps)" "ps @ [q]"] by (simp add: f_insort_Fin sorted_insort)
    then show ?case using Cons.IH [of "ps @ [q]"] by simp
  qed
  from this [of "[]"] show ?thesis by (simp add: f_sort_def)
qed

lemma foldl_max_ge: "a \<le> foldl max a xs" "x \<in> set xs \<Longrightarrow> x \<le> foldl max a xs" for a :: "'a :: linorder"
  by (induction xs arbitrary: a) (auto intro: order_trans [OF max.cobounded1] order_trans [OF max.cobounded2])

lemma foldl_max_mem: "foldl max a xs \<in> insert a (set xs)" for a :: "'a :: linorder"
proof (induction xs arbitrary: a)
  case (Cons x xs)
  then show ?case using Cons [of "max a x"] by (auto simp: max_def split: if_splits)
qed simp

lemma f_maximum_Fin: "f_maximum (map Fin (q # qs)) = Inr (Fin (foldl max q qs))"
proof -
  have "foldl f_max (Fin a) (map Fin qs) = Fin (foldl max a qs)" for a
    by (induction qs arbitrary: a) auto
  then show ?thesis by (simp add: f_maximum_def)
qed

section \<open>Values of a record\<close>

fun is_number :: "json \<Rightarrow> bool" where
  "is_number (JInt _) = True"
| "is_number (JBool _) = True"
| "is_number (JFloat _) = True"
| "is_number _ = False"

definition j_or :: "json \<Rightarrow> json \<Rightarrow> json" where
  "j_or a b = (if truthy a then a else b)"

definition jfloat_opt :: "pyfloat option \<Rightarrow> json" where
  "jfloat_opt x = (case x of None \<Rightarrow> JNull | Some f \<Rightarrow> JFloat f)"

definition jint_opt :: "int option \<Rightarrow> json" where
  "jint_opt x = (case x of None \<Rightarrow> JNull | Some n \<Rightarrow> JInt n)"

text \<open>\<open>v == n\<close> for an integer \<open>n\<close>.\<close>

fun equals_int :: "json \<Rightarrow> int \<Rightarrow> bool" where
  "equals_int (JInt m) n = (m = n)"
| "equals_int (JBool b) n = ((if b then 1 else 0) = n)"
| "equals_int (JFloat (Fin q)) n = (q = of_int n)"
| "equals_int _ n = False"

text \<open>A number as Python's arithmetic and comparisons see it, and \<open>==\<close> on numbers and on other values.\<close>

fun num_val :: "json \<Rightarrow> pyfloat option" where
  "num_val (JInt n) = Some (Fin (of_int n))"
| "num_val (JBool b) = Some (Fin (if b then 1 else 0))"
| "num_val (JFloat f) = Some f"
| "num_val _ = None"

definition arith :: "json \<Rightarrow> pyfloat result" where
  "arith v = (case num_val v of None \<Rightarrow> raise TypeError ''unsupported operand type'' | Some f \<Rightarrow> Inr f)"

definition py_eq :: "json \<Rightarrow> json \<Rightarrow> bool" where
  "py_eq a b = (case (num_val a, num_val b) of
      (Some x, Some y) \<Rightarrow> x \<noteq> NaN \<and> x = y
    | (None, None) \<Rightarrow> a = b
    | _ \<Rightarrow> False)"

text \<open>\<open>v in\<close> a set of strings: lists and dicts cannot be hashed.\<close>

fun in_strings :: "json \<Rightarrow> string list \<Rightarrow> bool result" where
  "in_strings (JStr s) xs = Inr (s \<in> set xs)"
| "in_strings (JList _) xs = raise TypeError ''unhashable type''"
| "in_strings (JObj _) xs = raise TypeError ''unhashable type''"
| "in_strings _ xs = Inr False"

text \<open>Iteration over a value that should be a list; a dict yields its keys, a string its characters.\<close>

fun items_of :: "json \<Rightarrow> json list result" where
  "items_of (JList xs) = Inr xs"
| "items_of (JObj d) = Inr (map (JStr \<circ> fst) d)"
| "items_of (JStr s) = Inr (map (\<lambda>c. JStr [c]) s)"
| "items_of _ = raise TypeError ''object is not iterable''"

text \<open>\<open>record.get(k, default)\<close> converted with \<open>float\<close> or \<open>int\<close>, and \<open>record.get("context", {}).get(k)\<close>.\<close>

definition get_float :: "dict \<Rightarrow> string \<Rightarrow> json \<Rightarrow> pyfloat result" where
  "get_float d k v = py_float (dict_get d k v)"

definition get_int :: "dict \<Rightarrow> string \<Rightarrow> json \<Rightarrow> int result" where
  "get_int d k v = py_int (dict_get d k v)"

definition item_float :: "dict \<Rightarrow> string \<Rightarrow> pyfloat result" where
  "item_float d k = rbind (dict_item d k) py_float"

definition item_int :: "dict \<Rightarrow> string \<Rightarrow> int result" where
  "item_int d k = rbind (dict_item d k) py_int"

definition context_get :: "dict \<Rightarrow> string \<Rightarrow> json \<Rightarrow> json result" where
  "context_get r k v = jget (dict_get r ''context'' (JObj [])) k v"

definition in_phase :: "string \<Rightarrow> dict \<Rightarrow> bool" where
  "in_phase p r \<longleftrightarrow> dict_get r ''phase'' JNull = JStr p"

definition named :: "string \<Rightarrow> dict \<Rightarrow> bool" where
  "named n r \<longleftrightarrow> dict_get r ''name'' JNull = JStr n"

text \<open>A comprehension with a condition that may raise.\<close>

primrec rfilter :: "('a \<Rightarrow> bool result) \<Rightarrow> 'a list \<Rightarrow> 'a list result" where
  "rfilter f [] = Inr []"
| "rfilter f (x # xs) = rbind (f x) (\<lambda>b. rbind (rfilter f xs) (\<lambda>ys. Inr (if b then x # ys else ys)))"

text \<open>A loop whose body may raise.\<close>

primrec rfold :: "('a \<Rightarrow> 's \<Rightarrow> 's result) \<Rightarrow> 'a list \<Rightarrow> 's \<Rightarrow> 's result" where
  "rfold f [] s = Inr s"
| "rfold f (x # xs) s = rbind (f x s) (rfold f xs)"

text \<open>\<open>xs[i]\<close>, counted from the end for a negative \<open>i\<close>.\<close>

definition py_index :: "'a list \<Rightarrow> int \<Rightarrow> 'a result" where
  "py_index xs i =
     (if 0 \<le> i \<and> i < int (length xs) then Inr (xs ! nat i)
      else if i < 0 \<and> - int (length xs) \<le> i then Inr (xs ! nat (int (length xs) + i))
      else raise IndexError ''list index out of range'')"

lemma py_index_in [simp]: "0 \<le> i \<Longrightarrow> i < int (length xs) \<Longrightarrow> py_index xs i = Inr (xs ! nat i)"
  by (simp add: py_index_def)

lemma rfilter_Inr: "rfilter f xs = Inr ys \<Longrightarrow> ys = filter (\<lambda>x. f x = Inr True) xs"
  by (induction xs arbitrary: ys) auto

lemma rfilter_all: "(\<And>x. x \<in> set xs \<Longrightarrow> f x = Inr (p x)) \<Longrightarrow> rfilter f xs = Inr (filter p xs)"
  by (induction xs) auto

lemma rfold_append: "rfold f (xs @ ys) s = rbind (rfold f xs s) (rfold f ys)"
proof (induction xs arbitrary: s)
  case (Cons x xs)
  then have "rfold f (xs @ ys) = (\<lambda>s. rbind (rfold f xs s) (rfold f ys))" by blast
  then show ?case by (simp add: rbind_assoc)
qed simp

lemma rfold_invariant:
  assumes "rfold f xs s = Inr t" and "P s" and "\<And>x s t. x \<in> set xs \<Longrightarrow> f x s = Inr t \<Longrightarrow> P s \<Longrightarrow> P t"
  shows "P t"
  using assms by (induction xs arbitrary: s) auto

section \<open>Dicts with defaults\<close>

text \<open>\<open>d[k] = f(d[k])\<close> on a \<open>defaultdict\<close> with default \<open>v\<close>; new keys come last.\<close>

fun alter :: "'v \<Rightarrow> ('v \<Rightarrow> 'v) \<Rightarrow> 'k \<Rightarrow> ('k \<times> 'v) list \<Rightarrow> ('k \<times> 'v) list" where
  "alter v f k [] = [(k, f v)]"
| "alter v f k ((k', w) # xs) = (if k' = k then (k', f w) # xs else (k', w) # alter v f k xs)"

definition lookup :: "'v \<Rightarrow> ('k \<times> 'v) list \<Rightarrow> 'k \<Rightarrow> 'v" where
  "lookup v xs k = (case map_of xs k of None \<Rightarrow> v | Some w \<Rightarrow> w)"

lemma map_of_alter: "map_of (alter v f k xs) = (map_of xs)(k \<mapsto> f (lookup v xs k))"
  by (induction v f k xs rule: alter.induct) (auto simp: lookup_def fun_eq_iff)

lemma lookup_alter: "lookup v (alter v f k xs) k' = (if k' = k then f (lookup v xs k) else lookup v xs k')"
  by (simp add: lookup_def map_of_alter)

lemma keys_alter: "fst ` set (alter v f k xs) = insert k (fst ` set xs)"
  by (induction v f k xs rule: alter.induct) auto

lemma distinct_alter: "distinct (map fst (alter v f k xs)) \<longleftrightarrow> distinct (map fst xs)"
  by (induction v f k xs rule: alter.induct) (auto simp: keys_alter simp flip: image_set)

lemma alter_snd_induct:
  assumes "(k', w) \<in> set (alter v f k xs)"
  shows "(k', w) \<in> set xs \<or> k' = k \<and> (w = f v \<or> (\<exists>u. (k, u) \<in> set xs \<and> w = f u))"
  using assms by (induction v f k xs rule: alter.induct) (auto split: if_splits)

text \<open>A total over the values grows by what the changed one grows.\<close>

lemma sum_alter:
  fixes g :: "'v \<Rightarrow> 'n :: ab_group_add"
  assumes "\<And>u. g (f u) = g u + d" and "g v = 0"
  shows "sum_list (map (g \<circ> snd) (alter v f k xs)) = sum_list (map (g \<circ> snd) xs) + d"
  using assms by (induction v f k xs rule: alter.induct) (auto simp: algebra_simps)

definition sorted_items :: "('k :: linorder \<times> 'v) list \<Rightarrow> ('k \<times> 'v) list" where
  "sorted_items xs = sort_key fst xs"

lemma set_sorted_items [simp]: "set (sorted_items xs) = set xs"
  by (simp add: sorted_items_def)

lemma mset_sorted_items [simp]: "mset (sorted_items xs) = mset xs"
  by (simp add: sorted_items_def)

lemma sum_sorted_items:
  "sum_list (map f (sorted_items xs)) = (sum_list (map f xs) :: 'n :: comm_monoid_add)"
proof -
  have "mset (map f (sorted_items xs)) = mset (map f xs)" by simp
  then show ?thesis by (metis sum_mset_sum_list)
qed

lemma distinct_sorted_items [simp]: "distinct (map fst (sorted_items xs)) = distinct (map fst xs)"
proof -
  have "mset (map fst (sorted_items xs)) = mset (map fst xs)" by simp
  then show ?thesis by (rule mset_eq_imp_distinct_iff)
qed

lemma map_of_sorted_items: "distinct (map fst xs) \<Longrightarrow> map_of (sorted_items xs) = map_of xs"
  by (rule map_of_inject_set [THEN iffD2]) simp_all

text \<open>\<open>Counter(xs)\<close>.\<close>

definition counter :: "string list \<Rightarrow> (string \<times> int) list" where
  "counter xs = foldl (\<lambda>c x. alter 0 (\<lambda>n. n + 1) x c) [] xs"

lemma counter_snoc: "counter (xs @ [x]) = alter 0 (\<lambda>n. n + 1) x (counter xs)"
  by (simp add: counter_def)

lemma lookup_counter: "lookup 0 (counter xs) k = int (count_list xs k)"
proof (induction xs rule: rev_induct)
  case Nil
  then show ?case by (simp add: counter_def lookup_def)
next
  case (snoc x xs)
  then show ?case by (cases "k = x") (simp_all add: counter_snoc lookup_alter)
qed

lemma sum_counter: "sum_list (map snd (counter xs)) = int (length xs)"
proof (induction xs rule: rev_induct)
  case Nil
  then show ?case by (simp add: counter_def)
next
  case (snoc x xs)
  then show ?case using sum_alter [of id "\<lambda>n. n + 1" 1 0 x "counter xs"] by (simp add: counter_snoc)
qed

lemma distinct_counter: "distinct (map fst (counter xs))"
  by (induction xs rule: rev_induct) (simp_all add: counter_snoc distinct_alter, simp add: counter_def)

lemma counter_nonneg: "(k, n) \<in> set (counter xs) \<Longrightarrow> 0 \<le> n"
proof (induction xs arbitrary: k n rule: rev_induct)
  case Nil
  then show ?case by (simp add: counter_def)
next
  case (snoc x xs)
  then show ?case using alter_snd_induct [of k n 0 "\<lambda>n. n + 1" x "counter xs"] by (fastforce simp: counter_snoc)
qed

end
