(* ===== verification/Rep_Stats.thy ===== *)
theory Rep_Stats
  imports Py_Records
begin

text \<open>
  Statistics of a benchmark report, the first part of \<open>src/benchmarkservice/reporting.py\<close>: reading of
  record files, percentiles and latency summaries, rates, event counters, gauges over time, leader
  changes, the freshness of metric sources, and outstanding orders per second. Documents are built
  as the code builds them, so that a missing or malformed value raises where Python raises.
\<close>

section \<open>Record files\<close>

text \<open>A file is its lines; \<open>loads\<close> is \<open>json.loads\<close>, \<open>None\<close> where it raises \<open>JSONDecodeError\<close>.\<close>

fun read_lines :: "(string \<Rightarrow> json option) \<Rightarrow> nat \<Rightarrow> string list \<Rightarrow> dict list result" where
  "read_lines loads n [] = Inr []"
| "read_lines loads n (line # rest) =
     (if strip line = [] then read_lines loads (Suc n) rest
      else case loads line of
        None \<Rightarrow> if 1 < n then read_lines loads (Suc n) rest else raise ValueError ''JSONDecodeError''
      | Some v \<Rightarrow>
          rbind (read_lines loads (Suc n) rest) (\<lambda>records.
            Inr (case v of JObj d \<Rightarrow> d # records | _ \<Rightarrow> records)))"

definition read_json_lines :: "(string \<Rightarrow> json option) \<Rightarrow> string list option \<Rightarrow> dict list result" where
  "read_json_lines loads file = (case file of None \<Rightarrow> Inr [] | Some lines \<Rightarrow> read_lines loads 1 lines)"

definition read_json_object :: "(string \<Rightarrow> json option) \<Rightarrow> string option \<Rightarrow> dict result" where
  "read_json_object loads file = (case file of
      None \<Rightarrow> Inr []
    | Some text \<Rightarrow> (case loads text of
        None \<Rightarrow> raise ValueError ''JSONDecodeError''
      | Some (JObj d) \<Rightarrow> Inr d
      | Some _ \<Rightarrow> Inr []))"

section \<open>Percentiles and rates\<close>

definition percentile :: "pyfloat list \<Rightarrow> rat \<Rightarrow> pyfloat option result" where
  "percentile values quantile =
     (let ordered = f_sort values; n = length ordered in
      if n = 0 then Inr None
      else if n = 1 then Inr (Some (f_round 3 (ordered ! 0)))
      else
        let position = of_nat (n - 1) * quantile; lower = \<lfloor>position\<rfloor>; upper = \<lceil>position\<rceil> in
        rbind (py_index ordered lower) (\<lambda>a.
          if lower = upper then Inr (Some (f_round 3 a))
          else rbind (py_index ordered upper) (\<lambda>b.
            Inr (Some (f_round 3 (f_add a (f_scale (position - of_int lower) (f_sub b a))))))))"

definition percentile_json :: "pyfloat list \<Rightarrow> rat \<Rightarrow> json result" where
  "percentile_json values quantile = rbind (percentile values quantile) (\<lambda>p. Inr (jfloat_opt p))"

definition maximum_json :: "nat \<Rightarrow> pyfloat list \<Rightarrow> json result" where
  "maximum_json digits values =
     (if values = [] then Inr JNull else rbind (f_maximum values) (\<lambda>m. Inr (JFloat (f_round digits m))))"

definition latency_doc :: "pyfloat list \<Rightarrow> json result" where
  "latency_doc values =
     rbind (percentile_json values (1 / 2)) (\<lambda>p50.
     rbind (percentile_json values (95 / 100)) (\<lambda>p95.
     rbind (percentile_json values (99 / 100)) (\<lambda>p99.
     rbind (maximum_json 3 values) (\<lambda>top.
       Inr (JObj [(''count'', JInt (int (length values))), (''p50_ms'', p50), (''p95_ms'', p95),
                  (''p99_ms'', p99), (''max_ms'', top)])))))"

definition latencies :: "(dict \<Rightarrow> bool) \<Rightarrow> dict list \<Rightarrow> pyfloat list result" where
  "latencies keep samples =
     rmap (\<lambda>s. item_float s ''response_time_ms'')
       (filter (\<lambda>s. keep s \<and> dict_get s ''response_time_ms'' JNull \<noteq> JNull) samples)"

definition latency_summary :: "dict list \<Rightarrow> json result" where
  "latency_summary samples = rbind (latencies (\<lambda>s. truthy (dict_get s ''success'' JNull)) samples) latency_doc"

definition recorded_latency_summary :: "dict list \<Rightarrow> bool \<Rightarrow> json result" where
  "recorded_latency_summary samples successful =
     rbind (latencies (\<lambda>s. truthy (dict_get s ''success'' JNull) = successful) samples) latency_doc"

definition rate :: "int \<Rightarrow> int \<Rightarrow> json" where
  "rate numerator denominator =
     (if denominator = 0 then JNull else JFloat (Fin (round_to 6 (of_int numerator / of_int denominator))))"

section \<open>Workflow event counters\<close>

definition unavailable :: "string \<Rightarrow> json" where
  "unavailable reason = JObj [(''available'', JBool False), (''reason'', JStr reason)]"

fun event_counts :: "dict \<Rightarrow> dict \<Rightarrow> string list \<Rightarrow> (string + dict)" where
  "event_counts before after [] = Inr []"
| "event_counts before after (name # names) =
     (case (dict_get before name JNull, dict_get after name JNull) of
        (JInt initial, JInt final) \<Rightarrow>
          if final < initial then Inl name
          else (case event_counts before after names of
                  Inl n \<Rightarrow> Inl n | Inr counts \<Rightarrow> Inr ((name, JInt (final - initial)) # counts))
      | _ \<Rightarrow> Inl name)"

definition workflow_event_summary :: "dict \<Rightarrow> json" where
  "workflow_event_summary value =
     (let error = dict_get value ''error'' JNull in
      if truthy error then unavailable (py_str error)
      else case (dict_get value ''started'' JNull, dict_get value ''ended'' JNull) of
        (JObj started, JObj ended) \<Rightarrow>
          (case dict_get started ''observer_id'' JNull of
             JStr observer \<Rightarrow>
               if observer = [] \<or> dict_get ended ''observer_id'' JNull \<noteq> JStr observer
               then unavailable ''workflow event observer lost continuity''
               else (case (dict_get started ''counts'' JNull, dict_get ended ''counts'' JNull) of
                 (JObj before, JObj after) \<Rightarrow>
                   (case event_counts before after [''successful_orders'', ''shipments_rejected'',
                           ''payment_authorizations_released'', ''orders_in_manual_review''] of
                      Inl name \<Rightarrow> unavailable (''invalid workflow event counter '' @ name)
                    | Inr counts \<Rightarrow> JObj ((''available'', JBool True) # counts))
               | _ \<Rightarrow> unavailable ''workflow event observer does not expose event counts'')
           | _ \<Rightarrow> unavailable ''workflow event observer lost continuity'')
      | _ \<Rightarrow> unavailable ''workflow event observer samples are missing'')"

section \<open>Gauges over time\<close>

text \<open>\<open>_metric_stats\<close> on floats and on integers; the caller's lists are not empty.\<close>

definition metric_doc :: "json \<Rightarrow> json \<Rightarrow> json \<Rightarrow> pyfloat \<Rightarrow> json \<Rightarrow> json" where
  "metric_doc first_value last_value maximum moment change = JObj
     [(''first'', first_value), (''last'', last_value), (''max'', maximum),
      (''max_at_elapsed_seconds'', JFloat (f_round 3 moment)), (''change'', change)]"

definition first_at :: "'v \<Rightarrow> (pyfloat \<times> 'v) list \<Rightarrow> pyfloat result" where
  "first_at m values = (case List.find (\<lambda>(_, v). v = m) values of
      None \<Rightarrow> raise OtherError ''StopIteration'' | Some (moment, _) \<Rightarrow> Inr moment)"

definition metric_stats :: "(pyfloat \<times> pyfloat) list \<Rightarrow> json result" where
  "metric_stats values =
     rbind (f_maximum (map snd values)) (\<lambda>m.
     rbind (first_at m (filter (\<lambda>(_, v). v \<noteq> NaN) values)) (\<lambda>moment.
       let a = snd (hd values); b = snd (last values) in
       Inr (metric_doc (JFloat a) (JFloat b) (JFloat m) moment (JFloat (f_sub b a)))))"

definition metric_stats_int :: "(pyfloat \<times> int) list \<Rightarrow> json result" where
  "metric_stats_int values =
     rbind (int_maximum (map snd values)) (\<lambda>m.
     rbind (first_at m values) (\<lambda>moment.
       let a = snd (hd values); b = snd (last values) in
       Inr (metric_doc (JInt a) (JInt b) (JInt m) moment (JInt (b - a)))))"

section \<open>Leaders\<close>

record leader_state =
  l_previous :: "string option"
  l_leaders :: "string list"
  l_changes :: "(pyfloat \<times> string \<times> string) list"

definition leader_step :: "pyfloat \<times> string \<Rightarrow> leader_state \<Rightarrow> leader_state" where
  "leader_step x s =
     (let (elapsed, leader) = x in
      if leader = [] \<or> l_previous s = Some leader then s
      else s\<lparr>l_previous := Some leader,
             l_leaders := (if leader \<in> set (l_leaders s) then l_leaders s else l_leaders s @ [leader]),
             l_changes := (case l_previous s of
                None \<Rightarrow> l_changes s | Some p \<Rightarrow> l_changes s @ [(elapsed, p, leader)])\<rparr>)"

definition leader_run :: "(pyfloat \<times> string) list \<Rightarrow> leader_state" where
  "leader_run values = fold leader_step values \<lparr>l_previous = None, l_leaders = [], l_changes = []\<rparr>"

definition leader_summary :: "(pyfloat \<times> string) list \<Rightarrow> json" where
  "leader_summary values =
     (let s = leader_run values in JObj
       [(''last'', case l_previous s of None \<Rightarrow> JNull | Some p \<Rightarrow> JStr p),
        (''observed'', JList (map JStr (l_leaders s))),
        (''changes'', JList (map (\<lambda>(elapsed, p, q). JObj
            [(''elapsed_seconds'', JFloat (f_round 3 elapsed)), (''from'', JStr p), (''to'', JStr q)]) (l_changes s))),
        (''change_count'', JInt (int (length (l_changes s))))])"

section \<open>Freshness of a metric source\<close>

record source_state =
  s_ages :: "pyfloat list"
  s_durations :: "pyfloat list"
  s_identities :: "(pyfloat \<times> pyfloat) list"
  s_partial :: int
  s_timed_out :: int
  s_missing :: int
  s_errors :: int

definition int_or_zero :: "json \<Rightarrow> int result" where
  "int_or_zero v = py_int (j_or v (JInt 0))"

definition source_step :: "string \<Rightarrow> dict \<Rightarrow> source_state \<Rightarrow> source_state result" where
  "source_step source r s =
     rbind (jget (dict_get r ''source_samples'' (JObj [])) source JNull) (\<lambda>sample.
       case sample of
         JObj (e # d) \<Rightarrow>
           let sample = e # d;
               collected = dict_get sample ''collected_at'' JNull;
               timestamp = dict_get r ''timestamp'' JNull;
               duration = dict_get sample ''duration_seconds'' JNull
           in
           rbind (if is_number collected \<and> is_number timestamp
                  then rbind (py_float timestamp) (\<lambda>t. rbind (py_float collected) (\<lambda>c.
                    Inr (s\<lparr>s_ages := s_ages s @ [f_max (Fin 0) (f_sub t c)],
                           s_identities := s_identities s @ [(t, c)]\<rparr>)))
                  else Inr s) (\<lambda>s1.
           rbind (if is_number duration
                  then rbind (py_float duration) (\<lambda>f. Inr (s1\<lparr>s_durations := s_durations s1 @ [f]\<rparr>))
                  else Inr s1) (\<lambda>s2.
           rbind (int_or_zero (dict_get sample ''requests_timed_out'' (JInt 0))) (\<lambda>timeouts.
           rbind (items_of (dict_get r ''errors'' (JList []))) (\<lambda>errors.
             Inr (s2\<lparr>s_partial := s_partial s2 + (if truthy (dict_get sample ''partial'' JNull) then 1 else 0),
                     s_timed_out := s_timed_out s2 + timeouts,
                     s_errors := s_errors s2 +
                       int (length (filter (\<lambda>e. startswith (py_str e) (source @ '':'')) errors))\<rparr>)))))
       | _ \<Rightarrow> Inr (s\<lparr>s_missing := s_missing s + 1\<rparr>))"

record stale_state =
  st_longest :: pyfloat
  st_started :: "pyfloat option"
  st_identity :: "pyfloat option"
  st_timestamp :: "pyfloat option"

text \<open>\<open>identity == previous_identity\<close>: false for NaN.\<close>

definition same_identity :: "pyfloat \<Rightarrow> pyfloat option \<Rightarrow> bool" where
  "same_identity i p \<longleftrightarrow> i \<noteq> NaN \<and> p = Some i"

definition stale_step :: "pyfloat \<times> pyfloat \<Rightarrow> stale_state \<Rightarrow> stale_state" where
  "stale_step x s =
     (let (timestamp, identity) = x;
          s1 = (if same_identity identity (st_identity s)
                then let started = (case st_started s of None \<Rightarrow> st_timestamp s | Some t \<Rightarrow> Some t)
                     in s\<lparr>st_started := started,
                          st_longest := (case started of
                             None \<Rightarrow> st_longest s | Some t \<Rightarrow> f_max (st_longest s) (f_sub timestamp t))\<rparr>
                else s\<lparr>st_started := None\<rparr>)
      in s1\<lparr>st_identity := Some identity, st_timestamp := Some timestamp\<rparr>)"

definition longest_stale :: "(pyfloat \<times> pyfloat) list \<Rightarrow> pyfloat" where
  "longest_stale identities =
     st_longest (fold stale_step identities
       \<lparr>st_longest = Fin 0, st_started = None, st_identity = None, st_timestamp = None\<rparr>)"

text \<open>The size of a set of floats: a NaN is never equal to another.\<close>

definition unique_floats :: "pyfloat list \<Rightarrow> nat" where
  "unique_floats xs = length (remdups (filter (\<lambda>x. x \<noteq> NaN) xs)) + length (filter (\<lambda>x. x = NaN) xs)"

definition source_collection_summary :: "dict list \<Rightarrow> string \<Rightarrow> json result" where
  "source_collection_summary records source =
     (let steady = filter (in_phase ''steady'') records in
      rbind (rfold (source_step source) steady
          \<lparr>s_ages = [], s_durations = [], s_identities = [], s_partial = 0, s_timed_out = 0, s_missing = 0, s_errors = 0\<rparr>)
      (\<lambda>s.
        if s_ages s = [] \<and> s_durations s = []
        then Inr (JObj [(''available'', JBool False), (''reason'', JStr ''source sample metadata unavailable''),
                        (''missing_samples'', JInt (s_missing s))])
        else
          rbind (maximum_json 6 (s_ages s)) (\<lambda>max_age.
          rbind (percentile_json (s_ages s) (95 / 100)) (\<lambda>p95_age.
          rbind (maximum_json 6 (s_durations s)) (\<lambda>max_duration.
          rbind (percentile_json (s_durations s) (95 / 100)) (\<lambda>p95_duration.
            Inr (JObj
              [(''available'', JBool True), (''samples'', JInt (int (length steady))),
               (''unique_source_samples'', JInt (int (unique_floats (map snd (s_identities s))))),
               (''missing_samples'', JInt (s_missing s)), (''partial_samples'', JInt (s_partial s)),
               (''timed_out_requests'', JInt (s_timed_out s)), (''recorded_errors'', JInt (s_errors s)),
               (''max_sample_age_seconds'', max_age), (''p95_sample_age_seconds'', p95_age),
               (''max_collection_duration_seconds'', max_duration),
               (''p95_collection_duration_seconds'', p95_duration),
               (''longest_repeated_sample_seconds'', JFloat (f_round 6 (longest_stale (s_identities s))))])))))))"

section \<open>Outstanding orders\<close>

record outstanding_point =
  o_second :: int
  o_phase :: json
  o_value :: int
  o_max :: int

definition second_of :: "dict \<Rightarrow> json \<Rightarrow> int result" where
  "second_of r v = rbind (get_float r ''elapsed_seconds'' v) f_floor"

definition outstanding_step ::
  "dict \<Rightarrow> int \<times> (int \<times> outstanding_point) list \<Rightarrow> (int \<times> (int \<times> outstanding_point) list) result" where
  "outstanding_step r s =
     (let (maximum, buckets) = s in
      rbind (get_float r ''elapsed_seconds'' (JInt 0)) (\<lambda>elapsed.
      rbind (get_int r ''outstanding'' (JInt 0)) (\<lambda>value.
      rbind (f_floor elapsed) (\<lambda>floor_second.
        let second = max 0 floor_second; phase = dict_get r ''phase'' JNull in
        Inr (max maximum value,
             alter \<lparr>o_second = second, o_phase = phase, o_value = value, o_max = value\<rparr>
               (\<lambda>p. p\<lparr>o_phase := phase, o_value := value, o_max := max (o_max p) value\<rparr>) second buckets)))))"

definition point_doc :: "outstanding_point \<Rightarrow> json" where
  "point_doc p = JObj [(''elapsed_seconds'', JInt (o_second p)), (''phase'', o_phase p),
     (''outstanding'', JInt (o_value p)), (''max_outstanding'', JInt (o_max p))]"

definition outstanding_summary :: "dict list \<Rightarrow> json result" where
  "outstanding_summary records =
     (if records = []
      then Inr (JObj [(''available'', JBool False), (''max'', JInt 0), (''final'', JInt 0), (''series'', JList [])])
      else
        rbind (rfold outstanding_step records (0, [])) (\<lambda>(maximum, buckets).
        rbind (get_int (last records) ''outstanding'' (JInt 0)) (\<lambda>final.
          Inr (JObj [(''available'', JBool True), (''max'', JInt maximum), (''final'', JInt final),
                     (''series'', JList (map (point_doc \<circ> snd) (sorted_items buckets)))]))))"

end
