(* ===== verification/Rep_Business.thy ===== *)
theory Rep_Business
  imports Rep_Stats Bench_Config
begin

text \<open>
  The business part of a report, \<open>reporting.py\<close>: \<open>business_summary\<close> counts the outcomes of the orders of
  the steady phase, \<open>capacity_assessment\<close> judges whether the offered load was sustained,
  \<open>add_per_order_resource_metrics\<close> relates resource use to completed orders, and
  \<open>write_business_csv\<close> tabulates the records.
\<close>

definition REQUIRED_OUTCOMES :: "string list" where
  "REQUIRED_OUTCOMES = [''COMPLETED'', ''REJECTED'', ''CANCELLED'', ''MANUAL_REVIEW'', ''TIMEOUT'', ''INCOMPLETE'',
     ''GENERATOR_SATURATED'']"

definition steady_named :: "string \<Rightarrow> dict list \<Rightarrow> dict list" where
  "steady_named name records = filter (named name) (filter (in_phase ''steady'') records)"

definition outcome_counts :: "dict list \<Rightarrow> (string \<times> int) list result" where
  "outcome_counts outcomes =
     rbind (rmap (\<lambda>r. rbind (context_get r ''outcome'' (JStr ''UNKNOWN'')) (\<lambda>v. Inr (py_str v))) outcomes) (\<lambda>names.
       Inr (foldl (\<lambda>c k. alter 0 id k c) (counter names) REQUIRED_OUTCOMES))"

definition settled_counts :: "string \<Rightarrow> dict list \<Rightarrow> (string \<times> int) list result" where
  "settled_counts field settlements =
     rbind (rfilter (\<lambda>r. rbind (context_get r field JNull) (\<lambda>v. Inr (truthy v))) settlements) (\<lambda>rs.
     rbind (rmap (\<lambda>r. rbind (context_get r field (JStr ''UNKNOWN'')) (\<lambda>v. Inr (py_str v))) rs) (\<lambda>names.
       Inr (counter names)))"

definition counts_doc :: "(string \<times> int) list \<Rightarrow> json" where
  "counts_doc c = JObj (map (\<lambda>(k, n). (k, JInt n)) (sorted_items c))"

definition has_context :: "(json \<Rightarrow> bool) \<Rightarrow> string \<Rightarrow> dict list \<Rightarrow> dict list result" where
  "has_context p field records = rfilter (\<lambda>r. rbind (context_get r field JNull) (\<lambda>v. Inr (p v))) records"

definition business_summary :: "dict list \<Rightarrow> pyfloat \<Rightarrow> json result" where
  "business_summary records duration =
     (let outcomes = steady_named ''checkout_to_outcome'' records;
          acceptances = steady_named ''checkout_acceptance'' records;
          settlements = steady_named ''checkout_to_settled'' records;
          submitted = int (length outcomes)
      in
      rbind (outcome_counts outcomes) (\<lambda>outcomes_by_name.
      rbind (has_context truthy ''accepted'' outcomes) (\<lambda>accepted_records.
      let accepted = int (length accepted_records); completed = lookup 0 outcomes_by_name ''COMPLETED'' in
      rbind (has_context (\<lambda>v. v \<noteq> JNull) ''scheduled_at'' outcomes) (\<lambda>scheduled_records.
      rbind (rmap (\<lambda>r. rbind (context_get r ''settlement'' (JStr ''UNKNOWN'')) (\<lambda>v. Inr (py_str v))) settlements)
        (\<lambda>settlement_names.
      rbind (settled_counts ''notification_status'' settlements) (\<lambda>notifications.
      rbind (settled_counts ''cart_clear_status'' settlements) (\<lambda>cart_clears.
      rbind (f_quot (Fin (of_int completed)) duration) (\<lambda>goodput.
      rbind (rbind (has_context (\<lambda>v. v = JStr ''COMPLETED'') ''outcome'' outcomes) latency_summary) (\<lambda>to_outcome.
      rbind (rbind (has_context truthy ''accepted'' acceptances) latency_summary) (\<lambda>acceptance.
      rbind (rbind (has_context (\<lambda>v. v = JStr ''SETTLED'') ''settlement'' settlements) latency_summary) (\<lambda>to_settled.
        Inr (JObj
          [(''submitted'', JInt submitted),
           (''scheduled_open_loop'', JInt (int (length scheduled_records))),
           (''accepted'', JInt accepted),
           (''completed'', JInt completed),
           (''acceptance_rate'', rate accepted submitted),
           (''completion_rate'', rate completed submitted),
           (''completion_rate_of_accepted'', rate completed accepted),
           (''goodput_orders_per_second'', JFloat (f_round 6 goodput)),
           (''outcomes'', counts_doc outcomes_by_name),
           (''outcome_rates'', JObj (map (\<lambda>(k, n). (k, rate n submitted)) (sorted_items outcomes_by_name))),
           (''checkout_to_outcome'', to_outcome),
           (''checkout_acceptance'', acceptance),
           (''checkout_to_settled'', to_settled),
           (''settlements'', counts_doc (counter settlement_names)),
           (''notification_outcomes'', counts_doc notifications),
           (''cart_clear_outcomes'', counts_doc cart_clears)]))))))))))))"

section \<open>Capacity\<close>

definition assessment :: "json \<Rightarrow> string list \<Rightarrow> json" where
  "assessment sustainable reasons = JObj [(''sustainable'', sustainable), (''reasons'', JList (map JStr reasons))]"

definition capacity_reasons :: "dict \<Rightarrow> dict \<Rightarrow> string list result" where
  "capacity_reasons business outstanding =
     rbind (jget (dict_get business ''outcomes'' (JObj [])) ''GENERATOR_SATURATED'' (JInt 0)) (\<lambda>g.
     rbind (py_int g) (\<lambda>saturated.
     rbind (dict_item business ''completed'') (\<lambda>completed.
     rbind (dict_item business ''submitted'') (\<lambda>submitted.
     rbind (arith (dict_get outstanding ''final'' (JInt 0))) (\<lambda>final.
       Inr ((if saturated \<noteq> 0
             then [''load generator concurrency limit was reached '' @ show_int saturated @ '' times''] else [])
          @ (if \<not> py_eq completed submitted then [''not every submitted transaction completed''] else [])
          @ (if f_lt (Fin 0) final then [''accepted orders remained outstanding after drain''] else [])))))))"

definition capacity_assessment :: "benchmark_config \<Rightarrow> dict \<Rightarrow> dict \<Rightarrow> dict \<Rightarrow> json result" where
  "capacity_assessment c business outstanding nats =
     (if workload c = ''fault_tolerance''
      then Inr (assessment JNull [''capacity is not assessed while faults are intentional''])
      else if workload c \<notin> {''open'', ''saturation''}
      then Inr (assessment JNull [''capacity is assessed only for open-loop runs''])
      else
        rbind (dict_item business ''submitted'') (\<lambda>submitted.
        if equals_int submitted 0
        then Inr (assessment JNull [''no steady-state transactions were recorded''])
        else
          rbind (capacity_reasons business outstanding) (\<lambda>reasons.
          if application_type c = ''NATS'' then
            let pending = (if truthy (dict_get nats ''available'' JNull)
                           then dict_get nats ''consumer_pending'' JNull else JNull)
            in if pending = JNull
               then Inr (assessment JNull (reasons @ [''consumer backlog metrics were unavailable'']))
               else
                 rbind (rbind (jget pending ''change'' (JInt 0)) py_float) (\<lambda>change.
                   let all = reasons @ (if f_lt (Fin 0) change then [''JetStream consumer pending messages increased''] else [])
                   in Inr (assessment (JBool (all = [])) all))
          else Inr (assessment (JBool (reasons = [])) reasons))))"

section \<open>Resources per order\<close>

definition per_order :: "nat \<Rightarrow> dict \<Rightarrow> int \<Rightarrow> string \<Rightarrow> json result" where
  "per_order digits resources completed name =
     rbind (dict_item resources name) (\<lambda>v.
     rbind (arith v) (\<lambda>f.
     rbind (f_div f (of_int completed)) (\<lambda>q. Inr (JFloat (f_round digits q)))))"

definition add_per_order_resource_metrics :: "dict \<Rightarrow> int \<Rightarrow> dict result" where
  "add_per_order_resource_metrics resources completed =
     (if \<not> truthy (dict_get resources ''available'' JNull) then Inr resources
      else rbind (arith (dict_get resources ''sampled_seconds'' (JInt 0))) (\<lambda>sampled.
        if f_le sampled (Fin 0) \<or> completed \<le> 0 then Inr resources
        else
          rbind (per_order 9 resources completed ''cpu_seconds'') (\<lambda>cpu.
          rbind (per_order 3 resources completed ''memory_byte_seconds'') (\<lambda>memory.
          rbind (per_order 3 resources completed ''network_rx_bytes'') (\<lambda>rx.
          rbind (per_order 3 resources completed ''network_tx_bytes'') (\<lambda>tx.
            Inr (dict_set ''per_completed_order'' (JObj
              [(''cpu_seconds'', cpu), (''memory_byte_seconds'', memory),
               (''network_rx_bytes'', rx), (''network_tx_bytes'', tx)]) resources)))))))"

section \<open>The table of records\<close>

definition context_fields :: "dict list \<Rightarrow> string list result" where
  "context_fields records =
     rbind (rmap (\<lambda>r. as_dict (dict_get r ''context'' (JObj []))) records) (\<lambda>contexts.
       Inr (sorted_set (filter (\<lambda>k. \<not> startswith k ''_'') (map fst (concat contexts)))))"

definition CSV_FIELDS :: "string list" where
  "CSV_FIELDS = [''timestamp'', ''recorded_at'', ''recorded_elapsed_seconds'', ''phase'', ''request_type'', ''name'',
     ''response_time_ms'', ''success'', ''error'']"

definition csv_row :: "string list \<Rightarrow> string list \<Rightarrow> dict \<Rightarrow> json list result" where
  "csv_row columns extra r =
     rbind (as_dict (dict_get r ''context'' (JObj []))) (\<lambda>context.
       let row = dict_update (map (\<lambda>k. (k, dict_get r k JNull)) columns) (filter (\<lambda>(k, _). k \<in> set extra) context)
       in Inr (map (\<lambda>k. dict_get row k JNull) columns))"

text \<open>The header and the cells of every row; \<open>None\<close> is written as an empty cell.\<close>

definition write_business_csv :: "dict list \<Rightarrow> (string list \<times> json list list) result" where
  "write_business_csv records =
     rbind (context_fields records) (\<lambda>extra.
       let columns = CSV_FIELDS @ extra in
       rbind (rmap (csv_row columns extra) records) (\<lambda>rows. Inr (columns, rows)))"

end
