(* ===== verification/Rep_Resources.thy ===== *)
theory Rep_Resources
  imports Rep_Business
begin

text \<open>
  Resource use of the cluster during the steady phase, \<open>_pod_totals\<close>, \<open>_single_resource_sample_summary\<close>
  and \<open>resource_summary\<close> of \<open>reporting.py\<close>: gauges are integrated over time, counters are turned into
  increments between consecutive samples, and both are kept for the cluster and per service.
\<close>

section \<open>One sample\<close>

definition pod_values :: "json \<Rightarrow> dict list result" where
  "pod_values pods = rbind (as_dict pods) (\<lambda>d. rmap (as_dict \<circ> snd) d)"

definition pod_step_totals :: "dict \<Rightarrow> int \<times> int \<times> int \<times> int \<Rightarrow> (int \<times> int \<times> int \<times> int) result" where
  "pod_step_totals pod totals =
     (let (cpu, memory, received, transmitted) = totals in
      rbind (get_int pod ''cpu_usage_core_nanoseconds'' (JInt 0)) (\<lambda>a.
      rbind (get_int pod ''memory_working_set_bytes'' (JInt 0)) (\<lambda>b.
      rbind (get_int pod ''network_rx_bytes'' (JInt 0)) (\<lambda>c.
      rbind (get_int pod ''network_tx_bytes'' (JInt 0)) (\<lambda>d.
        Inr (cpu + a, memory + b, received + c, transmitted + d))))))"

definition pod_totals :: "json \<Rightarrow> (int \<times> int \<times> int \<times> int) result" where
  "pod_totals pods = rbind (pod_values pods) (\<lambda>ps. rfold pod_step_totals ps (0, 0, 0, 0))"

definition sample_memory :: "json \<Rightarrow> int result" where
  "sample_memory pods = rbind (pod_totals pods) (\<lambda>(_, memory, _, _). Inr memory)"

definition service_of :: "dict \<Rightarrow> string" where
  "service_of pod = py_str (dict_get pod ''service'' (JStr ''unknown''))"

definition UNAVAILABLE_COUNTERS :: dict where
  "UNAVAILABLE_COUNTERS = map (\<lambda>k. (k, JNull))
     [''cpu_seconds'', ''memory_byte_seconds'', ''network_rx_bytes'', ''network_tx_bytes'', ''cpu_throttled_seconds'',
      ''cpu_throttled_periods'', ''cpu_periods'', ''cpu_throttling_ratio'', ''disk_io_operations'', ''disk_io_seconds'',
      ''average_disk_latency_seconds'']"

definition single_resource_sample_summary :: "dict \<Rightarrow> json result" where
  "single_resource_sample_summary r =
     (let pods = dict_get r ''pods'' (JObj []) in
      rbind (sample_memory pods) (\<lambda>memory.
      rbind (pod_values pods) (\<lambda>ps.
      rbind (rfold (\<lambda>p m. rbind (get_int p ''memory_working_set_bytes'' (JInt 0)) (\<lambda>n.
          Inr (alter 0 (\<lambda>v. v + n) (service_of p) m))) ps []) (\<lambda>by_service.
        Inr (JObj
          ([(''available'', JBool True), (''partial'', JBool True),
            (''partial_reason'', JStr ''only one steady-state sample; cumulative deltas are unavailable''),
            (''sampled_seconds'', JFloat (Fin 0))]
           @ UNAVAILABLE_COUNTERS
           @ [(''average_memory_bytes'', JInt memory), (''max_sampled_memory_bytes'', JInt memory),
              (''disk_latency_available'', JBool False),
              (''by_service'', JObj (map (\<lambda>(s, n).
                 (s, JObj (UNAVAILABLE_COUNTERS @ [(''average_memory_bytes'', JInt n)]))) (sorted_items by_service)))]))))))"

section \<open>Increments between two samples\<close>

record usage =
  u_cpu :: int
  u_memory :: pyfloat
  u_rx :: int
  u_tx :: int
  u_periods :: int
  u_throttled :: int
  u_throttled_seconds :: pyfloat
  u_disk :: int
  u_disk_latency :: int
  u_disk_seconds :: pyfloat
  u_disk_weighted :: pyfloat

definition no_usage :: usage where
  "no_usage = \<lparr>u_cpu = 0, u_memory = Fin 0, u_rx = 0, u_tx = 0, u_periods = 0, u_throttled = 0,
     u_throttled_seconds = Fin 0, u_disk = 0, u_disk_latency = 0, u_disk_seconds = Fin 0, u_disk_weighted = Fin 0\<rparr>"

definition add_usage :: "usage \<Rightarrow> usage \<Rightarrow> usage" where
  "add_usage a b = \<lparr>u_cpu = u_cpu a + u_cpu b, u_memory = f_add (u_memory a) (u_memory b),
     u_rx = u_rx a + u_rx b, u_tx = u_tx a + u_tx b, u_periods = u_periods a + u_periods b,
     u_throttled = u_throttled a + u_throttled b,
     u_throttled_seconds = f_add (u_throttled_seconds a) (u_throttled_seconds b),
     u_disk = u_disk a + u_disk b, u_disk_latency = u_disk_latency a + u_disk_latency b,
     u_disk_seconds = f_add (u_disk_seconds a) (u_disk_seconds b),
     u_disk_weighted = f_add (u_disk_weighted a) (u_disk_weighted b)\<rparr>"

definition counter_delta :: "dict \<Rightarrow> dict \<Rightarrow> string \<Rightarrow> int result" where
  "counter_delta current previous k =
     rbind (get_int current k (JInt 0)) (\<lambda>a. rbind (get_int previous k (JInt 0)) (\<lambda>b. Inr (max 0 (a - b))))"

definition seconds_delta :: "dict \<Rightarrow> dict \<Rightarrow> string \<Rightarrow> pyfloat result" where
  "seconds_delta current previous k =
     rbind (get_float current k (JInt 0)) (\<lambda>a. rbind (get_float previous k (JInt 0)) (\<lambda>b.
       Inr (f_max (Fin 0) (f_sub a b))))"

definition has_disk_latency :: "dict \<Rightarrow> dict \<Rightarrow> bool" where
  "has_disk_latency current previous \<longleftrightarrow>
     list_all (\<lambda>k. dict_has current k \<and> dict_has previous k)
       [''disk_io_operations_total'', ''disk_io_time_weighted_seconds_total'']"

definition pod_usage :: "dict \<Rightarrow> dict \<Rightarrow> pyfloat \<Rightarrow> usage result" where
  "pod_usage current previous delta_seconds =
     rbind (counter_delta current previous ''cpu_usage_core_nanoseconds'') (\<lambda>cpu.
     rbind (counter_delta current previous ''network_rx_bytes'') (\<lambda>rx.
     rbind (counter_delta current previous ''network_tx_bytes'') (\<lambda>tx.
     rbind (counter_delta current previous ''cpu_cfs_periods_total'') (\<lambda>periods.
     rbind (counter_delta current previous ''cpu_cfs_throttled_periods_total'') (\<lambda>throttled.
     rbind (seconds_delta current previous ''cpu_cfs_throttled_seconds_total'') (\<lambda>throttled_seconds.
     rbind (counter_delta current previous ''disk_io_operations_total'') (\<lambda>disk.
     rbind (seconds_delta current previous ''disk_io_time_seconds_total'') (\<lambda>disk_seconds.
     let latency = has_disk_latency current previous in
     rbind (if latency then seconds_delta current previous ''disk_io_time_weighted_seconds_total'' else Inr (Fin 0))
       (\<lambda>weighted.
     rbind (get_int previous ''memory_working_set_bytes'' (JInt 0)) (\<lambda>memory_before.
     rbind (get_int current ''memory_working_set_bytes'' (JInt 0)) (\<lambda>memory_after.
       Inr \<lparr>u_cpu = cpu, u_memory = f_scale (of_int (memory_before + memory_after) / 2) delta_seconds,
            u_rx = rx, u_tx = tx, u_periods = periods, u_throttled = throttled,
            u_throttled_seconds = throttled_seconds, u_disk = disk, u_disk_latency = (if latency then disk else 0),
            u_disk_seconds = disk_seconds, u_disk_weighted = weighted\<rparr>)))))))))))"

text \<open>The totals of the loop: the cluster's use, in which \<open>u_memory\<close> integrates all pods of a sample,
  the use of every service, the sampled time and the largest memory.\<close>

record resource_state =
  r_total :: usage
  r_services :: "(string \<times> usage) list"
  r_elapsed :: pyfloat
  r_max_memory :: int

definition pod_step :: "dict \<Rightarrow> pyfloat \<Rightarrow> string \<times> json \<Rightarrow> resource_state \<Rightarrow> resource_state result" where
  "pod_step previous_pods delta_seconds pod s =
     (let (name, current) = pod; before = dict_get previous_pods name JNull in
      if before = JNull then Inr s
      else
        rbind (as_dict current) (\<lambda>current_pod.
        rbind (as_dict before) (\<lambda>previous_pod.
        rbind (pod_usage current_pod previous_pod delta_seconds) (\<lambda>u.
          Inr (s\<lparr>r_total := add_usage (r_total s) (u\<lparr>u_memory := Fin 0\<rparr>),
                 r_services := alter no_usage (\<lambda>v. add_usage v u) (service_of current_pod) (r_services s)\<rparr>)))))"

definition sample_step :: "dict \<times> dict \<Rightarrow> resource_state \<Rightarrow> resource_state result" where
  "sample_step pair s =
     (let (previous, current) = pair in
      rbind (item_float current ''timestamp'') (\<lambda>t1.
      rbind (item_float previous ''timestamp'') (\<lambda>t0.
      let delta_seconds = f_sub t1 t0 in
      if f_le delta_seconds (Fin 0) then Inr s
      else
        let previous_pods = dict_get previous ''pods'' (JObj []); current_pods = dict_get current ''pods'' (JObj []) in
        rbind (sample_memory previous_pods) (\<lambda>previous_memory.
        rbind (sample_memory current_pods) (\<lambda>current_memory.
        rbind (as_dict previous_pods) (\<lambda>before.
        rbind (as_dict current_pods) (\<lambda>after.
          rfold (pod_step before delta_seconds) after
            (s\<lparr>r_elapsed := f_add (r_elapsed s) delta_seconds,
               r_total := (r_total s)\<lparr>u_memory := f_add (u_memory (r_total s))
                   (f_scale (of_int (previous_memory + current_memory) / 2) delta_seconds)\<rparr>,
               r_max_memory := max (max (r_max_memory s) previous_memory) current_memory\<rparr>))))))))"

section \<open>The summary\<close>

definition ratio_json :: "nat \<Rightarrow> pyfloat \<Rightarrow> int \<Rightarrow> json" where
  "ratio_json digits a b = (if b = 0 then JNull else JFloat (f_round digits (f_scale (1 / of_int b) a)))"

definition per_elapsed :: "pyfloat \<Rightarrow> pyfloat \<Rightarrow> json result" where
  "per_elapsed a elapsed =
     (if elapsed = Fin 0 then Inr JNull else rbind (f_quot a elapsed) (\<lambda>q. Inr (JFloat (f_round 3 q))))"

definition cpu_seconds_json :: "int \<Rightarrow> json" where
  "cpu_seconds_json ns = JFloat (Fin (round_to 6 (of_int ns / 1000000000)))"

definition service_doc :: "pyfloat \<Rightarrow> usage \<Rightarrow> json result" where
  "service_doc elapsed u =
     rbind (per_elapsed (u_memory u) elapsed) (\<lambda>average_memory.
       Inr (JObj
         [(''cpu_seconds'', cpu_seconds_json (u_cpu u)),
          (''memory_byte_seconds'', JFloat (f_round 3 (u_memory u))),
          (''average_memory_bytes'', average_memory),
          (''network_rx_bytes'', JInt (u_rx u)),
          (''network_tx_bytes'', JInt (u_tx u)),
          (''cpu_throttled_seconds'', JFloat (f_round 6 (u_throttled_seconds u))),
          (''cpu_throttled_periods'', JInt (u_throttled u)),
          (''cpu_periods'', JInt (u_periods u)),
          (''cpu_throttling_ratio'', ratio_json 6 (Fin (of_int (u_throttled u))) (u_periods u)),
          (''disk_io_operations'', JInt (u_disk u)),
          (''disk_io_seconds'', JFloat (f_round 6 (u_disk_seconds u))),
          (''average_disk_latency_seconds'', ratio_json 9 (u_disk_weighted u) (u_disk_latency u))]))"

definition resource_doc :: "resource_state \<Rightarrow> json result" where
  "resource_doc s =
     (let u = r_total s in
      rbind (rmap (\<lambda>(name, v). rbind (service_doc (r_elapsed s) v) (\<lambda>d. Inr (name, d))) (sorted_items (r_services s)))
        (\<lambda>services.
      rbind (per_elapsed (u_memory u) (r_elapsed s)) (\<lambda>average_memory.
        Inr (JObj
          [(''available'', JBool True),
           (''sampled_seconds'', JFloat (f_round 3 (r_elapsed s))),
           (''cpu_seconds'', cpu_seconds_json (u_cpu u)),
           (''memory_byte_seconds'', JFloat (f_round 3 (u_memory u))),
           (''average_memory_bytes'', average_memory),
           (''max_sampled_memory_bytes'', JInt (r_max_memory s)),
           (''network_rx_bytes'', JInt (u_rx u)),
           (''network_tx_bytes'', JInt (u_tx u)),
           (''cpu_throttled_seconds'', JFloat (f_round 6 (u_throttled_seconds u))),
           (''cpu_throttled_periods'', JInt (u_throttled u)),
           (''cpu_periods'', JInt (u_periods u)),
           (''cpu_throttling_ratio'', ratio_json 6 (Fin (of_int (u_throttled u))) (u_periods u)),
           (''disk_io_operations'', JInt (u_disk u)),
           (''disk_io_seconds'', JFloat (f_round 6 (u_disk_seconds u))),
           (''disk_latency_available'', JBool (u_disk_latency u \<noteq> 0)),
           (''average_disk_latency_seconds'', ratio_json 9 (u_disk_weighted u) (u_disk_latency u)),
           (''by_service'', JObj services)]))))"

definition resource_run :: "dict list \<Rightarrow> resource_state result" where
  "resource_run steady =
     rfold sample_step (zip steady (tl steady))
       \<lparr>r_total = no_usage, r_services = [], r_elapsed = Fin 0, r_max_memory = 0\<rparr>"

definition resource_summary :: "dict list \<Rightarrow> bool \<Rightarrow> json result" where
  "resource_summary records allow_single_sample =
     (let steady = filter (in_phase ''steady'') records in
      if length steady < 2
      then if length steady = 1 \<and> allow_single_sample then single_resource_sample_summary (hd steady)
           else Inr (unavailable ''fewer than two steady-state samples'')
      else rbind (resource_run steady) resource_doc)"

end
