(* ===== verification/Rep_Nats.thy ===== *)
theory Rep_Nats
  imports Rep_Resources
begin

text \<open>
  What a report says about the message system, \<open>nats_raft_summary\<close>, \<open>nats_summary\<close> and
  \<open>nats_micro_summary\<close> of \<open>reporting.py\<close>: the replication groups with their leaders and log compactions,
  the backlog of the application's consumers, the streams and servers, and the request/reply endpoints.
\<close>

definition APPLICATION_STREAMS :: "string list" where
  "APPLICATION_STREAMS = [''BOUTIQUE_COMMANDS'', ''BOUTIQUE_EVENTS'']"

definition NATS_CONSUMER_METRICS :: "(string \<times> string) list" where
  "NATS_CONSUMER_METRICS =
    [(''jetstream_consumer_num_pending'', ''consumer_pending''),
     (''jetstream_consumer_num_ack_pending'', ''consumer_ack_pending''),
     (''jetstream_consumer_num_redelivered'', ''consumer_redelivered''),
     (''jetstream_consumer_num_waiting'', ''consumer_waiting''),
     (''jetstream_consumer_ack_floor_consumer_seq'', ''ack_floor_consumer_seq''),
     (''jetstream_consumer_ack_floor_stream_seq'', ''ack_floor_stream_seq''),
     (''jetstream_consumer_delivered_consumer_seq'', ''delivered_consumer_seq''),
     (''jetstream_consumer_delivered_stream_seq'', ''delivered_stream_seq'')]"

definition NATS_STREAM_METRICS :: "(string \<times> string) list" where
  "NATS_STREAM_METRICS =
    [(''jetstream_stream_consumer_count'', ''consumer_count''),
     (''jetstream_stream_first_seq'', ''first_sequence''),
     (''jetstream_stream_last_seq'', ''last_sequence''),
     (''jetstream_stream_subject_count'', ''subject_count''),
     (''jetstream_stream_total_bytes'', ''stored_bytes''),
     (''jetstream_stream_total_messages'', ''stored_messages'')]"

text \<open>The server metrics with the alias of each and whether it is summed over the servers.\<close>

definition NATS_SERVER_METRICS :: "(string \<times> string \<times> bool) list" where
  "NATS_SERVER_METRICS =
    [(''gnatsd_varz_jetstream_stats_storage'', ''storage_bytes'', True),
     (''gnatsd_varz_jetstream_stats_memory'', ''jetstream_memory_bytes'', True),
     (''gnatsd_varz_jetstream_stats_reserved_storage'', ''reserved_storage_bytes'', True),
     (''gnatsd_varz_jetstream_stats_reserved_memory'', ''reserved_memory_bytes'', True),
     (''gnatsd_varz_jetstream_config_max_storage'', ''max_storage_bytes'', True),
     (''gnatsd_varz_jetstream_config_max_memory'', ''max_memory_bytes'', True),
     (''jetstream_account_storage_used'', ''account_storage_used_bytes'', False),
     (''gnatsd_varz_jetstream_stats_ha_assets'', ''ha_assets'', True),
     (''gnatsd_varz_cpu'', ''nats_cpu_percent'', True),
     (''gnatsd_varz_mem'', ''nats_memory_bytes'', True),
     (''gnatsd_varz_in_bytes'', ''in_bytes'', True),
     (''gnatsd_varz_in_msgs'', ''in_messages'', True),
     (''gnatsd_varz_out_bytes'', ''out_bytes'', True),
     (''gnatsd_varz_out_msgs'', ''out_messages'', True),
     (''gnatsd_varz_jetstream_stats_api_errors'', ''jetstream_api_errors'', True),
     (''gnatsd_varz_jetstream_stats_api_total'', ''jetstream_api_requests'', True),
     (''gnatsd_varz_slow_consumers'', ''slow_consumers'', True),
     (''gnatsd_varz_stale_connections'', ''stale_connections'', True),
     (''gnatsd_varz_stalled_clients'', ''stalled_clients'', True),
     (''gnatsd_varz_jetstream_config_sync_interval'', ''sync_interval_nanoseconds'', False),
     (''gnatsd_varz_jetstream_meta_cluster_size'', ''meta_cluster_size'', False),
     (''gnatsd_varz_jetstream_meta_pending'', ''meta_pending'', False),
     (''gnatsd_varz_jetstream_meta_pending_infos'', ''meta_pending_infos'', False),
     (''gnatsd_varz_jetstream_meta_pending_requests'', ''meta_pending_requests'', False),
     (''gnatsd_varz_jetstream_meta_snapshot_last_duration'', ''meta_snapshot_last_duration_nanoseconds'', False),
     (''gnatsd_varz_jetstream_meta_snapshot_pending_entries'', ''meta_snapshot_pending_entries'', False),
     (''gnatsd_varz_jetstream_meta_snapshot_pending_size'', ''meta_snapshot_pending_bytes'', False)]"

definition NATS_MAINTENANCE_ALIASES :: "string list" where
  "NATS_MAINTENANCE_ALIASES =
    [''sync_interval_nanoseconds'', ''meta_cluster_size'', ''meta_pending'', ''meta_pending_infos'',
     ''meta_pending_requests'', ''meta_snapshot_last_duration_nanoseconds'', ''meta_snapshot_pending_entries'',
     ''meta_snapshot_pending_bytes'']"

section \<open>Replication groups\<close>

record raft_point =
  p_elapsed :: pyfloat
  p_kind :: string
  p_stream :: json
  p_leader :: string
  p_term :: int
  p_committed :: int
  p_applied :: int
  p_gap :: int
  p_queue :: int
  p_wal_messages :: int
  p_wal_bytes :: int
  p_wal_first :: int
  p_wal_last :: int
  p_replicas :: nat

text \<open>\<open>max(observations, key=\<dots>)\<close>: the first observation with the largest key.\<close>

fun max_by :: "('a \<times> int) \<Rightarrow> ('a \<times> int) list \<Rightarrow> 'a" where
  "max_by best [] = fst best"
| "max_by best (x # xs) = max_by (if snd best < snd x then x else best) xs"

definition leader_observation :: "dict list \<Rightarrow> int list \<Rightarrow> dict" where
  "leader_observation observations committed =
     (case List.find (\<lambda>d. dict_get d ''state'' JNull = JStr ''LEADER'') observations of
        Some d \<Rightarrow> d
      | None \<Rightarrow> max_by (hd observations, hd committed) (zip (tl observations) (tl committed)))"

definition queue_depth :: "dict \<Rightarrow> int result" where
  "queue_depth d =
     rbind (rmap (\<lambda>k. get_int d k (JInt 0)) [''proposal_queue'', ''entry_queue'', ''response_queue'', ''apply_queue''])
       (\<lambda>xs. Inr (sum_list xs))"

definition raft_point_of :: "pyfloat \<Rightarrow> dict list \<Rightarrow> raft_point result" where
  "raft_point_of elapsed observations =
     rbind (rmap (\<lambda>d. get_int d ''committed'' (JInt 0)) observations) (\<lambda>cs.
     let leader = leader_observation observations cs in
     rbind (int_maximum cs) (\<lambda>committed.
     rbind (rmap (\<lambda>d. get_int d ''applied'' (JInt 0)) observations) (\<lambda>as.
     rbind (int_maximum as) (\<lambda>applied.
     rbind (get_int leader ''term'' (JInt 0)) (\<lambda>trm.
     rbind (int_maximum (map (\<lambda>a. committed - a) as)) (\<lambda>gap.
     rbind (rmap queue_depth observations) (\<lambda>qs.
     rbind (int_maximum qs) (\<lambda>queue.
     rbind (get_int leader ''wal_messages'' (JInt 0)) (\<lambda>messages.
     rbind (get_int leader ''wal_bytes'' (JInt 0)) (\<lambda>bytes.
     rbind (get_int leader ''wal_first_seq'' (JInt 0)) (\<lambda>first_seq.
     rbind (get_int leader ''wal_last_seq'' (JInt 0)) (\<lambda>last_seq.
       Inr \<lparr>p_elapsed = elapsed, p_kind = py_str (dict_get leader ''kind'' (JStr ''other'')),
            p_stream = dict_get leader ''stream_name'' JNull, p_leader = py_str (dict_get leader ''leader'' (JStr [])),
            p_term = trm, p_committed = committed, p_applied = applied, p_gap = gap, p_queue = queue,
            p_wal_messages = messages, p_wal_bytes = bytes, p_wal_first = first_seq, p_wal_last = last_seq,
            p_replicas = length observations\<rparr>))))))))))))"

definition group_observations :: "json list \<Rightarrow> (string \<times> dict list) list" where
  "group_observations observations =
     foldl (\<lambda>groups j. case j of
         JObj d \<Rightarrow>
           let account = py_str (dict_get d ''account'' (JStr ''unknown''));
               group = py_str (dict_get d ''group'' (JStr []))
           in if group = [] then groups else alter [] (\<lambda>xs. xs @ [d]) (account @ ''/'' @ group) groups
       | _ \<Rightarrow> groups) [] observations"

definition raft_record_step ::
  "nat \<times> dict \<Rightarrow> (string \<times> raft_point list) list \<Rightarrow> (string \<times> raft_point list) list result" where
  "raft_record_step ir points_by_group =
     (let (index, r) = ir in
      if \<not> in_phase ''steady'' r then Inr points_by_group
      else
        rbind (get_float r ''elapsed_seconds'' (JInt (int index))) (\<lambda>elapsed.
        rbind (items_of (dict_get r ''nats_raft_groups'' (JList []))) (\<lambda>observations.
          rfold (\<lambda>(key, ds) groups. rbind (raft_point_of elapsed ds) (\<lambda>p.
              Inr (alter [] (\<lambda>ps. ps @ [p]) key groups)))
            (group_observations observations) points_by_group)))"

definition compacted :: "raft_point \<times> raft_point \<Rightarrow> bool" where
  "compacted pc \<longleftrightarrow> (let (previous, current) = pc in
     p_wal_first previous < p_wal_first current \<and> p_leader current = p_leader previous
     \<and> p_term current = p_term previous)"

definition compaction_event :: "raft_point \<times> raft_point \<Rightarrow> dict" where
  "compaction_event pc = (let (previous, current) = pc in
     [(''elapsed_seconds'', JFloat (f_round 3 (p_elapsed current))),
      (''wal_first_sequence_before'', JInt (p_wal_first previous)),
      (''wal_first_sequence_after'', JInt (p_wal_first current)),
      (''wal_messages_before'', JInt (p_wal_messages previous)),
      (''wal_messages_after'', JInt (p_wal_messages current)),
      (''wal_bytes_before'', JInt (p_wal_bytes previous)),
      (''wal_bytes_after'', JInt (p_wal_bytes current))])"

definition compaction_events :: "raft_point list \<Rightarrow> dict list" where
  "compaction_events points = map compaction_event (filter compacted (zip points (tl points)))"

definition stats_of :: "(raft_point \<Rightarrow> int) \<Rightarrow> raft_point list \<Rightarrow> json result" where
  "stats_of f points = metric_stats_int (map (\<lambda>p. (p_elapsed p, f p)) points)"

text \<open>A group's document, its largest gap and its longest queue.\<close>

definition raft_group_doc :: "raft_point list \<Rightarrow> (json \<times> int \<times> int) result" where
  "raft_group_doc points =
     rbind (int_maximum (map p_gap points)) (\<lambda>gap.
     rbind (int_maximum (map p_queue points)) (\<lambda>queue.
     rbind (int_maximum (map (int \<circ> p_replicas) points)) (\<lambda>replicas.
     rbind (stats_of p_term points) (\<lambda>trm.
     rbind (stats_of p_committed points) (\<lambda>committed.
     rbind (stats_of p_applied points) (\<lambda>applied.
     rbind (stats_of p_wal_messages points) (\<lambda>messages.
     rbind (stats_of p_wal_bytes points) (\<lambda>bytes.
     rbind (stats_of p_wal_first points) (\<lambda>first_seq.
     rbind (stats_of p_wal_last points) (\<lambda>last_seq.
       Inr (JObj
         [(''kind'', JStr (p_kind (last points))), (''stream_name'', p_stream (last points)),
          (''samples'', JInt (int (length points))), (''replicas_seen_max'', JInt replicas),
          (''leader'', leader_summary (map (\<lambda>p. (p_elapsed p, p_leader p)) points)),
          (''term'', trm), (''committed'', committed), (''applied'', applied),
          (''max_commit_apply_gap'', JInt gap), (''max_queue_depth'', JInt queue),
          (''wal_messages'', messages), (''wal_bytes'', bytes),
          (''wal_first_sequence'', first_seq), (''wal_last_sequence'', last_seq),
          (''snapshot_or_compaction_events'', JList (map JObj (compaction_events points)))],
        gap, queue)))))))))))"

definition nats_raft_summary :: "dict list \<Rightarrow> json result" where
  "nats_raft_summary records =
     rbind (rfold raft_record_step (zip [0..<length records] records) []) (\<lambda>points_by_group.
     let groups = sorted_items points_by_group in
     rbind (rmap (\<lambda>(key, points). rbind (raft_group_doc points) (\<lambda>d. Inr (key, d))) groups) (\<lambda>docs.
     let events = concat (map (\<lambda>(key, points). map (\<lambda>e. JObj ((''group'', JStr key) # e)) (compaction_events points)) groups);
         kinds = map (\<lambda>(_, points). p_kind (last points)) groups
     in Inr (JObj
       [(''available'', JBool (docs \<noteq> [])),
        (''groups'', JInt (int (length docs))),
        (''stream_groups'', JInt (int (length (filter (\<lambda>k. k = ''stream'') kinds)))),
        (''consumer_groups'', JInt (int (length (filter (\<lambda>k. k = ''consumer'') kinds)))),
        (''snapshot_or_compaction_event_count'', JInt (int (length events))),
        (''snapshot_or_compaction_events'', JList events),
        (''max_commit_apply_gap'', JInt (foldl max 0 (map (\<lambda>(_, _, gap, _). gap) docs))),
        (''max_queue_depth'', JInt (foldl max 0 (map (\<lambda>(_, _, _, queue). queue) docs))),
        (''by_group'', JObj (map (\<lambda>(key, d, _). (key, d)) docs))])))"

section \<open>Request/reply endpoints\<close>

record micro_totals =
  m_requests :: int
  m_errors :: int
  m_nanoseconds :: int

record micro_state =
  ms_instances :: "((string \<times> string \<times> string) \<times> dict list) list"
  ms_pending :: "(string \<times> int list) list"
  ms_subjects :: "(string \<times> string) list"

definition micro_endpoint_step ::
  "json \<Rightarrow> micro_state \<times> (string \<times> int) list \<Rightarrow> (micro_state \<times> (string \<times> int) list) result" where
  "micro_endpoint_step j state =
     (let (s, record_pending) = state in
      rbind (as_dict j) (\<lambda>endpoint.
      let service = py_str (dict_get endpoint ''service_name'' (JStr []));
          instance_id = py_str (dict_get endpoint ''service_id'' (JStr []));
          name = py_str (dict_get endpoint ''endpoint_name'' (JStr []))
      in if service = [] \<or> instance_id = [] \<or> name = [] then Inr (s, record_pending)
         else
           let key = service @ ''/'' @ name;
               s' = s\<lparr>ms_subjects := AList.update key (py_str (dict_get endpoint ''subject'' (JStr []))) (ms_subjects s),
                      ms_instances := alter [] (\<lambda>xs. xs @ [endpoint]) (service, instance_id, name) (ms_instances s)\<rparr>;
               pending = dict_get endpoint ''pending_requests'' JNull
           in if pending = JNull then Inr (s', record_pending)
              else rbind (py_int pending) (\<lambda>n. Inr (s', alter 0 (\<lambda>m. m + max 0 n) key record_pending))))"

definition micro_record_step :: "dict \<Rightarrow> micro_state \<Rightarrow> micro_state result" where
  "micro_record_step r s =
     rbind (items_of (dict_get r ''nats_micro_endpoints'' (JList []))) (\<lambda>endpoints.
     rbind (rfold micro_endpoint_step endpoints (s, [])) (\<lambda>(s', record_pending).
       Inr (s'\<lparr>ms_pending := foldl (\<lambda>p (key, n). alter [] (\<lambda>xs. xs @ [n]) key p) (ms_pending s') record_pending\<rparr>)))"

definition micro_increment :: "dict list \<Rightarrow> string \<Rightarrow> int result" where
  "micro_increment observations field =
     rbind (get_int (last observations) field (JInt 0)) (\<lambda>b.
     rbind (get_int (hd observations) field (JInt 0)) (\<lambda>a. Inr (max 0 (b - a))))"

definition micro_instance_step ::
  "(string \<times> string \<times> string) \<times> dict list \<Rightarrow> (string \<times> micro_totals) list \<Rightarrow> (string \<times> micro_totals) list result" where
  "micro_instance_step entry totals =
     (let ((service, _, name), observations) = entry in
      rbind (micro_increment observations ''num_requests'') (\<lambda>requests.
      rbind (micro_increment observations ''num_errors'') (\<lambda>errors.
      rbind (micro_increment observations ''processing_time_nanoseconds'') (\<lambda>ns.
        Inr (alter \<lparr>m_requests = 0, m_errors = 0, m_nanoseconds = 0\<rparr>
          (\<lambda>t. t\<lparr>m_requests := m_requests t + requests, m_errors := m_errors t + errors,
                 m_nanoseconds := m_nanoseconds t + ns\<rparr>) (service @ ''/'' @ name) totals)))))"

definition micro_doc :: "micro_state \<Rightarrow> string \<times> micro_totals \<Rightarrow> string \<times> json" where
  "micro_doc s entry =
     (let (key, t) = entry; pending = lookup [] (ms_pending s) key;
          processing_seconds = of_int (m_nanoseconds t) / 1000000000
      in (key, JObj
        [(''subject'', JStr (lookup [] (ms_subjects s) key)),
         (''requests'', JInt (m_requests t)), (''errors'', JInt (m_errors t)),
         (''processing_seconds'', JFloat (Fin (round_to 9 processing_seconds))),
         (''average_processing_seconds'', if m_requests t = 0 then JNull
            else JFloat (Fin (round_to 9 (processing_seconds / of_int (m_requests t))))),
         (''max_pending_requests'', case pending of [] \<Rightarrow> JNull | x # xs \<Rightarrow> JInt (foldl max x xs)),
         (''last_pending_requests'', if pending = [] then JNull else JInt (last pending))]))"

definition nats_micro_summary :: "dict list \<Rightarrow> json result" where
  "nats_micro_summary records =
     rbind (rfold micro_record_step records \<lparr>ms_instances = [], ms_pending = [], ms_subjects = []\<rparr>) (\<lambda>s.
     rbind (rfold micro_instance_step (ms_instances s) []) (\<lambda>totals.
       if totals = [] then Inr (unavailable ''no NATS micro endpoint samples'')
       else Inr (JObj [(''available'', JBool True),
                       (''by_endpoint'', JObj (map (micro_doc s) (sorted_items totals)))])))"

end
