(* ===== verification/Rep_Nats_Summary.thy ===== *)
theory Rep_Nats_Summary
  imports Rep_Nats
begin

text \<open>
  \<open>nats_summary\<close> of \<open>reporting.py\<close>: the metrics of every sample are reduced to one value per consumer,
  stream or server gauge, collected into series over the run, and summarised.
\<close>

type_synonym points = "(pyfloat \<times> pyfloat) list"

section \<open>One sample\<close>

record sample_metrics =
  k_consumers :: "(string \<times> (string \<times> pyfloat) list) list"
  k_streams :: "(string \<times> (string \<times> pyfloat) list) list"
  k_leaders :: "(string \<times> string) list"
  k_servers :: "(string \<times> pyfloat list) list"
  k_meta :: "string list"

text \<open>\<open>d[key][alias] = max(value, d[key].get(alias, 0.0))\<close>.\<close>

definition keep_max :: "string \<Rightarrow> string \<Rightarrow> pyfloat \<Rightarrow> (string \<times> (string \<times> pyfloat) list) list
    \<Rightarrow> (string \<times> (string \<times> pyfloat) list) list" where
  "keep_max key alias value d = alter [] (\<lambda>m. alter (Fin 0) (\<lambda>old. f_max value old) alias m) key d"

definition label_of :: "json \<Rightarrow> string \<Rightarrow> string \<Rightarrow> json result" where
  "label_of labels a b = rbind (jget labels a JNull) (\<lambda>x. if truthy x then Inr x else jget labels b JNull)"

definition metric_step :: "json \<Rightarrow> sample_metrics \<Rightarrow> sample_metrics result" where
  "metric_step j s =
     rbind (as_dict j) (\<lambda>metric.
     let metric_name = py_str (dict_get metric ''name'' (JStr [])) in
     rbind (get_float metric ''value'' (JInt 0)) (\<lambda>value.
     let labels = dict_get metric ''labels'' (JObj []) in
     rbind (label_of labels ''consumer_name'' ''consumer'') (\<lambda>consumer.
     rbind (label_of labels ''stream_name'' ''stream'') (\<lambda>stream.
     case map_of NATS_CONSUMER_METRICS metric_name of
       Some alias \<Rightarrow>
         rbind (in_strings stream APPLICATION_STREAMS) (\<lambda>known.
           if \<not> known \<or> \<not> truthy consumer then Inr s
           else Inr (s\<lparr>k_consumers := keep_max (py_str stream @ ''/'' @ py_str consumer) alias value (k_consumers s)\<rparr>))
     | None \<Rightarrow>
       (case map_of NATS_STREAM_METRICS metric_name of
          Some alias \<Rightarrow>
            rbind (in_strings stream APPLICATION_STREAMS) (\<lambda>known.
              if \<not> known then Inr s
              else rbind (jget labels ''stream_leader'' JNull) (\<lambda>leader.
                Inr (s\<lparr>k_streams := keep_max (py_str stream) alias value (k_streams s),
                       k_leaders := (if truthy leader
                          then AList.update (py_str stream) (py_str leader) (k_leaders s) else k_leaders s)\<rparr>)))
        | None \<Rightarrow>
          (case map_of NATS_SERVER_METRICS metric_name of
             Some (alias, _) \<Rightarrow> Inr (s\<lparr>k_servers := alter [] (\<lambda>xs. xs @ [value]) alias (k_servers s)\<rparr>)
           | None \<Rightarrow>
             if metric_name = ''gnatsd_varz_jetstream_meta_leader'' \<and> f_lt (Fin 0) value
             then rbind (label_of labels ''value'' ''leader'') (\<lambda>leader.
               Inr (if truthy leader then s\<lparr>k_meta := k_meta s @ [py_str leader]\<rparr> else s))
             else Inr s))))))"

definition sample_metrics_of :: "dict \<Rightarrow> sample_metrics result" where
  "sample_metrics_of r =
     rbind (items_of (dict_get r ''nats_metrics'' (JList []))) (\<lambda>metrics.
       rfold metric_step metrics \<lparr>k_consumers = [], k_streams = [], k_leaders = [], k_servers = [], k_meta = []\<rparr>)"

section \<open>Series over the run\<close>

record nats_state =
  n_series :: "(string \<times> points) list"
  n_pending :: "(int \<times> pyfloat) list"
  n_consumers :: "(string \<times> (string \<times> points) list) list"
  n_streams :: "(string \<times> (string \<times> points) list) list"
  n_stream_leaders :: "(string \<times> (pyfloat \<times> string) list) list"
  n_meta_leaders :: "(pyfloat \<times> string) list"

definition append_at :: "'k \<Rightarrow> 'v \<Rightarrow> ('k \<times> 'v list) list \<Rightarrow> ('k \<times> 'v list) list" where
  "append_at k v d = alter [] (\<lambda>xs. xs @ [v]) k d"

definition append_nested :: "pyfloat \<Rightarrow> (string \<times> (string \<times> pyfloat) list) list
    \<Rightarrow> (string \<times> (string \<times> points) list) list \<Rightarrow> (string \<times> (string \<times> points) list) list" where
  "append_nested elapsed values d =
     foldl (\<lambda>d (key, metrics). alter [] (\<lambda>m. foldl (\<lambda>m (alias, v). append_at alias (elapsed, v) m) m metrics) key d) d values"

definition consumer_totals :: "(string \<times> (string \<times> pyfloat) list) list \<Rightarrow> (string \<times> pyfloat) list" where
  "consumer_totals values =
     foldl (\<lambda>t (alias, v). alter (Fin 0) (\<lambda>old. f_add old v) alias t) [] (concat (map snd values))"

definition summed :: "string \<Rightarrow> bool" where
  "summed alias = (case List.find (\<lambda>(_, candidate, _). candidate = alias) NATS_SERVER_METRICS of
      Some (_, _, b) \<Rightarrow> b | None \<Rightarrow> False)"

definition server_value :: "string \<Rightarrow> pyfloat list \<Rightarrow> pyfloat result" where
  "server_value alias values = (if summed alias then Inr (f_sum values) else f_maximum values)"

definition total_step :: "pyfloat \<Rightarrow> string \<times> pyfloat \<Rightarrow> nats_state \<Rightarrow> nats_state result" where
  "total_step elapsed entry s =
     (let (alias, value) = entry; s1 = s\<lparr>n_series := append_at alias (elapsed, value) (n_series s)\<rparr> in
      if alias = ''consumer_pending''
      then rbind (f_floor elapsed) (\<lambda>second. Inr (s1\<lparr>n_pending := AList.update (max 0 second) value (n_pending s1)\<rparr>))
      else Inr s1)"

definition server_step :: "pyfloat \<Rightarrow> string \<times> pyfloat list \<Rightarrow> nats_state \<Rightarrow> nats_state result" where
  "server_step elapsed entry s =
     (let (alias, values) = entry in
      rbind (server_value alias values) (\<lambda>v. Inr (s\<lparr>n_series := append_at alias (elapsed, v) (n_series s)\<rparr>)))"

definition nats_record_step :: "nat \<times> dict \<Rightarrow> nats_state \<Rightarrow> nats_state result" where
  "nats_record_step ir s =
     (let (index, r) = ir in
      rbind (get_float r ''elapsed_seconds'' (JInt (int index))) (\<lambda>elapsed.
      rbind (sample_metrics_of r) (\<lambda>k.
      rbind (rfold (total_step elapsed) (consumer_totals (k_consumers k))
          (s\<lparr>n_meta_leaders := n_meta_leaders s @ map (Pair elapsed) (k_meta k),
             n_consumers := append_nested elapsed (k_consumers k) (n_consumers s)\<rparr>)) (\<lambda>s1.
        rfold (server_step elapsed) (k_servers k)
          (s1\<lparr>n_streams := append_nested elapsed (k_streams k) (n_streams s1),
              n_stream_leaders := foldl (\<lambda>d (stream, leader). append_at stream (elapsed, leader) d)
                 (n_stream_leaders s1) (k_leaders k)\<rparr>)))))"

definition nats_run :: "dict list \<Rightarrow> nats_state result" where
  "nats_run steady =
     rfold nats_record_step (zip [0..<length steady] steady)
       \<lparr>n_series = [], n_pending = [], n_consumers = [], n_streams = [], n_stream_leaders = [], n_meta_leaders = []\<rparr>"

section \<open>The summary\<close>

text \<open>The backlog of every second between the first and the last sample, the last known one repeated.\<close>

fun carry_forward :: "(int \<times> pyfloat) list \<Rightarrow> pyfloat option \<Rightarrow> int list \<Rightarrow> (int \<times> pyfloat) list" where
  "carry_forward known latest [] = []"
| "carry_forward known latest (second # seconds) =
     (let latest = (case map_of known second of None \<Rightarrow> latest | Some v \<Rightarrow> Some v) in
      (case latest of None \<Rightarrow> [] | Some v \<Rightarrow> [(second, v)]) @ carry_forward known latest seconds)"

definition pending_series :: "(int \<times> pyfloat) list \<Rightarrow> (int \<times> pyfloat) list" where
  "pending_series known = (case map fst known of
      [] \<Rightarrow> []
    | s # ss \<Rightarrow> carry_forward known None [foldl min s ss..foldl max s ss])"

definition stats_docs :: "(string \<times> points) list \<Rightarrow> dict result" where
  "stats_docs metrics =
     rmap (\<lambda>(alias, values). rbind (metric_stats values) (\<lambda>d. Inr (alias, d))) (sorted_items metrics)"

definition with_series :: "(int \<times> pyfloat) list \<Rightarrow> string \<times> json \<Rightarrow> string \<times> json" where
  "with_series known entry =
     (case entry of
        (alias, JObj d) \<Rightarrow>
          if alias = ''consumer_pending'' \<and> known \<noteq> []
          then (alias, JObj (dict_set ''series'' (JList (map (\<lambda>(second, v). JObj
                 [(''elapsed_seconds'', JInt second), (''waiting_events'', JFloat v)]) (pending_series known))) d))
          else entry
      | _ \<Rightarrow> entry)"

definition reported_alias :: "string \<Rightarrow> bool" where
  "reported_alias alias \<longleftrightarrow> alias \<in> set (map snd NATS_CONSUMER_METRICS) \<or> alias = ''storage_bytes''"

definition collection_doc :: "dict list \<Rightarrow> json result" where
  "collection_doc health =
     rbind (source_collection_summary health ''nats'') (\<lambda>exporter.
     rbind (source_collection_summary health ''nats_raft'') (\<lambda>raft.
       Inr (JObj [(''exporter'', exporter), (''raft'', raft)])))"

definition nats_doc :: "dict list \<Rightarrow> dict list \<Rightarrow> json \<Rightarrow> nats_state \<Rightarrow> json result" where
  "nats_doc steady health raft s =
     rbind (collection_doc health) (\<lambda>collection.
     rbind (rbind (stats_docs (n_series s)) (\<lambda>ds. Inr (map (with_series (n_pending s)) ds))) (\<lambda>series.
     rbind (rmap (\<lambda>(stream, metrics). rbind (stats_docs metrics) (\<lambda>d.
        Inr (stream, JObj (dict_set ''leader'' (leader_summary (lookup [] (n_stream_leaders s) stream)) d))))
        (sorted_items (n_streams s))) (\<lambda>streams.
     rbind (rmap (\<lambda>(consumer, metrics). rbind (stats_docs metrics) (\<lambda>d. Inr (consumer, JObj d)))
        (sorted_items (n_consumers s))) (\<lambda>by_consumer.
     rbind (nats_micro_summary steady) (\<lambda>micro.
     rbind (jget raft ''available'' JNull) (\<lambda>raft_available.
       Inr (JObj
         ([(''available'', JBool (n_series s \<noteq> [] \<or> n_streams s \<noteq> [] \<or> truthy raft_available)),
           (''collection'', collection), (''raft'', raft)]
          @ filter (reported_alias \<circ> fst) series
          @ [(''maintenance'', JObj (filter (\<lambda>(alias, _). \<not> reported_alias alias \<and> alias \<in> set NATS_MAINTENANCE_ALIASES) series
                @ [(''meta_leader'', leader_summary (n_meta_leaders s))])),
             (''server'', JObj (filter (\<lambda>(alias, _). \<not> reported_alias alias \<and> alias \<notin> set NATS_MAINTENANCE_ALIASES) series)),
             (''streams'', JObj streams), (''by_consumer'', JObj by_consumer),
             (''micro_endpoints'', micro)]))))))))"

text \<open>\<open>raft_records\<close> and \<open>health_records\<close> default to \<open>records\<close>.\<close>

definition nats_summary :: "dict list \<Rightarrow> dict list option \<Rightarrow> dict list option \<Rightarrow> json result" where
  "nats_summary records raft_records health_records =
     (let steady = filter (in_phase ''steady'') records;
          raft_steady = filter (in_phase ''steady'') (case raft_records of None \<Rightarrow> records | Some rs \<Rightarrow> rs);
          health = (case health_records of None \<Rightarrow> records | Some rs \<Rightarrow> rs)
      in if steady = [] \<and> raft_steady = []
         then rbind (collection_doc health) (\<lambda>collection.
           Inr (JObj [(''available'', JBool False), (''reason'', JStr ''no steady-state samples''),
                      (''collection'', collection)]))
         else
           rbind (nats_run steady) (\<lambda>s.
           rbind (nats_raft_summary raft_steady) (\<lambda>raft.
             nats_doc steady health raft s)))"

end
