(* ===== verification/Rep_Fault.thy ===== *)
theory Rep_Fault
  imports Rep_Nats_Summary
begin

text \<open>
  The fault-tolerance report, \<open>fault_tolerance_summary\<close> of \<open>reporting.py\<close> with its helpers: per second of
  the run the requests expected from the arrival schedule, those submitted, processed and lost, the
  backlog of the message system, and for every injected fault when the system has converged again.
\<close>

section \<open>Expected requests\<close>

text \<open>The arrivals of one worker in the interval from \<open>start\<close> to \<open>stop\<close>.\<close>

definition worker_arrivals :: "pyfloat \<Rightarrow> rat \<Rightarrow> rat \<Rightarrow> int result" where
  "worker_arrivals per_second start stop =
     rbind (f_ceil (f_sub (f_scale stop per_second) (Fin (1 / 1000000000)))) (\<lambda>b.
     rbind (f_ceil (f_sub (f_scale start per_second) (Fin (1 / 1000000000)))) (\<lambda>a.
       Inr (max 0 (b - a))))"

definition fault_expected_requests :: "benchmark_config \<Rightarrow> int \<Rightarrow> int result" where
  "fault_expected_requests c second =
     (let start = min (of_int second) (of_int (submission_seconds c));
          stop = min (of_int (second + 1)) (of_int (submission_seconds c)) :: rat
      in if stop \<le> start then Inr 0
         else
           rbind (worker_count c) (\<lambda>workers.
           rbind (rmap (\<lambda>index. rbind (for_worker c index) (\<lambda>w. worker_arrivals (arrival_rate w) start stop))
              [0..workers - 1]) (\<lambda>xs. Inr (sum_list xs))))"

section \<open>Backlog of a sample\<close>

definition FAULT_ALIASES :: "(string \<times> string) list" where
  "FAULT_ALIASES =
    [(''jetstream_consumer_num_pending'', ''waiting_events''),
     (''jetstream_consumer_num_ack_pending'', ''ack_pending_events''),
     (''jetstream_consumer_num_redelivered'', ''redelivered_events'')]"

definition fault_metric_step ::
  "json \<Rightarrow> (string \<times> (string \<times> pyfloat) list) list \<Rightarrow> (string \<times> (string \<times> pyfloat) list) list result" where
  "fault_metric_step j consumers =
     rbind (as_dict j) (\<lambda>metric.
     case map_of FAULT_ALIASES (py_str (dict_get metric ''name'' (JStr []))) of
       None \<Rightarrow> Inr consumers
     | Some alias \<Rightarrow>
         let labels = dict_get metric ''labels'' (JObj []) in
         rbind (label_of labels ''stream_name'' ''stream'') (\<lambda>stream.
         rbind (label_of labels ''consumer_name'' ''consumer'') (\<lambda>consumer.
         if \<not> truthy consumer then Inr consumers
         else rbind (in_strings stream APPLICATION_STREAMS) (\<lambda>known.
           if \<not> known then Inr consumers
           else rbind (get_float metric ''value'' (JInt 0)) (\<lambda>value.
             Inr (keep_max (py_str stream @ ''/'' @ py_str consumer) alias value consumers))))))"

definition fault_nats_totals :: "dict \<Rightarrow> (string \<times> pyfloat) list option result" where
  "fault_nats_totals r =
     rbind (items_of (dict_get r ''nats_metrics'' (JList []))) (\<lambda>metrics.
     rbind (rfold fault_metric_step metrics []) (\<lambda>consumers.
       Inr (if consumers = [] then None
            else Some (map (\<lambda>(_, alias). (alias, f_sum (map (\<lambda>(_, values). lookup (Fin 0) values alias) consumers)))
              FAULT_ALIASES))))"

section \<open>Faults\<close>

fun fault_phase_loop :: "pyfloat \<Rightarrow> string \<Rightarrow> dict list \<Rightarrow> string result" where
  "fault_phase_loop elapsed phase [] = Inr phase"
| "fault_phase_loop elapsed phase (fault # spans) =
     rbind (item_float fault ''scale_down_started_at_elapsed_seconds'') (\<lambda>disabled.
     let reenabled = dict_get fault ''scale_up_started_at_elapsed_seconds'' JNull in
     if f_lt elapsed disabled then Inr phase
     else rbind (dict_item fault ''service'') (\<lambda>service.
       if reenabled = JNull then Inr (py_str service @ ''_disabled'')
       else rbind (py_float reenabled) (\<lambda>up.
         if f_lt elapsed up then Inr (py_str service @ ''_disabled'')
         else fault_phase_loop elapsed (py_str service @ ''_recovery'') spans)))"

definition fault_phase :: "pyfloat \<Rightarrow> dict list \<Rightarrow> int \<Rightarrow> string result" where
  "fault_phase elapsed spans duration =
     (if f_le (Fin (of_int duration)) elapsed then Inr ''drain'' else fault_phase_loop elapsed ''baseline'' spans)"

definition first_action :: "string \<Rightarrow> dict list \<Rightarrow> dict option" where
  "first_action action events = List.find (\<lambda>r. dict_get r ''action'' JNull = JStr action) events"

definition event_at :: "dict option \<Rightarrow> json" where
  "event_at e = (case e of None \<Rightarrow> JNull | Some d \<Rightarrow> if d = [] then JNull else dict_get d ''at'' JNull)"

definition event_elapsed :: "dict option \<Rightarrow> json result" where
  "event_elapsed e = (case e of
      None \<Rightarrow> Inr JNull
    | Some d \<Rightarrow> if d = [] then Inr JNull
               else rbind (get_float d ''elapsed_seconds'' (JInt 0)) (\<lambda>f. Inr (JFloat f)))"

definition fault_span :: "dict list \<Rightarrow> dict \<Rightarrow> dict option result" where
  "fault_span fault_records planned =
     (let service = py_str (dict_get planned ''service'' (JStr ''unknown''));
          events = filter (\<lambda>r. dict_get r ''service'' JNull = JStr service) fault_records;
          up = first_action ''scale_up_started'' events;
          disabled = first_action ''disabled'' events;
          reenabled = first_action ''reenabled'' events
      in case first_action ''scale_down_started'' events of
           None \<Rightarrow> Inr None
         | Some down \<Rightarrow>
             rbind (get_float down ''elapsed_seconds'' (JInt 0)) (\<lambda>down_elapsed.
             rbind (event_elapsed disabled) (\<lambda>disabled_elapsed.
             rbind (event_elapsed up) (\<lambda>up_elapsed.
             rbind (event_elapsed reenabled) (\<lambda>reenabled_elapsed.
               Inr (Some
                 [(''service'', JStr service),
                  (''deployment'', dict_get planned ''deployment'' JNull),
                  (''original_replicas'', dict_get planned ''original_replicas'' JNull),
                  (''scale_down_started_at'', dict_get down ''at'' JNull),
                  (''scale_down_started_at_elapsed_seconds'', JFloat down_elapsed),
                  (''disabled_at'', event_at disabled),
                  (''disabled_at_elapsed_seconds'', disabled_elapsed),
                  (''scale_up_started_at'', event_at up),
                  (''scale_up_started_at_elapsed_seconds'', up_elapsed),
                  (''reenabled_at'', event_at reenabled),
                  (''reenabled_at_elapsed_seconds'', reenabled_elapsed),
                  (''disabled_duration_seconds'', case up_elapsed of
                     JFloat u \<Rightarrow> JFloat (f_round 6 (f_sub u down_elapsed)) | _ \<Rightarrow> JNull)]))))))"

text \<open>\<open>sorted(xs, key=\<dots>)\<close> with a float key: stable.\<close>

fun insort_by :: "('a \<Rightarrow> pyfloat) \<Rightarrow> 'a \<Rightarrow> 'a list \<Rightarrow> 'a list" where
  "insort_by key x [] = [x]"
| "insort_by key x (y # ys) = (if f_lt (key x) (key y) then x # y # ys else y # insort_by key x ys)"

definition sort_by :: "('a \<Rightarrow> pyfloat) \<Rightarrow> 'a list \<Rightarrow> 'a list" where
  "sort_by key xs = foldl (\<lambda>ys x. insort_by key x ys) [] xs"

definition span_start :: "dict \<Rightarrow> pyfloat" where
  "span_start fault = (case dict_get fault ''scale_down_started_at_elapsed_seconds'' JNull of JFloat f \<Rightarrow> f | _ \<Rightarrow> NaN)"

definition fault_spans :: "dict list \<Rightarrow> dict \<Rightarrow> dict list result" where
  "fault_spans fault_records plan =
     (case dict_get plan ''faults'' (JList []) of
        JList faults \<Rightarrow>
          rbind (rmap (\<lambda>j. case j of JObj planned \<Rightarrow> fault_span fault_records planned | _ \<Rightarrow> Inr None) faults) (\<lambda>spans.
            Inr (sort_by span_start (List.map_filter id spans)))
      | _ \<Rightarrow> Inr [])"

section \<open>Points\<close>

record backlog =
  b_waiting :: pyfloat
  b_ack_pending :: pyfloat
  b_redelivered :: pyfloat
  b_age :: int

record fault_point =
  f_second :: int
  f_phase :: string
  f_expected :: int
  f_submitted :: int
  f_accepted :: int
  f_successful :: int
  f_failed :: int
  f_lost :: int
  f_processed :: int
  f_failures :: int
  f_completion :: json
  f_failure :: json
  f_backlog :: "backlog option"
  f_outstanding :: int

definition EMPTY_LATENCY :: json where
  "EMPTY_LATENCY = JObj [(''count'', JInt 0), (''p50_ms'', JNull), (''p95_ms'', JNull), (''p99_ms'', JNull), (''max_ms'', JNull)]"

definition initial_point :: "benchmark_config \<Rightarrow> dict list \<Rightarrow> int \<Rightarrow> fault_point result" where
  "initial_point c spans second =
     rbind (fault_phase (Fin (of_int second)) spans (duration_seconds c)) (\<lambda>phase.
     rbind (fault_expected_requests c second) (\<lambda>expected.
       Inr \<lparr>f_second = second, f_phase = phase, f_expected = expected, f_submitted = 0, f_accepted = 0,
            f_successful = 0, f_failed = 0, f_lost = 0, f_processed = 0, f_failures = 0,
            f_completion = EMPTY_LATENCY, f_failure = EMPTY_LATENCY, f_backlog = None, f_outstanding = 0\<rparr>))"

definition fault_point_doc :: "fault_point \<Rightarrow> json" where
  "fault_point_doc p = JObj
     [(''elapsed_seconds'', JInt (f_second p)), (''phase'', JStr (f_phase p)),
      (''expected_requests'', JInt (f_expected p)), (''submitted_requests'', JInt (f_submitted p)),
      (''accepted_requests'', JInt (f_accepted p)), (''successful_requests'', JInt (f_successful p)),
      (''failed_requests'', JInt (f_failed p)), (''lost_requests'', JInt (f_lost p)),
      (''successfully_processed'', JInt (f_processed p)), (''failures_observed'', JInt (f_failures p)),
      (''completion_latency_ms'', f_completion p), (''failure_latency_ms'', f_failure p),
      (''nats_waiting_events'', jfloat_opt (map_option b_waiting (f_backlog p))),
      (''nats_ack_pending_events'', jfloat_opt (map_option b_ack_pending (f_backlog p))),
      (''nats_redelivered_events'', jfloat_opt (map_option b_redelivered (f_backlog p))),
      (''nats_metrics_sample_age_seconds'', jint_opt (map_option b_age (f_backlog p))),
      (''outstanding_orders'', JInt (f_outstanding p))]"

text \<open>One order: counted in the second it was scheduled, and its outcome in the second it was seen.\<close>

record outcome_state =
  os_points :: "fault_point list"
  os_completions :: "(int \<times> dict list) list"
  os_failures :: "(int \<times> dict list) list"

definition update_second :: "int \<Rightarrow> ('p \<Rightarrow> 'p) \<Rightarrow> 'p list \<Rightarrow> 'p list" where
  "update_second second f points =
     (if 0 \<le> second \<and> second < int (length points)
      then points[nat second := f (points ! nat second)] else points)"

definition number_or :: "json \<Rightarrow> pyfloat result \<Rightarrow> pyfloat result" where
  "number_or v other = (if is_number v then py_float v else other)"

definition count_order :: "bool \<Rightarrow> bool \<Rightarrow> fault_point \<Rightarrow> fault_point" where
  "count_order accepted completed p = p\<lparr>f_submitted := f_submitted p + 1,
     f_accepted := f_accepted p + (if accepted then 1 else 0),
     f_successful := f_successful p + (if completed then 1 else 0),
     f_failed := f_failed p + (if completed then 0 else 1)\<rparr>"

definition count_seen :: "bool \<Rightarrow> fault_point \<Rightarrow> fault_point" where
  "count_seen completed p =
     (if completed then p\<lparr>f_processed := f_processed p + 1\<rparr> else p\<lparr>f_failures := f_failures p + 1\<rparr>)"

definition outcome_step :: "pyfloat \<Rightarrow> dict \<Rightarrow> outcome_state \<Rightarrow> outcome_state result" where
  "outcome_step start_epoch r s =
     rbind (as_dict (dict_get r ''context'' (JObj []))) (\<lambda>context.
     rbind (number_or (dict_get context ''scheduled_at'' JNull)
        (get_float r ''timestamp'' (JFloat start_epoch))) (\<lambda>scheduled_at.
     rbind (f_floor (f_sub scheduled_at start_epoch)) (\<lambda>scheduled.
     let completed = (py_str (dict_get context ''outcome'' (JStr ''UNKNOWN'')) = ''COMPLETED'');
         accepted = truthy (dict_get context ''accepted'' JNull);
         points = update_second scheduled (count_order accepted completed) (os_points s)
     in
     rbind (number_or (dict_get r ''recorded_at'' JNull)
        (rbind (get_float r ''timestamp'' (JFloat start_epoch)) (\<lambda>t.
         rbind (get_float r ''response_time_ms'' (JInt 0)) (\<lambda>ms. Inr (f_add t (f_scale (1 / 1000) ms)))))) (\<lambda>recorded_at.
     rbind (f_floor (f_sub recorded_at start_epoch)) (\<lambda>observed.
       let inside = (0 \<le> observed \<and> observed < int (length points)) in
       Inr \<lparr>os_points = update_second observed (count_seen completed) points,
            os_completions = (if inside \<and> completed then append_at observed r (os_completions s) else os_completions s),
            os_failures = (if inside \<and> \<not> completed then append_at observed r (os_failures s) else os_failures s)\<rparr>)))))"

definition close_point :: "outcome_state \<Rightarrow> int \<times> fault_point \<Rightarrow> fault_point result" where
  "close_point s entry =
     (let (second, p) = entry in
      rbind (latency_summary (lookup [] (os_completions s) second)) (\<lambda>completion.
      rbind (recorded_latency_summary (lookup [] (os_failures s) second) False) (\<lambda>failure.
        Inr (p\<lparr>f_lost := max 0 (f_expected p - f_submitted p), f_completion := completion, f_failure := failure\<rparr>))))"

section \<open>Carrying samples forward\<close>

definition backlog_step ::
  "nat \<Rightarrow> dict \<Rightarrow> (int \<times> (string \<times> pyfloat) list) list \<Rightarrow> (int \<times> (string \<times> pyfloat) list) list result" where
  "backlog_step n r known =
     rbind (second_of r (JInt (- 1))) (\<lambda>second.
     rbind (fault_nats_totals r) (\<lambda>totals.
       Inr (case totals of
          Some t \<Rightarrow> if 0 \<le> second \<and> second < int n then AList.update second t known else known
        | None \<Rightarrow> known)))"

fun carry_backlog :: "(int \<times> (string \<times> pyfloat) list) list \<Rightarrow> ((string \<times> pyfloat) list \<times> int) option
    \<Rightarrow> (int \<times> fault_point) list \<Rightarrow> fault_point list" where
  "carry_backlog known latest [] = []"
| "carry_backlog known latest ((second, p) # ps) =
     (let latest = (case map_of known second of None \<Rightarrow> latest | Some t \<Rightarrow> Some (t, second)) in
      (case latest of
         None \<Rightarrow> p
       | Some (t, at_second) \<Rightarrow> p\<lparr>f_backlog := Some
           \<lparr>b_waiting = lookup (Fin 0) t ''waiting_events'', b_ack_pending = lookup (Fin 0) t ''ack_pending_events'',
            b_redelivered = lookup (Fin 0) t ''redelivered_events'', b_age = second - at_second\<rparr>\<rparr>)
      # carry_backlog known latest ps)"

definition orders_step :: "nat \<Rightarrow> dict \<Rightarrow> (int \<times> int) list \<Rightarrow> (int \<times> int) list result" where
  "orders_step n r known =
     rbind (second_of r (JInt (- 1))) (\<lambda>second.
       if 0 \<le> second \<and> second < int n
       then rbind (get_int r ''outstanding'' (JInt 0)) (\<lambda>v. Inr (AList.update second v known))
       else Inr known)"

fun carry_orders :: "(int \<times> int) list \<Rightarrow> int \<Rightarrow> (int \<times> fault_point) list \<Rightarrow> fault_point list" where
  "carry_orders known latest [] = []"
| "carry_orders known latest ((second, p) # ps) =
     (let latest = lookup latest known second in p\<lparr>f_outstanding := latest\<rparr> # carry_orders known latest ps)"

end
