(* ===== verification/Rep_Convergence.thy ===== *)
theory Rep_Convergence
  imports Rep_Fault
begin

text \<open>
  \<open>_fault_convergence\<close> and the assembly of \<open>fault_tolerance_summary\<close> in \<open>reporting.py\<close>: a fault has
  converged at the first second from which, for a stable window, throughput is back at a fraction of
  the rate before the fault, nothing is lost, and the backlog is back at its level before the fault.
\<close>

section \<open>Recovery of one fault\<close>

record criteria =
  cr_stable :: int
  cr_fraction :: pyfloat
  cr_tolerance :: pyfloat

definition criteria_of :: "dict \<Rightarrow> criteria result" where
  "criteria_of plan =
     rbind (get_int plan ''convergence_stable_seconds'' (JInt 3)) (\<lambda>width.
     rbind (get_float plan ''convergence_success_fraction'' (JFloat (Fin (9 / 10)))) (\<lambda>fraction.
     rbind (get_float plan ''convergence_pending_tolerance'' (JInt 0)) (\<lambda>tolerance.
       Inr \<lparr>cr_stable = width, cr_fraction = fraction, cr_tolerance = tolerance\<rparr>)))"

definition fresh_backlog :: "fault_point \<Rightarrow> pyfloat option" where
  "fresh_backlog p = (case f_backlog p of None \<Rightarrow> None | Some b \<Rightarrow> if b_age b \<le> 2 then Some (b_waiting b) else None)"

definition baseline_points :: "pyfloat \<Rightarrow> fault_point list \<Rightarrow> fault_point list" where
  "baseline_points down points =
     filter (\<lambda>p. f_le (f_max (Fin 0) (f_sub down (Fin 10))) (Fin (of_int (f_second p))) \<and>
                 f_lt (Fin (of_int (f_second p))) down) points"

text \<open>The window of points from \<open>candidate\<close> on meets the criteria.\<close>

definition window_of :: "fault_point list \<Rightarrow> int \<Rightarrow> int \<Rightarrow> fault_point list" where
  "window_of points candidate width = take (nat width) (drop (nat candidate) points)"

definition window_stable ::
  "bool \<Rightarrow> criteria \<Rightarrow> pyfloat \<Rightarrow> pyfloat option \<Rightarrow> fault_point list \<Rightarrow> bool" where
  "window_stable nats cr threshold baseline_pending window \<longleftrightarrow>
     (let expected = sum_list (map f_expected window); successful = sum_list (map f_processed window) in
      int (length window) = cr_stable cr \<and>
      0 < expected \<and> \<not> f_lt (Fin (of_int successful / of_int expected)) threshold \<and>
      sum_list (map f_lost window) = 0 \<and>
      (nats \<longrightarrow> list_all (\<lambda>p. case fresh_backlog p of
           None \<Rightarrow> False
         | Some v \<Rightarrow> (case baseline_pending of None \<Rightarrow> False
              | Some base \<Rightarrow> \<not> f_lt (f_add base (cr_tolerance cr)) v)) window))"

definition first_stable ::
  "bool \<Rightarrow> criteria \<Rightarrow> pyfloat \<Rightarrow> pyfloat option \<Rightarrow> fault_point list \<Rightarrow> int list \<Rightarrow> int option" where
  "first_stable nats cr threshold baseline_pending points candidates =
     List.find (\<lambda>c. window_stable nats cr threshold baseline_pending (window_of points c (cr_stable cr))) candidates"

definition not_converged :: "dict \<Rightarrow> string \<Rightarrow> json" where
  "not_converged fault reason = JObj (dict_update fault
     [(''converged'', JBool False), (''convergence_seconds'', JNull), (''reason'', JStr reason)])"

definition converged_doc ::
  "dict \<Rightarrow> criteria \<Rightarrow> fault_point list \<Rightarrow> pyfloat option \<Rightarrow> pyfloat \<Rightarrow> int option \<Rightarrow> json" where
  "converged_doc fault cr baseline baseline_pending up converged_at = JObj (dict_update fault
     [(''baseline_successful_requests_per_second'', JFloat (Fin (round_to 6
         (of_int (sum_list (map f_processed baseline)) / of_nat (length baseline))))),
      (''required_success_fraction_of_baseline'', JFloat (cr_fraction cr)),
      (''baseline_nats_waiting_events'', jfloat_opt baseline_pending),
      (''nats_pending_tolerance'', JFloat (cr_tolerance cr)),
      (''stable_seconds'', JInt (cr_stable cr)),
      (''converged'', JBool (converged_at \<noteq> None)),
      (''convergence_at_elapsed_seconds'', jint_opt converged_at),
      (''convergence_seconds'', jfloat_opt (map_option (\<lambda>c.
         f_round 6 (f_max (Fin 0) (f_sub (Fin (of_int c)) up))) converged_at)),
      (''confirmed_after_seconds'', jfloat_opt (map_option (\<lambda>c.
         f_round 6 (f_max (Fin 0) (f_sub (Fin (of_int (c + cr_stable cr))) up))) converged_at)),
      (''reason'', if converged_at \<noteq> None then JNull
         else JStr ''recovery criteria were not stable before the next phase'')])"

definition success_threshold :: "criteria \<Rightarrow> int \<Rightarrow> int \<Rightarrow> pyfloat" where
  "success_threshold cr successful expected = f_scale (min 1 (of_int successful / of_int expected)) (cr_fraction cr)"

text \<open>One fault; \<open>limit\<close> is where the search ends, the next fault or the end of the run.\<close>

definition fault_recovery ::
  "bool \<Rightarrow> criteria \<Rightarrow> fault_point list \<Rightarrow> pyfloat result \<Rightarrow> dict \<Rightarrow> json result" where
  "fault_recovery nats cr points limit fault =
     rbind (item_float fault ''scale_down_started_at_elapsed_seconds'') (\<lambda>down.
     let up_value = dict_get fault ''scale_up_started_at_elapsed_seconds'' JNull in
     if up_value = JNull \<or> dict_get fault ''reenabled_at_elapsed_seconds'' JNull = JNull
     then Inr (not_converged fault ''the service was not re-enabled'')
     else
       rbind (py_float up_value) (\<lambda>up.
       rbind limit (\<lambda>search_end.
       let baseline = baseline_points down points;
           expected = sum_list (map f_expected baseline);
           successful = sum_list (map f_processed baseline);
           pending_values = List.map_filter fresh_backlog baseline;
           baseline_pending = (if pending_values = [] then None else Some (last pending_values))
       in if expected \<le> 0 \<or> successful \<le> 0
          then Inr (not_converged fault ''no successful pre-fault baseline traffic'')
          else if nats \<and> baseline_pending = None
          then Inr (not_converged fault ''pre-fault NATS pending metrics were unavailable'')
          else
            rbind (f_ceil up) (\<lambda>first_second.
            rbind (f_floor search_end) (\<lambda>last_second.
              Inr (converged_doc fault cr baseline baseline_pending up
                (first_stable nats cr (success_threshold cr successful expected) baseline_pending points
                  [max 0 first_second..last_second - cr_stable cr])))))))"

fun fault_recoveries ::
  "bool \<Rightarrow> criteria \<Rightarrow> fault_point list \<Rightarrow> pyfloat result \<Rightarrow> dict list \<Rightarrow> json list result" where
  "fault_recoveries nats cr points finish [] = Inr []"
| "fault_recoveries nats cr points finish (fault # faults) =
     rbind (fault_recovery nats cr points
        (case faults of [] \<Rightarrow> finish | n # _ \<Rightarrow> item_float n ''scale_down_started_at_elapsed_seconds'') fault) (\<lambda>d.
     rbind (fault_recoveries nats cr points finish faults) (\<lambda>ds. Inr (d # ds)))"

definition fault_convergence :: "fault_point list \<Rightarrow> dict list \<Rightarrow> dict \<Rightarrow> string \<Rightarrow> json list result" where
  "fault_convergence points faults plan application =
     rbind (criteria_of plan) (\<lambda>cr.
       fault_recoveries (application = ''NATS'') cr points
         (get_float plan ''duration_seconds'' (JInt (int (length points)))) faults)"

section \<open>The summary\<close>

definition indexed :: "'a list \<Rightarrow> (int \<times> 'a) list" where
  "indexed xs = zip (map int [0..<length xs]) xs"

definition fault_points ::
  "benchmark_config \<Rightarrow> pyfloat \<Rightarrow> dict list \<Rightarrow> dict list \<Rightarrow> dict list \<Rightarrow> dict list \<Rightarrow> fault_point list result" where
  "fault_points c start_epoch spans business_records resource_records outstanding_records =
     rbind (rmap (initial_point c spans) [0..max 1 (run_seconds c) - 1]) (\<lambda>points.
     let n = length points;
         outcomes = filter (\<lambda>r. named ''checkout_to_outcome'' r \<and> in_phase ''steady'' r) business_records
     in
     rbind (rfold (outcome_step start_epoch) outcomes \<lparr>os_points = points, os_completions = [], os_failures = []\<rparr>) (\<lambda>s.
     rbind (rmap (close_point s) (indexed (os_points s))) (\<lambda>closed.
     rbind (rfold (backlog_step n) resource_records []) (\<lambda>nats_by_second.
     rbind (rfold (orders_step n) outstanding_records []) (\<lambda>outstanding_by_second.
       Inr (carry_orders outstanding_by_second 0
              (indexed (carry_backlog nats_by_second None (indexed closed)))))))))"

definition fault_totals_doc :: "fault_point list \<Rightarrow> json" where
  "fault_totals_doc points =
     (let failed = sum_list (map f_failed points); lost = sum_list (map f_lost points) in JObj
       [(''expected_requests'', JInt (sum_list (map f_expected points))),
        (''submitted_requests'', JInt (sum_list (map f_submitted points))),
        (''successful_requests'', JInt (sum_list (map f_successful points))),
        (''failed_requests'', JInt failed), (''lost_requests'', JInt lost),
        (''failed_or_lost_requests'', JInt (failed + lost))])"

definition fault_tolerance_summary ::
  "benchmark_config \<Rightarrow> dict \<Rightarrow> dict list \<Rightarrow> dict list \<Rightarrow> dict list \<Rightarrow> dict list \<Rightarrow> json result" where
  "fault_tolerance_summary c plan fault_records business_records resource_records outstanding_records =
     (if plan = []
      then Inr (JObj [(''available'', JBool False), (''reason'', JStr ''fault-plan.json was not recorded''),
                      (''per_second'', JList []), (''faults'', JList [])])
      else
        rbind (get_float plan ''start_epoch'' (JInt 0)) (\<lambda>start_epoch.
        rbind (fault_spans fault_records plan) (\<lambda>spans.
        rbind (fault_points c start_epoch spans business_records resource_records outstanding_records) (\<lambda>points.
        rbind (fault_convergence points spans plan (application_type c)) (\<lambda>faults.
          Inr (JObj
            [(''available'', JBool (spans \<noteq> [])),
             (''reason'', if spans = [] then JStr ''no scale-down event was recorded'' else JNull),
             (''plan'', JObj plan),
             (''totals'', fault_totals_doc points),
             (''faults'', JList faults),
             (''per_second'', JList (map fault_point_doc points))]))))))"

section \<open>The table per second\<close>

definition FAULT_FIELDS :: "string list" where
  "FAULT_FIELDS =
    [''elapsed_seconds'', ''phase'', ''expected_requests'', ''submitted_requests'', ''accepted_requests'',
     ''successful_requests'', ''failed_requests'', ''lost_requests'', ''successfully_processed'', ''failures_observed'',
     ''outstanding_orders'', ''nats_waiting_events'', ''nats_ack_pending_events'', ''nats_redelivered_events'',
     ''nats_metrics_sample_age_seconds'']"

definition LATENCY_FIELDS :: "string list" where
  "LATENCY_FIELDS = [''count'', ''p50_ms'', ''p95_ms'', ''p99_ms'', ''max_ms'']"

definition fault_csv_row :: "json \<Rightarrow> json list result" where
  "fault_csv_row j =
     rbind (as_dict j) (\<lambda>point.
     let latency = dict_get point ''completion_latency_ms'' (JObj []);
         failure = dict_get point ''failure_latency_ms'' (JObj []) in
     rbind (rmap (\<lambda>k. jget latency k JNull) LATENCY_FIELDS) (\<lambda>a.
     rbind (rmap (\<lambda>k. jget failure k JNull) LATENCY_FIELDS) (\<lambda>b.
       Inr (map (\<lambda>k. dict_get point k JNull) FAULT_FIELDS @ a @ b))))"

definition write_fault_tolerance_csv :: "dict \<Rightarrow> (string list \<times> json list list) result" where
  "write_fault_tolerance_csv summary =
     rbind (items_of (dict_get summary ''per_second'' (JList []))) (\<lambda>points.
     rbind (rmap fault_csv_row points) (\<lambda>rows.
       Inr (FAULT_FIELDS @ map (\<lambda>k. ''latency_'' @ k) LATENCY_FIELDS @ map (\<lambda>k. ''failure_latency_'' @ k) LATENCY_FIELDS,
            rows)))"

end
