(* ===== verification/Rep_Build.thy ===== *)
theory Rep_Build
  imports Rep_Convergence
begin

text \<open>
  The assembly of a report, \<open>source_records_for_window\<close>, \<open>saturation_summary\<close>,
  \<open>assemble_saturation_summary\<close> and \<open>build_report\<close> of \<open>reporting.py\<close>. \<open>build_report\<close> reduces each set of
  records to compact documents before it reads the next one; \<open>saturation_summary\<close> does the same for the
  rungs of a saturation run with all records at hand.
\<close>

section \<open>Samples of a source in a window\<close>

text \<open>\<open>inside\<close> is the test of the sample's time; Python's bounds are inclusive.\<close>

definition window_step ::
  "string \<Rightarrow> (pyfloat \<Rightarrow> bool) \<Rightarrow> rat \<Rightarrow> dict \<Rightarrow> dict list \<times> pyfloat list \<Rightarrow> (dict list \<times> pyfloat list) result" where
  "window_step source inside maximum_age r s =
     (let (selected, seen) = s in
      rbind (jget (dict_get r ''source_samples'' (JObj [])) source (JObj [])) (\<lambda>sample.
      rbind (jget (dict_get r ''source_elapsed_seconds'' (JObj [])) source JNull) (\<lambda>source_elapsed.
      case py_float (if source_elapsed = JNull then dict_get r ''elapsed_seconds'' (JInt (- 1)) else source_elapsed) of
        Inl e \<Rightarrow> if exn_cls e \<in> {TypeError, ValueError} then Inr s else Inl e
      | Inr elapsed \<Rightarrow>
          if \<not> inside elapsed then Inr s
          else
            rbind (jget sample ''collected_at'' JNull) (\<lambda>collected.
            let timestamp = dict_get r ''timestamp'' JNull;
                chosen = selected @ [dict_set ''elapsed_seconds'' (JFloat elapsed) r]
            in if is_number collected \<and> is_number timestamp then
                 rbind (py_float timestamp) (\<lambda>t.
                 rbind (py_float collected) (\<lambda>identity.
                 let age = f_sub t identity in
                 if f_lt age (Fin (- maximum_age)) \<or> f_lt (Fin maximum_age) age then Inr s
                 else if identity \<noteq> NaN \<and> identity \<in> set seen then Inr s
                 else Inr (chosen, seen @ [identity])))
               else Inr (chosen, seen)))))"

definition source_records_in :: "dict list \<Rightarrow> string \<Rightarrow> (pyfloat \<Rightarrow> bool) \<Rightarrow> dict list result" where
  "source_records_in records source inside =
     rbind (rfold (window_step source inside 10) records ([], [])) (\<lambda>(selected, _). Inr selected)"

definition inside_window :: "pyfloat \<Rightarrow> pyfloat \<Rightarrow> pyfloat \<Rightarrow> bool" where
  "inside_window started ended elapsed \<longleftrightarrow> f_le started elapsed \<and> f_le elapsed ended"

definition source_records_for_window :: "dict list \<Rightarrow> string \<Rightarrow> pyfloat \<Rightarrow> pyfloat \<Rightarrow> dict list result" where
  "source_records_for_window records source started ended = source_records_in records source (inside_window started ended)"

definition records_between :: "dict list \<Rightarrow> pyfloat \<Rightarrow> pyfloat \<Rightarrow> dict list result" where
  "records_between records started ended =
     rfilter (\<lambda>r. rbind (get_float r ''elapsed_seconds'' (JInt (- 1))) (\<lambda>e. Inr (inside_window started ended e))) records"

section \<open>Rungs of a saturation run\<close>

definition not_applicable :: json where
  "not_applicable = unavailable ''not applicable to GRPC application''"

definition completed_of :: "json \<Rightarrow> int result" where
  "completed_of business =
     rbind (as_dict business) (\<lambda>b. rbind (dict_item b ''completed'') (\<lambda>v.
       case v of JInt n \<Rightarrow> Inr n | _ \<Rightarrow> raise TypeError ''unsupported operand type''))"

definition per_order_doc :: "json \<Rightarrow> json \<Rightarrow> json result" where
  "per_order_doc resources business =
     rbind (as_dict resources) (\<lambda>d. rbind (completed_of business) (\<lambda>n.
     rbind (add_per_order_resource_metrics d n) (\<lambda>d'. Inr (JObj d'))))"

definition rung_number :: "dict \<Rightarrow> int result" where
  "rung_number decision = item_int decision ''rung''"

definition rung_business :: "dict list \<Rightarrow> dict \<Rightarrow> json result" where
  "rung_business business_records decision =
     rbind (rung_number decision) (\<lambda>rung.
     rbind (item_float decision ''duration_seconds'') (\<lambda>duration.
     rbind (rfilter (\<lambda>r. rbind (context_get r ''saturation_rung'' JNull) (\<lambda>v. Inr (equals_int v rung))) business_records)
       (\<lambda>rs. business_summary rs duration)))"

definition rung_resources :: "dict list \<Rightarrow> dict \<Rightarrow> json \<Rightarrow> json result" where
  "rung_resources resource_records decision business =
     rbind (item_float decision ''started_elapsed_seconds'') (\<lambda>started.
     rbind (item_float decision ''ended_elapsed_seconds'') (\<lambda>ended.
     rbind (source_records_for_window resource_records ''kubernetes'' started ended) (\<lambda>rs.
     rbind (resource_summary rs True) (\<lambda>resources. per_order_doc resources business))))"

definition rung_nats :: "benchmark_config \<Rightarrow> dict list \<Rightarrow> dict \<Rightarrow> json result" where
  "rung_nats c resource_records decision =
     (if application_type c \<noteq> ''NATS'' then Inr not_applicable
      else
        rbind (item_float decision ''started_elapsed_seconds'') (\<lambda>started.
        rbind (item_float decision ''ended_elapsed_seconds'') (\<lambda>ended.
        rbind (source_records_for_window resource_records ''nats'' started ended) (\<lambda>nats_records.
        rbind (source_records_for_window resource_records ''nats_raft'' started ended) (\<lambda>raft_records.
        rbind (records_between resource_records started ended) (\<lambda>health.
          nats_summary nats_records (Some raft_records) (Some health)))))))"

definition rung_outstanding :: "dict list \<Rightarrow> dict \<Rightarrow> json result" where
  "rung_outstanding outstanding_records decision =
     rbind (item_float decision ''started_elapsed_seconds'') (\<lambda>started.
     rbind (item_float decision ''ended_elapsed_seconds'') (\<lambda>ended.
     rbind (records_between outstanding_records started ended) outstanding_summary))"

record rungs =
  g_business :: "(int \<times> json) list"
  g_resources :: "(int \<times> json) list"
  g_nats :: "(int \<times> json) list"
  g_outstanding :: "(int \<times> json) list"

definition no_rungs :: rungs where
  "no_rungs = \<lparr>g_business = [], g_resources = [], g_nats = [], g_outstanding = []\<rparr>"

text \<open>One turn of the loop in \<open>saturation_summary\<close>.\<close>

definition direct_rung ::
  "benchmark_config \<Rightarrow> dict list \<Rightarrow> dict list \<Rightarrow> dict list \<Rightarrow> dict \<Rightarrow> rungs \<Rightarrow> rungs result" where
  "direct_rung c business_records resource_records outstanding_records decision s =
     rbind (rung_number decision) (\<lambda>rung.
     rbind (rung_business business_records decision) (\<lambda>business.
     rbind (rung_resources resource_records decision business) (\<lambda>resources.
     rbind (rung_nats c resource_records decision) (\<lambda>nats.
     rbind (rung_outstanding outstanding_records decision) (\<lambda>outstanding.
       Inr \<lparr>g_business = AList.update rung business (g_business s),
            g_resources = AList.update rung resources (g_resources s),
            g_nats = AList.update rung nats (g_nats s),
            g_outstanding = AList.update rung outstanding (g_outstanding s)\<rparr>)))))"

text \<open>The loops of \<open>build_report\<close>, one per set of records.\<close>

definition staged_business :: "dict list \<Rightarrow> dict \<Rightarrow> (int \<times> json) list \<Rightarrow> (int \<times> json) list result" where
  "staged_business business_records decision s =
     rbind (rung_number decision) (\<lambda>rung. rbind (rung_business business_records decision) (\<lambda>b.
       Inr (AList.update rung b s)))"

definition rung_item :: "(int \<times> json) list \<Rightarrow> int \<Rightarrow> json result" where
  "rung_item m rung = (case map_of m rung of None \<Rightarrow> raise KeyError (show_int rung) | Some v \<Rightarrow> Inr v)"

definition staged_resources ::
  "benchmark_config \<Rightarrow> dict list \<Rightarrow> (int \<times> json) list \<Rightarrow> dict \<Rightarrow> (int \<times> json) list \<times> (int \<times> json) list
   \<Rightarrow> ((int \<times> json) list \<times> (int \<times> json) list) result" where
  "staged_resources c resource_records business decision s =
     rbind (rung_number decision) (\<lambda>rung.
     rbind (rung_item business rung) (\<lambda>b.
     rbind (rung_resources resource_records decision b) (\<lambda>resources.
     rbind (rung_nats c resource_records decision) (\<lambda>nats.
       Inr (AList.update rung resources (fst s), AList.update rung nats (snd s))))))"

definition staged_outstanding :: "dict list \<Rightarrow> dict \<Rightarrow> (int \<times> json) list \<Rightarrow> (int \<times> json) list result" where
  "staged_outstanding outstanding_records decision s =
     rbind (rung_number decision) (\<lambda>rung. rbind (rung_outstanding outstanding_records decision) (\<lambda>d.
       Inr (AList.update rung d s)))"

section \<open>The saturation document\<close>

definition rung_doc :: "rungs \<Rightarrow> dict \<Rightarrow> dict result" where
  "rung_doc s decision =
     rbind (rung_number decision) (\<lambda>rung.
     rbind (rung_item (g_business s) rung) (\<lambda>business.
     rbind (rung_item (g_outstanding s) rung) (\<lambda>outstanding.
     rbind (rung_item (g_resources s) rung) (\<lambda>resources.
     rbind (rung_item (g_nats s) rung) (\<lambda>nats.
       Inr (dict_update decision [(''business'', business), (''outstanding_orders'', outstanding),
                                  (''resources'', resources), (''nats'', nats)]))))))"

definition is_saturated :: "dict \<Rightarrow> bool" where
  "is_saturated rung \<longleftrightarrow> truthy (dict_get rung ''saturated'' JNull)"

definition saturation_doc :: "benchmark_config \<Rightarrow> dict list \<Rightarrow> json" where
  "saturation_doc c rungs =
     (let sustainable = takeWhile (\<lambda>r. \<not> is_saturated r) rungs;
          saturated = List.find is_saturated rungs
      in JObj
       [(''available'', JBool True),
        (''start_requests_per_second'', JFloat (saturation_start_rate c)),
        (''step_requests_per_second'', JFloat (Fin 10)),
        (''step_seconds'', JInt (saturation_step_seconds c)),
        (''maximum_requests_per_second'', JFloat (saturation_max_rate c)),
        (''rapid_pending_growth_threshold_per_second'', JFloat (Fin 10)),
        (''saturated'', JBool (saturated \<noteq> None)),
        (''stop_reason'', dict_get (last rungs) ''stop_reason'' JNull),
        (''saturation_reason'', case saturated of
            None \<Rightarrow> JNull
          | Some r \<Rightarrow> if dict_get r ''saturation_reason'' JNull = JNull then dict_get r ''stop_reason'' JNull
                     else dict_get r ''saturation_reason'' JNull),
        (''saturation_requests_per_second'', case saturated of
            None \<Rightarrow> JNull | Some r \<Rightarrow> dict_get r ''target_requests_per_second'' JNull),
        (''highest_sustainable_requests_per_second'',
            if sustainable = [] then JNull else dict_get (last sustainable) ''target_requests_per_second'' JNull),
        (''rungs'', JList (map JObj rungs))])"

definition no_decisions :: json where
  "no_decisions = JObj [(''available'', JBool False), (''reason'', JStr ''no saturation rung decisions were recorded''),
     (''rungs'', JList [])]"

definition assemble_saturation_summary :: "benchmark_config \<Rightarrow> dict list \<Rightarrow> rungs \<Rightarrow> json result" where
  "assemble_saturation_summary c decisions s =
     (if decisions = [] then Inr no_decisions
      else rbind (rmap (rung_doc s) decisions) (\<lambda>rungs. Inr (saturation_doc c rungs)))"

definition saturation_summary ::
  "benchmark_config \<Rightarrow> dict list \<Rightarrow> dict list \<Rightarrow> dict list \<Rightarrow> dict list \<Rightarrow> json result" where
  "saturation_summary c decisions business_records resource_records outstanding_records =
     (if decisions = [] then Inr no_decisions
      else rbind (rfold (direct_rung c business_records resource_records outstanding_records) decisions no_rungs)
        (assemble_saturation_summary c decisions))"

section \<open>The report\<close>

text \<open>The files of a run; \<open>config.json\<close> and the plan are read as one document each.\<close>

record run_files =
  rf_config :: json
  rf_decisions :: "string list option"
  rf_business :: "string list option"
  rf_workflow :: "string option"
  rf_resources :: "string list option"
  rf_outstanding :: "string list option"
  rf_faults :: "string list option"
  rf_plan :: "string option"

record report =
  rp_summary :: dict
  rp_business_csv :: "string list \<times> json list list"
  rp_fault_csv :: "(string list \<times> json list list) option"

definition measured_duration :: "benchmark_config \<Rightarrow> dict list \<Rightarrow> pyfloat result" where
  "measured_duration c decisions =
     (if workload c = ''saturation'' \<and> decisions \<noteq> []
      then rbind (rmap (\<lambda>d. get_float d ''duration_seconds'' (JInt 0)) decisions) (\<lambda>xs. Inr (f_sum xs))
      else Inr (Fin (of_int (duration_seconds c))))"

text \<open>The upper bound of the steady phase is moved down by one float: the end itself is excluded.\<close>

definition steady_nats :: "benchmark_config \<Rightarrow> dict list \<Rightarrow> pyfloat \<Rightarrow> json result" where
  "steady_nats c resource_records measured =
     (if application_type c \<noteq> ''NATS'' then Inr not_applicable
      else
        let started = Fin (of_int (warmup_seconds c));
            inside = (\<lambda>e. f_le started e \<and> f_lt e (f_add started measured)) in
        rbind (source_records_in resource_records ''nats'' inside) (\<lambda>nats_records.
        rbind (source_records_in resource_records ''nats_raft'' inside) (\<lambda>raft_records.
          nats_summary nats_records (Some raft_records) (Some resource_records))))"

definition summary_head ::
  "benchmark_config \<Rightarrow> string \<Rightarrow> int \<Rightarrow> pyfloat \<Rightarrow> json \<Rightarrow> json \<Rightarrow> json \<Rightarrow> json \<Rightarrow> json \<Rightarrow> json \<Rightarrow> dict" where
  "summary_head c generated_at workers measured business workflow outstanding resources nats capacity =
     [(''generated_at'', JStr generated_at), (''application_type'', JStr (application_type c)),
      (''workload'', JStr (workload c)), (''worker_count'', JInt workers),
      (''warmup_seconds'', JInt (warmup_seconds c)), (''steady_seconds'', JFloat measured),
      (''drain_seconds'', JInt (drain_seconds c)), (''business'', business), (''workflow_events'', workflow),
      (''outstanding_orders'', outstanding), (''resources'', resources), (''nats'', nats), (''capacity'', capacity)]"

definition build_report :: "(string \<Rightarrow> json option) \<Rightarrow> string \<Rightarrow> run_files \<Rightarrow> report result" where
  "build_report loads generated_at run =
     rbind (rbind (as_dict (rf_config run)) from_dict) (\<lambda>c.
     rbind (read_json_lines loads (rf_decisions run)) (\<lambda>decisions.
     rbind (measured_duration c decisions) (\<lambda>measured.
     rbind (read_json_lines loads (rf_business run)) (\<lambda>business_records.
     rbind (business_summary business_records measured) (\<lambda>business.
     rbind (if application_type c = ''NATS''
            then rbind (read_json_object loads (rf_workflow run)) (\<lambda>d. Inr (workflow_event_summary d))
            else Inr not_applicable) (\<lambda>workflow.
     rbind (write_business_csv business_records) (\<lambda>business_csv.
     rbind (if workload c = ''saturation'' then rfold (staged_business business_records) decisions [] else Inr []) (\<lambda>by_rung.
     rbind (read_json_lines loads (rf_resources run)) (\<lambda>resource_records.
     rbind (resource_summary resource_records (workload c = ''saturation'')) (\<lambda>resources.
     rbind (steady_nats c resource_records measured) (\<lambda>nats.
     rbind (if workload c = ''saturation'' then rfold (staged_resources c resource_records by_rung) decisions ([], [])
            else Inr ([], [])) (\<lambda>resources_by_rung.
     rbind (read_json_lines loads (rf_outstanding run)) (\<lambda>outstanding_records.
     rbind (outstanding_summary outstanding_records) (\<lambda>outstanding.
     rbind (if workload c = ''saturation'' then rfold (staged_outstanding outstanding_records) decisions [] else Inr [])
       (\<lambda>outstanding_by_rung.
     rbind (worker_count c) (\<lambda>workers.
     rbind (as_dict business) (\<lambda>business_dict.
     rbind (as_dict outstanding) (\<lambda>outstanding_dict.
     rbind (as_dict nats) (\<lambda>nats_dict.
     rbind (capacity_assessment c business_dict outstanding_dict nats_dict) (\<lambda>capacity.
     rbind (if workload c = ''saturation''
            then assemble_saturation_summary c decisions
              \<lparr>g_business = by_rung, g_resources = fst resources_by_rung, g_nats = snd resources_by_rung,
               g_outstanding = outstanding_by_rung\<rparr>
            else Inr JNull) (\<lambda>saturation.
     rbind (if workload c = ''fault_tolerance''
            then rbind (read_json_lines loads (rf_faults run)) (\<lambda>fault_records.
              rbind (read_json_object loads (rf_plan run)) (\<lambda>plan.
                fault_tolerance_summary c plan fault_records business_records resource_records outstanding_records))
            else Inr JNull) (\<lambda>faults.
     rbind (per_order_doc resources business) (\<lambda>resources_doc.
     rbind (if workload c = ''fault_tolerance''
            then rbind (rbind (as_dict faults) write_fault_tolerance_csv) (\<lambda>t. Inr (Some t))
            else Inr None) (\<lambda>fault_csv.
       Inr \<lparr>rp_summary =
              summary_head c generated_at workers measured business workflow outstanding resources_doc nats capacity
              @ (if workload c = ''closed'' then [(''users'', JInt (users c))] else [])
              @ (if workload c = ''saturation''
                 then [(''configured_steady_seconds'', JInt (duration_seconds c)), (''saturation'', saturation)] else [])
              @ (if workload c = ''fault_tolerance''
                 then [(''arrival_rate'', JFloat (arrival_rate c)), (''fault_tolerance'', faults)] else []),
            rp_business_csv = business_csv, rp_fault_csv = fault_csv\<rparr>))))))))))))))))))))))))"

end
