(* ===== verification/Rep_Props.thy ===== *)
theory Rep_Props
  imports Rep_Build
begin

text \<open>
  Properties of the statistics, the business summary, the resource summary and the selection of samples:
  percentiles stay within the data and grow with the quantile, every order is counted in exactly one
  outcome, and the use of the cluster is the sum of the use of its services.
\<close>

section \<open>Percentiles\<close>

text \<open>Linear interpolation between the neighbours of a position.\<close>

definition interpolate :: "rat list \<Rightarrow> rat \<Rightarrow> rat" where
  "interpolate xs t =
     (let i = nat \<lfloor>t\<rfloor> in if t = of_int \<lfloor>t\<rfloor> then xs ! i else xs ! i + (t - of_int \<lfloor>t\<rfloor>) * (xs ! Suc i - xs ! i))"

lemma interpolate_between:
  assumes "sorted xs" and "0 \<le> t" and "t \<le> of_nat (length xs - 1)" and "xs \<noteq> []"
  shows "xs ! nat \<lfloor>t\<rfloor> \<le> interpolate xs t"
    and "t \<noteq> of_int \<lfloor>t\<rfloor> \<Longrightarrow> Suc (nat \<lfloor>t\<rfloor>) < length xs \<and> interpolate xs t \<le> xs ! Suc (nat \<lfloor>t\<rfloor>)"
proof -
  let ?i = "nat \<lfloor>t\<rfloor>" and ?f = "t - of_int \<lfloor>t\<rfloor>"
  have f: "0 \<le> ?f" "?f \<le> 1" by linarith+
  have upper: "Suc ?i < length xs" if "t \<noteq> of_int \<lfloor>t\<rfloor>"
  proof -
    have "of_int \<lfloor>t\<rfloor> < (of_nat (length xs - 1) :: rat)" using that assms(3) f by linarith
    then have "\<lfloor>t\<rfloor> < int (length xs - 1)" by (metis of_int_less_iff of_int_of_nat_eq)
    then show ?thesis using assms(2,4) by linarith
  qed
  have step: "xs ! ?i \<le> xs ! Suc ?i" if "t \<noteq> of_int \<lfloor>t\<rfloor>"
    using assms(1) upper [OF that] by (simp add: sorted_iff_nth_mono)
  show "xs ! ?i \<le> interpolate xs t"
    using step f(1) by (auto simp: interpolate_def Let_def)
  show "Suc ?i < length xs \<and> interpolate xs t \<le> xs ! Suc ?i" if h: "t \<noteq> of_int \<lfloor>t\<rfloor>"
  proof -
    have "?f * (xs ! Suc ?i - xs ! ?i) \<le> 1 * (xs ! Suc ?i - xs ! ?i)"
      using f(2) step [OF h] by (intro mult_right_mono) auto
    then show ?thesis using h upper [OF h] by (auto simp: interpolate_def Let_def)
  qed
qed

lemma interpolate_mono:
  assumes "sorted xs" and "xs \<noteq> []" and "0 \<le> s" and "s \<le> t" and "t \<le> of_nat (length xs - 1)"
  shows "interpolate xs s \<le> interpolate xs t"
proof -
  have fl: "\<lfloor>s\<rfloor> \<le> \<lfloor>t\<rfloor>" "0 \<le> \<lfloor>s\<rfloor>" using assms(3,4) by (auto intro: floor_mono)
  have tlen: "nat \<lfloor>t\<rfloor> < length xs"
  proof -
    have "\<lfloor>t\<rfloor> \<le> int (length xs - 1)" using assms(5) by (metis floor_mono floor_of_nat)
    moreover have "0 < length xs" using assms(2) by simp
    ultimately show ?thesis using fl by linarith
  qed
  note bs = interpolate_between [OF assms(1,3) order_trans [OF assms(4,5)] assms(2)]
  note bt = interpolate_between [OF assms(1) order_trans [OF assms(3,4)] assms(5,2)]
  show ?thesis
  proof (cases "\<lfloor>s\<rfloor> = \<lfloor>t\<rfloor>")
    case True
    show ?thesis
    proof (cases "s = of_int \<lfloor>s\<rfloor>")
      case s: True
      then have "interpolate xs s = xs ! nat \<lfloor>t\<rfloor>" using True by (simp add: interpolate_def Let_def)
      then show ?thesis using bt(1) by simp
    next
      case s: False
      then have t: "t \<noteq> of_int \<lfloor>t\<rfloor>" using True assms(4) by linarith
      have "xs ! nat \<lfloor>t\<rfloor> \<le> xs ! Suc (nat \<lfloor>t\<rfloor>)"
        using assms(1) bt(2) [OF t] by (simp add: sorted_iff_nth_mono)
      then have "(s - of_int \<lfloor>t\<rfloor>) * (xs ! Suc (nat \<lfloor>t\<rfloor>) - xs ! nat \<lfloor>t\<rfloor>)
          \<le> (t - of_int \<lfloor>t\<rfloor>) * (xs ! Suc (nat \<lfloor>t\<rfloor>) - xs ! nat \<lfloor>t\<rfloor>)"
        using assms(4) by (intro mult_right_mono) auto
      then show ?thesis using s t True by (simp add: interpolate_def Let_def)
    qed
  next
    case False
    then have lt: "nat \<lfloor>s\<rfloor> < nat \<lfloor>t\<rfloor>" using fl by linarith
    have "interpolate xs s \<le> xs ! nat \<lfloor>t\<rfloor>"
    proof (cases "s = of_int \<lfloor>s\<rfloor>")
      case True
      then have "interpolate xs s = xs ! nat \<lfloor>s\<rfloor>" by (simp add: interpolate_def Let_def)
      then show ?thesis using sorted_nth_mono [OF assms(1) _ tlen, of "nat \<lfloor>s\<rfloor>"] lt by simp
    next
      case sf: False
      then have "interpolate xs s \<le> xs ! Suc (nat \<lfloor>s\<rfloor>)" using bs(2) by blast
      also have "\<dots> \<le> xs ! nat \<lfloor>t\<rfloor>" by (rule sorted_nth_mono [OF assms(1) _ tlen]) (use lt in linarith)
      finally show ?thesis .
    qed
    also have "\<dots> \<le> interpolate xs t" by (rule bt(1))
    finally show ?thesis .
  qed
qed

lemma sort_nonempty [simp]: "sort xs = [] \<longleftrightarrow> xs = []"
  by (metis length_0_conv length_sort)

lemma sort_ends:
  assumes "qs \<noteq> []"
  shows "sort qs ! 0 = Min (set qs)" and "sort qs ! (length qs - 1) = Max (set qs)"
proof -
  have len: "length (sort qs) = length qs" "0 < length qs" using assms by simp_all
  have "sort qs ! 0 \<le> x \<and> x \<le> sort qs ! (length qs - 1)" if "x \<in> set qs" for x
  proof -
    have "x \<in> set (sort qs)" using that by simp
    then obtain i where "i < length qs" "sort qs ! i = x" unfolding in_set_conv_nth len(1) by blast
    then show ?thesis
      using sorted_nth_mono [OF sorted_sort, of 0 i qs] sorted_nth_mono [OF sorted_sort, of i "length qs - 1" qs] len
      by simp
  qed
  moreover have "sort qs ! 0 \<in> set qs" "sort qs ! (length qs - 1) \<in> set qs"
    using len nth_mem [of 0 "sort qs"] nth_mem [of "length qs - 1" "sort qs"] by simp_all
  ultimately show "sort qs ! 0 = Min (set qs)" "sort qs ! (length qs - 1) = Max (set qs)"
    by (auto intro!: Min_eqI [symmetric] Max_eqI [symmetric])
qed

lemma percentile_interpolates:
  assumes "qs \<noteq> []" and "0 \<le> a" and "a \<le> 1"
  shows "percentile (map Fin qs) a = Inr (Some (Fin (round_to 3 (interpolate (sort qs) (of_nat (length qs - 1) * a)))))"
proof -
  let ?t = "of_nat (length qs - 1) * a" and ?xs = "sort qs"
  have "?t \<le> of_nat (length qs - 1) * 1" by (rule mult_left_mono [OF assms(3)]) simp
  then have t: "0 \<le> ?t" "?t \<le> of_nat (length ?xs - 1)" "?xs \<noteq> []"
    using assms(1,2) by simp_all
  show ?thesis
  proof (cases "length qs = 1")
    case True
    then show ?thesis using assms(1) by (simp add: percentile_def f_sort_Fin interpolate_def Let_def)
  next
    case False
    have n: "length qs \<noteq> 0" using assms(1) by simp
    have lo: "0 \<le> \<lfloor>?t\<rfloor>" "\<lfloor>?t\<rfloor> < int (length qs)"
    proof -
      show "0 \<le> \<lfloor>?t\<rfloor>" using t(1) by simp
      have "\<lfloor>?t\<rfloor> \<le> int (length qs - 1)" using t(2) by (metis floor_mono floor_of_nat length_sort)
      then show "\<lfloor>?t\<rfloor> < int (length qs)" using n by linarith
    qed
    show ?thesis
    proof (cases "?t = of_int \<lfloor>?t\<rfloor>")
      case True
      then have "\<lceil>?t\<rceil> = \<lfloor>?t\<rfloor>" by (metis ceiling_of_int)
      then show ?thesis using True lo n False
        by (simp add: percentile_def f_sort_Fin interpolate_def Let_def)
    next
      case frac: False
      then have c: "\<lceil>?t\<rceil> = \<lfloor>?t\<rfloor> + 1" by (simp add: ceiling_altdef)
      moreover have "Suc (nat \<lfloor>?t\<rfloor>) < length ?xs"
        by (rule interpolate_between(2) [OF sorted_sort t frac, THEN conjunct1])
      ultimately have "nat \<lceil>?t\<rceil> = Suc (nat \<lfloor>?t\<rfloor>)" "\<lceil>?t\<rceil> < int (length qs)"
        using lo unfolding length_sort by linarith+
      then show ?thesis using frac lo n c False
        by (simp add: percentile_def f_sort_Fin interpolate_def Let_def f_sub_def)
    qed
  qed
qed

text \<open>Percentiles are order statistics: on finite values every percentile exists, lies between the
  smallest and the largest value (rounded as it is), and grows with the quantile, so that a report never
  shows a median above its 95th percentile or a 99th percentile above its maximum.\<close>

theorem percentiles_ordered:
  assumes "qs \<noteq> []" and "0 \<le> a" and "a \<le> b" and "b \<le> 1"
  shows "\<exists>p q. percentile (map Fin qs) a = Inr (Some (Fin p)) \<and> percentile (map Fin qs) b = Inr (Some (Fin q)) \<and>
    round_to 3 (Min (set qs)) \<le> p \<and> p \<le> q \<and> q \<le> round_to 3 (Max (set qs))"
proof -
  let ?xs = "sort qs" and ?n = "of_nat (length qs - 1) :: rat"
  have ne: "?xs \<noteq> []" using assms(1) by simp
  have ends: "interpolate ?xs 0 = Min (set qs)" "interpolate ?xs ?n = Max (set qs)"
    using sort_ends [OF assms(1)] by (simp_all add: interpolate_def)
  have "0 \<le> ?n * a" "?n * a \<le> ?n * b" "?n * b \<le> ?n"
    using assms(2-4) mult_left_le [of b ?n] by (auto intro: mult_left_mono)
  then have "interpolate ?xs 0 \<le> interpolate ?xs (?n * a)" "interpolate ?xs (?n * a) \<le> interpolate ?xs (?n * b)"
    "interpolate ?xs (?n * b) \<le> interpolate ?xs ?n"
    using ne by (auto intro!: interpolate_mono)
  then show ?thesis
    using percentile_interpolates [OF assms(1), of a] percentile_interpolates [OF assms(1), of b] assms(2-4)
    unfolding ends by (auto simp: round_to_mono)
qed

theorem percentiles_ordered_witness:
  "\<exists>p q. percentile (map Fin [40, 10, 20]) (1 / 2) = Inr (Some (Fin p)) \<and>
    percentile (map Fin [40, 10, 20]) (95 / 100) = Inr (Some (Fin q)) \<and>
    round_to 3 (Min (set [40, 10, 20])) \<le> p \<and> p \<le> q \<and> q \<le> round_to 3 (Max (set [40, 10, 20]))"
  by (rule percentiles_ordered) simp_all

section \<open>Orders and their outcomes\<close>

lemma alter_id_facts:
  fixes c :: "(string \<times> int) list"
  shows "distinct (map fst (foldl (\<lambda>c k. alter 0 id k c) c ks)) = distinct (map fst c)"
    and "sum_list (map snd (foldl (\<lambda>c k. alter 0 id k c) c ks)) = sum_list (map snd c)"
    and "lookup 0 (foldl (\<lambda>c k. alter 0 id k c) c ks) x = lookup 0 c x"
    and "fst ` set (foldl (\<lambda>c k. alter 0 id k c) c ks) = set ks \<union> fst ` set c"
proof (induction ks arbitrary: c)
  case (Cons k ks)
  {
    case 1
    then show ?case using Cons.IH(1) by (simp add: distinct_alter)
  next
    case 2
    then show ?case using Cons.IH(2) sum_alter [of id id 0 0 k c] by (simp add: id_def o_def)
  next
    case 3
    then show ?case using Cons.IH(3) by (simp add: lookup_alter)
  next
    case 4
    then show ?case using Cons.IH(4) by (simp add: keys_alter)
  }
qed simp_all

lemma outcome_counts_facts:
  assumes "outcome_counts rs = Inr c"
  shows "distinct (map fst c)" and "sum_list (map snd c) = int (length rs)"
    and "set REQUIRED_OUTCOMES \<subseteq> fst ` set c" and "0 \<le> lookup 0 c k" and "lookup 0 c k \<le> int (length rs)"
proof -
  obtain names where n: "length names = length rs"
    and c: "c = foldl (\<lambda>c k. alter 0 id k c) (counter names) REQUIRED_OUTCOMES"
    using assms rmap_length by (auto simp: outcome_counts_def)
  show "distinct (map fst c)" by (simp add: c alter_id_facts(1) distinct_counter)
  show "sum_list (map snd c) = int (length rs)" by (simp add: c alter_id_facts(2) sum_counter n)
  show "set REQUIRED_OUTCOMES \<subseteq> fst ` set c" by (simp add: c alter_id_facts(4))
  show "0 \<le> lookup 0 c k" "lookup 0 c k \<le> int (length rs)"
    using count_le_length [of names k] by (simp_all add: c alter_id_facts(3) lookup_counter n)
qed

lemma rfilter_length: "rfilter f xs = Inr ys \<Longrightarrow> length ys \<le> length xs"
  using rfilter_Inr [of f xs ys] by simp

lemma business_fields:
  assumes "business_summary records d = Inr doc"
  shows "\<exists>b counts accepted.
    outcome_counts (steady_named ''checkout_to_outcome'' records) = Inr counts \<and>
    has_context truthy ''accepted'' (steady_named ''checkout_to_outcome'' records) = Inr accepted \<and>
    doc = JObj b \<and> dict_get b ''outcomes'' JNull = counts_doc counts \<and>
    dict_get b ''submitted'' JNull = JInt (int (length (steady_named ''checkout_to_outcome'' records))) \<and>
    dict_get b ''accepted'' JNull = JInt (int (length accepted)) \<and>
    dict_get b ''completed'' JNull = JInt (lookup 0 counts ''COMPLETED'')"
  using assms unfolding business_summary_def Let_def rbind_eq_Inr
  apply (elim exE conjE)
  apply (drule sum.inject(2) [THEN iffD1])
  apply (intro exI conjI)
        apply assumption
       apply assumption
      apply (erule sym)
     apply (simp_all (no_asm) add: dict_get_def)
  done


definition sample_orders :: "dict list" where
  "sample_orders =
    [[(''phase'', JStr ''steady''), (''name'', JStr ''checkout_to_outcome''), (''success'', JBool True),
      (''response_time_ms'', JInt 120), (''context'', JObj [(''outcome'', JStr ''COMPLETED''), (''accepted'', JBool True)])],
     [(''phase'', JStr ''steady''), (''name'', JStr ''checkout_to_outcome''), (''success'', JBool False),
      (''response_time_ms'', JInt 80), (''context'', JObj [(''outcome'', JStr ''REJECTED''), (''accepted'', JBool True)])]]"


section \<open>Resource use\<close>

text \<open>The counters that a summary reports as integers, for the cluster and for every service.\<close>

definition USE_FIELDS :: "(string \<times> (usage \<Rightarrow> int)) list" where
  "USE_FIELDS = [(''network_rx_bytes'', u_rx), (''network_tx_bytes'', u_tx), (''cpu_throttled_periods'', u_throttled),
     (''cpu_periods'', u_periods), (''disk_io_operations'', u_disk)]"

definition int_field :: "string \<Rightarrow> json \<Rightarrow> int" where
  "int_field k v = (case v of JObj d \<Rightarrow> (case dict_get d k JNull of JInt n \<Rightarrow> n | _ \<Rightarrow> 0) | _ \<Rightarrow> 0)"

definition balanced :: "(usage \<Rightarrow> int) \<Rightarrow> resource_state \<Rightarrow> bool" where
  "balanced f s \<longleftrightarrow> 0 \<le> f (r_total s) \<and> f (r_total s) = sum_list (map (f \<circ> snd) (r_services s))"

definition additive :: "(usage \<Rightarrow> int) \<Rightarrow> bool" where
  "additive f \<longleftrightarrow> (\<forall>a b. f (add_usage a b) = f a + f b) \<and> f no_usage = 0 \<and> (\<forall>u m. f (u\<lparr>u_memory := m\<rparr>) = f u) \<and>
     (\<forall>a b d u. pod_usage a b d = Inr u \<longrightarrow> 0 \<le> f u)"

lemma counter_delta_nonneg: "counter_delta a b k = Inr n \<Longrightarrow> 0 \<le> n"
  by (auto simp: counter_delta_def)

lemma pod_usage_nonneg:
  assumes "pod_usage a b d = Inr u"
  shows "0 \<le> u_rx u" "0 \<le> u_tx u" "0 \<le> u_throttled u" "0 \<le> u_periods u" "0 \<le> u_disk u"
  using assms counter_delta_nonneg by (auto simp: pod_usage_def Let_def)

lemma use_fields_additive: "(k, f) \<in> set USE_FIELDS \<Longrightarrow> additive f"
  unfolding USE_FIELDS_def additive_def using pod_usage_nonneg by (auto simp: add_usage_def no_usage_def)

lemma pod_step_balanced:
  assumes "pod_step before d x s = Inr t" and "balanced f s" and a: "additive f"
  shows "balanced f t"
proof -
  obtain name current where x: "x = (name, current)" by (cases x)
  from assms(1) consider "t = s" | p u where "pod_usage p (projr (as_dict (dict_get before name JNull))) d = Inr u"
      "t = s\<lparr>r_total := add_usage (r_total s) (u\<lparr>u_memory := Fin 0\<rparr>),
             r_services := alter no_usage (\<lambda>v. add_usage v u) (service_of p) (r_services s)\<rparr>"
    by (auto simp: pod_step_def x Let_def split: if_splits)
  then show ?thesis
  proof cases
    case 1
    then show ?thesis using assms(2) by simp
  next
    case 2
    have "sum_list (map (f \<circ> snd) (r_services t)) = sum_list (map (f \<circ> snd) (r_services s)) + f u"
      unfolding 2 using a sum_alter [of f "\<lambda>v. add_usage v u" "f u" no_usage] by (simp add: additive_def)
    moreover have "f (r_total t) = f (r_total s) + f u" "0 \<le> f u"
      using a 2 by (auto simp: additive_def)
    ultimately show ?thesis using assms(2) by (auto simp: balanced_def)
  qed
qed

lemma sample_step_balanced:
  assumes "sample_step x s = Inr t" and "balanced f s" and a: "additive f"
  shows "balanced f t"
proof -
  obtain previous current where x: "x = (previous, current)" by (cases x)
  have "f ((r_total s)\<lparr>u_memory := m\<rparr>) = f (r_total s)" for m using a by (simp add: additive_def)
  then have start: "balanced f (s\<lparr>r_elapsed := e, r_total := (r_total s)\<lparr>u_memory := m\<rparr>, r_max_memory := n\<rparr>)" for e m n
    using assms(2) by (simp add: balanced_def)
  from assms(1) consider "t = s" | before d after e m n where
      "rfold (pod_step before d) after (s\<lparr>r_elapsed := e, r_total := (r_total s)\<lparr>u_memory := m\<rparr>, r_max_memory := n\<rparr>) = Inr t"
    by (auto simp: sample_step_def x Let_def split: if_splits)
  then show ?thesis
  proof cases
    case 1
    then show ?thesis using assms(2) by simp
  next
    case 2
    show ?thesis by (rule rfold_invariant [where P = "balanced f", OF 2 start]) (rule pod_step_balanced [OF _ _ a])
  qed
qed

lemma resource_run_balanced:
  assumes "resource_run steady = Inr s" and "additive f"
  shows "balanced f s"
proof (rule rfold_invariant [where P = "balanced f", OF assms(1) [unfolded resource_run_def]])
  show "balanced f \<lparr>r_total = no_usage, r_services = [], r_elapsed = Fin 0, r_max_memory = 0\<rparr>"
    using assms(2) by (simp add: balanced_def additive_def)
qed (rule sample_step_balanced [OF _ _ assms(2)])

lemma rmap_sum:
  assumes "rmap f xs = Inr ys" and "\<And>x y. f x = Inr y \<Longrightarrow> g y = h x"
  shows "sum_list (map g ys) = sum_list (map h xs)"
  using assms(1) by (induction xs arbitrary: ys) (auto simp: assms(2))

lemma service_doc_field:
  assumes "service_doc e u = Inr d" and "(k, f) \<in> set USE_FIELDS"
  shows "int_field k d = f u"
  using assms by (auto simp: service_doc_def USE_FIELDS_def int_field_def dict_get_def)

lemma resource_doc_field:
  assumes "resource_doc s = Inr doc" and "(k, f) \<in> set USE_FIELDS"
  shows "\<exists>b services. doc = JObj b \<and> dict_get b ''by_service'' JNull = JObj services \<and>
    dict_get b k JNull = JInt (f (r_total s)) \<and>
    sum_list (map (int_field k \<circ> snd) services) = sum_list (map (f \<circ> snd) (r_services s))"
proof -
  obtain services m where sv: "rmap (\<lambda>(name, v). rbind (service_doc (r_elapsed s) v) (\<lambda>d. Inr (name, d)))
        (sorted_items (r_services s)) = Inr services"
    and m: "per_elapsed (u_memory (r_total s)) (r_elapsed s) = Inr m"
    using assms(1) unfolding resource_doc_def Let_def rbind_eq_Inr by blast
  have "sum_list (map (int_field k \<circ> snd) services) = sum_list (map (f \<circ> snd) (sorted_items (r_services s)))"
    by (rule rmap_sum [OF sv]) (auto simp: service_doc_field [OF _ assms(2)])
  then have "sum_list (map (int_field k \<circ> snd) services) = sum_list (map (f \<circ> snd) (r_services s))"
    by (simp only: sum_sorted_items)
  then show ?thesis
    using assms(1,2) unfolding resource_doc_def Let_def sv m
    by (auto simp: USE_FIELDS_def dict_get_def)
qed

text \<open>The cluster is the sum of its services: every counter that a resource summary reports for the
  cluster is non-negative and equals the sum of that counter over the reported services, whatever pods
  appear, disappear or restart between the samples.\<close>

theorem cluster_use_is_sum_of_services:
  assumes "resource_summary records single = Inr doc" and "2 \<le> length (filter (in_phase ''steady'') records)"
    and "k \<in> fst ` set USE_FIELDS"
  shows "\<exists>b services n. doc = JObj b \<and> dict_get b ''by_service'' JNull = JObj services \<and>
    dict_get b k JNull = JInt n \<and> 0 \<le> n \<and> n = sum_list (map (int_field k \<circ> snd) services)"
proof -
  obtain f where f: "(k, f) \<in> set USE_FIELDS" using assms(3) by auto
  obtain s where s: "resource_run (filter (in_phase ''steady'') records) = Inr s" "resource_doc s = Inr doc"
    using assms(1,2) by (auto simp: resource_summary_def Let_def split: if_splits)
  have "balanced f s" by (rule resource_run_balanced [OF s(1) use_fields_additive [OF f]])
  then show ?thesis using resource_doc_field [OF s(2) f] by (auto simp: balanced_def)
qed

definition sample_pod :: "string \<Rightarrow> int \<Rightarrow> json" where
  "sample_pod service n = JObj [(''service'', JStr service), (''network_rx_bytes'', JInt n), (''memory_working_set_bytes'', JInt 5)]"

definition sample_resources :: "dict list" where
  "sample_resources =
    [[(''phase'', JStr ''steady''), (''timestamp'', JInt 1), (''pods'', JObj [(''a'', sample_pod ''cart'' 10), (''b'', sample_pod ''email'' 7)])],
     [(''phase'', JStr ''steady''), (''timestamp'', JInt 3), (''pods'', JObj [(''a'', sample_pod ''cart'' 40), (''b'', sample_pod ''email'' 2)])]]"

theorem cluster_use_is_sum_of_services_witness:
  "\<exists>b services n. projr (resource_summary sample_resources False) = JObj b \<and>
    dict_get b ''by_service'' JNull = JObj services \<and>
    dict_get b ''network_rx_bytes'' JNull = JInt n \<and> 0 \<le> n \<and> n = sum_list (map (int_field ''network_rx_bytes'' \<circ> snd) services)"
proof (rule cluster_use_is_sum_of_services)
  have "isl (resource_summary sample_resources False) = False" by code_simp
  then show "resource_summary sample_resources False = Inr (projr (resource_summary sample_resources False))" by simp
  show "2 \<le> length (filter (in_phase ''steady'') sample_resources)" by code_simp
  show "''network_rx_bytes'' \<in> fst ` set USE_FIELDS" by (simp add: USE_FIELDS_def)
qed

end
