(* ===== verification/Rep_Build_Props.thy ===== *)
theory Rep_Build_Props
  imports Rep_Fault_Props "HOL-Library.Sublist"
begin

text \<open>
  Properties of the assembled report: which samples of a source belong to a window, and that the staged
  reduction of \<open>build_report\<close> computes the same saturation document as \<open>saturation_summary\<close> does with all
  records in memory.
\<close>

section \<open>Samples of a window\<close>

definition sample_time :: "string \<Rightarrow> dict \<Rightarrow> pyfloat result" where
  "sample_time source r =
     rbind (jget (dict_get r ''source_elapsed_seconds'' (JObj [])) source JNull) (\<lambda>v.
       py_float (if v = JNull then dict_get r ''elapsed_seconds'' (JInt (- 1)) else v))"

text \<open>The collection time of a sample whose record has a time of its own, with the age of the sample.\<close>

definition identity_of :: "string \<Rightarrow> dict \<Rightarrow> (pyfloat \<times> pyfloat) option" where
  "identity_of source r =
     (case rbind (jget (dict_get r ''source_samples'' (JObj [])) source (JObj [])) (\<lambda>s. jget s ''collected_at'' JNull) of
        Inl _ \<Rightarrow> None
      | Inr collected \<Rightarrow>
          let timestamp = dict_get r ''timestamp'' JNull in
          if is_number collected \<and> is_number timestamp
          then (case (py_float collected, py_float timestamp) of
                  (Inr c, Inr t) \<Rightarrow> Some (c, f_sub t c) | _ \<Rightarrow> None)
          else None)"

definition chosen_from :: "string \<Rightarrow> (pyfloat \<Rightarrow> bool) \<Rightarrow> dict \<Rightarrow> dict \<Rightarrow> bool" where
  "chosen_from source inside r r0 \<longleftrightarrow> (\<exists>e. sample_time source r0 = Inr e \<and> inside e \<and>
     r = dict_set ''elapsed_seconds'' (JFloat e) r0)"

definition fresh :: "string \<Rightarrow> dict \<Rightarrow> bool" where
  "fresh source r \<longleftrightarrow> (\<forall>i a. identity_of source r = Some (i, a) \<longrightarrow> \<not> f_lt a (Fin (- 10)) \<and> \<not> f_lt (Fin 10) a)"

definition identities :: "string \<Rightarrow> dict list \<Rightarrow> pyfloat list" where
  "identities source rs = map fst (List.map_filter (identity_of source) rs)"

definition window_inv ::
  "string \<Rightarrow> (pyfloat \<Rightarrow> bool) \<Rightarrow> dict list \<Rightarrow> dict list \<times> pyfloat list \<Rightarrow> dict list \<Rightarrow> bool" where
  "window_inv source inside seen_records s chosen \<longleftrightarrow>
     subseq chosen seen_records \<and> list_all2 (chosen_from source inside) (fst s) chosen \<and>
     list_all (fresh source) chosen \<and> snd s = identities source chosen \<and>
     distinct (filter (\<lambda>i. i \<noteq> NaN) (snd s))"

lemma identities_snoc:
  "identities source (xs @ [x]) = identities source xs @ (case identity_of source x of None \<Rightarrow> [] | Some (i, _) \<Rightarrow> [i])"
  by (simp add: identities_def List.map_filter_def split: option.splits)

text \<open>A turn of the loop either keeps the state or takes the record.\<close>

lemma window_step_cases:
  assumes "window_step source inside 10 r (sel, seen) = Inr t"
  shows "t = (sel, seen) \<or>
    (\<exists>e. sample_time source r = Inr e \<and> inside e \<and> fresh source r \<and>
      (identity_of source r = None \<and> t = (sel @ [dict_set ''elapsed_seconds'' (JFloat e) r], seen) \<or>
       (\<exists>i a. identity_of source r = Some (i, a) \<and> (i = NaN \<or> i \<notin> set seen) \<and>
              t = (sel @ [dict_set ''elapsed_seconds'' (JFloat e) r], seen @ [i]))))"
proof -
  obtain sample v where sv: "jget (dict_get r ''source_samples'' (JObj [])) source (JObj []) = Inr sample"
      "jget (dict_get r ''source_elapsed_seconds'' (JObj [])) source JNull = Inr v"
    using assms by (auto simp: window_step_def)
  let ?f = "py_float (if v = JNull then dict_get r ''elapsed_seconds'' (JInt (- 1)) else v)"
  have time: "sample_time source r = ?f" by (simp add: sample_time_def sv)
  show ?thesis
  proof (cases ?f)
    case (Inl e)
    then show ?thesis using assms sv by (auto simp: window_step_def split: if_splits)
  next
    case (Inr e)
    show ?thesis
    proof (cases "inside e")
      case False
      then show ?thesis using assms sv Inr by (simp add: window_step_def)
    next
      case True
      then obtain collected where c: "jget sample ''collected_at'' JNull = Inr collected"
        using assms sv Inr by (auto simp: window_step_def)
      note ids = identity_of_def [of source r] sv c
      show ?thesis
      proof (cases "is_number collected \<and> is_number (dict_get r ''timestamp'' JNull)")
        case num: False
        then have "identity_of source r = None" by (auto simp: ids)
        then show ?thesis using assms sv c Inr True time num by (auto simp: window_step_def Let_def fresh_def)
      next
        case num: True
        then obtain ts i where "py_float (dict_get r ''timestamp'' JNull) = Inr ts" "py_float collected = Inr i"
          using assms sv c Inr True by (auto simp: window_step_def Let_def)
        then have "identity_of source r = Some (i, f_sub ts i)" using num by (auto simp: ids)
        then show ?thesis using assms sv c Inr True time num \<open>py_float collected = Inr i\<close>
            \<open>py_float (dict_get r ''timestamp'' JNull) = Inr ts\<close>
          by (auto simp: window_step_def Let_def fresh_def split: if_splits)
      qed
    qed
  qed
qed

lemma window_step_inv:
  assumes "window_step source inside 10 r s = Inr t" and "window_inv source inside rs s chosen"
  shows "\<exists>chosen'. window_inv source inside (rs @ [r]) t chosen'"
proof -
  obtain sel seen where s: "s = (sel, seen)" by (cases s)
  have sub: "subseq chosen (rs @ [r])" "subseq (chosen @ [r]) (rs @ [r])"
    using assms(2) by (auto simp: window_inv_def intro: list_emb_append_mono subseq_order.trans [OF _ subseq_rev_drop_many])
  from window_step_cases [OF assms(1) [unfolded s]] consider
      "t = (sel, seen)"
    | e where "sample_time source r = Inr e" "inside e" "fresh source r" "identity_of source r = None"
        "t = (sel @ [dict_set ''elapsed_seconds'' (JFloat e) r], seen)"
    | e i a where "sample_time source r = Inr e" "inside e" "fresh source r" "identity_of source r = Some (i, a)"
        "i = NaN \<or> i \<notin> set seen" "t = (sel @ [dict_set ''elapsed_seconds'' (JFloat e) r], seen @ [i])"
    by blast
  then show ?thesis
  proof cases
    case 1
    then show ?thesis using assms(2) sub(1) by (auto simp: window_inv_def s)
  next
    case 2
    then have "window_inv source inside (rs @ [r]) t (chosen @ [r])"
      using assms(2) sub(2) by (auto simp: window_inv_def s identities_snoc chosen_from_def list_all2_appendI)
    then show ?thesis by blast
  next
    case 3
    then have "window_inv source inside (rs @ [r]) t (chosen @ [r])"
      using assms(2) sub(2) by (auto simp: window_inv_def s identities_snoc chosen_from_def list_all2_appendI)
    then show ?thesis by blast
  qed
qed

lemma window_run_inv:
  assumes "rfold (window_step source inside 10) rs ([], []) = Inr t"
  shows "\<exists>chosen. window_inv source inside rs t chosen"
  using assms
proof (induction rs arbitrary: t rule: rev_induct)
  case Nil
  then show ?case by (auto simp: window_inv_def identities_def List.map_filter_def)
next
  case (snoc r rs)
  then show ?case using window_step_inv by (fastforce simp: rfold_append)
qed

text \<open>C21. The samples of a window: \<open>source_records_for_window\<close> returns input records in their order, each
  stamped with its source's own time, which lies in the window; none is older or newer than ten seconds
  against its record, and no source sample is counted twice.\<close>

theorem window_selects_fresh_unique_samples:
  assumes "source_records_for_window records source started ended = Inr selected"
  shows "\<exists>chosen. subseq chosen records \<and>
    list_all2 (\<lambda>r r0. \<exists>e. sample_time source r0 = Inr e \<and> f_le started e \<and> f_le e ended \<and>
        r = dict_set ''elapsed_seconds'' (JFloat e) r0) selected chosen \<and>
    list_all (fresh source) chosen \<and> distinct (filter (\<lambda>i. i \<noteq> NaN) (identities source chosen))"
proof -
  obtain t where t: "rfold (window_step source (inside_window started ended) 10) records ([], []) = Inr t" "selected = fst t"
    using assms by (auto simp: source_records_for_window_def source_records_in_def)
  from window_run_inv [OF t(1)] obtain chosen where
    "window_inv source (inside_window started ended) records t chosen" by blast
  then show ?thesis unfolding window_inv_def chosen_from_def inside_window_def t(2) by auto
qed

definition window_records :: "dict list" where
  "window_records =
    [[(''elapsed_seconds'', JInt 4), (''timestamp'', JInt 104),
      (''source_samples'', JObj [(''nats'', JObj [(''collected_at'', JInt 103)])])],
     [(''elapsed_seconds'', JInt 5), (''timestamp'', JInt 105),
      (''source_samples'', JObj [(''nats'', JObj [(''collected_at'', JInt 103)])])]]"

theorem window_selects_fresh_unique_samples_witness:
  "\<exists>chosen. subseq chosen window_records \<and>
    list_all2 (\<lambda>r r0. \<exists>e. sample_time ''nats'' r0 = Inr e \<and> f_le (Fin 0) e \<and> f_le e (Fin 9) \<and>
        r = dict_set ''elapsed_seconds'' (JFloat e) r0)
      (projr (source_records_for_window window_records ''nats'' (Fin 0) (Fin 9))) chosen \<and>
    list_all (fresh ''nats'') chosen \<and> distinct (filter (\<lambda>i. i \<noteq> NaN) (identities ''nats'' chosen))"
proof (rule window_selects_fresh_unique_samples)
  have "isl (source_records_for_window window_records ''nats'' (Fin 0) (Fin 9)) = False" by code_simp
  then show "source_records_for_window window_records ''nats'' (Fin 0) (Fin 9)
      = Inr (projr (source_records_for_window window_records ''nats'' (Fin 0) (Fin 9)))" by simp
qed

section \<open>Staged and direct reduction\<close>

text \<open>After the first stage every decision's business document is found under its rung.\<close>

lemma staged_steps:
  "rfold (staged_business bs) (d # ds) m = Inr t \<longleftrightarrow>
     (\<exists>r b. rung_number d = Inr r \<and> rung_business bs d = Inr b \<and> rfold (staged_business bs) ds (AList.update r b m) = Inr t)"
  "rfold (staged_resources c res B) (d # ds) an = Inr u \<longleftrightarrow>
     (\<exists>r b x y. rung_number d = Inr r \<and> rung_item B r = Inr b \<and> rung_resources res d b = Inr x \<and> rung_nats c res d = Inr y \<and>
        rfold (staged_resources c res B) ds (AList.update r x (fst an), AList.update r y (snd an)) = Inr u)"
  "rfold (staged_outstanding out) (d # ds) q = Inr v \<longleftrightarrow>
     (\<exists>r x. rung_number d = Inr r \<and> rung_outstanding out d = Inr x \<and> rfold (staged_outstanding out) ds (AList.update r x q) = Inr v)"
  by (auto simp: staged_business_def [of bs d m] staged_resources_def [of c res B d an] staged_outstanding_def [of out d q])

lemma staged_business_map:
  assumes "rfold (staged_business bs) ds m = Inr B" and "rmap rung_number ds = Inr rs" and "distinct rs"
  shows "(\<forall>d \<in> set ds. \<forall>r b. rung_number d = Inr r \<longrightarrow> rung_business bs d = Inr b \<longrightarrow> map_of B r = Some b) \<and>
    (\<forall>r. r \<notin> set rs \<longrightarrow> map_of B r = map_of m r)"
  using assms
proof (induction ds arbitrary: m rs)
  case (Cons d ds)
  obtain r b where d: "rung_number d = Inr r" "rung_business bs d = Inr b"
    and rest: "rfold (staged_business bs) ds (AList.update r b m) = Inr B"
    using Cons.prems(1) unfolding staged_steps by blast
  obtain rs' where rs: "rmap rung_number ds = Inr rs'" "rs = r # rs'" using Cons.prems(2) d(1) by auto
  have dist: "distinct rs'" "r \<notin> set rs'" using Cons.prems(3) rs(2) by auto
  note ih = Cons.IH [OF rest rs(1) dist(1)]
  have "map_of B r = Some b" using ih dist(2) by (simp add: update_conv')
  then show ?case using ih d rs(2) by (auto simp: update_conv')
qed simp

lemma direct_follows_stages:
  assumes "\<forall>d \<in> set ds. \<forall>r b. rung_number d = Inr r \<longrightarrow> rung_business bs d = Inr b \<longrightarrow> rung_item B r = Inr b"
    and "rfold (staged_business bs) ds m = Inr m'"
    and "rfold (staged_resources c res B) ds (a, n) = Inr (a', n')"
    and "rfold (staged_outstanding out) ds q = Inr q'"
  shows "rfold (direct_rung c bs res out) ds \<lparr>g_business = m, g_resources = a, g_nats = n, g_outstanding = q\<rparr>
    = Inr \<lparr>g_business = m', g_resources = a', g_nats = n', g_outstanding = q'\<rparr>"
  using assms
proof (induction ds arbitrary: m a n q)
  case (Cons d ds)
  obtain r b where d: "rung_number d = Inr r" "rung_business bs d = Inr b"
    and m: "rfold (staged_business bs) ds (AList.update r b m) = Inr m'"
    using Cons.prems(2) unfolding staged_steps by blast
  have B: "rung_item B r = Inr b" using Cons.prems(1) d by auto
  obtain rr nn where rn: "rung_resources res d b = Inr rr" "rung_nats c res d = Inr nn"
    and a: "rfold (staged_resources c res B) ds (AList.update r rr a, AList.update r nn n) = Inr (a', n')"
    using Cons.prems(3) d(1) B unfolding staged_steps by auto
  obtain x where x: "rung_outstanding out d = Inr x"
    and q: "rfold (staged_outstanding out) ds (AList.update r x q) = Inr q'"
    using Cons.prems(4) d(1) unfolding staged_steps by auto
  show ?case using Cons.IH [OF _ m a q] Cons.prems(1) d rn x by (simp add: direct_rung_def)
qed simp_all

lemma stages_equal_direct:
  assumes "rmap rung_number ds = Inr rs" and "distinct rs"
    and b: "rfold (staged_business bs) ds [] = Inr B"
    and r: "rfold (staged_resources c res B) ds ([], []) = Inr (a, n)"
    and q: "rfold (staged_outstanding out) ds [] = Inr q"
  shows "saturation_summary c ds bs res out
    = assemble_saturation_summary c ds \<lparr>g_business = B, g_resources = a, g_nats = n, g_outstanding = q\<rparr>"
proof -
  have "\<forall>d \<in> set ds. \<forall>r x. rung_number d = Inr r \<longrightarrow> rung_business bs d = Inr x \<longrightarrow> rung_item B r = Inr x"
    using staged_business_map [OF b assms(1,2)] by (auto simp: rung_item_def)
  from direct_follows_stages [OF this b r q] show ?thesis
    by (simp add: saturation_summary_def no_rungs_def assemble_saturation_summary_def)
qed

lemma summary_saturation:
  "dict_get (summary_head c g w m b ev o' r n cap @ [(''configured_steady_seconds'', x), (''saturation'', sat)]) ''saturation'' JNull = sat"
  by (simp add: summary_head_def dict_get_def)

lemma build_report_stages:
  assumes "build_report loads now run = Inr rep" and "rbind (as_dict (rf_config run)) from_dict = Inr c"
    and "workload c = ''saturation''" and "read_json_lines loads (rf_decisions run) = Inr ds"
    and "read_json_lines loads (rf_business run) = Inr bs" and "read_json_lines loads (rf_resources run) = Inr res"
    and "read_json_lines loads (rf_outstanding run) = Inr out"
  shows "\<exists>B a n q sat. rfold (staged_business bs) ds [] = Inr B \<and> rfold (staged_resources c res B) ds ([], []) = Inr (a, n) \<and>
    rfold (staged_outstanding out) ds [] = Inr q \<and>
    assemble_saturation_summary c ds \<lparr>g_business = B, g_resources = a, g_nats = n, g_outstanding = q\<rparr> = Inr sat \<and>
    dict_get (rp_summary rep) ''saturation'' JNull = sat"
proof -
  have w: "(workload c = ''saturation'') = True" "(workload c = ''closed'') = False" "(workload c = ''fault_tolerance'') = False"
    using assms(3) by simp_all
  show ?thesis
    using assms(1) unfolding build_report_def assms(2,4-7) rbind.simps w if_True if_False append_Nil append_Nil2 rbind_eq_Inr
    apply (elim exE conjE)
    apply (drule sum.inject(2) [THEN iffD1])
    apply (intro exI conjI)
        apply assumption
       apply (subst prod.collapse, assumption)
      apply assumption
     apply assumption
    apply hypsubst
    apply (simp only: report.select_convs summary_saturation append_Nil)
    done
qed


definition ladder_config :: benchmark_config where
  "ladder_config = sample_config\<lparr>application_type := ''GRPC'', collect_nats_metrics := False, workload := ''saturation''\<rparr>"

definition ladder_loads :: "string \<Rightarrow> json option" where
  "ladder_loads line =
     (if line = ''d'' then Some (JObj [(''rung'', JInt 0), (''started_elapsed_seconds'', JInt 0),
         (''ended_elapsed_seconds'', JInt 30), (''duration_seconds'', JInt 30), (''saturated'', JBool True)])
      else if line = ''b'' then Some (JObj [(''phase'', JStr ''steady''), (''name'', JStr ''checkout_to_outcome''),
         (''context'', JObj [(''outcome'', JStr ''REJECTED''), (''saturation_rung'', JInt 0)])])
      else if line = ''o'' then Some (JObj [(''elapsed_seconds'', JInt 7), (''outstanding'', JInt 2)])
      else None)"

definition ladder_run :: run_files where
  "ladder_run = \<lparr>rf_config = JObj (as_dict_config ladder_config), rf_decisions = Some [''d''], rf_business = Some [''b''],
     rf_workflow = None, rf_resources = None, rf_outstanding = Some [''o''], rf_faults = None, rf_plan = None\<rparr>"


end
