(* ===== verification/Email_Worker.thy ===== *)
theory Email_Worker
  imports Effects
begin

text \<open>
  The order-confirmation worker, \<open>src/emailservice/nats_worker.py\<close>: it turns completed orders into
  confirmation events with identifiers that are functions of the input, publishes them and only then
  acknowledges the order. Protocol buffers, SHA-256 and the message system are parameters: \<open>decode\<close> and
  \<open>unpack\<close> read envelopes and payloads, \<open>sha256\<close> is the digest as a list of bytes, and \<open>serialize\<close> writes
  the result.
\<close>

section \<open>Bytes\<close>

text \<open>\<open>s.encode()\<close> for the 8-bit characters of the development.\<close>

definition utf8_char :: "char \<Rightarrow> nat list" where
  "utf8_char c = (let n = of_char c in if n < 128 then [n] else [192 + n div 64, 128 + n mod 64])"

definition utf8 :: "string \<Rightarrow> nat list" where
  "utf8 s = concat (map utf8_char s)"

text \<open>\<open>struct.pack(">I", n)\<close>.\<close>

definition pack_u32 :: "nat \<Rightarrow> nat list result" where
  "pack_u32 n =
     (let k = int n in
      if k < 4294967296 then Inr (map nat [k div 16777216, k div 65536 mod 256, k div 256 mod 256, k mod 256])
      else raise OtherError ''struct.error'')"

definition B64_ALPHABET :: string where
  "B64_ALPHABET = ''ABCDEFGHIJKLMNOPQRSTUVWXYZabcdefghijklmnopqrstuvwxyz0123456789-_''"

fun b64_sextets :: "nat list \<Rightarrow> nat list" where
  "b64_sextets (a # b # c # rest) =
     [a div 4, a mod 4 * 16 + b div 16, b mod 16 * 4 + c div 64, c mod 64] @ b64_sextets rest"
| "b64_sextets [a, b] = [a div 4, a mod 4 * 16 + b div 16, b mod 16 * 4]"
| "b64_sextets [a] = [a div 4, a mod 4 * 16]"
| "b64_sextets [] = []"

text \<open>\<open>base64.urlsafe_b64encode(bs).decode().rstrip("=")\<close>.\<close>

definition b64_url :: "nat list \<Rightarrow> string" where
  "b64_url bs = map (\<lambda>n. B64_ALPHABET ! n) (b64_sextets bs)"

section \<open>Identifiers\<close>

definition hex_byte :: "nat \<Rightarrow> string" where
  "hex_byte n = [hex_digit (n div 16), hex_digit (n mod 16)]"

definition uuid_str :: "nat list \<Rightarrow> string" where
  "uuid_str bs =
     (let h = (\<lambda>i n. concat (map hex_byte (take n (drop i bs)))) in
      join ''-'' [h 0 4, h 4 2, h 6 2, h 8 2, h 10 6])"

definition stable_id :: "(nat list \<Rightarrow> nat list) \<Rightarrow> string list \<Rightarrow> string" where
  "stable_id sha256 parts =
     (let digest = take 16 (sha256 (utf8 (join [char_of (0 :: nat)] parts)));
          versioned = digest[6 := digest ! 6 mod 16 + 80];
          variant = versioned[8 := versioned ! 8 mod 64 + 128]
      in uuid_str variant)"

definition RESULT_PREFIX :: "nat list" where
  "RESULT_PREFIX = utf8 (''boutique.result.v1'' @ [char_of (0 :: nat)])"

definition result_preimage :: "string \<Rightarrow> string \<Rightarrow> nat list result" where
  "result_preimage input_message_id result_slot =
     (let input_bytes = utf8 input_message_id; slot_bytes = utf8 result_slot in
      rbind (pack_u32 (length input_bytes)) (\<lambda>a.
      rbind (pack_u32 (length slot_bytes)) (\<lambda>b.
        Inr (RESULT_PREFIX @ a @ input_bytes @ b @ slot_bytes))))"

definition result_message_id :: "(nat list \<Rightarrow> nat list) \<Rightarrow> string \<Rightarrow> string \<Rightarrow> string result" where
  "result_message_id sha256 input_message_id result_slot =
     (if input_message_id = [] then raise ValueError ''input message ID is required''
      else rbind (result_preimage input_message_id result_slot) (\<lambda>bs. Inr (''br1_'' @ b64_url (sha256 bs))))"

definition mask_recipient :: "string \<Rightarrow> string" where
  "mask_recipient address =
     (let (local_part, found, domain) = partition_at (CHR ''@'') address in
      if \<not> found then ''***''
      else (if local_part = [] then ''*'' else take 1 local_part) @ ''***@'' @ domain)"

definition NOTIFICATION_TYPE :: string where
  "NOTIFICATION_TYPE = ''order-confirmation''"

definition RESULT_SLOT :: string where
  "RESULT_SLOT = ''notification.order-confirmation''"

definition SENT_SUBJECT :: string where
  "SENT_SUBJECT = ''boutique.evt.notification.order-confirmation-sent.v1''"

definition FAILED_SUBJECT :: string where
  "FAILED_SUBJECT = ''boutique.evt.notification.order-confirmation-failed.v1''"

definition provider_idempotency_key :: "string \<Rightarrow> string \<Rightarrow> string result" where
  "provider_idempotency_key order_id notification_type =
     (if order_id = [] \<or> notification_type = [] then raise ValueError ''order ID and notification type are required''
      else Inr (order_id @ '':'' @ notification_type))"

section \<open>The outcome of an order\<close>

text \<open>The envelope of a message, with its time as seconds and nanoseconds, and the order of the payload.\<close>

record envelope =
  e_message_id :: string
  e_correlation_id :: string
  e_aggregate_id :: string
  e_aggregate_version :: int
  e_occurred_at :: "(int \<times> int) option"
  e_data :: "string option"
  e_traceparent :: string
  e_tracestate :: string

record completed_order =
  c_order_id :: string
  c_email :: string

datatype notification =
    Sent (sent_order: string) (sent_recipient: string) (sent_provider: string)
  | Failed (failed_order: string) (failure_code: string) (failure_retryable: bool) (failure_text: string) (failed_attempts: int)

record result_envelope =
  r_message_id :: string
  r_message_type :: string
  r_schema_version :: int
  r_producer :: string
  r_aggregate_type :: string
  r_aggregate_id :: string
  r_aggregate_version :: int
  r_correlation_id :: string
  r_causation_id :: string
  r_traceparent :: string
  r_tracestate :: string
  r_occurred_at :: "(int \<times> int) option"
  r_payload :: notification

record email_env =
  x_decode :: "string \<Rightarrow> envelope option"
  x_unpack :: "string \<Rightarrow> completed_order option"
  x_sha256 :: "nat list \<Rightarrow> nat list"
  x_serialize :: "result_envelope \<Rightarrow> string"

text \<open>The range that \<open>Timestamp.ToDatetime\<close> accepts: years 1 to 9999 and fewer than a second of nanoseconds.\<close>

definition valid_timestamp :: "int \<times> int \<Rightarrow> bool" where
  "valid_timestamp t \<longleftrightarrow> - 62135596800 \<le> fst t \<and> fst t \<le> 253402300799 \<and> 0 \<le> snd t \<and> snd t < 1000000000"

definition validate_input :: "envelope \<Rightarrow> unit result" where
  "validate_input e =
     (if e_message_id e = [] \<or> e_correlation_id e = [] \<or> e_aggregate_id e = [] \<or> e_aggregate_version e = 0
         \<or> e_occurred_at e = None \<or> e_data e = None
      then raise ValueError ''completed order envelope is incomplete''
      else if \<not> valid_timestamp (the (e_occurred_at e)) then raise ValueError ''timestamp out of range''
      else Inr ())"

record outcome =
  o_subject :: string
  o_message_id :: string
  o_provider_key :: string
  o_data :: string

definition build_outcome :: "email_env \<Rightarrow> envelope \<Rightarrow> string \<Rightarrow> outcome result" where
  "build_outcome env e failure_mode =
     rbind (validate_input e) (\<lambda>_.
     case x_unpack env (the (e_data e)) of
       None \<Rightarrow> raise ValueError ''completed order payload is invalid''
     | Some order \<Rightarrow>
         if c_order_id order = [] then raise ValueError ''completed order payload is invalid''
         else if c_order_id order \<noteq> e_aggregate_id e
         then raise ValueError ''completed order does not match the envelope aggregate''
         else
           rbind (provider_idempotency_key (c_order_id order) NOTIFICATION_TYPE) (\<lambda>provider_key.
           let failed = (failure_mode = ''failed'');
               payload = (if failed
                 then Failed (c_order_id order) ''EMAIL_PROVIDER_UNAVAILABLE'' True ''Order confirmation could not be sent.'' 1
                 else Sent (c_order_id order) (mask_recipient (c_email order))
                        (stable_id (x_sha256 env) [''email-provider-v1'', provider_key]))
           in
           rbind (result_message_id (x_sha256 env) (e_message_id e) RESULT_SLOT) (\<lambda>message_id.
             Inr \<lparr>o_subject = (if failed then FAILED_SUBJECT else SENT_SUBJECT),
                  o_message_id = message_id, o_provider_key = provider_key,
                  o_data = x_serialize env
                    \<lparr>r_message_id = message_id,
                     r_message_type = (if failed then ''boutique.notification.OrderConfirmationFailed.v1''
                                       else ''boutique.notification.OrderConfirmationSent.v1''),
                     r_schema_version = 1, r_producer = ''emailservice/phase3'', r_aggregate_type = ''order'',
                     r_aggregate_id = c_order_id order, r_aggregate_version = e_aggregate_version e,
                     r_correlation_id = e_correlation_id e, r_causation_id = e_message_id e,
                     r_traceparent = e_traceparent e, r_tracestate = e_tracestate e,
                     r_occurred_at = e_occurred_at e, r_payload = payload\<rparr>\<rparr>)))"

text \<open>\<open>_bounded_integer_env\<close>, given the value of the variable.\<close>

definition bounded_integer_env :: "string \<Rightarrow> string option \<Rightarrow> int \<Rightarrow> int \<Rightarrow> int \<Rightarrow> int result" where
  "bounded_integer_env name raw fallback minimum maximum =
     rbind (case raw of
         None \<Rightarrow> Inr fallback
       | Some s \<Rightarrow> if s = [] then Inr fallback
                  else (case parse_int s of None \<Rightarrow> raise ValueError (name @ '' must be an integer'') | Some n \<Rightarrow> Inr n)) (\<lambda>value.
       if value < minimum \<or> maximum < value
       then raise ValueError (name @ '' must be between '' @ show_int minimum @ '' and '' @ show_int maximum)
       else Inr value)"

section \<open>Processing\<close>

record delivery =
  d_handle :: nat
  d_data :: string

datatype email_eff = Publish string string string | AckMsg nat | NakMsg nat nat

definition nak_tree :: "delivery \<Rightarrow> (email_eff, unit) prog" where
  "nak_tree m = Ext (NakMsg (d_handle m) 1) (\<lambda>r. lift r (\<lambda>_. Ret ()))"

text \<open>\<open>_process_message\<close> without its logging and tracing: any exception of the body leads to \<open>nak(delay=1)\<close>.\<close>

definition process_order_message :: "email_env \<Rightarrow> string \<Rightarrow> delivery \<Rightarrow> (email_eff, unit) prog" where
  "process_order_message env failure_mode m =
     catchp
       (lift (case x_decode env (d_data m) of None \<Rightarrow> raise OtherError ''DecodeError'' | Some e \<Rightarrow> Inr e) (\<lambda>e.
        lift (build_outcome env e failure_mode) (\<lambda>out.
          Ext (Publish (o_subject out) (o_data out) (o_message_id out)) (\<lambda>r. lift r (\<lambda>_.
          Ext (AckMsg (d_handle m)) (\<lambda>r. lift r (\<lambda>_. Ret ())))))))
       (\<lambda>_. nak_tree m)"

text \<open>
  \<open>_process_messages\<close>: coroutines take messages from one shared iterator; each request of a coroutine may
  be answered or fail in any way, and the coroutines interleave between requests.
\<close>

datatype worker = Idle | Busy delivery "(email_eff, unit) prog" | Ended | Crashed

record pool =
  p_remaining :: "delivery list"
  p_workers :: "worker list"
  p_log :: "(delivery \<times> email_eff \<times> json result) list"
  p_finished :: "delivery list"

definition start_pool :: "nat \<Rightarrow> delivery list \<Rightarrow> pool" where
  "start_pool concurrency messages =
     \<lparr>p_remaining = messages, p_workers = replicate (min concurrency (length messages)) Idle, p_log = [], p_finished = []\<rparr>"

inductive pool_step :: "email_env \<Rightarrow> string \<Rightarrow> pool \<Rightarrow> pool \<Rightarrow> bool" for env failure_mode where
  take: "i < length (p_workers s) \<Longrightarrow> p_workers s ! i = Idle \<Longrightarrow> p_remaining s = m # ms \<Longrightarrow>
     pool_step env failure_mode s
       (s\<lparr>p_remaining := ms, p_workers := (p_workers s)[i := Busy m (process_order_message env failure_mode m)]\<rparr>)"
| finish: "i < length (p_workers s) \<Longrightarrow> p_workers s ! i = Idle \<Longrightarrow> p_remaining s = [] \<Longrightarrow>
     pool_step env failure_mode s (s\<lparr>p_workers := (p_workers s)[i := Ended]\<rparr>)"
| request: "i < length (p_workers s) \<Longrightarrow> p_workers s ! i = Busy m (Ext x c) \<Longrightarrow>
     pool_step env failure_mode s
       (s\<lparr>p_workers := (p_workers s)[i := Busy m (c r)], p_log := p_log s @ [(m, x, r)]\<rparr>)"
| complete: "i < length (p_workers s) \<Longrightarrow> p_workers s ! i = Busy m (Ret ()) \<Longrightarrow>
     pool_step env failure_mode s (s\<lparr>p_workers := (p_workers s)[i := Idle], p_finished := p_finished s @ [m]\<rparr>)"
| crash: "i < length (p_workers s) \<Longrightarrow> p_workers s ! i = Busy m (Raise e) \<Longrightarrow>
     pool_step env failure_mode s (s\<lparr>p_workers := (p_workers s)[i := Crashed], p_finished := p_finished s @ [m]\<rparr>)"

end
