(* ===== verification/Email_Props.thy ===== *)
theory Email_Props
  imports Email_Worker "HOL-Library.Multiset"
begin

text \<open>
  Properties of the order-confirmation worker: an order is acknowledged only after its outcome has been
  published, in every interleaving of the coroutines and with any failure of a request, and the
  identifier of an outcome determines the order and the result slot it belongs to.
\<close>

section \<open>Acknowledgement after publication\<close>

definition ack_tree :: "delivery \<Rightarrow> (email_eff, unit) prog" where
  "ack_tree m = Ext (AckMsg (d_handle m)) (\<lambda>r. case r of Inr _ \<Rightarrow> Ret () | Inl _ \<Rightarrow> nak_tree m)"

text \<open>The outcome that an order demands.\<close>

definition outcome_of :: "email_env \<Rightarrow> string \<Rightarrow> delivery \<Rightarrow> outcome option" where
  "outcome_of env failure_mode m = (case x_decode env (d_data m) of
      None \<Rightarrow> None
    | Some e \<Rightarrow> (case build_outcome env e failure_mode of Inl _ \<Rightarrow> None | Inr out \<Rightarrow> Some out))"

lemma process_message_cases:
  "process_order_message env failure_mode m = (case outcome_of env failure_mode m of
      None \<Rightarrow> nak_tree m
    | Some out \<Rightarrow> Ext (Publish (o_subject out) (o_data out) (o_message_id out))
        (\<lambda>r. case r of Inr _ \<Rightarrow> ack_tree m | Inl _ \<Rightarrow> nak_tree m))"
  by (auto simp: process_order_message_def outcome_of_def ack_tree_def lift_def fun_eq_iff
      split: option.splits sum.splits)

type_synonym email_log = "(delivery \<times> email_eff \<times> json result) list"

definition published :: "email_env \<Rightarrow> string \<Rightarrow> email_log \<Rightarrow> delivery \<Rightarrow> bool" where
  "published env failure_mode trail m \<longleftrightarrow> (\<exists>out r. outcome_of env failure_mode m = Some out \<and>
     (m, Publish (o_subject out) (o_data out) (o_message_id out), Inr r) \<in> set trail)"

definition settled :: "email_log \<Rightarrow> delivery \<Rightarrow> bool" where
  "settled trail m \<longleftrightarrow> (\<exists>r. (m, AckMsg (d_handle m), Inr r) \<in> set trail) \<or> (\<exists>r. (m, NakMsg (d_handle m) 1, r) \<in> set trail)"

fun worker_ok :: "email_env \<Rightarrow> string \<Rightarrow> email_log \<Rightarrow> worker \<Rightarrow> bool" where
  "worker_ok env fm trail (Busy m t) \<longleftrightarrow>
     t = process_order_message env fm m \<or> t = ack_tree m \<and> published env fm trail m \<or> t = nak_tree m \<or>
     t = Ret () \<and> settled trail m \<or> (\<exists>e. t = Raise e) \<and> settled trail m"
| "worker_ok env fm trail w = True"

definition log_ok :: "email_env \<Rightarrow> string \<Rightarrow> email_log \<Rightarrow> bool" where
  "log_ok env fm trail \<longleftrightarrow> (\<forall>i < length trail. \<forall>m h r. trail ! i = (m, AckMsg h, r) \<longrightarrow>
     h = d_handle m \<and> published env fm (take i trail) m)"

fun in_hand :: "worker \<Rightarrow> delivery multiset" where
  "in_hand (Busy m _) = {#m#}"
| "in_hand _ = {#}"

definition pool_ok :: "email_env \<Rightarrow> string \<Rightarrow> nat \<Rightarrow> delivery list \<Rightarrow> pool \<Rightarrow> bool" where
  "pool_ok env fm n messages s \<longleftrightarrow>
     log_ok env fm (p_log s) \<and> list_all (worker_ok env fm (p_log s)) (p_workers s) \<and>
     list_all (settled (p_log s)) (p_finished s) \<and>
     mset messages = mset (p_remaining s) + sum_list (map in_hand (p_workers s)) + mset (p_finished s) \<and>
     length (p_workers s) \<le> n"

lemma published_mono: "published env fm trail m \<Longrightarrow> published env fm (trail @ trail') m"
  by (auto simp: published_def)

lemma settled_mono: "settled trail m \<Longrightarrow> settled (trail @ trail') m"
  by (auto simp: settled_def)

lemma worker_ok_mono: "worker_ok env fm trail w \<Longrightarrow> worker_ok env fm (trail @ trail') w"
  by (cases w) (auto intro: published_mono settled_mono)

lemma list_all_update: "list_all P xs \<Longrightarrow> P x \<Longrightarrow> list_all P (xs[i := x])"
  by (auto simp: list_all_iff dest: set_update_subset_insert [THEN subsetD])

lemma hand_update:
  "i < length ws \<Longrightarrow> sum_list (map in_hand (ws[i := w])) + in_hand (ws ! i) = sum_list (map in_hand ws) + in_hand w"
proof (induction ws arbitrary: i)
  case (Cons v ws)
  then show ?case by (cases i) (auto simp: ac_simps)
qed simp

lemma log_ok_snoc:
  assumes "log_ok env fm trail" and "\<And>h. x = AckMsg h \<Longrightarrow> h = d_handle m \<and> published env fm trail m"
  shows "log_ok env fm (trail @ [(m, x, r)])"
  unfolding log_ok_def
proof (intro allI impI)
  fix i m' h r'
  assume i: "i < length (trail @ [(m, x, r)])" and l: "(trail @ [(m, x, r)]) ! i = (m', AckMsg h, r')"
  show "h = d_handle m' \<and> published env fm (take i (trail @ [(m, x, r)])) m'"
  proof (cases "i = length trail")
    case True
    then show ?thesis using l assms(2) by auto
  next
    case False
    then have "i < length trail" using i by simp
    then show ?thesis using l assms(1) by (simp add: log_ok_def nth_append)
  qed
qed

text \<open>A request of a well-formed worker keeps it well-formed, and an acknowledgement follows a publication.\<close>

lemma request_ok:
  assumes "worker_ok env fm trail (Busy m (Ext x c))"
  shows "worker_ok env fm (trail @ [(m, x, r)]) (Busy m (c r))"
    and "x = AckMsg h \<Longrightarrow> h = d_handle m \<and> published env fm trail m"
proof -
  from assms consider
      out where "outcome_of env fm m = Some out" "x = Publish (o_subject out) (o_data out) (o_message_id out)"
        "c = (\<lambda>r. case r of Inr _ \<Rightarrow> ack_tree m | Inl _ \<Rightarrow> nak_tree m)"
    | "x = AckMsg (d_handle m)" "c = (\<lambda>r. case r of Inr _ \<Rightarrow> Ret () | Inl _ \<Rightarrow> nak_tree m)" "published env fm trail m"
    | "x = NakMsg (d_handle m) 1" "c = (\<lambda>r. lift r (\<lambda>_. Ret ()))"
    unfolding worker_ok.simps process_message_cases ack_tree_def nak_tree_def by (auto split: option.splits)
  then have "worker_ok env fm (trail @ [(m, x, r)]) (Busy m (c r)) \<and>
      (x = AckMsg h \<longrightarrow> h = d_handle m \<and> published env fm trail m)"
  proof cases
    case 1
    then show ?thesis by (cases r) (auto simp: published_def)
  next
    case 2
    then show ?thesis by (cases r) (auto simp: settled_def)
  next
    case 3
    then show ?thesis by (cases r) (auto simp: settled_def)
  qed
  then show "worker_ok env fm (trail @ [(m, x, r)]) (Busy m (c r))"
    "x = AckMsg h \<Longrightarrow> h = d_handle m \<and> published env fm trail m" by blast+
qed

lemma pool_step_ok:
  assumes "pool_step env fm s t" and "pool_ok env fm n messages s"
  shows "pool_ok env fm n messages t"
  using assms
proof cases
  case (take i m ms)
  then show ?thesis using assms(2) hand_update [OF take(2), of "Busy m (process_order_message env fm m)"]
    by (auto simp: pool_ok_def list_all_update ac_simps)
next
  case (finish i)
  then show ?thesis using assms(2) hand_update [OF finish(2), of Ended]
    by (auto simp: pool_ok_def list_all_update)
next
  case (request i m x c r)
  have w: "worker_ok env fm (p_log s) (Busy m (Ext x c))"
    using assms(2) request(2,3) by (metis list_all_length pool_ok_def)
  have "list_all (worker_ok env fm (p_log s @ [(m, x, r)])) ((p_workers s)[i := Busy m (c r)])"
    using assms(2) request_ok(1) [OF w]
    by (intro list_all_update) (auto simp: pool_ok_def list_all_iff intro: worker_ok_mono)
  moreover have "log_ok env fm (p_log s @ [(m, x, r)])"
    using assms(2) request_ok(2) [OF w] by (intro log_ok_snoc) (auto simp: pool_ok_def)
  moreover have "list_all (settled (p_log s @ [(m, x, r)])) (p_finished s)"
    using assms(2) by (auto simp: pool_ok_def list_all_iff intro: settled_mono)
  ultimately show ?thesis using assms(2) request(1) hand_update [OF request(2), of "Busy m (c r)"] request(3)
    by (simp add: pool_ok_def)
next
  case (complete i m)
  have "worker_ok env fm (p_log s) (Busy m (Ret ()))"
    using assms(2) complete(2,3) by (metis list_all_length pool_ok_def)
  then have "settled (p_log s) m"
    by (auto simp: process_message_cases ack_tree_def nak_tree_def split: option.splits)
  then show ?thesis using assms(2) complete hand_update [OF complete(2), of Idle]
    by (auto simp: pool_ok_def list_all_update ac_simps)
next
  case (crash i m e)
  have "worker_ok env fm (p_log s) (Busy m (Raise e))"
    using assms(2) crash(2,3) by (metis list_all_length pool_ok_def)
  then have "settled (p_log s) m"
    by (auto simp: process_message_cases ack_tree_def nak_tree_def split: option.splits)
  then show ?thesis using assms(2) crash hand_update [OF crash(2), of Crashed]
    by (auto simp: pool_ok_def list_all_update ac_simps)
qed

lemma start_pool_ok: "pool_ok env fm n messages (start_pool n messages)"
proof -
  have "sum_list (map in_hand (replicate k Idle)) = {#}" for k by (induction k) auto
  then show ?thesis by (auto simp: pool_ok_def start_pool_def log_ok_def list_all_iff)
qed

lemma pool_invariant: "(pool_step env fm)\<^sup>*\<^sup>* (start_pool n messages) s \<Longrightarrow> pool_ok env fm n messages s"
  by (induction rule: rtranclp_induct) (auto intro: start_pool_ok pool_step_ok)

text \<open>C23. No order is acknowledged before its confirmation is out: in every interleaving of the coroutines
  and whatever requests fail, an acknowledgement follows a successful publication of exactly the outcome
  that the order demands; no order is lost or taken twice; every order that left the pool was acknowledged
  or returned for redelivery; and at most \<open>concurrency\<close> orders are in hand.\<close>

theorem email_acknowledged_only_after_publication:
  assumes "(pool_step env failure_mode)\<^sup>*\<^sup>* (start_pool concurrency messages) s"
  shows "(\<forall>i < length (p_log s). \<forall>m h r. p_log s ! i = (m, AckMsg h, r) \<longrightarrow> h = d_handle m \<and>
      (\<exists>out k v. outcome_of env failure_mode m = Some out \<and> k < i \<and>
        p_log s ! k = (m, Publish (o_subject out) (o_data out) (o_message_id out), Inr v))) \<and>
    mset messages = mset (p_remaining s) + sum_list (map in_hand (p_workers s)) + mset (p_finished s) \<and>
    list_all (settled (p_log s)) (p_finished s) \<and> length (p_workers s) \<le> concurrency"
proof -
  have ok: "pool_ok env failure_mode concurrency messages s" by (rule pool_invariant [OF assms])
  have "h = d_handle m \<and> (\<exists>out k v. outcome_of env failure_mode m = Some out \<and> k < i \<and>
        p_log s ! k = (m, Publish (o_subject out) (o_data out) (o_message_id out), Inr v))"
    if i: "i < length (p_log s)" and l: "p_log s ! i = (m, AckMsg h, r)" for i m h r
  proof -
    have "h = d_handle m" "published env failure_mode (take i (p_log s)) m"
      using ok i l unfolding pool_ok_def log_ok_def by blast+
    then show ?thesis using i by (fastforce simp: published_def in_set_conv_nth)
  qed
  then show ?thesis using ok by (simp add: pool_ok_def)
qed

definition toy_digest :: "nat list \<Rightarrow> nat list" where
  "toy_digest bs = map (\<lambda>n. n mod 256) bs"

definition mail_env :: email_env where
  "mail_env = \<lparr>
     x_decode = (\<lambda>_. Some \<lparr>e_message_id = ''m1'', e_correlation_id = ''c'', e_aggregate_id = ''o1'', e_aggregate_version = 1,
        e_occurred_at = Some (0, 0), e_data = Some ''d'', e_traceparent = [], e_tracestate = []\<rparr>),
     x_unpack = (\<lambda>_. Some \<lparr>c_order_id = ''o1'', c_email = ''ann@example.org''\<rparr>),
     x_sha256 = toy_digest, x_serialize = r_message_id\<rparr>"

definition mail :: delivery where
  "mail = \<lparr>d_handle = 7, d_data = ''d''\<rparr>"

definition mail_outcome :: outcome where
  "mail_outcome = the (outcome_of mail_env [] mail)"

definition mail_pool :: pool where
  "mail_pool = \<lparr>p_remaining = [], p_workers = [Busy mail (Ret ())],
     p_log = [(mail, Publish (o_subject mail_outcome) (o_data mail_outcome) (o_message_id mail_outcome), Inr JNull),
              (mail, AckMsg 7, Inr JNull)], p_finished = []\<rparr>"

lemma mail_pool_reached: "(pool_step mail_env [])\<^sup>*\<^sup>* (start_pool 8 [mail]) mail_pool"
proof -
  have "outcome_of mail_env [] mail \<noteq> None" by code_simp
  then have out: "outcome_of mail_env [] mail = Some mail_outcome" by (simp add: mail_outcome_def)
  let ?s1 = "\<lparr>p_remaining = [], p_workers = [Busy mail (process_order_message mail_env [] mail)], p_log = [], p_finished = []\<rparr>"
  let ?s2 = "\<lparr>p_remaining = [], p_workers = [Busy mail (ack_tree mail)],
     p_log = [(mail, Publish (o_subject mail_outcome) (o_data mail_outcome) (o_message_id mail_outcome), Inr JNull)], p_finished = []\<rparr>"
  have 1: "pool_step mail_env [] (start_pool 8 [mail]) ?s1"
    using pool_step.take [of 0 "start_pool 8 [mail]" mail "[]" mail_env "[]"] by (simp add: start_pool_def)
  have 2: "pool_step mail_env [] ?s1 ?s2"
    using pool_step.request [of 0 ?s1 mail _ _ mail_env "[]" "Inr JNull"] by (simp add: process_message_cases out)
  have 3: "pool_step mail_env [] ?s2 mail_pool"
    using pool_step.request [of 0 ?s2 mail _ _ mail_env "[]" "Inr JNull"] by (simp add: ack_tree_def mail_pool_def mail_def)
  show ?thesis
    by (rule rtranclp.rtrancl_into_rtrancl [OF rtranclp.rtrancl_into_rtrancl [OF r_into_rtranclp [of "pool_step mail_env []", OF 1] 2] 3])
qed

theorem email_acknowledged_only_after_publication_witness:
  "p_log mail_pool ! 1 = (mail, AckMsg 7, Inr JNull) \<and>
   (\<exists>out v. outcome_of mail_env [] mail = Some out \<and>
      p_log mail_pool ! 0 = (mail, Publish (o_subject out) (o_data out) (o_message_id out), Inr v)) \<and>
   mset [mail] = mset (p_remaining mail_pool) + sum_list (map in_hand (p_workers mail_pool)) + mset (p_finished mail_pool) \<and>
   length (p_workers mail_pool) \<le> 8"
proof -
  note all = email_acknowledged_only_after_publication [OF mail_pool_reached]
  have ack: "p_log mail_pool ! 1 = (mail, AckMsg 7, Inr JNull)" "1 < length (p_log mail_pool)"
    by (simp_all add: mail_pool_def)
  obtain out k v where "outcome_of mail_env [] mail = Some out" "k < 1"
    "p_log mail_pool ! k = (mail, Publish (o_subject out) (o_data out) (o_message_id out), Inr v)"
    using conjunct1 [OF all] ack by metis
  then show ?thesis using all ack(1) by auto
qed

section \<open>Identifiers of results\<close>

lemma utf8_char_prefix: "utf8_char c @ xs = utf8_char d @ ys \<Longrightarrow> c = d \<and> xs = ys"
proof -
  assume h: "utf8_char c @ xs = utf8_char d @ ys"
  have b: "(of_char c :: nat) < 256" "(of_char d :: nat) < 256" by simp_all
  have "(of_char c :: nat) = of_char d \<and> xs = ys"
  proof (cases "(of_char c :: nat) < 128"; cases "(of_char d :: nat) < 128")
    assume "\<not> (of_char c :: nat) < 128" "\<not> (of_char d :: nat) < 128"
    then have "(of_char c :: nat) div 64 = of_char d div 64" "(of_char c :: nat) mod 64 = of_char d mod 64" "xs = ys"
      using h by (simp_all add: utf8_char_def Let_def)
    then show ?thesis by (metis div_mult_mod_eq)
  qed (use h b in \<open>auto simp: utf8_char_def Let_def\<close>)
  then show ?thesis by simp
qed

lemma utf8_char_nonempty [simp]: "utf8_char c \<noteq> []"
  by (simp add: utf8_char_def Let_def)

lemma utf8_inject: "utf8 s = utf8 t \<Longrightarrow> s = t"
proof (induction s arbitrary: t)
  case Nil
  then show ?case by (cases t) (auto simp: utf8_def)
next
  case (Cons c s)
  then obtain d t' where t: "t = d # t'" by (cases t) (auto simp: utf8_def)
  then show ?case using Cons utf8_char_prefix [of c "utf8 s" d "utf8 t'"] by (auto simp: utf8_def)
qed

lemma pack_u32_length: "pack_u32 n = Inr bs \<Longrightarrow> length bs = 4"
  by (auto simp: pack_u32_def Let_def split: if_splits)

lemma base_unique: "x * k + y = x' * k + y' \<Longrightarrow> y < k \<Longrightarrow> y' < k \<Longrightarrow> x = x' \<and> y = y'" for x :: nat
proof -
  assume h: "x * k + y = x' * k + y'" "y < k" "y' < k"
  have "(x * k + y) div k = x" "(x' * k + y') div k = x'" using h(2,3) by simp_all
  then show ?thesis using h(1) by simp
qed

lemma div_mod_unique: "m div k = n div k \<Longrightarrow> m mod k = n mod k \<Longrightarrow> m = n" for m :: int
  by (metis div_mult_mod_eq)

lemma pack_u32_bytes:
  assumes "pack_u32 n = Inr bs"
  shows "map int bs = [int n div 16777216, int n div 65536 mod 256, int n div 256 mod 256, int n mod 256]"
proof -
  have "bs = map nat [int n div 16777216, int n div 65536 mod 256, int n div 256 mod 256, int n mod 256]"
    using assms unfolding pack_u32_def Let_def by (cases "int n < 4294967296") (simp_all only: if_True if_False sum.inject sum.distinct)
  moreover have "0 \<le> int n div 16777216" by (rule pos_imp_zdiv_nonneg_iff [THEN iffD2]) simp_all
  ultimately show ?thesis by simp
qed

lemma pack_u32_inject: "pack_u32 m = Inr bs \<Longrightarrow> pack_u32 n = Inr bs \<Longrightarrow> m = n"
proof -
  assume h: "pack_u32 m = Inr bs" "pack_u32 n = Inr bs"
  from pack_u32_bytes [OF h(1)] pack_u32_bytes [OF h(2)]
  have e: "int m div 16777216 = int n div 16777216" "int m div 65536 mod 256 = int n div 65536 mod 256"
      "int m div 256 mod 256 = int n div 256 mod 256" "int m mod 256 = int n mod 256"
    by (simp_all only: list.inject)
  have up: "k div 65536 div 256 = k div 16777216" "k div 256 div 256 = k div 65536" for k :: int
    by (simp_all flip: zdiv_zmult2_eq)
  have "int m div 65536 = int n div 65536" using e(1,2) up(1) by (metis div_mod_unique)
  then have "int m div 256 = int n div 256" using e(3) up(2) by (metis div_mod_unique)
  then show ?thesis using e(4) by (metis div_mod_unique of_nat_eq_iff)
qed

text \<open>The lengths before the parts make the hashed bytes determine both parts.\<close>

lemma result_preimage_inject:
  assumes "result_preimage a s = Inr bs" and "result_preimage b t = Inr bs"
  shows "a = b \<and> s = t"
proof -
  obtain p q where p: "pack_u32 (length (utf8 a)) = Inr p" "pack_u32 (length (utf8 s)) = Inr q"
      "bs = RESULT_PREFIX @ p @ utf8 a @ q @ utf8 s"
    using assms(1) by (auto simp: result_preimage_def Let_def)
  obtain p' q' where p': "pack_u32 (length (utf8 b)) = Inr p'" "pack_u32 (length (utf8 t)) = Inr q'"
      "bs = RESULT_PREFIX @ p' @ utf8 b @ q' @ utf8 t"
    using assms(2) by (auto simp: result_preimage_def Let_def)
  have len: "length p = 4" "length q = 4" "length p' = 4" "length q' = 4"
    using p(1,2) p'(1,2) pack_u32_length by blast+
  have "p @ (utf8 a @ q @ utf8 s) = p' @ (utf8 b @ q' @ utf8 t)" using p(3) p'(3) by simp
  then have pp: "p = p'" and rest: "utf8 a @ (q @ utf8 s) = utf8 b @ (q' @ utf8 t)" using len by simp_all
  have "length (utf8 a) = length (utf8 b)" using p(1) p'(1) pp pack_u32_inject by blast
  then have "utf8 a = utf8 b" "q @ utf8 s = q' @ utf8 t" using rest by simp_all
  then show ?thesis using len utf8_inject by simp
qed

lemma sextets_inject:
  "\<forall>n \<in> set xs. n < 256 \<Longrightarrow> \<forall>n \<in> set ys. n < 256 \<Longrightarrow> b64_sextets xs = b64_sextets ys \<Longrightarrow> xs = ys"
proof (induction xs arbitrary: ys rule: b64_sextets.induct)
  case (1 a b c rest)
  obtain a' b' c' rest' where ys: "ys = a' # b' # c' # rest'"
    using 1(4) by (cases ys rule: b64_sextets.cases) auto
  have e: "a div 4 = a' div 4" "a mod 4 * 16 + b div 16 = a' mod 4 * 16 + b' div 16"
      "b mod 16 * 4 + c div 64 = b' mod 16 * 4 + c' div 64" "c mod 64 = c' mod 64" "b64_sextets rest = b64_sextets rest'"
    using 1(4) ys by simp_all
  have lt: "b div 16 < 16" "b' div 16 < 16" "c div 64 < 4" "c' div 64 < 4" using 1(2,3) ys by auto
  have "a mod 4 = a' mod 4" "b div 16 = b' div 16" using base_unique [OF e(2) lt(1,2)] by simp_all
  moreover have "b mod 16 = b' mod 16" "c div 64 = c' div 64" using base_unique [OF e(3) lt(3,4)] by simp_all
  ultimately have "a = a'" "b = b'" "c = c'" using e(1,4) by (metis div_mult_mod_eq)+
  moreover have "rest = rest'" using 1 ys e(5) by simp
  ultimately show ?case using ys by simp
next
  case (2 a b)
  obtain a' b' where ys: "ys = [a', b']" using 2(3) by (cases ys rule: b64_sextets.cases) auto
  have e: "a div 4 = a' div 4" "a mod 4 * 16 + b div 16 = a' mod 4 * 16 + b' div 16" "b mod 16 * 4 = b' mod 16 * 4"
    using 2(3) ys by simp_all
  have lt: "b div 16 < 16" "b' div 16 < 16" using 2(1,2) ys by auto
  have "a mod 4 = a' mod 4" "b div 16 = b' div 16" using base_unique [OF e(2) lt] by simp_all
  moreover have "b mod 16 = b' mod 16" using e(3) by simp
  ultimately have "a = a'" "b = b'" using e(1) by (metis div_mult_mod_eq)+
  then show ?case using ys by simp
next
  case (3 a)
  obtain a' where ys: "ys = [a']" using 3(3) by (cases ys rule: b64_sextets.cases) auto
  then show ?case using 3(3) by (simp, metis div_mult_mod_eq)
next
  case 4
  then show ?case by (cases ys rule: b64_sextets.cases) auto
qed

lemma sextets_small: "\<forall>n \<in> set xs. n < 256 \<Longrightarrow> m \<in> set (b64_sextets xs) \<Longrightarrow> m < 64"
  by (induction xs rule: b64_sextets.induct) auto

lemma alphabet_distinct: "distinct B64_ALPHABET" "length B64_ALPHABET = 64"
  by code_simp+

lemma b64_url_inject:
  assumes "\<forall>n \<in> set xs. n < 256" and "\<forall>n \<in> set ys. n < 256" and "b64_url xs = b64_url ys"
  shows "xs = ys"
proof -
  have "inj_on (\<lambda>n. B64_ALPHABET ! n) (set (b64_sextets xs) \<union> set (b64_sextets ys))"
    using sextets_small [OF assms(1)] sextets_small [OF assms(2)] alphabet_distinct
    by (auto simp: inj_on_def nth_eq_iff_index_eq)
  then have "b64_sextets xs = b64_sextets ys" using assms(3) unfolding b64_url_def by (rule map_inj_on [rotated])
  then show ?thesis using sextets_inject assms(1,2) by blast
qed

text \<open>Result identifiers are unambiguous: two results get the same identifier only if they answer the same
  input message in the same slot, as long as SHA-256 does not collide on the two hashed byte strings; in
  particular no two different pairs are ever hashed as the same bytes.\<close>

theorem result_message_id_unambiguous:
  assumes "result_message_id sha256 a s = Inr x" and "result_message_id sha256 b t = Inr x"
    and "result_preimage a s = Inr p" and "result_preimage b t = Inr q"
    and "\<forall>n \<in> set (sha256 p) \<union> set (sha256 q). n < 256" and "sha256 p = sha256 q \<longrightarrow> p = q"
  shows "a = b \<and> s = t"
proof -
  have "b64_url (sha256 p) = b64_url (sha256 q)"
    using assms(1-4) by (auto simp: result_message_id_def split: if_splits)
  then have "p = q" using assms(5,6) b64_url_inject [of "sha256 p" "sha256 q"] by blast
  then show ?thesis using result_preimage_inject assms(3,4) by blast
qed

theorem result_message_id_unambiguous_witness:
  "''m1'' = ''m1'' \<and> RESULT_SLOT = RESULT_SLOT"
proof (rule result_message_id_unambiguous [of toy_digest "''m1''" RESULT_SLOT "projr (result_message_id toy_digest ''m1'' RESULT_SLOT)"
      "''m1''" RESULT_SLOT "projr (result_preimage ''m1'' RESULT_SLOT)" "projr (result_preimage ''m1'' RESULT_SLOT)"])
  have "isl (result_message_id toy_digest ''m1'' RESULT_SLOT) = False" by code_simp
  then show "result_message_id toy_digest ''m1'' RESULT_SLOT = Inr (projr (result_message_id toy_digest ''m1'' RESULT_SLOT))"
    "result_message_id toy_digest ''m1'' RESULT_SLOT = Inr (projr (result_message_id toy_digest ''m1'' RESULT_SLOT))" by simp_all
  have "isl (result_preimage ''m1'' RESULT_SLOT) = False" by code_simp
  then show "result_preimage ''m1'' RESULT_SLOT = Inr (projr (result_preimage ''m1'' RESULT_SLOT))"
    "result_preimage ''m1'' RESULT_SLOT = Inr (projr (result_preimage ''m1'' RESULT_SLOT))" by simp_all
qed (auto simp: toy_digest_def)

end
