(* ===== verification/Sse.thy ===== *)
theory Sse
  imports Py_Records Bench_Config
begin

text \<open>
  The order event streams that the load generator follows, \<open>src/benchmarkservice/sse.py\<close>: the URL of a
  stream, the decoder of server-sent events and the reader of order documents. Text of a stream is a list of
  Unicode code points, so that the byte order mark and the decoding of UTF-8 are represented; \<open>json.loads\<close>
  is a parameter.
\<close>

section \<open>URLs and content types\<close>

definition USES_NETLOC :: "string list" where
  "USES_NETLOC = [''ftp'', ''http'', ''gopher'', ''nntp'', ''telnet'', ''imap'', ''wais'', ''file'', ''mms'', ''https'', ''shttp'',
     ''snews'', ''prospero'', ''rtsp'', ''rtsps'', ''rtspu'', ''rsync'', ''svn'', ''svn+ssh'', ''sftp'', ''nfs'', ''git'', ''git+ssh'',
     ''ws'', ''wss'', ''itms-services'']"

definition urlunsplit :: "string \<Rightarrow> string \<Rightarrow> string \<Rightarrow> string \<Rightarrow> string" where
  "urlunsplit scheme netloc path query =
     (let rooted = (if path \<noteq> [] \<and> \<not> startswith path ''/'' then CHR ''/'' # path else path);
          url = (if netloc \<noteq> [] then ''//'' @ netloc @ rooted
                 else if startswith path ''//'' then ''//'' @ path
                 else if scheme \<in> set USES_NETLOC then ''//'' @ rooted
                 else path);
          with_scheme = (if scheme \<noteq> [] then scheme @ '':'' @ url else url)
      in if query \<noteq> [] then with_scheme @ ''?'' @ query else with_scheme)"

definition order_events_url :: "string \<Rightarrow> string result" where
  "order_events_url location =
     (let cleaned = filter (\<lambda>c. (of_char c :: nat) \<notin> {9, 10, 13}) (dropWhile (\<lambda>c. (of_char c :: nat) \<le> 32) location);
          (scheme, rest) = split_scheme cleaned;
          (netloc, tail) = split_netloc rest;
          (before_fragment, _, _) = partition_at (CHR ''#'') tail;
          (raw_path, _, query) = partition_at (CHR ''?'') before_fragment;
          path = rstrip_chars ''/'' raw_path
      in if (CHR ''['' \<in> set netloc) \<noteq> (CHR '']'' \<in> set netloc) then raise ValueError ''Invalid IPv6 URL''
         else if path = [] then raise ValueError ''order Location has no path''
         else Inr (urlunsplit scheme netloc (path @ ''/events'') query))"

definition is_event_stream_content_type :: "json \<Rightarrow> bool" where
  "is_event_stream_content_type value =
     (case value of JStr s \<Rightarrow> (let (media, _, _) = partition_at (CHR '';'') s in lower (strip media) = ''text/event-stream'')
      | _ \<Rightarrow> False)"

section \<open>UTF-8\<close>

type_synonym codepoints = "nat list"

definition continuation :: "nat \<Rightarrow> bool" where
  "continuation b \<longleftrightarrow> 128 \<le> b \<and> b < 192"

text \<open>\<open>bytes.decode("utf-8")\<close>: no overlong forms, no surrogates, nothing above the last code point.\<close>

fun decode_utf8 :: "nat list \<Rightarrow> codepoints option" where
  "decode_utf8 [] = Some []"
| "decode_utf8 (a # rest) =
     (if a < 128 then map_option ((#) a) (decode_utf8 rest)
      else if 194 \<le> a \<and> a < 224 then
        (case rest of
           b # r \<Rightarrow> if continuation b then map_option ((#) ((a - 192) * 64 + (b - 128))) (decode_utf8 r) else None
         | [] \<Rightarrow> None)
      else if 224 \<le> a \<and> a < 240 then
        (case rest of
           b # c # r \<Rightarrow>
             let p = (a - 224) * 4096 + (b - 128) * 64 + (c - 128) in
             if continuation b \<and> continuation c \<and> 2048 \<le> p \<and> \<not> (55296 \<le> p \<and> p < 57344)
             then map_option ((#) p) (decode_utf8 r) else None
         | _ \<Rightarrow> None)
      else if 240 \<le> a \<and> a < 245 then
        (case rest of
           b # c # d # r \<Rightarrow>
             let p = (a - 240) * 262144 + (b - 128) * 4096 + (c - 128) * 64 + (d - 128) in
             if continuation b \<and> continuation c \<and> continuation d \<and> 65536 \<le> p \<and> p < 1114112
             then map_option ((#) p) (decode_utf8 r) else None
         | _ \<Rightarrow> None)
      else None)"

text \<open>An ASCII literal as text.\<close>

definition ascii :: "string \<Rightarrow> codepoints" where
  "ascii s = map of_char s"

section \<open>Events\<close>

record sse_event =
  v_event :: codepoints
  v_data :: codepoints
  v_id :: "codepoints option"

datatype raw_line = Bytes "nat list" | Text codepoints

record sse_state =
  q_event :: codepoints
  q_data :: "codepoints list"
  q_id :: "codepoints option"
  q_first :: bool

definition sse_start :: sse_state where
  "sse_start = \<lparr>q_event = ascii ''message'', q_data = [], q_id = None, q_first = True\<rparr>"

definition line_text :: "raw_line \<Rightarrow> codepoints result" where
  "line_text raw = (case raw of
      Text t \<Rightarrow> Inr t
    | Bytes bs \<Rightarrow> (case decode_utf8 bs of
        None \<Rightarrow> raise SSEProtocolError ''order event stream is not valid UTF-8'' | Some t \<Rightarrow> Inr t))"

definition rstrip_newlines :: "codepoints \<Rightarrow> codepoints" where
  "rstrip_newlines t = rev (dropWhile (\<lambda>c. c = 13 \<or> c = 10) (rev t))"

text \<open>\<open>line.partition(":")\<close> and the removal of one space after the colon.\<close>

definition field_of :: "codepoints \<Rightarrow> codepoints \<times> codepoints" where
  "field_of line =
     (let field = takeWhile (\<lambda>c. c \<noteq> 58) line; rest = dropWhile (\<lambda>c. c \<noteq> 58) line; value = tl rest
      in (field, if rest \<noteq> [] \<and> value \<noteq> [] \<and> hd value = 32 then tl value else value))"

fun join_lines :: "codepoints list \<Rightarrow> codepoints" where
  "join_lines [] = []"
| "join_lines [x] = x"
| "join_lines (x # y # xs) = x @ 10 # join_lines (y # xs)"

text \<open>One line: the events it completes (none or one) and the next state.\<close>

definition sse_line :: "sse_state \<Rightarrow> raw_line \<Rightarrow> (sse_event list \<times> sse_state) result" where
  "sse_line s raw =
     rbind (line_text raw) (\<lambda>t.
     let stripped = rstrip_newlines t;
         line = (if q_first s \<and> stripped \<noteq> [] \<and> hd stripped = 65279 then tl stripped else stripped);
         s1 = s\<lparr>q_first := False\<rparr>
     in if line = [] then
          Inr (if q_data s = [] then [] else [\<lparr>v_event = q_event s, v_data = join_lines (q_data s), v_id = q_id s\<rparr>],
               s1\<lparr>q_event := ascii ''message'', q_data := []\<rparr>)
        else if hd line = 58 then Inr ([], s1)
        else
          let (field, value) = field_of line in
          Inr ([],
            if field = ascii ''event'' then s1\<lparr>q_event := value\<rparr>
            else if field = ascii ''data'' then s1\<lparr>q_data := q_data s @ [value]\<rparr>
            else if field = ascii ''id'' \<and> 0 \<notin> set value then s1\<lparr>q_id := Some value\<rparr>
            else s1))"

text \<open>The events yielded by the generator, and the exception that ends it if there is one.\<close>

fun sse_events :: "sse_state \<Rightarrow> raw_line list \<Rightarrow> sse_event list \<times> exn option" where
  "sse_events s [] = ([], None)"
| "sse_events s (raw # lines) =
     (case sse_line s raw of
        Inl e \<Rightarrow> ([], Some e)
      | Inr (events, s') \<Rightarrow> (let (rest, err) = sse_events s' lines in (events @ rest, err)))"

definition iter_sse_events :: "raw_line list \<Rightarrow> sse_event list \<times> exn option" where
  "iter_sse_events lines = sse_events sse_start lines"

section \<open>Orders\<close>

record received_order =
  w_order :: dict
  w_event_id :: "codepoints option"
  w_monotonic :: pyfloat
  w_epoch :: pyfloat

definition blank :: "json \<Rightarrow> bool" where
  "blank v \<longleftrightarrow> strip (py_str v) = []"

definition order_of :: "(codepoints \<Rightarrow> json option) \<Rightarrow> sse_event \<Rightarrow> dict result" where
  "order_of loads v = (case loads (v_data v) of
      None \<Rightarrow> raise SSEProtocolError ''order event data is not valid JSON''
    | Some (JObj order) \<Rightarrow>
        if blank (dict_get order ''order_id'' (JStr [])) then raise SSEProtocolError ''order event omitted order_id''
        else if blank (dict_get order ''status'' (JStr [])) then raise SSEProtocolError ''order event omitted status''
        else Inr order
    | Some _ \<Rightarrow> raise SSEProtocolError ''order event data is not a JSON object'')"

text \<open>The loop over the events; \<open>clock\<close> and \<open>epoch\<close> give the successive readings of the two clocks.\<close>

fun receive_orders ::
  "(codepoints \<Rightarrow> json option) \<Rightarrow> (nat \<Rightarrow> pyfloat) \<Rightarrow> (nat \<Rightarrow> pyfloat) \<Rightarrow> nat \<Rightarrow> exn option \<Rightarrow> sse_event list
   \<Rightarrow> received_order list \<times> exn option" where
  "receive_orders loads clock epoch n err [] = ([], err)"
| "receive_orders loads clock epoch n err (v # vs) =
     (if v_event v \<noteq> ascii ''order'' then receive_orders loads clock epoch n err vs
      else case order_of loads v of
        Inl e \<Rightarrow> ([], Some e)
      | Inr order \<Rightarrow>
          (let (rest, err') = receive_orders loads clock epoch (Suc n) err vs
           in (\<lparr>w_order = order, w_event_id = v_id v, w_monotonic = clock n, w_epoch = epoch n\<rparr> # rest, err')))"

text \<open>\<open>iter_received_orders\<close> on a response whose raw stream has the given lines, \<open>None\<close> when it cannot be read
  line by line: the orders, the exception that ends the iteration, and whether the response was released.\<close>

definition iter_received_orders ::
  "(codepoints \<Rightarrow> json option) \<Rightarrow> (nat \<Rightarrow> pyfloat) \<Rightarrow> (nat \<Rightarrow> pyfloat) \<Rightarrow> raw_line list option
   \<Rightarrow> received_order list \<times> exn option \<times> bool" where
  "iter_received_orders loads clock epoch response = (case response of
      None \<Rightarrow> ([], Some (Exn SSEProtocolError ''order event response is not streamable''), False)
    | Some lines \<Rightarrow>
        (let (events, err) = iter_sse_events (takeWhile (\<lambda>l. l \<noteq> Bytes [] \<and> l \<noteq> Text []) lines);
             (orders, err') = receive_orders loads clock epoch 0 err events
         in (orders, err', True)))"

end
