(* ===== verification/Sse_Props.thy ===== *)
theory Sse_Props
  imports Sse
begin

text \<open>
  Correctness of the decoder of server-sent events: what a server that follows the format sends is what the
  load generator receives. The sending side is a reference definition: UTF-8 lines with the fields \<open>id\<close>,
  \<open>event\<close> and \<open>data\<close>, one \<open>data\<close> line per line of the payload, comments as keep-alives.
\<close>

section \<open>UTF-8 encoding\<close>

definition code_point :: "nat \<Rightarrow> bool" where
  "code_point p \<longleftrightarrow> p < 1114112 \<and> \<not> (55296 \<le> p \<and> p < 57344)"

definition encode_point :: "nat \<Rightarrow> nat list" where
  "encode_point p =
     (if p < 128 then [p]
      else if p < 2048 then [192 + p div 64, 128 + p mod 64]
      else if p < 65536 then [224 + p div 4096, 128 + p div 64 mod 64, 128 + p mod 64]
      else [240 + p div 262144, 128 + p div 4096 mod 64, 128 + p div 64 mod 64, 128 + p mod 64])"

definition encode_utf8 :: "codepoints \<Rightarrow> nat list" where
  "encode_utf8 t = concat (map encode_point t)"

lemma continuation_of_digit [simp]: "continuation (128 + d mod 64)"
  by (simp add: continuation_def)

lemma three_digits: "(p div 4096) * 4096 + (p div 64 mod 64) * 64 + p mod 64 = (p :: nat)"
proof -
  have "p div 64 = p div 4096 * 64 + p div 64 mod 64"
    using div_mult_mod_eq [of "p div 64" 64] by (simp add: div_mult2_eq [symmetric])
  moreover have "p = p div 64 * 64 + p mod 64" by simp
  ultimately show ?thesis by linarith
qed

lemma four_digits: "(p div 262144) * 262144 + (p div 4096 mod 64) * 4096 + (p div 64 mod 64) * 64 + p mod 64 = (p :: nat)"
proof -
  have "p div 4096 = p div 262144 * 64 + p div 4096 mod 64"
    using div_mult_mod_eq [of "p div 4096" 64] by (simp add: div_mult2_eq [symmetric])
  with three_digits [of p] show ?thesis by linarith
qed

lemma decode_encode_point:
  assumes "code_point p"
  shows "decode_utf8 (encode_point p @ rest) = map_option ((#) p) (decode_utf8 rest)"
proof -
  consider "p < 128" | "128 \<le> p" "p < 2048" | "2048 \<le> p" "p < 65536" | "65536 \<le> p" by linarith
  then show ?thesis
  proof cases
    case 1
    then show ?thesis by (simp add: encode_point_def)
  next
    case 2
    then have "2 \<le> p div 64" "p div 64 < 32" by (simp_all add: less_mult_imp_div_less div_le_mono [of 128 p 64, simplified])
    with 2 show ?thesis by (simp add: encode_point_def)
  next
    case 3
    then have "p div 4096 < 16" by (simp add: less_mult_imp_div_less)
    with 3 assms show ?thesis
      by (simp add: encode_point_def code_point_def Let_def three_digits)
  next
    case 4
    with assms have "p div 262144 < 5" by (simp add: code_point_def less_mult_imp_div_less)
    with 4 assms show ?thesis
      by (simp add: encode_point_def code_point_def Let_def four_digits)
  qed
qed

lemma decode_encode_utf8: "list_all code_point t \<Longrightarrow> decode_utf8 (encode_utf8 t) = Some t"
  by (induction t) (simp_all add: encode_utf8_def decode_encode_point)

section \<open>The sending side\<close>

datatype sent = Keepalive codepoints | Sent (s_event: codepoints) (s_data: codepoints) (s_id: "codepoints option")

text \<open>A value that fits on one line.\<close>

definition one_line :: "codepoints \<Rightarrow> bool" where
  "one_line t \<longleftrightarrow> list_all code_point t \<and> 10 \<notin> set t \<and> 13 \<notin> set t"

definition wire :: "codepoints \<Rightarrow> raw_line" where
  "wire line = Bytes (encode_utf8 (line @ [10]))"

definition field_line :: "string \<Rightarrow> codepoints \<Rightarrow> raw_line" where
  "field_line name v = wire (ascii name @ 58 # 32 # v)"

text \<open>The lines of a payload: \<open>split_lines\<close> is the inverse of \<open>join_lines\<close>.\<close>

fun split_lines :: "codepoints \<Rightarrow> codepoints list" where
  "split_lines [] = [[]]"
| "split_lines (c # cs) = (if c = 10 then [] # split_lines cs else (c # hd (split_lines cs)) # tl (split_lines cs))"

fun frame :: "sent \<Rightarrow> raw_line list" where
  "frame (Keepalive c) = [wire (58 # c)]"
| "frame (Sent e d i) =
     (case i of None \<Rightarrow> [] | Some v \<Rightarrow> [field_line ''id'' v]) @
     field_line ''event'' e # map (field_line ''data'') (split_lines d) @ [wire []]"

fun well_formed :: "sent \<Rightarrow> bool" where
  "well_formed (Keepalive c) = one_line c"
| "well_formed (Sent e d i) =
     (one_line e \<and> list_all code_point d \<and> 13 \<notin> set d \<and> (case i of None \<Rightarrow> True | Some v \<Rightarrow> one_line v \<and> 0 \<notin> set v))"

text \<open>What the receiver should get: an event without an id carries the last id that was sent.\<close>

fun expected_events :: "codepoints option \<Rightarrow> sent list \<Rightarrow> sse_event list" where
  "expected_events known [] = []"
| "expected_events known (Keepalive c # xs) = expected_events known xs"
| "expected_events known (Sent e d i # xs) =
     (let current = (case i of None \<Rightarrow> known | Some v \<Rightarrow> Some v)
      in \<lparr>v_event = e, v_data = d, v_id = current\<rparr> # expected_events current xs)"

section \<open>One line\<close>

lemma split_lines_not_Nil [simp]: "split_lines t \<noteq> []"
  by (cases t) simp_all

lemma join_split_lines: "join_lines (split_lines t) = t"
proof (induction t)
  case (Cons c t)
  then show ?case by (cases "split_lines t"; cases "tl (split_lines t)") auto
qed simp

lemma split_lines_one_line:
  assumes "list_all code_point t" and "13 \<notin> set t"
  shows "list_all one_line (split_lines t)"
  using assms
proof (induction t)
  case (Cons c t)
  then show ?case by (cases "split_lines t") (auto simp: one_line_def)
qed (simp add: one_line_def)

lemma list_all_code_point_ascii [simp]: "list_all code_point (ascii s)"
proof -
  have "code_point n" if "n < 256" for n using that by (simp add: code_point_def)
  then show ?thesis by (simp add: list_all_iff ascii_def)
qed

lemma line_text_wire:
  assumes "one_line t"
  shows "line_text (wire t) = Inr (t @ [10])"
  using assms by (simp add: wire_def line_text_def one_line_def decode_encode_utf8 code_point_def)

lemma rstrip_one_line:
  assumes "one_line t"
  shows "rstrip_newlines (t @ [10]) = t"
proof -
  have "dropWhile (\<lambda>c. c = 13 \<or> c = 10) (rev t) = rev t"
    using assms by (cases t rule: rev_cases) (auto simp: one_line_def)
  then show ?thesis by (simp add: rstrip_newlines_def)
qed

lemma one_line_field:
  assumes "one_line v" and "10 \<notin> set (ascii name)" and "13 \<notin> set (ascii name)"
  shows "one_line (ascii name @ 58 # 32 # v)"
  using assms by (simp add: one_line_def code_point_def)

lemma field_of_field:
  assumes "58 \<notin> set (ascii name)"
  shows "field_of (ascii name @ 58 # 32 # v) = (ascii name, v)"
proof -
  have "takeWhile (\<lambda>c. c \<noteq> 58) (ascii name @ 58 # 32 # v) = ascii name"
    "dropWhile (\<lambda>c. c \<noteq> 58) (ascii name @ 58 # 32 # v) = 58 # 32 # v"
    using assms by (auto simp: takeWhile_append dropWhile_append)
  then show ?thesis by (simp add: field_of_def Let_def)
qed

lemma ascii_fields [simp]:
  "ascii ''event'' = [101, 118, 101, 110, 116]" "ascii ''data'' = [100, 97, 116, 97]" "ascii ''id'' = [105, 100]"
  by (simp_all add: ascii_def)

lemma sse_line_field:
  assumes "one_line v" and "ascii name \<noteq> []" and "hd (ascii name) \<noteq> 65279" and "{10, 13, 58} \<inter> set (ascii name) = {}"
  shows "sse_line s (field_line name v) =
    Inr ([], if ascii name = ascii ''event'' then s\<lparr>q_first := False, q_event := v\<rparr>
      else if ascii name = ascii ''data'' then s\<lparr>q_first := False, q_data := q_data s @ [v]\<rparr>
      else if ascii name = ascii ''id'' \<and> 0 \<notin> set v then s\<lparr>q_first := False, q_id := Some v\<rparr>
      else s\<lparr>q_first := False\<rparr>)"
proof -
  let ?line = "ascii name @ 58 # 32 # v"
  have line: "one_line ?line" using assms by (intro one_line_field) auto
  have field: "field_of ?line = (ascii name, v)" using assms(4) by (intro field_of_field) auto
  have hd: "?line \<noteq> []" "hd ?line \<noteq> 65279" "hd ?line \<noteq> 58" using assms(2-4) by (auto simp: neq_Nil_conv)
  show ?thesis
    unfolding sse_line_def field_line_def line_text_wire [OF line] rbind.simps(2) rstrip_one_line [OF line] Let_def
    by (simp only: hd field simp_thms if_False prod.case)
qed

lemma sse_line_event:
  assumes "one_line v"
  shows "sse_line s (field_line ''event'' v) = Inr ([], s\<lparr>q_first := False, q_event := v\<rparr>)"
  by (subst sse_line_field [OF assms]) simp_all

lemma sse_line_data:
  assumes "one_line v"
  shows "sse_line s (field_line ''data'' v) = Inr ([], s\<lparr>q_first := False, q_data := q_data s @ [v]\<rparr>)"
  by (subst sse_line_field [OF assms]) simp_all

lemma sse_line_id:
  assumes "one_line v" and "0 \<notin> set v"
  shows "sse_line s (field_line ''id'' v) = Inr ([], s\<lparr>q_first := False, q_id := Some v\<rparr>)"
  by (subst sse_line_field [OF assms(1)]) (simp_all add: assms(2))

lemma sse_line_comment:
  assumes "one_line c"
  shows "sse_line s (wire (58 # c)) = Inr ([], s\<lparr>q_first := False\<rparr>)"
proof -
  have line: "one_line (58 # c)" using assms by (simp add: one_line_def code_point_def)
  show ?thesis
    unfolding sse_line_def line_text_wire [OF line] rbind.simps(2) rstrip_one_line [OF line] Let_def by simp
qed

lemma sse_line_blank:
  "sse_line s (wire []) =
     Inr (if q_data s = [] then [] else [\<lparr>v_event = q_event s, v_data = join_lines (q_data s), v_id = q_id s\<rparr>],
          s\<lparr>q_first := False, q_event := ascii ''message'', q_data := []\<rparr>)"
proof -
  have "one_line []" by (simp add: one_line_def)
  from line_text_wire [OF this] rstrip_one_line [OF this] show ?thesis by (simp add: sse_line_def Let_def)
qed

section \<open>Frames\<close>

lemma sse_events_data:
  assumes "list_all one_line ds" and "\<not> q_first s"
  shows "sse_events s (map (field_line ''data'') ds @ rest) = sse_events (s\<lparr>q_data := q_data s @ ds\<rparr>) rest"
  using assms
proof (induction ds arbitrary: s)
  case (Cons d ds)
  then show ?case
    using Cons.IH [of "s\<lparr>q_data := q_data s @ [d]\<rparr>"] by (cases s) (simp add: sse_line_data split_beta)
qed simp

lemma sse_events_frame:
  assumes "well_formed x" and "q_data s = []" and "q_event s = ascii ''message''"
  shows "sse_events s (frame x @ rest) =
    (let next_state = s\<lparr>q_first := False, q_id := (case x of Sent e d (Some v) \<Rightarrow> Some v | _ \<Rightarrow> q_id s)\<rparr>;
         (events, err) = sse_events next_state rest
     in (expected_events (q_id s) [x] @ events, err))"
proof (cases x)
  case (Keepalive c)
  with assms show ?thesis by (simp add: sse_line_comment split_beta)
next
  case (Sent e d i)
  have lines: "list_all one_line (split_lines d)" using assms(1) Sent by (simp add: split_lines_one_line)
  define t where "t = s\<lparr>q_first := False, q_id := (case i of None \<Rightarrow> q_id s | Some v \<Rightarrow> Some v)\<rparr>"
  have "sse_events s (frame x @ rest) =
      sse_events (t\<lparr>q_event := e\<rparr>) (map (field_line ''data'') (split_lines d) @ wire [] # rest)"
    using assms(1) Sent by (cases i; cases s) (simp_all add: t_def sse_line_id sse_line_event split_beta)
  also have "\<dots> = sse_events (t\<lparr>q_event := e, q_data := split_lines d\<rparr>) (wire [] # rest)"
    by (subst sse_events_data [OF lines]) (simp_all add: t_def assms(2))
  also have "\<dots> = (let (events, err) = sse_events (t\<lparr>q_event := ascii ''message'', q_data := []\<rparr>) rest
      in (\<lparr>v_event = e, v_data = d, v_id = q_id t\<rparr> # events, err))"
    by (cases s) (simp add: sse_line_blank join_split_lines split_beta t_def)
  also have "t\<lparr>q_event := ascii ''message'', q_data := []\<rparr> = t" using assms(2,3) by (cases s) (simp add: t_def)
  finally show ?thesis using Sent by (cases i) (simp_all add: t_def split_beta Let_def)
qed

lemma sse_events_frames:
  assumes "list_all well_formed xs" and "q_data s = []" and "q_event s = ascii ''message''"
  shows "sse_events s (concat (map frame xs)) = (expected_events (q_id s) xs, None)"
  using assms
proof (induction xs arbitrary: s)
  case (Cons x xs)
  then show ?case
    unfolding list.map(2) concat.simps(2)
    by (subst sse_events_frame; cases x) (auto simp: Let_def split: option.splits)
qed simp

section \<open>Properties\<close>

text \<open>C24. The decoder of server-sent events inverts the format: whatever events and keep-alive comments a server
  sends as UTF-8 lines, with the payload of an event spread over as many \<open>data\<close> lines as it has lines, the generator
  yields exactly the events, in order, with their type, their payload and the last id that was sent, and ends
  without an exception.\<close>

theorem sse_round_trip:
  assumes "list_all well_formed xs"
  shows "iter_sse_events (concat (map frame xs)) = (expected_events None xs, None)"
  unfolding iter_sse_events_def by (subst sse_events_frames [OF assms]) (simp_all add: sse_start_def)

theorem sse_round_trip_witness:
  "iter_sse_events (concat (map frame
      [Keepalive [32, 8364], Sent (ascii ''order'') [123, 10, 125, 128230] (Some [55]), Sent (ascii ''order'') [] None]))
   = ([\<lparr>v_event = ascii ''order'', v_data = [123, 10, 125, 128230], v_id = Some [55]\<rparr>,
       \<lparr>v_event = ascii ''order'', v_data = [], v_id = Some [55]\<rparr>], None)"
  by (subst sse_round_trip) (simp_all add: one_line_def code_point_def ascii_def Let_def)

end
