(* ===== verification/Saturation.thy ===== *)
theory Saturation
  imports Py_Records Effects Bench_Config
begin

text \<open>
  The saturation ladder: \<open>src/benchmarkservice/saturation.py\<close>, the process that serves its NATS backend
  (\<open>saturation_nats_bridge.py\<close>) and the ladder of \<open>SaturationDriver\<close> in \<open>locustfile.py\<close>. Every worker climbs
  the same ladder; after each rung the workers publish their progress, worker 0 decides and the others wait
  for its decision. A worker is a tree of requests (\<open>Ext\<close>): the operations of the coordination backend, the
  clock, and the measurements of its own process, whose answers are arbitrary.
\<close>

section \<open>Decision of a rung\<close>

definition PENDING_STREAMS :: "string list" where
  "PENDING_STREAMS = [''BOUTIQUE_COMMANDS'', ''BOUTIQUE_EVENTS'']"

definition RAPID_PENDING_GROWTH_PER_SECOND :: pyfloat where
  "RAPID_PENDING_GROWTH_PER_SECOND = Fin 10"

definition COORDINATION_TIMEOUT_SECONDS :: pyfloat where
  "COORDINATION_TIMEOUT_SECONDS = Fin 60"

definition pending_step :: "dict \<Rightarrow> (string \<times> pyfloat) list \<times> bool \<Rightarrow> ((string \<times> pyfloat) list \<times> bool) result" where
  "pending_step metric s =
     (let (consumers, found) = s; labels = dict_get metric ''labels'' (JObj []) in
      if \<not> named ''jetstream_consumer_num_pending'' metric then Inr s else
      rbind (jget labels ''stream_name'' JNull) (\<lambda>a. rbind (jget labels ''stream'' JNull) (\<lambda>b.
      rbind (jget labels ''consumer_name'' JNull) (\<lambda>c. rbind (jget labels ''consumer'' JNull) (\<lambda>d.
      let stream = j_or a b; consumer = j_or c d in
      rbind (in_strings stream PENDING_STREAMS) (\<lambda>known.
      if \<not> known \<or> \<not> truthy consumer then Inr s else
      rbind (get_float metric ''value'' (JInt 0)) (\<lambda>value.
      Inr (alter (Fin 0) (\<lambda>old. f_max value old) (py_str stream @ ''/'' @ py_str consumer) consumers, True))))))))"

definition consumer_pending_total :: "dict list \<Rightarrow> pyfloat option result" where
  "consumer_pending_total metrics =
     rbind (rfold pending_step metrics ([], False)) (\<lambda>(consumers, found).
     Inr (if found then Some (f_sum (map snd consumers)) else None))"

text \<open>\<open>n / duration\<close> for an integer \<open>n\<close>, and the rounding of an optional number.\<close>

definition per_second :: "int \<Rightarrow> pyfloat \<Rightarrow> pyfloat result" where
  "per_second n duration = rbind (float_of_int n) (\<lambda>f. f_quot f duration)"

definition rounded :: "pyfloat option \<Rightarrow> json" where
  "rounded x = jfloat_opt (map_option (f_round 6) x)"

definition evaluate_rung ::
  "string \<Rightarrow> pyfloat \<Rightarrow> pyfloat \<Rightarrow> int \<Rightarrow> int option \<Rightarrow> pyfloat option \<Rightarrow> pyfloat option \<Rightarrow> pyfloat option \<Rightarrow> bool \<Rightarrow> bool
   \<Rightarrow> dict result" where
  "evaluate_rung application target_rate dur completed processed previous_goodput pending_start pending_end final_rung
     maximum_rate_reached =
     (let duration = f_max dur (Fin (1 / 1000));
          processed_count = (if application \<noteq> ''NATS'' then Some completed else processed);
          growth = (case (pending_start, pending_end) of (Some a, Some b) \<Rightarrow> Some (f_sub b a) | _ \<Rightarrow> None)
      in
      rbind (per_second completed duration) (\<lambda>observed_goodput.
      rbind (case processed_count of None \<Rightarrow> Inr None | Some n \<Rightarrow> rbind (per_second n duration) (\<lambda>g. Inr (Some g)))
        (\<lambda>processing_goodput.
      rbind (case growth of None \<Rightarrow> Inr None | Some g \<Rightarrow> rbind (f_quot g duration) (\<lambda>q. Inr (Some q))) (\<lambda>growth_per_second.
      let rapid = (application = ''NATS'' \<and>
                   (case growth_per_second of None \<Rightarrow> False | Some g \<Rightarrow> f_le RAPID_PENDING_GROWTH_PER_SECOND g));
          flat = (case (previous_goodput, processing_goodput) of (Some p, Some g) \<Rightarrow> f_le g p | _ \<Rightarrow> False)
      in Inr
        [(''target_requests_per_second'', JFloat target_rate),
         (''duration_seconds'', JFloat (f_round 6 duration)),
         (''completed_during_rung'', JInt completed),
         (''client_observed_completed_during_rung'', JInt completed),
         (''observed_goodput_orders_per_second'', JFloat (f_round 6 observed_goodput)),
         (''processed_during_rung'', jint_opt processed_count),
         (''processing_goodput_orders_per_second'', rounded processing_goodput),
         (''processing_goodput_source'',
            if application = ''NATS'' \<and> processed_count \<noteq> None then JStr ''nats_order_completed_events''
            else if application \<noteq> ''NATS'' then JStr ''client_outcomes'' else JNull),
         (''previous_goodput_orders_per_second'', rounded previous_goodput),
         (''pending_start'', jfloat_opt pending_start),
         (''pending_end'', jfloat_opt pending_end),
         (''pending_growth'', jfloat_opt growth),
         (''pending_growth_per_second'', rounded growth_per_second),
         (''rapid_pending_growth_threshold_per_second'', JFloat RAPID_PENDING_GROWTH_PER_SECOND),
         (''maximum_rate_reached'', JBool maximum_rate_reached),
         (''stop'', JBool final_rung),
         (''saturated'', JBool (rapid \<or> flat)),
         (''saturation_reason'',
            if rapid then JStr ''nats_pending_increasing_rapidly''
            else if flat then JStr ''goodput_stopped_increasing'' else JNull),
         (''stop_reason'', if final_rung then JStr ''maximum_duration_reached'' else JNull)]))))"

section \<open>The coordinator\<close>

datatype sat_eff =
    CPut string dict | CGet string
  | MonotonicClock | Nap
  | SaveDecision dict
  | SetRung nat pyfloat | CompletedCount | CompletedSample | LatestPending | ElapsedNow
  | Window int pyfloat "nat option" | EarlyDrain

record coordinator =
  co_application :: string
  co_index :: nat
  co_workers :: nat
  co_run :: string
  co_previous :: "pyfloat option"

record rung_call =
  r_rung :: nat
  r_rate :: pyfloat
  r_started :: pyfloat
  r_ended :: pyfloat
  r_completed_before :: int
  r_completed_after :: int
  r_processed_before :: "dict option"
  r_processed_after :: "dict option"
  r_pending_start :: "pyfloat option"
  r_pending_end :: "pyfloat option"
  r_final :: bool
  r_maximum :: bool

definition sat_name :: "string \<Rightarrow> nat \<Rightarrow> string \<Rightarrow> string" where
  "sat_name run_id rung suffix = run_id @ ''/saturation/'' @ pad4 rung @ ''/'' @ suffix @ ''.json''"

definition progress_name :: "string \<Rightarrow> nat \<Rightarrow> nat \<Rightarrow> string" where
  "progress_name run_id rung i = sat_name run_id rung (''worker-'' @ pad4 i)"

definition decision_name :: "string \<Rightarrow> nat \<Rightarrow> string" where
  "decision_name run_id rung = sat_name run_id rung ''decision''"

definition jdict_opt :: "dict option \<Rightarrow> json" where
  "jdict_opt x = (case x of None \<Rightarrow> JNull | Some d \<Rightarrow> JObj d)"

definition progress_doc :: "coordinator \<Rightarrow> rung_call \<Rightarrow> dict" where
  "progress_doc co call =
     [(''worker_index'', JInt (int (co_index co))),
      (''completed'', JInt (max 0 (r_completed_after call - r_completed_before call))),
      (''processed_before'', jdict_opt (r_processed_before call)),
      (''processed_after'', jdict_opt (r_processed_after call)),
      (''pending_start'', jfloat_opt (r_pending_start call)),
      (''pending_end'', jfloat_opt (r_pending_end call))]"

text \<open>The number of orders processed by the application, or why it is not known.\<close>

definition observed_processing :: "string \<Rightarrow> dict list \<Rightarrow> (int option \<times> string option) result" where
  "observed_processing application progresses =
     (case find (\<lambda>p. is_dict (dict_get p ''processed_before'' JNull) \<and> is_dict (dict_get p ''processed_after'' JNull)) progresses of
        None \<Rightarrow> Inr (None, if application = ''NATS'' then Some ''NATS completed-order observer was unavailable'' else None)
      | Some p \<Rightarrow>
          rbind (as_dict (dict_get p ''processed_before'' JNull)) (\<lambda>before.
          rbind (as_dict (dict_get p ''processed_after'' JNull)) (\<lambda>after.
          if \<not> py_eq (dict_get before ''observer_id'' JNull) (dict_get after ''observer_id'' JNull)
          then Inr (None, Some ''NATS completed-order observer lost continuity'')
          else
            rbind (get_int after ''total'' (JInt (- 1))) (\<lambda>last.
            rbind (get_int before ''total'' (JInt 0)) (\<lambda>first.
            if last < first then Inr (None, Some ''NATS completed-order observer count decreased'')
            else rbind (get_int after ''total'' (JInt 0)) (\<lambda>total. Inr (Some (total - first), None)))))))"

definition rung_fields :: "coordinator \<Rightarrow> rung_call \<Rightarrow> string option \<Rightarrow> dict" where
  "rung_fields co call reason =
     [(''rung'', JInt (int (r_rung call))),
      (''started_elapsed_seconds'', JFloat (f_round 6 (r_started call))),
      (''ended_elapsed_seconds'', JFloat (f_round 6 (r_ended call))),
      (''worker_count'', JInt (int (co_workers co))),
      (''processing_goodput_unavailable_reason'', case reason of None \<Rightarrow> JNull | Some m \<Rightarrow> JStr m)]"

text \<open>\<open>finish_rung\<close> once the progress of every worker is known.\<close>

definition decide :: "coordinator \<Rightarrow> rung_call \<Rightarrow> dict list \<Rightarrow> (dict \<times> coordinator) result" where
  "decide co call progresses =
     (let duration = f_max (Fin (1 / 1000)) (f_sub (r_ended call) (r_started call)) in
      rbind (observed_processing (co_application co) progresses) (\<lambda>(processed, reason).
      rbind (rmap (\<lambda>p. get_int p ''completed'' (JInt 0)) progresses) (\<lambda>counts.
      rbind (evaluate_rung (co_application co) (r_rate call) duration (sum_list counts) processed (co_previous co)
               (r_pending_start call) (r_pending_end call) (r_final call) (r_maximum call)) (\<lambda>evaluated.
      let decision = dict_update evaluated (rung_fields co call reason);
          goodput = dict_get decision ''processing_goodput_orders_per_second'' JNull
      in if goodput = JNull then Inr (decision, co)
         else rbind (py_float goodput) (\<lambda>g. Inr (decision, co\<lparr>co_previous := Some g\<rparr>))))))"

text \<open>\<open>_wait\<close>: polling until the record exists or a minute has passed. The source sleeps 50 ms between polls, so
  \<open>WAIT_FUEL\<close> polls are enough; a poll beyond them would be reported as an exception of its own.\<close>

definition WAIT_FUEL :: nat where
  "WAIT_FUEL = 1201"

definition out_of_fuel :: exn where
  "out_of_fuel = Exn OtherError ''polls exhausted''"

primrec wait_loop :: "nat \<Rightarrow> string \<Rightarrow> pyfloat \<Rightarrow> (sat_eff, dict) prog" where
  "wait_loop 0 name deadline = Raise out_of_fuel"
| "wait_loop (Suc n) name deadline =
     Ext (CGet name) (\<lambda>answer. case answer of
       Inr j \<Rightarrow> lift (as_dict j) Ret
     | Inl e \<Rightarrow>
         if \<not> is_a (exn_cls e) RecordNotFound then Raise e
         else Ext MonotonicClock (\<lambda>t. lift (rbind t arith) (\<lambda>now.
           if f_le deadline now
           then Raise (Exn TimeoutError (''timed out waiting for saturation coordination '' @ name))
           else Ext Nap (\<lambda>slept. lift slept (\<lambda>_. wait_loop n name deadline)))))"

definition wait :: "nat \<Rightarrow> string \<Rightarrow> (sat_eff, dict) prog" where
  "wait polls name =
     Ext MonotonicClock (\<lambda>t. lift (rbind t arith) (\<lambda>now.
       wait_loop polls name (f_add now COORDINATION_TIMEOUT_SECONDS)))"

primrec collect :: "nat \<Rightarrow> string \<Rightarrow> nat \<Rightarrow> nat list \<Rightarrow> (sat_eff, dict list) prog" where
  "collect polls run_id rung [] = Ret []"
| "collect polls run_id rung (i # is) =
     bindp (wait polls (progress_name run_id rung i)) (\<lambda>p. bindp (collect polls run_id rung is) (\<lambda>ps. Ret (p # ps)))"

definition conclude :: "coordinator \<Rightarrow> rung_call \<Rightarrow> dict list \<Rightarrow> (sat_eff, dict \<times> coordinator) prog" where
  "conclude co call progresses =
     lift (decide co call progresses) (\<lambda>(decision, co').
       let save = Ext (SaveDecision decision) (\<lambda>r. lift r (\<lambda>_. Ret (decision, co'))) in
       if 1 < co_workers co
       then Ext (CPut (decision_name (co_run co) (r_rung call)) decision) (\<lambda>r. lift r (\<lambda>_. save))
       else save)"

definition finish_rung :: "nat \<Rightarrow> coordinator \<Rightarrow> rung_call \<Rightarrow> (sat_eff, dict \<times> coordinator) prog" where
  "finish_rung polls co call =
     (let progress = progress_doc co call; run_id = co_run co; rung = r_rung call in
      if co_workers co \<le> 1 then conclude co call [progress]
      else Ext (CPut (progress_name run_id rung (co_index co)) progress) (\<lambda>r. lift r (\<lambda>_.
        if co_index co = 0
        then bindp (collect polls run_id rung [0..<co_workers co]) (conclude co call)
        else bindp (wait polls (decision_name run_id rung)) (\<lambda>d. Ret (d, co)))))"

section \<open>The ladder\<close>

definition opt_dict :: "json \<Rightarrow> dict option" where
  "opt_dict j = (case j of JObj d \<Rightarrow> Some d | _ \<Rightarrow> None)"

text \<open>One rung of \<open>SaturationDriver.schedule\<close>: the load window and the measurements around it.\<close>

definition climb :: "nat \<Rightarrow> benchmark_config \<Rightarrow> coordinator \<Rightarrow> nat \<Rightarrow> int \<Rightarrow> int \<Rightarrow> (sat_eff, dict \<times> coordinator) prog" where
  "climb polls c co rung duration remaining =
     (let target_rate = f_min (saturation_max_rate c) (f_add (saturation_start_rate c) (Fin (of_nat rung * 10))) in
      Ext (SetRung rung target_rate) (\<lambda>r. lift r (\<lambda>_.
      Ext CompletedCount (\<lambda>r. lift (rbind r py_int) (\<lambda>completed_before.
      Ext CompletedSample (\<lambda>r. lift r (\<lambda>processed_before.
      Ext LatestPending (\<lambda>r. lift r (\<lambda>pending_start.
      Ext ElapsedNow (\<lambda>r. lift (rbind r arith) (\<lambda>started.
      Ext (Window duration target_rate (Some rung)) (\<lambda>r. lift r (\<lambda>_.
      Ext CompletedSample (\<lambda>r. lift r (\<lambda>processed_after.
      Ext ElapsedNow (\<lambda>r. lift (rbind r arith) (\<lambda>ended.
      Ext CompletedCount (\<lambda>r. lift (rbind r py_int) (\<lambda>completed_after.
      Ext LatestPending (\<lambda>r. lift r (\<lambda>pending_end.
      finish_rung polls co
        \<lparr>r_rung = rung, r_rate = target_rate, r_started = started, r_ended = ended,
         r_completed_before = completed_before, r_completed_after = completed_after,
         r_processed_before = opt_dict processed_before, r_processed_after = opt_dict processed_after,
         r_pending_start = num_val pending_start, r_pending_end = num_val pending_end,
         r_final = (remaining - duration \<le> 0), r_maximum = f_le (saturation_max_rate c) target_rate\<rparr>)))))))))))))))))))))"

text \<open>The loop over the rungs, with the decisions of the rungs climbed. With a step below one second the loop of the
  source would not end; \<open>from_values\<close> accepts no such step.\<close>

function ladder ::
  "nat \<Rightarrow> benchmark_config \<Rightarrow> coordinator \<Rightarrow> int \<Rightarrow> nat \<Rightarrow> dict list \<Rightarrow> (sat_eff, dict list) prog" where
  "ladder polls c co remaining rung decisions =
     (if remaining \<le> 0 then Ret decisions
      else if saturation_step_seconds c \<le> 0 then Raise out_of_fuel
      else
        let duration = min (saturation_step_seconds c) remaining in
        bindp (climb polls c co rung duration remaining) (\<lambda>(decision, co').
          if truthy (dict_get decision ''stop'' JNull)
          then Ext EarlyDrain (\<lambda>r. lift r (\<lambda>_. Ret (decisions @ [decision])))
          else ladder polls c co' (remaining - duration) (rung + 1) (decisions @ [decision])))"
  by pat_completeness auto
termination by (relation "measure (\<lambda>(polls, c, co, remaining, rung, decisions). nat remaining)") auto

declare ladder.simps [simp del]

definition new_coordinator :: "string \<Rightarrow> benchmark_config \<Rightarrow> nat \<Rightarrow> nat \<Rightarrow> coordinator" where
  "new_coordinator run_id c workers i =
     \<lparr>co_application = application_type c, co_index = i, co_workers = workers, co_run = run_id, co_previous = None\<rparr>"

definition schedule :: "nat \<Rightarrow> string \<Rightarrow> benchmark_config \<Rightarrow> nat \<Rightarrow> nat \<Rightarrow> (sat_eff, dict list) prog" where
  "schedule polls run_id c workers i =
     (let climb_all = ladder polls c (new_coordinator run_id c workers i) (duration_seconds c) 0 [] in
      if warmup_seconds c \<noteq> 0
      then Ext (Window (warmup_seconds c) (saturation_start_rate c) None) (\<lambda>r. lift r (\<lambda>_. climb_all))
      else climb_all)"

section \<open>Coordination backends\<close>

text \<open>The directory of \<open>_FileBackend\<close>: file names and the documents stored under them. A put writes a temporary file
  and renames it, so it either has no effect or stores the document.\<close>

definition file_path :: "string \<Rightarrow> string" where
  "file_path name = map (\<lambda>ch. if ch = CHR ''/'' then CHR ''-'' else ch) name"

definition file_put :: "string \<Rightarrow> dict \<Rightarrow> (string \<Rightarrow> json option) \<Rightarrow> string \<Rightarrow> json option" where
  "file_put name v dir = dir(file_path name \<mapsto> JObj v)"

definition file_get :: "string \<Rightarrow> (string \<Rightarrow> json option) \<Rightarrow> json result" where
  "file_get name dir = (case dir (file_path name) of
      None \<Rightarrow> raise RecordNotFound name
    | Some (JObj d) \<Rightarrow> Inr (JObj d)
    | Some _ \<Rightarrow> raise ValueError (''coordination value '' @ name @ '' is not an object''))"

text \<open>The bridge process: one request against the object store, given by its two operations on a state.\<close>

definition exn_name :: "exn_class \<Rightarrow> string" where
  "exn_name cls = (if cls = RecordNotFound then ''RecordNotFound'' else if cls = ValueError then ''ValueError''
     else if cls = RuntimeError then ''RuntimeError'' else if cls = TimeoutError then ''TimeoutError'' else ''Exception'')"

definition failure_response :: "json \<Rightarrow> exn \<Rightarrow> dict" where
  "failure_response request_id e =
     [(''id'', request_id), (''ok'', JBool False), (''error_type'', JStr (exn_name (exn_cls e))), (''error'', JStr (exn_msg e))]"

definition dispatch ::
  "(string \<Rightarrow> dict \<Rightarrow> 's \<Rightarrow> unit result \<times> 's) \<Rightarrow> (string \<Rightarrow> 's \<Rightarrow> json result \<times> 's) \<Rightarrow> dict \<Rightarrow> 's \<Rightarrow> (dict \<times> bool) \<times> 's" where
  "dispatch put_object get_object request s =
     (let request_id = dict_get request ''id'' JNull; operation = dict_get request ''operation'' JNull;
          fail = (\<lambda>e t. ((failure_response request_id e, False), t))
      in if operation = JStr ''put'' then
           (case (dict_get request ''name'' JNull, dict_get request ''value'' JNull) of
              (JStr name, JObj value) \<Rightarrow>
                (case put_object name value s of
                   (Inl e, t) \<Rightarrow> fail e t
                 | (Inr _, t) \<Rightarrow> (([(''id'', request_id), (''ok'', JBool True)], False), t))
            | _ \<Rightarrow> fail (Exn ValueError ''put requires a string name and object value'') s)
         else if operation = JStr ''get'' then
           (case dict_get request ''name'' JNull of
              JStr name \<Rightarrow>
                (case get_object name s of
                   (Inl e, t) \<Rightarrow> fail e t
                 | (Inr (JObj d), t) \<Rightarrow> (([(''id'', request_id), (''ok'', JBool True), (''value'', JObj d)], False), t)
                 | (Inr _, t) \<Rightarrow> fail (Exn ValueError (''coordination value '' @ name @ '' is not an object'')) t)
            | _ \<Rightarrow> fail (Exn ValueError ''get requires a string name'') s)
         else if operation = JStr ''close'' then (([(''id'', request_id), (''ok'', JBool True)], True), s)
         else fail (Exn ValueError ''unknown operation'') s)"

text \<open>What can happen to the exchange of one line with the process: the answer arrives, the pipe breaks before the
  request is read, the process cannot open its store and refuses (with the identifier \<open>None\<close>), or it performs the
  request and its answer is lost or is not JSON.\<close>

datatype exchange = Answered | Broken | Refused exn | Closed | Garbled

record 's bridge =
  g_alive :: bool
  g_request :: int
  g_store :: 's

definition read_response :: "string \<Rightarrow> string \<Rightarrow> int \<Rightarrow> json option \<Rightarrow> dict result" where
  "read_response operation name request_id line = (case line of
      None \<Rightarrow> raise RuntimeError ''saturation NATS coordination process returned invalid JSON''
    | Some (JObj response) \<Rightarrow>
        if \<not> py_eq (dict_get response ''id'' JNull) (JInt request_id)
        then raise RuntimeError ''saturation NATS coordination process returned an unexpected response''
        else if dict_get response ''ok'' JNull \<noteq> JBool True then
          (if dict_get response ''error_type'' JNull = JStr ''RecordNotFound'' then raise RecordNotFound name
           else raise RuntimeError (''saturation NATS coordination '' @ operation @ '' failed: '' @
                  py_str (dict_get response ''error'' (JStr ''unknown error''))))
        else Inr response
    | Some _ \<Rightarrow> raise RuntimeError ''saturation NATS coordination process returned an unexpected response'')"

definition nats_request ::
  "(string \<Rightarrow> dict \<Rightarrow> 's \<Rightarrow> unit result \<times> 's) \<Rightarrow> (string \<Rightarrow> 's \<Rightarrow> json result \<times> 's) \<Rightarrow> exchange
   \<Rightarrow> string \<Rightarrow> string \<Rightarrow> dict \<Rightarrow> 's bridge \<Rightarrow> dict result \<times> 's bridge" where
  "nats_request put_object get_object what operation name arguments b =
     (if \<not> g_alive b then (raise RuntimeError ''saturation NATS coordination process exited'', b)
      else
        let request_id = g_request b + 1; b1 = b\<lparr>g_request := request_id\<rparr>;
            request = [(''id'', JInt request_id), (''operation'', JStr operation)] @ arguments;
            ((response, _), t) = dispatch put_object get_object request (g_store b);
            b2 = b1\<lparr>g_store := t\<rparr>
        in case what of
             Broken \<Rightarrow> (raise RuntimeError ''lost saturation NATS coordination process'', b1\<lparr>g_alive := False\<rparr>)
           | Closed \<Rightarrow> (raise RuntimeError ''saturation NATS coordination process closed its output'', b2\<lparr>g_alive := False\<rparr>)
           | Refused e \<Rightarrow> (read_response operation name request_id (Some (JObj (failure_response JNull e))), b1)
           | Garbled \<Rightarrow> (read_response operation name request_id None, b2)
           | Answered \<Rightarrow> (read_response operation name request_id (Some (JObj response)), b2))"

definition nats_put where
  "nats_put put_object get_object what name v b =
     (case nats_request put_object get_object what ''put'' name [(''name'', JStr name), (''value'', JObj v)] b of
        (Inl e, b') \<Rightarrow> (Inl e, b') | (Inr _, b') \<Rightarrow> (Inr (), b'))"

definition nats_get where
  "nats_get put_object get_object what name b =
     (case nats_request put_object get_object what ''get'' name [(''name'', JStr name)] b of
        (Inl e, b') \<Rightarrow> (Inl e, b')
      | (Inr response, b') \<Rightarrow>
          (case dict_get response ''value'' JNull of
             JObj d \<Rightarrow> (Inr (JObj d), b')
           | _ \<Rightarrow> (raise ValueError (''coordination value '' @ name @ '' is not an object''), b')))"

end
