(* ===== verification/Sat_Protocol.thy ===== *)
theory Sat_Protocol
  imports Saturation
begin

text \<open>
  The coordination protocol of the saturation ladder in every interleaving of the workers. \<open>sat_ok\<close> is a
  weakest-precondition style predicate on the tree of one worker: each record is written at most once, by its
  owner, and satisfies an invariant over the records the worker knows to be stored; a value that is read
  satisfies the invariant too. The locale \<open>coordination\<close> states what a backend promises for the records of a run
  and turns the predicate into an invariant of all workers together. Both backends of the source are
  interpreted, with arbitrary failures, including writes that are stored and not acknowledged.
\<close>

section \<open>What a worker may do\<close>

type_synonym facts = "(string \<times> dict) set"

primrec sat_ok ::
  "string set \<Rightarrow> string set \<Rightarrow> (string \<Rightarrow> dict \<Rightarrow> facts \<Rightarrow> bool) \<Rightarrow> ('a \<Rightarrow> facts \<Rightarrow> string set \<Rightarrow> bool) \<Rightarrow>
   (sat_eff, 'a) prog \<Rightarrow> facts \<Rightarrow> string set \<Rightarrow> bool" where
  "sat_ok names own I Q (Ret a) K W = Q a K W"
| "sat_ok names own I Q (Raise e) K W = True"
| "sat_ok names own I Q (KvGet k c) K W = False"
| "sat_ok names own I Q (KvCreate k v c) K W = False"
| "sat_ok names own I Q (KvUpdate k v n c) K W = False"
| "sat_ok names own I Q (Ext x c) K W = (case x of
      CPut n v \<Rightarrow> n \<in> own \<and> n \<notin> W \<and> I n v K \<and> (\<forall>e. sat_ok names own I Q (c (Inl e)) K (insert n W)) \<and>
        (\<forall>j. sat_ok names own I Q (c (Inr j)) (insert (n, v) K) (insert n W))
    | CGet n \<Rightarrow> n \<in> names \<and> (\<forall>e. sat_ok names own I Q (c (Inl e)) K W) \<and>
        (\<forall>v F. I n v F \<longrightarrow> sat_ok names own I Q (c (Inr (JObj v))) (insert (n, v) K) W)
    | _ \<Rightarrow> \<forall>r. sat_ok names own I Q (c r) K W)"

named_theorems sat_intros
  \<open>introduction rules that walk through the tree of a worker\<close>

text \<open>The requests that do not touch the backend.\<close>

fun own_request :: "sat_eff \<Rightarrow> bool" where
  "own_request (CPut n v) = False"
| "own_request (CGet n) = False"
| "own_request _ = True"

lemma sat_ok_own [sat_intros]:
  assumes "own_request x" and "\<And>r. sat_ok names own I Q (c r) K W"
  shows "sat_ok names own I Q (Ext x c) K W"
  using assms by (cases x) auto

lemma sat_ok_lift [sat_intros]:
  "(\<And>a. r = Inr a \<Longrightarrow> sat_ok names own I Q (f a) K W) \<Longrightarrow> sat_ok names own I Q (lift r f) K W"
  by (cases r) auto

lemma sat_ok_put [sat_intros]:
  assumes "n \<in> own" and "n \<notin> W" and "I n v K"
    and "\<And>j. sat_ok names own I Q (f j) (insert (n, v) K) (insert n W)"
  shows "sat_ok names own I Q (Ext (CPut n v) (\<lambda>r. lift r f)) K W"
  using assms by auto

lemma sat_ok_bindp:
  assumes "sat_ok names own I Q p K W"
    and "\<And>a K' W'. K \<subseteq> K' \<Longrightarrow> W \<subseteq> W' \<Longrightarrow> Q a K' W' \<Longrightarrow> sat_ok names own I Q' (f a) K' W'"
  shows "sat_ok names own I Q' (bindp p f) K W"
  using assms
proof (induction p arbitrary: K W)
  case (Ext x c)
  show ?case
  proof (cases x)
    case (CPut n v)
    have "sat_ok names own I Q' (bindp (c (Inl e)) f) K (insert n W)" for e
      using Ext.prems CPut by (intro Ext.IH) auto
    moreover have "sat_ok names own I Q' (bindp (c (Inr j)) f) (insert (n, v) K) (insert n W)" for j
      using Ext.prems CPut by (intro Ext.IH) auto
    ultimately show ?thesis using Ext.prems(1) CPut by simp
  next
    case (CGet n)
    have "sat_ok names own I Q' (bindp (c (Inl e)) f) K W" for e
      using Ext.prems CGet by (intro Ext.IH) auto
    moreover have "sat_ok names own I Q' (bindp (c (Inr (JObj v))) f) (insert (n, v) K) W" if "I n v F" for v F
      using Ext.prems CGet that by (intro Ext.IH) auto
    ultimately show ?thesis using Ext.prems(1) CGet by auto
  qed (use Ext in auto)
qed auto

text \<open>Waiting: the value found is stored and satisfies the invariant.\<close>

lemma sat_ok_wait_loop:
  assumes "n \<in> names" and "\<And>v F. I n v F \<Longrightarrow> Q v (insert (n, v) K) W"
  shows "sat_ok names own I Q (wait_loop polls n deadline) K W"
proof (induction polls)
  case (Suc polls)
  have "sat_ok names own I Q (Ext MonotonicClock (\<lambda>t. lift (rbind t arith) (\<lambda>now.
           if f_le deadline now
           then Raise (Exn TimeoutError (''timed out waiting for saturation coordination '' @ n))
           else Ext Nap (\<lambda>slept. lift slept (\<lambda>_. wait_loop polls n deadline))))) K W"
    by (intro sat_intros own_request.simps) (auto intro!: sat_intros Suc)
  then show ?case using assms by simp
qed simp

lemma sat_ok_wait:
  assumes "n \<in> names" and "\<And>v F. I n v F \<Longrightarrow> Q v (insert (n, v) K) W"
  shows "sat_ok names own I Q (wait polls n) K W"
  unfolding wait_def by (intro sat_intros sat_ok_wait_loop assms) simp

section \<open>What a backend promises\<close>

definition same_docs :: "string set \<Rightarrow> ('s \<Rightarrow> string \<Rightarrow> dict option) \<Rightarrow> 's \<Rightarrow> 's \<Rightarrow> bool" where
  "same_docs names kv s s' \<longleftrightarrow> (\<forall>n \<in> names. kv s' n = kv s n)"

definition stores_doc :: "string set \<Rightarrow> ('s \<Rightarrow> string \<Rightarrow> dict option) \<Rightarrow> string \<Rightarrow> dict \<Rightarrow> 's \<Rightarrow> 's \<Rightarrow> bool" where
  "stores_doc names kv n v s s' \<longleftrightarrow> (\<forall>m \<in> names. kv s' m = (if m = n then Some v else kv s m))"

definition known_docs :: "string set \<Rightarrow> ('s \<Rightarrow> string \<Rightarrow> dict option) \<Rightarrow> 's \<Rightarrow> facts" where
  "known_docs names kv s = {(n, v). n \<in> names \<and> kv s n = Some v}"

locale coordination =
  fixes H :: "(sat_eff, 's) kv_ops"
    and kv :: "'s \<Rightarrow> string \<Rightarrow> dict option"
    and names :: "string set"
  assumes put_law: "n \<in> names \<Longrightarrow> op_ext H (CPut n v) s = (r, s') \<Longrightarrow>
        same_docs names kv s s' \<and> (\<exists>e. r = Inl e) \<or> stores_doc names kv n v s s'"
    and get_law: "n \<in> names \<Longrightarrow> op_ext H (CGet n) s = (r, s') \<Longrightarrow>
        same_docs names kv s s' \<and> (\<forall>j. r = Inr j \<longrightarrow> (\<exists>v. j = JObj v \<and> kv s n = Some v))"
    and own_law: "own_request x \<Longrightarrow> op_ext H x s = (r, s') \<Longrightarrow> same_docs names kv s s'"
begin

definition inv ::
  "(nat \<Rightarrow> string set) \<Rightarrow> (string \<Rightarrow> dict \<Rightarrow> facts \<Rightarrow> bool) \<Rightarrow> ('a \<Rightarrow> facts \<Rightarrow> string set \<Rightarrow> bool) \<Rightarrow>
   (nat \<Rightarrow> facts) \<Rightarrow> (nat \<Rightarrow> string set) \<Rightarrow> (sat_eff, 's, 'a) config \<Rightarrow> bool" where
  "inv owns I Q Ks Ws c \<longleftrightarrow>
     (\<forall>i < length (snd c). sat_ok names (owns i) I Q (snd c ! i) (Ks i) (Ws i) \<and> Ks i \<subseteq> known_docs names kv (fst c)) \<and>
     (\<forall>n \<in> names. kv (fst c) n \<noteq> None \<longrightarrow> (\<exists>i < length (snd c). n \<in> owns i \<and> n \<in> Ws i)) \<and>
     (\<forall>(n, v) \<in> known_docs names kv (fst c). I n v (known_docs names kv (fst c)))"

lemma known_same: "same_docs names kv s s' \<Longrightarrow> known_docs names kv s' = known_docs names kv s"
  by (auto simp: same_docs_def known_docs_def)

lemma known_stores:
  "stores_doc names kv n v s s' \<Longrightarrow> n \<in> names \<Longrightarrow> kv s n = None \<Longrightarrow>
     known_docs names kv s' = insert (n, v) (known_docs names kv s)"
  by (auto simp: stores_doc_def known_docs_def split: if_splits)

text \<open>A step of worker \<open>i\<close>: what its new tree, the documents and the owners have to satisfy.\<close>

lemma inv_update:
  assumes "inv owns I Q Ks Ws (s, ps)" and "i < length ps"
    and grows: "known_docs names kv s \<subseteq> known_docs names kv s'"
    and p: "sat_ok names (owns i) I Q p K W" "K \<subseteq> known_docs names kv s'" "Ws i \<subseteq> W"
    and new: "\<And>n. n \<in> names \<Longrightarrow> kv s' n \<noteq> None \<Longrightarrow> kv s n = None \<Longrightarrow> n \<in> owns i \<and> n \<in> W"
    and docs: "\<And>n v. (n, v) \<in> known_docs names kv s' \<Longrightarrow> I n v (known_docs names kv s')"
  shows "inv owns I Q (Ks(i := K)) (Ws(i := W)) (s', ps[i := p])"
  unfolding inv_def fst_conv snd_conv length_list_update
proof (intro conjI)
  show "\<forall>j < length ps. sat_ok names (owns j) I Q (ps[i := p] ! j) ((Ks(i := K)) j) ((Ws(i := W)) j) \<and>
      (Ks(i := K)) j \<subseteq> known_docs names kv s'"
    using assms(1) p(1,2) grows unfolding inv_def fst_conv snd_conv by (auto simp del: subset_iff intro: subset_trans)
  show "\<forall>n \<in> names. kv s' n \<noteq> None \<longrightarrow> (\<exists>j < length ps. n \<in> owns j \<and> n \<in> (Ws(i := W)) j)"
  proof (intro ballI impI)
    fix n assume n: "n \<in> names" "kv s' n \<noteq> None"
    show "\<exists>j < length ps. n \<in> owns j \<and> n \<in> (Ws(i := W)) j"
    proof (cases "kv s n = None")
      case True
      then show ?thesis using new [OF n] assms(2) by auto
    next
      case False
      then obtain j where "j < length ps" "n \<in> owns j" "n \<in> Ws j" using assms(1) n(1) by (auto simp: inv_def)
      then show ?thesis using p(3) by (intro exI [of _ j]) auto
    qed
  qed
  show "\<forall>(n, v) \<in> known_docs names kv s'. I n v (known_docs names kv s')" using docs by auto
qed

lemma inv_docs: "inv owns I Q Ks Ws (s, ps) \<Longrightarrow> (n, v) \<in> known_docs names kv s \<Longrightarrow> I n v (known_docs names kv s)"
  by (auto simp: inv_def)

text \<open>A request that leaves the documents as they are, and one that stores a new document.\<close>

lemma inv_same:
  assumes "inv owns I Q Ks Ws (s, ps)" and "i < length ps" and "same_docs names kv s s'"
    and "sat_ok names (owns i) I Q p K W" and "K \<subseteq> known_docs names kv s" and "Ws i \<subseteq> W"
  shows "inv owns I Q (Ks(i := K)) (Ws(i := W)) (s', ps[i := p])"
proof (rule inv_update [OF assms(1,2) _ assms(4)])
  show "n \<in> owns i \<and> n \<in> W" if "n \<in> names" "kv s' n \<noteq> None" "kv s n = None" for n
    using that assms(3) by (simp add: same_docs_def)
qed (use assms(5,6) inv_docs [OF assms(1)] in \<open>simp_all add: known_same [OF assms(3)]\<close>)

lemma inv_stores:
  assumes "inv owns I Q Ks Ws (s, ps)" and "i < length ps" and "stores_doc names kv n v s s'"
    and "n \<in> names" "n \<in> owns i" "kv s n = None"
    and mono: "\<And>n v F F'. F \<subseteq> F' \<Longrightarrow> I n v F \<Longrightarrow> I n v F'" and "I n v (Ks i)"
    and "sat_ok names (owns i) I Q p K (insert n (Ws i))" and "K \<subseteq> insert (n, v) (Ks i)"
  shows "inv owns I Q (Ks(i := K)) (Ws(i := insert n (Ws i))) (s', ps[i := p])"
proof (rule inv_update [OF assms(1,2) _ assms(9)])
  let ?D = "known_docs names kv s"
  have D: "known_docs names kv s' = insert (n, v) ?D" by (rule known_stores [OF assms(3,4,6)])
  have Ks: "Ks i \<subseteq> ?D" using assms(1,2) by (simp add: inv_def)
  show "?D \<subseteq> known_docs names kv s'" "K \<subseteq> known_docs names kv s'" "Ws i \<subseteq> insert n (Ws i)"
    using assms(10) Ks D by auto
  show "m \<in> owns i \<and> m \<in> insert n (Ws i)" if "m \<in> names" "kv s' m \<noteq> None" "kv s m = None" for m
    using that assms(3,5) by (auto simp: stores_doc_def split: if_splits)
  show "I m w (known_docs names kv s')" if "(m, w) \<in> known_docs names kv s'" for m w
    using that inv_docs [OF assms(1), of m w] mono [OF Ks assms(8)] mono [OF subset_insertI, of m w ?D "(n, v)"]
      mono [OF subset_insertI, of n v ?D "(n, v)"] by (auto simp: D)
qed

lemma step_inv:
  assumes "inv owns I Q Ks Ws c" and "step H c c'"
    and mono: "\<And>n v F F'. F \<subseteq> F' \<Longrightarrow> I n v F \<Longrightarrow> I n v F'"
    and disjoint: "\<And>i j n. n \<in> owns i \<Longrightarrow> n \<in> owns j \<Longrightarrow> i = j" and own: "\<And>i. i < length (snd c) \<Longrightarrow> owns i \<subseteq> names"
  shows "\<exists>Ks' Ws'. inv owns I Q Ks' Ws' c'"
  using assms(2)
proof cases
  case (step_at i ps s p' s')
  have ok: "sat_ok names (owns i) I Q (ps ! i) (Ks i) (Ws i)" and K: "Ks i \<subseteq> known_docs names kv s"
    using assms(1) step_at by (auto simp: inv_def)
  obtain x k where x: "ps ! i = Ext x k" using ok step_at(4) by (cases "ps ! i") auto
  obtain r where r: "op_ext H x s = (r, s')" "p' = k r" using step_at(4) x by (auto split: prod.splits)
  have inv: "inv owns I Q Ks Ws (s, ps)" using assms(1) step_at(1) by simp
  note same = inv_same [OF inv step_at(3)]
  show ?thesis
  proof (cases x)
    case (CPut n v)
    with ok x have n: "n \<in> owns i" "n \<notin> Ws i" "I n v (Ks i)"
      and cont: "\<And>e. sat_ok names (owns i) I Q (k (Inl e)) (Ks i) (insert n (Ws i))"
        "\<And>j. sat_ok names (owns i) I Q (k (Inr j)) (insert (n, v) (Ks i)) (insert n (Ws i))" by auto
    have m: "n \<in> names" using n(1) own [of i] step_at(1,3) by auto
    consider (same) e where "same_docs names kv s s'" "r = Inl e" | (stores) "stores_doc names kv n v s s'"
      using put_law [OF m] r(1) CPut by blast
    then show ?thesis
    proof cases
      case (same e)
      then have "inv owns I Q (Ks(i := Ks i)) (Ws(i := insert n (Ws i))) (s', ps[i := k (Inl e)])"
        using cont(1) K by (intro inv_same [OF inv step_at(3)]) auto
      then show ?thesis using step_at(2) r(2) same(2) by blast
    next
      case stores
      have "kv s n = None"
      proof (rule ccontr)
        assume "kv s n \<noteq> None"
        then obtain j where "n \<in> owns j" "n \<in> Ws j" using inv m by (auto simp: inv_def)
        then show False using disjoint n(1,2) by blast
      qed
      then obtain K' where "sat_ok names (owns i) I Q (k r) K' (insert n (Ws i))" "K' \<subseteq> insert (n, v) (Ks i)"
        using cont by (cases r) auto
      then have "inv owns I Q (Ks(i := K')) (Ws(i := insert n (Ws i))) (s', ps[i := k r])"
        using inv_stores [OF inv step_at(3) stores m n(1) \<open>kv s n = None\<close> _ n(3)] mono by blast
      then show ?thesis using step_at(2) r(2) by blast
    qed
  next
    case (CGet n)
    with ok x have n: "n \<in> names" and cont: "\<And>e. sat_ok names (owns i) I Q (k (Inl e)) (Ks i) (Ws i)"
      "\<And>v F. I n v F \<Longrightarrow> sat_ok names (owns i) I Q (k (Inr (JObj v))) (insert (n, v) (Ks i)) (Ws i)" by auto
    have s': "same_docs names kv s s'" and j: "\<And>j. r = Inr j \<Longrightarrow> \<exists>v. j = JObj v \<and> kv s n = Some v"
      using get_law [OF n] r(1) CGet by blast+
    have "\<exists>K'. sat_ok names (owns i) I Q (k r) K' (Ws i) \<and> K' \<subseteq> known_docs names kv s"
    proof (cases r)
      case (Inl e)
      then show ?thesis using cont(1) K by blast
    next
      case (Inr j')
      then obtain v where v: "j' = JObj v" "kv s n = Some v" using j by blast
      then have "(n, v) \<in> known_docs names kv s" using n by (simp add: known_docs_def)
      moreover from this have "I n v (known_docs names kv s)" using inv by (auto simp: inv_def)
      ultimately show ?thesis using cont(2) [of v] K Inr v(1) by blast
    qed
    then show ?thesis using same [OF s'] step_at(2) r(2) by blast
  qed (use same [OF own_law [OF _ r(1)], of p' "Ks i" "Ws i"] ok x r(2) K step_at(2) in auto)
qed

text \<open>The invariant in every reachable configuration.\<close>

lemma reaches_inv:
  assumes "reaches H (s0, ps0) c"
    and start: "\<And>i. i < length ps0 \<Longrightarrow> sat_ok names (owns i) I Q (ps0 ! i) {} {}" "\<And>n. n \<in> names \<Longrightarrow> kv s0 n = None"
    and mono: "\<And>n v F F'. F \<subseteq> F' \<Longrightarrow> I n v F \<Longrightarrow> I n v F'"
    and disjoint: "\<And>i j n. n \<in> owns i \<Longrightarrow> n \<in> owns j \<Longrightarrow> i = j" and own: "\<And>i. i < length ps0 \<Longrightarrow> owns i \<subseteq> names"
  shows "length (snd c) = length ps0 \<and> (\<exists>Ks Ws. inv owns I Q Ks Ws c)"
  using assms(1)
proof (induction rule: reaches.induct)
  case reaches_refl
  have "inv owns I Q (\<lambda>_. {}) (\<lambda>_. {}) (s0, ps0)" using start by (auto simp: inv_def known_docs_def)
  then show ?case by auto
next
  case (reaches_step d e)
  then obtain Ks Ws where d: "length (snd d) = length ps0" "inv owns I Q Ks Ws d" by blast
  have "length (snd e) = length (snd d)" using reaches_step.hyps(2) by (auto elim: stepE)
  moreover have "\<exists>Ks' Ws'. inv owns I Q Ks' Ws' e"
  proof (rule step_inv [OF d(2) reaches_step.hyps(2)])
    show "I n v F'" if "F \<subseteq> F'" "I n v F" for n v F F' using that by (rule mono)
    show "i = j" if "n \<in> owns i" "n \<in> owns j" for i j n using that by (rule disjoint)
    show "owns i \<subseteq> names" if "i < length (snd d)" for i using own that d(1) by simp
  qed
  ultimately show ?case using d(1) by simp
qed

end

section \<open>Records of a run\<close>

lemma append_separator_inject:
  assumes "c \<notin> set a" and "c \<notin> set b"
  shows "a @ c # x = b @ c # y \<longleftrightarrow> a = b \<and> x = y"
proof
  assume eq: "a @ c # x = b @ c # y"
  have "takeWhile (\<lambda>z. z \<noteq> c) (a @ c # x) = a" "takeWhile (\<lambda>z. z \<noteq> c) (b @ c # y) = b"
    using assms by (auto simp: takeWhile_append)
  then have "a = b" using eq by simp
  then show "a = b \<and> x = y" using eq by simp
qed simp

lemma pad4_no_dash: "CHR ''-'' \<notin> set (pad4 n)"
proof -
  have "digit_val (CHR ''-'') = None" by (simp add: digit_val_def)
  then have "CHR ''-'' \<notin> set (show_nat n)" using show_nat_digits by metis
  then show ?thesis by (auto simp: pad4_def Let_def)
qed

lemma sat_name_inject: "sat_name run_id r x = sat_name run_id q y \<longleftrightarrow> r = q \<and> x = y"
  by (simp add: sat_name_def append_separator_inject pad4_no_slash)

lemma file_path_append: "file_path (a @ b) = file_path a @ file_path b"
  by (simp add: file_path_def)

lemma file_path_id: "CHR ''/'' \<notin> set s \<Longrightarrow> file_path s = s"
  by (induction s) (auto simp: file_path_def)

lemma file_path_sat_name:
  "file_path (sat_name run_id r x) = file_path run_id @ ''-saturation-'' @ pad4 r @ CHR ''-'' # file_path x @ ''.json''"
proof -
  have "file_path ''/saturation/'' = ''-saturation-''" "file_path ''/'' = ''-''" "file_path ''.json'' = ''.json''"
    by (simp_all add: file_path_def)
  then show ?thesis unfolding sat_name_def file_path_append file_path_id [OF pad4_no_slash] by simp
qed

lemma file_path_inject:
  assumes "CHR ''/'' \<notin> set x" and "CHR ''/'' \<notin> set y"
  shows "file_path (sat_name run_id r x) = file_path (sat_name run_id q y) \<longleftrightarrow> r = q \<and> x = y"
  by (simp add: file_path_sat_name append_separator_inject pad4_no_dash file_path_id assms)

lemma worker_name_no_slash: "CHR ''/'' \<notin> set (''worker-'' @ pad4 i)" "CHR ''/'' \<notin> set ''decision''"
  using pad4_no_slash by auto

lemmas sat_names_defs = progress_name_def decision_name_def

lemma name_inject [simp]:
  "progress_name run_id r i = progress_name run_id q j \<longleftrightarrow> r = q \<and> i = j"
  "decision_name run_id r = decision_name run_id q \<longleftrightarrow> r = q"
  "progress_name run_id r i \<noteq> decision_name run_id q"
  "decision_name run_id q \<noteq> progress_name run_id r i"
  by (simp_all add: sat_names_defs sat_name_inject)

definition owned :: "string \<Rightarrow> nat \<Rightarrow> string set" where
  "owned run_id i = range (\<lambda>r. progress_name run_id r i) \<union> (if i = 0 then range (decision_name run_id) else {})"

definition run_names :: "string \<Rightarrow> nat \<Rightarrow> string set" where
  "run_names run_id workers = (\<Union>i < workers. owned run_id i)"

lemma owned_disjoint: "n \<in> owned run_id i \<Longrightarrow> n \<in> owned run_id j \<Longrightarrow> i = j"
  by (auto simp: owned_def split: if_splits)

lemma run_names_cases:
  assumes "n \<in> run_names run_id workers"
  obtains r x where "n = sat_name run_id r x" "CHR ''/'' \<notin> set x"
  using assms worker_name_no_slash by (auto simp: run_names_def owned_def sat_names_defs split: if_splits)

lemma file_path_run_names:
  assumes "n \<in> run_names run_id workers" and "m \<in> run_names run_id workers"
  shows "file_path n = file_path m \<longleftrightarrow> n = m"
  using assms by (auto elim!: run_names_cases simp: file_path_inject)

section \<open>The two backends\<close>

text \<open>A world for the workers: the stored documents (file contents, or objects of the object store), a script that
  says for each access which failure it meets and in which state the bridge process of that worker is, and the
  answers to all other requests.\<close>

datatype store_fault = Works | Lost exn | Unacked exn

record access =
  a_alive :: bool
  a_request :: int
  a_exchange :: exchange
  a_fault :: store_fault

record sat_world =
  sw_docs :: "string \<Rightarrow> json option"
  sw_script :: "access list"
  sw_answers :: "json result list"

definition faulty_put :: "store_fault \<Rightarrow> ('d \<Rightarrow> 'd) \<Rightarrow> 'd \<Rightarrow> unit result \<times> 'd" where
  "faulty_put fault f d = (case fault of Works \<Rightarrow> (Inr (), f d) | Lost e \<Rightarrow> (Inl e, d) | Unacked e \<Rightarrow> (Inl e, f d))"

definition faulty_get :: "store_fault \<Rightarrow> ('d \<Rightarrow> json result) \<Rightarrow> 'd \<Rightarrow> json result \<times> 'd" where
  "faulty_get fault f d = (case fault of Works \<Rightarrow> (f d, d) | Lost e \<Rightarrow> (Inl e, d) | Unacked e \<Rightarrow> (Inl e, d))"

definition object_put :: "store_fault \<Rightarrow> string \<Rightarrow> dict \<Rightarrow> (string \<Rightarrow> json option) \<Rightarrow> unit result \<times> (string \<Rightarrow> json option)" where
  "object_put fault name v = faulty_put fault (\<lambda>d. d(name \<mapsto> JObj v))"

definition object_get :: "store_fault \<Rightarrow> string \<Rightarrow> (string \<Rightarrow> json option) \<Rightarrow> json result \<times> (string \<Rightarrow> json option)" where
  "object_get fault name =
     faulty_get fault (\<lambda>d. case d name of None \<Rightarrow> raise RecordNotFound name | Some j \<Rightarrow> Inr j)"

definition next_access :: "sat_world \<Rightarrow> access" where
  "next_access w = (case sw_script w of [] \<Rightarrow> \<lparr>a_alive = True, a_request = 0, a_exchange = Answered, a_fault = Works\<rparr> | a # _ \<Rightarrow> a)"

definition bridge_of :: "sat_world \<Rightarrow> (string \<Rightarrow> json option) bridge" where
  "bridge_of w = \<lparr>g_alive = a_alive (next_access w), g_request = a_request (next_access w), g_store = sw_docs w\<rparr>"

text \<open>\<open>_FileBackend\<close> when a coordination directory is configured, \<open>_NatsBackend\<close> otherwise.\<close>

definition backend_put :: "bool \<Rightarrow> string \<Rightarrow> dict \<Rightarrow> sat_world \<Rightarrow> unit result \<times> (string \<Rightarrow> json option)" where
  "backend_put local_directory name v w =
     (let a = next_access w in
      if local_directory then faulty_put (a_fault a) (file_put name v) (sw_docs w)
      else map_prod id g_store (nats_put (object_put (a_fault a)) (object_get (a_fault a)) (a_exchange a) name v (bridge_of w)))"

definition backend_get :: "bool \<Rightarrow> string \<Rightarrow> sat_world \<Rightarrow> json result \<times> (string \<Rightarrow> json option)" where
  "backend_get local_directory name w =
     (let a = next_access w in
      if local_directory then faulty_get (a_fault a) (file_get name) (sw_docs w)
      else map_prod id g_store (nats_get (object_put (a_fault a)) (object_get (a_fault a)) (a_exchange a) name (bridge_of w)))"

definition backend_ext :: "bool \<Rightarrow> sat_eff \<Rightarrow> sat_world \<Rightarrow> json result \<times> sat_world" where
  "backend_ext local_directory x w = (case x of
      CPut name v \<Rightarrow> (let (r, d) = backend_put local_directory name v w
        in (map_sum id (\<lambda>_. JNull) r, w\<lparr>sw_docs := d, sw_script := tl (sw_script w)\<rparr>))
    | CGet name \<Rightarrow> (let (r, d) = backend_get local_directory name w
        in (r, w\<lparr>sw_docs := d, sw_script := tl (sw_script w)\<rparr>))
    | _ \<Rightarrow> (case sw_answers w of [] \<Rightarrow> (Inr (JInt 0), w) | r # rs \<Rightarrow> (r, w\<lparr>sw_answers := rs\<rparr>)))"

definition backend_ops :: "bool \<Rightarrow> (sat_eff, sat_world) kv_ops" where
  "backend_ops local_directory =
     \<lparr>op_get = \<lambda>k w. (raise OtherError [], w), op_create = \<lambda>k v w. (raise OtherError [], w),
      op_update = \<lambda>k v n w. (raise OtherError [], w), op_ext = backend_ext local_directory\<rparr>"

definition doc_at :: "bool \<Rightarrow> sat_world \<Rightarrow> string \<Rightarrow> dict option" where
  "doc_at local_directory w name = (case sw_docs w (if local_directory then file_path name else name) of
      Some (JObj d) \<Rightarrow> Some d | _ \<Rightarrow> None)"

text \<open>One exchange with the bridge process.\<close>

lemma dispatch_put:
  "dispatch P G [(''id'', i), (''operation'', JStr ''put''), (''name'', JStr n), (''value'', JObj v)] s =
     (case P n v s of (Inl e, t) \<Rightarrow> ((failure_response i e, False), t)
      | (Inr _, t) \<Rightarrow> (([(''id'', i), (''ok'', JBool True)], False), t))"
  by (simp add: dispatch_def dict_get_def)

lemma dispatch_get:
  "dispatch P G [(''id'', i), (''operation'', JStr ''get''), (''name'', JStr n)] s =
     (case G n s of (Inl e, t) \<Rightarrow> ((failure_response i e, False), t)
      | (Inr (JObj d), t) \<Rightarrow> (([(''id'', i), (''ok'', JBool True), (''value'', JObj d)], False), t)
      | (Inr _, t) \<Rightarrow> ((failure_response i (Exn ValueError (''coordination value '' @ n @ '' is not an object'')), False), t))"
  by (simp add: dispatch_def dict_get_def)

lemma read_response_failure [simp]: "read_response operation name n (Some (JObj (failure_response i e))) \<noteq> Inr x"
  by (simp add: read_response_def failure_response_def dict_get_def)

lemma read_response_ok [simp]:
  "read_response operation name n (Some (JObj ((''id'', JInt n) # (''ok'', JBool True) # d))) =
     Inr ((''id'', JInt n) # (''ok'', JBool True) # d)"
  by (simp add: read_response_def dict_get_def py_eq_def)

lemma nats_request_outcome:
  assumes "nats_request P G what operation n args b = (r, b')"
    and "dispatch P G ([(''id'', JInt (g_request b + 1)), (''operation'', JStr operation)] @ args) (g_store b) = ((response, closing), t)"
  shows "(g_store b' = g_store b \<or> g_store b' = t) \<and>
    (\<forall>x. r = Inr x \<longrightarrow> g_store b' = t \<and> read_response operation n (g_request b + 1) (Some (JObj response)) = Inr x)"
proof (cases "g_alive b")
  case True
  then show ?thesis
    using assms by (cases what) (auto simp: nats_request_def Let_def read_response_def [where line = None])
next
  case False
  then show ?thesis using assms(1) by (auto simp: nats_request_def)
qed

lemma nats_put_outcome:
  assumes "nats_put P G what n v b = (r, b')"
  shows "(g_store b' = g_store b \<and> (\<exists>e. r = Inl e)) \<or>
    g_store b' = snd (P n v (g_store b)) \<and> ((\<exists>e. r = Inl e) \<or> fst (P n v (g_store b)) = Inr ())"
proof -
  obtain x where x: "nats_request P G what ''put'' n [(''name'', JStr n), (''value'', JObj v)] b = (x, b')"
    and r: "r = map_sum id (\<lambda>_. ()) x"
    using assms by (auto simp: nats_put_def split: prod.splits sum.splits)
  obtain response closing t where d: "dispatch P G ([(''id'', JInt (g_request b + 1)), (''operation'', JStr ''put'')] @
      [(''name'', JStr n), (''value'', JObj v)]) (g_store b) = ((response, closing), t)" by (metis prod.exhaust)
  have t: "t = snd (P n v (g_store b))"
    using d by (cases "P n v (g_store b)"; cases "fst (P n v (g_store b))") (simp_all add: dispatch_put)
  have "fst (P n v (g_store b)) = Inr ()" if "read_response ''put'' n (g_request b + 1) (Some (JObj response)) = Inr y" for y
    using d that by (cases "P n v (g_store b)"; cases "fst (P n v (g_store b))") (auto simp: dispatch_put)
  then show ?thesis using nats_request_outcome [OF x d] t r by (cases x) auto
qed

lemma nats_get_outcome:
  assumes "nats_get P G what n b = (r, b')"
  shows "(g_store b' = g_store b \<or> g_store b' = snd (G n (g_store b))) \<and>
    (\<forall>j. r = Inr j \<longrightarrow> (\<exists>d. j = JObj d) \<and> fst (G n (g_store b)) = Inr j)"
proof -
  obtain x where x: "nats_request P G what ''get'' n [(''name'', JStr n)] b = (x, b')"
    and r: "\<And>j. r = Inr j \<Longrightarrow> \<exists>y v. x = Inr y \<and> dict_get y ''value'' JNull = JObj v \<and> j = JObj v"
    using assms by (auto simp: nats_get_def split: prod.splits sum.splits json.splits)
  obtain response closing t where d: "dispatch P G ([(''id'', JInt (g_request b + 1)), (''operation'', JStr ''get'')] @
      [(''name'', JStr n)]) (g_store b) = ((response, closing), t)" by (metis prod.exhaust)
  obtain a u where g: "G n (g_store b) = (a, u)" by fastforce
  have t: "t = u" using d g by (cases a) (auto simp: dispatch_get split: json.splits)
  have "a = Inr (JObj v)" if "read_response ''get'' n (g_request b + 1) (Some (JObj response)) = Inr y"
      "dict_get y ''value'' JNull = JObj v" for y v
    using d g that by (cases a) (auto simp: dispatch_get dict_get_def split: json.splits)
  then show ?thesis using nats_request_outcome [OF x d] t r g by fastforce
qed

lemma backend_put_cases:
  "(snd (backend_put False name v w) = sw_docs w \<and> (\<exists>e. fst (backend_put False name v w) = Inl e)) \<or>
   snd (backend_put False name v w) = (sw_docs w)(name \<mapsto> JObj v)"
proof -
  let ?a = "next_access w"
  obtain r b where b: "nats_put (object_put (a_fault ?a)) (object_get (a_fault ?a)) (a_exchange ?a) name v (bridge_of w) = (r, b)"
    by fastforce
  have put: "backend_put False name v w = (r, g_store b)" by (simp add: backend_put_def Let_def b)
  have "g_store (bridge_of w) = sw_docs w" by (simp add: bridge_of_def)
  with nats_put_outcome [OF b] show ?thesis
    unfolding put fst_conv snd_conv
    by (cases "a_fault ?a") (auto simp: object_put_def faulty_put_def)
qed

lemma backend_put_local_cases:
  "(snd (backend_put True name v w) = sw_docs w \<and> (\<exists>e. fst (backend_put True name v w) = Inl e)) \<or>
   snd (backend_put True name v w) = (sw_docs w)(file_path name \<mapsto> JObj v)"
  by (auto simp: backend_put_def Let_def faulty_put_def file_put_def split: store_fault.splits)

lemma backend_get_cases:
  assumes "backend_get local_directory name w = (r, d)"
  shows "d = sw_docs w \<and> (\<forall>j. r = Inr j \<longrightarrow> (\<exists>v. j = JObj v \<and> doc_at local_directory w name = Some v))"
proof (cases local_directory)
  case True
  then show ?thesis
    using assms by (auto simp: backend_get_def Let_def faulty_get_def file_get_def doc_at_def
        split: store_fault.splits option.splits json.splits)
next
  case False
  let ?a = "next_access w"
  obtain r' b where b: "nats_get (object_put (a_fault ?a)) (object_get (a_fault ?a)) (a_exchange ?a) name (bridge_of w) = (r', b)"
    by fastforce
  have "r = r'" "d = g_store b" using assms False b by (simp_all add: backend_get_def Let_def)
  moreover have "g_store (bridge_of w) = sw_docs w" by (simp add: bridge_of_def)
  ultimately show ?thesis
    using nats_get_outcome [OF b] False
    by (cases "a_fault ?a") (auto simp: object_get_def faulty_get_def doc_at_def split: option.splits)
qed

end
