(* ===== verification/Sat_Props.thy ===== *)
theory Sat_Props
  imports Sat_Protocol
begin

text \<open>
  Properties of the saturation ladder: all workers of a run leave the ladder with the same decisions, each of
  which counts every worker, and waiting for a record always ends.
\<close>

section \<open>Both backends are coordination backends\<close>

lemma doc_at_same: "sw_docs w' = sw_docs w \<Longrightarrow> doc_at b w' n = doc_at b w n"
  by (simp add: doc_at_def)

interpretation sat: coordination "backend_ops local_directory" "doc_at local_directory" "run_names run_id workers"
  for local_directory run_id workers
proof
  let ?N = "run_names run_id workers"
  fix n v s r s'
  assume n: "n \<in> ?N" and e: "op_ext (backend_ops local_directory) (CPut n v) s = (r, s')"
  obtain x d where x: "backend_put local_directory n v s = (x, d)" by fastforce
  have rs: "r = map_sum id (\<lambda>_. JNull) x" "sw_docs s' = d" using e by (auto simp: backend_ops_def backend_ext_def x)
  have "d = sw_docs s \<and> (\<exists>e. x = Inl e) \<or> d = (sw_docs s)((if local_directory then file_path n else n) \<mapsto> JObj v)"
    using backend_put_cases [of n v s] backend_put_local_cases [of n v s] x by (cases local_directory) auto
  then show "same_docs ?N (doc_at local_directory) s s' \<and> (\<exists>e. r = Inl e) \<or> stores_doc ?N (doc_at local_directory) n v s s'"
  proof (elim disjE conjE exE)
    assume "d = (sw_docs s)((if local_directory then file_path n else n) \<mapsto> JObj v)"
    then have "stores_doc ?N (doc_at local_directory) n v s s'"
      using rs(2) file_path_run_names [OF _ n] by (auto simp: stores_doc_def doc_at_def)
    then show ?thesis ..
  qed (use rs doc_at_same [of s' s] in \<open>simp add: same_docs_def\<close>)
next
  let ?N = "run_names run_id workers"
  fix n s r s'
  assume "op_ext (backend_ops local_directory) (CGet n) s = (r, s')"
  then obtain d where d: "backend_get local_directory n s = (r, d)" "sw_docs s' = d"
    by (auto simp: backend_ops_def backend_ext_def split: prod.splits)
  from backend_get_cases [OF d(1)] d(2) have "sw_docs s' = sw_docs s"
    and v: "\<forall>j. r = Inr j \<longrightarrow> (\<exists>v. j = JObj v \<and> doc_at local_directory s n = Some v)" by simp_all
  from doc_at_same [OF this(1)] v
  show "same_docs ?N (doc_at local_directory) s s' \<and> (\<forall>j. r = Inr j \<longrightarrow> (\<exists>v. j = JObj v \<and> doc_at local_directory s n = Some v))"
    by (simp add: same_docs_def)
next
  fix x s r s'
  assume "own_request x" "op_ext (backend_ops local_directory) x s = (r, s')"
  then have "sw_docs s' = sw_docs s"
    by (cases x) (auto simp: backend_ops_def backend_ext_def split: list.splits)
  then show "same_docs (run_names run_id workers) (doc_at local_directory) s s'" using doc_at_same [of s' s] by (simp add: same_docs_def)
qed

section \<open>The records of a run\<close>

definition completed_of :: "dict \<Rightarrow> int" where
  "completed_of p = (case dict_get p ''completed'' JNull of JInt m \<Rightarrow> m | _ \<Rightarrow> 0)"

definition is_progress :: "dict \<Rightarrow> bool" where
  "is_progress p \<longleftrightarrow> (\<exists>m. dict_get p ''completed'' JNull = JInt m \<and> 0 \<le> m) \<and> dict_has p ''completed''"

text \<open>A decision of rung \<open>r\<close> that counts all the given progress and says stop exactly after the last rung.\<close>

definition decision_of :: "nat \<Rightarrow> nat \<Rightarrow> dict list \<Rightarrow> dict \<Rightarrow> bool" where
  "decision_of rungs r ps d \<longleftrightarrow> dict_get d ''stop'' JNull = JBool (Suc r = rungs) \<and>
     dict_get d ''completed_during_rung'' JNull = JInt (sum_list (map completed_of ps))"

definition record_ok :: "string \<Rightarrow> nat \<Rightarrow> nat \<Rightarrow> string \<Rightarrow> dict \<Rightarrow> facts \<Rightarrow> bool" where
  "record_ok run_id workers rungs n v F \<longleftrightarrow>
     (\<exists>r i. n = progress_name run_id r i \<and> is_progress v) \<or>
     (\<exists>r ps. n = decision_name run_id r \<and> length ps = workers \<and> (\<forall>i < workers. (progress_name run_id r i, ps ! i) \<in> F) \<and>
        decision_of rungs r ps v)"

lemma record_ok_mono: "F \<subseteq> F' \<Longrightarrow> record_ok run_id workers rungs n v F \<Longrightarrow> record_ok run_id workers rungs n v F'"
  unfolding record_ok_def by blast

lemma record_ok_progress [simp]: "record_ok run_id workers rungs (progress_name run_id r i) v F \<longleftrightarrow> is_progress v"
  by (auto simp: record_ok_def)

lemma record_ok_decision: "record_ok run_id workers rungs (decision_name run_id r) v F \<longleftrightarrow>
   (\<exists>ps. length ps = workers \<and> (\<forall>i < workers. (progress_name run_id r i, ps ! i) \<in> F) \<and> decision_of rungs r ps v)"
  by (auto simp: record_ok_def)

lemma progress_doc_ok: "is_progress (progress_doc co call)"
  by (simp add: is_progress_def progress_doc_def dict_get_def dict_has_def)

lemma get_completed: "is_progress p \<Longrightarrow> get_int p ''completed'' (JInt 0) = Inr (completed_of p)"
  by (auto simp: is_progress_def get_int_def completed_of_def dict_get_def dict_has_def split: option.splits)

lemma evaluate_rung_fields:
  assumes "evaluate_rung a rt du c p pg ps pe fin mx = Inr d"
  shows "dict_get d ''stop'' JNull = JBool fin \<and> dict_get d ''completed_during_rung'' JNull = JInt c"
  using assms unfolding evaluate_rung_def Let_def rbind_eq_Inr
  by (elim exE conjE)
    (drule sum.inject(2) [THEN iffD1], drule sym [of _ d], simp (no_asm_simp) only:, simp (no_asm) add: dict_get_def)

lemma goodput_branch:
  "(if b then Inr (D, co) else rbind r (\<lambda>g. Inr (D, co\<lparr>co_previous := Some g\<rparr>))) = Inr (d, co') \<Longrightarrow>
     d = D \<and> (co' = co \<or> (\<exists>g. co' = co\<lparr>co_previous := Some g\<rparr>))"
  by (auto split: if_splits)

lemma decide_decision:
  assumes "decide co call ps = Inr (d, co')" and "list_all is_progress ps" and "r_final call \<longleftrightarrow> Suc r = rungs"
  shows "decision_of rungs r ps d \<and> co_index co' = co_index co \<and> co_workers co' = co_workers co \<and> co_run co' = co_run co"
proof -
  have counts: "rmap (\<lambda>p. get_int p ''completed'' (JInt 0)) ps = Inr (map completed_of ps)"
    using assms(2) by (intro rmap_all) (simp add: list_all_iff get_completed)
  obtain processed reason where o: "observed_processing (co_application co) ps = Inr (processed, reason)"
    using assms(1) unfolding decide_def Let_def by (cases "observed_processing (co_application co) ps") auto
  define x where "x = evaluate_rung (co_application co) (r_rate call)
        (f_max (Fin (1 / 1000)) (f_sub (r_ended call) (r_started call))) (sum_list (map completed_of ps)) processed
        (co_previous co) (r_pending_start call) (r_pending_end call) (r_final call) (r_maximum call)"
  define D where "D = (\<lambda>e. dict_update e (rung_fields co call reason))"
  define G where "G = (\<lambda>e. dict_get (D e) ''processing_goodput_orders_per_second'' JNull)"
  have "decide co call ps = rbind x (\<lambda>e. if G e = JNull then Inr (D e, co)
      else rbind (py_float (G e)) (\<lambda>g. Inr (D e, co\<lparr>co_previous := Some g\<rparr>)))"
    unfolding decide_def Let_def o counts rbind.simps(2) prod.case x_def D_def G_def ..
  from this [symmetric, THEN trans, OF assms(1)] obtain e where e: "x = Inr e" and rest: "(if G e = JNull then Inr (D e, co)
      else rbind (py_float (G e)) (\<lambda>g. Inr (D e, co\<lparr>co_previous := Some g\<rparr>))) = Inr (d, co')"
    unfolding rbind_eq_Inr [of x] by blast
  note d = goodput_branch [OF rest, THEN conjunct1, unfolded D_def] and co' = goodput_branch [OF rest, THEN conjunct2]
  have "dict_get d ''stop'' JNull = dict_get e ''stop'' JNull"
    "dict_get d ''completed_during_rung'' JNull = dict_get e ''completed_during_rung'' JNull"
    unfolding d by (rule dict_get_update_notin, simp add: rung_fields_def)+
  then have "decision_of rungs r ps d"
    using evaluate_rung_fields [OF e [unfolded x_def]] assms(3) unfolding decision_of_def by (simp only: simp_thms)
  then show ?thesis using co' by auto
qed

section \<open>One rung\<close>

definition written :: "string \<Rightarrow> nat \<Rightarrow> nat \<Rightarrow> string set \<Rightarrow> bool" where
  "written run_id i r W \<longleftrightarrow> W \<subseteq> (\<lambda>q. progress_name run_id q i) ` {..<r} \<union> decision_name run_id ` {..<r}"

definition collected :: "string \<Rightarrow> nat \<Rightarrow> nat list \<Rightarrow> facts \<Rightarrow> string set \<Rightarrow> dict list \<Rightarrow> facts \<Rightarrow> string set \<Rightarrow> bool" where
  "collected run_id r is K W ps K' W' \<longleftrightarrow> W' = W \<and> K \<subseteq> K' \<and> length ps = length is \<and> list_all is_progress ps \<and>
     (\<forall>k < length is. (progress_name run_id r (is ! k), ps ! k) \<in> K')"

definition rung_done :: "string \<Rightarrow> nat \<Rightarrow> nat \<Rightarrow> nat \<Rightarrow> nat \<Rightarrow> facts \<Rightarrow> dict \<times> coordinator \<Rightarrow> facts \<Rightarrow> string set \<Rightarrow> bool" where
  "rung_done run_id workers rungs i r K result K' W' \<longleftrightarrow> (case result of (d, co') \<Rightarrow>
     K \<subseteq> K' \<and> written run_id i (Suc r) W' \<and> (decision_name run_id r, d) \<in> K' \<and>
     (\<exists>F. record_ok run_id workers rungs (decision_name run_id r) d F) \<and>
     co_index co' = i \<and> co_workers co' = workers \<and> co_run co' = run_id)"

lemma owned_names [simp]: "progress_name run_id r i \<in> owned run_id i" "decision_name run_id r \<in> owned run_id 0"
  by (simp_all add: owned_def)

lemma progress_in_names [simp]: "i < workers \<Longrightarrow> progress_name run_id r i \<in> run_names run_id workers"
  unfolding run_names_def by (rule UN_I [of i]) simp_all

lemma decision_in_names [simp]: "0 < workers \<Longrightarrow> decision_name run_id r \<in> run_names run_id workers"
  unfolding run_names_def by (rule UN_I [of 0]) simp_all

lemma written_fresh:
  assumes "written run_id i r W"
  shows "progress_name run_id r j \<notin> W" "decision_name run_id r \<notin> W"
  using assms by (auto simp: written_def)

lemma written_Suc:
  assumes "written run_id i r W"
  shows "written run_id i (Suc r) W" "written run_id i (Suc r) (insert (progress_name run_id r i) W)"
    "written run_id i (Suc r) (insert (decision_name run_id r) (insert (progress_name run_id r i) W))"
  using assms by (auto simp: written_def lessThan_Suc)

lemma collect_ok:
  assumes "\<forall>i \<in> set is. i < workers"
  shows "sat_ok (run_names run_id workers) own (record_ok run_id workers rungs) (collected run_id r is K W)
    (collect polls run_id r is) K W"
  using assms
proof (induction "is" arbitrary: K)
  case Nil
  then show ?case by (simp add: collected_def)
next
  case (Cons i "is")
  let ?ok = "sat_ok (run_names run_id workers) own (record_ok run_id workers rungs)"
  have "?ok (\<lambda>p K' W'. W' = W \<and> K \<subseteq> K' \<and> is_progress p \<and> (progress_name run_id r i, p) \<in> K')
      (wait polls (progress_name run_id r i)) K W"
    using Cons.prems by (intro sat_ok_wait) auto
  then show ?case
    unfolding collect.simps
  proof (rule sat_ok_bindp)
    fix p K' W'
    assume p: "W' = W \<and> K \<subseteq> K' \<and> is_progress p \<and> (progress_name run_id r i, p) \<in> K'"
    have "?ok (collected run_id r is K' W) (collect polls run_id r is) K' W" using Cons by simp
    then show "?ok (collected run_id r (i # is) K W) (bindp (collect polls run_id r is) (\<lambda>ps. Ret (p # ps))) K' W'"
      unfolding conjunct1 [OF p]
      by (rule sat_ok_bindp) (use p in \<open>auto simp: collected_def nth_Cons split: nat.splits\<close>)
  qed
qed

lemma conclude_ok:
  assumes co: "co_index co = 0" "co_workers co = workers" "1 < workers" "co_run co = run_id"
    and call: "r_rung call = r" "r_final call \<longleftrightarrow> Suc r = rungs"
    and ps: "length ps = workers" "list_all is_progress ps" "\<forall>k < workers. (progress_name run_id r k, ps ! k) \<in> K"
    and W: "written run_id 0 r W0" "W = insert (progress_name run_id r 0) W0" and K: "K0 \<subseteq> K"
  shows "sat_ok (run_names run_id workers) (owned run_id 0) (record_ok run_id workers rungs) (rung_done run_id workers rungs 0 r K0)
    (conclude co call ps) K W"
  unfolding conclude_def
proof (rule sat_ok_lift, clarify)
  let ?ok = "sat_ok (run_names run_id workers) (owned run_id 0) (record_ok run_id workers rungs) (rung_done run_id workers rungs 0 r K0)"
  fix d co'
  assume "decide co call ps = Inr (d, co')"
  from decide_decision [OF this ps(2) call(2)]
  have d: "decision_of rungs r ps d" and co': "co_index co' = 0" "co_workers co' = workers" "co_run co' = run_id"
    using co by simp_all
  have I: "record_ok run_id workers rungs (decision_name run_id r) d K"
    unfolding record_ok_decision using ps d by blast
  have "?ok (Ext (SaveDecision d) (\<lambda>x. lift x (\<lambda>_. Ret (d, co')))) (insert (decision_name run_id r, d) K) (insert (decision_name run_id r) W)"
    by (intro sat_intros own_request.simps)
      (use I K co' written_Suc(3) [OF W(1)] in \<open>auto simp: rung_done_def W(2)\<close>)
  then show "?ok (let save = Ext (SaveDecision d) (\<lambda>r. lift r (\<lambda>_. Ret (d, co')))
      in if 1 < co_workers co then Ext (CPut (decision_name (co_run co) (r_rung call)) d) (\<lambda>r. lift r (\<lambda>_. save)) else save) K W"
    using co call I written_fresh(2) [OF W(1)] by (auto simp: Let_def W(2) intro!: sat_ok_put)
qed

lemma finish_rung_ok:
  assumes co: "co_index co = i" "co_workers co = workers" "co_run co = run_id" and i: "i < workers" "1 < workers"
    and call: "r_rung call = r" "r_final call \<longleftrightarrow> Suc r = rungs" and W: "written run_id i r W"
  shows "sat_ok (run_names run_id workers) (owned run_id i) (record_ok run_id workers rungs) (rung_done run_id workers rungs i r K)
    (finish_rung polls co call) K W"
proof -
  let ?ok = "sat_ok (run_names run_id workers) (owned run_id i) (record_ok run_id workers rungs)"
  let ?K = "insert (progress_name run_id r i, progress_doc co call) K" and ?W = "insert (progress_name run_id r i) W"
  have "?ok (rung_done run_id workers rungs i r K)
      (if i = 0 then bindp (collect polls run_id r [0..<workers]) (conclude co call)
       else bindp (wait polls (decision_name run_id r)) (\<lambda>d. Ret (d, co))) ?K ?W"
  proof (cases "i = 0")
    case True
    have "?ok (collected run_id r [0..<workers] ?K ?W) (collect polls run_id r [0..<workers]) ?K ?W"
      by (rule collect_ok) simp
    then have "?ok (rung_done run_id workers rungs i r K) (bindp (collect polls run_id r [0..<workers]) (conclude co call)) ?K ?W"
      by (rule sat_ok_bindp) (use True co i call W in \<open>auto simp: collected_def intro!: conclude_ok\<close>)
    then show ?thesis using True by simp
  next
    case False
    have "?ok (\<lambda>d K' W'. W' = ?W \<and> K \<subseteq> K' \<and> (decision_name run_id r, d) \<in> K' \<and>
        (\<exists>F. record_ok run_id workers rungs (decision_name run_id r) d F)) (wait polls (decision_name run_id r)) ?K ?W"
      using i by (intro sat_ok_wait) auto
    then have "?ok (rung_done run_id workers rungs i r K) (bindp (wait polls (decision_name run_id r)) (\<lambda>d. Ret (d, co))) ?K ?W"
      by (rule sat_ok_bindp) (use co written_Suc(2) [OF W] in \<open>auto simp: rung_done_def\<close>)
    then show ?thesis using False by simp
  qed
  then show ?thesis
    using co i call written_fresh(1) [OF W]
    by (auto simp: finish_rung_def Let_def progress_doc_ok intro!: sat_ok_put)
qed

section \<open>The ladder\<close>

definition ladder_done :: "string \<Rightarrow> nat \<Rightarrow> dict list \<Rightarrow> facts \<Rightarrow> string set \<Rightarrow> bool" where
  "ladder_done run_id rungs ds K W \<longleftrightarrow> length ds = rungs \<and> (\<forall>q < rungs. (decision_name run_id q, ds ! q) \<in> K)"

lemma climb_ok:
  assumes "co_index co = i" "co_workers co = workers" "co_run co = run_id" "i < workers" "1 < workers"
    and "remaining - duration \<le> 0 \<longleftrightarrow> Suc r = rungs" and "written run_id i r W"
  shows "sat_ok (run_names run_id workers) (owned run_id i) (record_ok run_id workers rungs) (rung_done run_id workers rungs i r K)
    (climb polls c co r duration remaining) K W"
  unfolding climb_def Let_def
  by (intro sat_intros own_request.simps finish_rung_ok) (use assms in simp_all)

lemma ladder_ok:
  assumes "co_index co = i" "co_workers co = workers" "co_run co = run_id" "i < workers" "1 < workers"
    and seconds: "0 < seconds" "saturation_step_seconds c = seconds" "(int rungs - 1) * seconds < overall" "overall \<le> int rungs * seconds"
    and "remaining = overall - int r * seconds" "0 < remaining"
    and "length ds = r" "\<forall>q < r. (decision_name run_id q, ds ! q) \<in> K" "written run_id i r W"
  shows "sat_ok (run_names run_id workers) (owned run_id i) (record_ok run_id workers rungs) (ladder_done run_id rungs)
    (ladder polls c co remaining r ds) K W"
  using assms(1-3,10-)
proof (induction "nat remaining" arbitrary: remaining r ds co K W rule: less_induct)
  case less
  let ?ok = "sat_ok (run_names run_id workers) (owned run_id i) (record_ok run_id workers rungs)"
  let ?d = "min seconds remaining"
  have bounds: "int r * seconds < overall" using less.prems(4,5) by simp
  have final: "remaining - ?d \<le> 0 \<longleftrightarrow> Suc r = rungs"
  proof
    assume "remaining - ?d \<le> 0"
    then have "overall \<le> (int r + 1) * seconds" using less.prems(4) by (simp add: algebra_simps)
    then have "(int rungs - 1) * seconds < (int r + 1) * seconds" using seconds(3) by linarith
    then have "int rungs - 1 < int r + 1" using seconds(1) by (simp add: mult_less_cancel_right)
    moreover have "int r * seconds < int rungs * seconds" using bounds seconds(4) by linarith
    then have "int r < int rungs" using seconds(1) by (simp add: mult_less_cancel_right)
    ultimately show "Suc r = rungs" by linarith
  next
    assume "Suc r = rungs"
    then have "overall \<le> (int r + 1) * seconds" using seconds(4) by (auto simp: add.commute)
    then show "remaining - ?d \<le> 0" using less.prems(4) by (simp add: algebra_simps)
  qed
  have "?ok (rung_done run_id workers rungs i r K) (climb polls c co r ?d remaining) K W"
    using less.prems assms(4,5) by (intro climb_ok final) simp_all
  then have "?ok (ladder_done run_id rungs) (bindp (climb polls c co r ?d remaining) (\<lambda>(d, co').
          if truthy (dict_get d ''stop'' JNull) then Ext EarlyDrain (\<lambda>x. lift x (\<lambda>_. Ret (ds @ [d])))
          else ladder polls c co' (remaining - ?d) (r + 1) (ds @ [d]))) K W"
  proof (rule sat_ok_bindp, clarify)
    fix d co' K' W'
    assume "rung_done run_id workers rungs i r K (d, co') K' W'"
    then have K': "K \<subseteq> K'" "written run_id i (Suc r) W'" "(decision_name run_id r, d) \<in> K'"
      and co': "co_index co' = i" "co_workers co' = workers" "co_run co' = run_id"
      and d: "dict_get d ''stop'' JNull = JBool (Suc r = rungs)"
      by (auto simp: rung_done_def record_ok_decision decision_of_def)
    have ds: "\<forall>q < Suc r. (decision_name run_id q, (ds @ [d]) ! q) \<in> K'"
      using less.prems(6,7) K'(1,3) by (auto simp: nth_append less_Suc_eq)
    show "?ok (ladder_done run_id rungs) (if truthy (dict_get d ''stop'' JNull) then Ext EarlyDrain (\<lambda>x. lift x (\<lambda>_. Ret (ds @ [d])))
          else ladder polls c co' (remaining - ?d) (r + 1) (ds @ [d])) K' W'"
    proof (cases "Suc r = rungs")
      case True
      have "?ok (ladder_done run_id rungs) (Ext EarlyDrain (\<lambda>x. lift x (\<lambda>_. Ret (ds @ [d])))) K' W'"
        by (intro sat_intros own_request.simps) (use ds less.prems(6) True in \<open>auto simp: ladder_done_def\<close>)
      then show ?thesis using True d by simp
    next
      case False
      then have "0 < remaining - ?d" using final by simp
      then have "?d = seconds" by simp
      have "?ok (ladder_done run_id rungs) (ladder polls c co' (remaining - ?d) (Suc r) (ds @ [d])) K' W'"
      proof (rule less.hyps)
        show "nat (remaining - ?d) < nat remaining" using less.prems(5) seconds(1) by simp
        show "remaining - ?d = overall - int (Suc r) * seconds"
          using less.prems(4) \<open>?d = seconds\<close> by (simp add: algebra_simps)
      qed (use \<open>0 < remaining - ?d\<close> co' ds K'(2) less.prems(6) in simp_all)
      then show ?thesis using False d by simp
    qed
  qed
  then show ?case
    using less.prems(5) seconds(1,2) by (subst ladder.simps) (simp add: Let_def)
qed

lemma schedule_ok:
  assumes "i < workers" "1 < workers" "0 < saturation_step_seconds c" "0 < duration_seconds c"
    and "saturation_step_count c = Inr (int rungs)"
  shows "sat_ok (run_names run_id workers) (owned run_id i) (record_ok run_id workers rungs) (ladder_done run_id rungs)
    (schedule polls run_id c workers i) {} {}"
proof -
  let ?s = "saturation_step_seconds c" and ?t = "duration_seconds c"
  have ceil: "int rungs = \<lceil>(of_int ?t / of_int ?s :: rat)\<rceil>" using assms(3,5) by (simp add: saturation_step_count_def)
  have pos: "(0 :: rat) < of_int ?s" using assms(3) by simp
  have "of_int (int rungs - 1) < (of_int ?t / of_int ?s :: rat)" "(of_int ?t / of_int ?s :: rat) \<le> of_int (int rungs)"
    using ceiling_correct [of "of_int ?t / of_int ?s :: rat"] by (simp_all add: ceil)
  then have "(of_int (int rungs - 1) * of_int ?s :: rat) < of_int ?t" "(of_int ?t :: rat) \<le> of_int (int rungs) * of_int ?s"
    using pos by (simp_all add: pos_less_divide_eq pos_divide_le_eq)
  then have "(int rungs - 1) * ?s < ?t" "?t \<le> int rungs * ?s"
    unfolding of_int_mult [symmetric] of_int_less_iff of_int_le_iff .
  then have "sat_ok (run_names run_id workers) (owned run_id i) (record_ok run_id workers rungs) (ladder_done run_id rungs)
      (ladder polls c (new_coordinator run_id c workers i) ?t 0 []) {} {}"
    using assms(1-4) by (intro ladder_ok [where overall = ?t and seconds = ?s]) (simp_all add: new_coordinator_def written_def)
  then show ?thesis
    unfolding schedule_def Let_def by (auto intro!: sat_intros)
qed

section \<open>Properties\<close>

definition worker_program :: "nat \<Rightarrow> string \<Rightarrow> benchmark_config \<Rightarrow> nat \<Rightarrow> nat \<Rightarrow> (sat_eff, dict list) prog" where
  "worker_program polls run_id c workers i =
     lift (for_worker c (int i)) (\<lambda>w. schedule polls run_id w workers i)"

lemma worker_share_ladder:
  "workload c = ''saturation'' \<Longrightarrow> duration_seconds (worker_share c n i) = duration_seconds c"
  "workload c = ''saturation'' \<Longrightarrow> saturation_step_seconds (worker_share c n i) = saturation_step_seconds c"
  "workload c = ''saturation'' \<Longrightarrow> saturation_step_count (worker_share c n i) = saturation_step_count c"
  by (simp_all add: worker_share_def Let_def saturation_step_count_def)

lemma reached_ladder:
  assumes "worker_count c = Inr (int workers)" "1 < workers" "workload c = ''saturation''"
    and "0 < saturation_step_seconds c" "0 < duration_seconds c" "saturation_step_count c = Inr (int rungs)"
    and "\<And>n. n \<in> run_names run_id workers \<Longrightarrow> doc_at local_directory w0 n = None"
    and "reaches (backend_ops local_directory) (w0, map (worker_program polls run_id c workers) [0..<workers]) (w, ps)"
  shows "length ps = workers \<and> (\<exists>Ks Ws. sat.inv local_directory run_id workers (owned run_id) (record_ok run_id workers rungs)
    (ladder_done run_id rungs) Ks Ws (w, ps))"
proof -
  have ok: "sat_ok (run_names run_id workers) (owned run_id i) (record_ok run_id workers rungs) (ladder_done run_id rungs)
      (worker_program polls run_id c workers i) {} {}" if "i < workers" for i
    using that assms(1-6)
    by (auto simp: worker_program_def for_worker_Inr worker_share_ladder intro!: sat_ok_lift schedule_ok)
  have names: "owned run_id i \<subseteq> run_names run_id workers" if "i < workers" for i
    using that by (auto simp: run_names_def)
  have "length (snd (w, ps)) = length (map (worker_program polls run_id c workers) [0..<workers]) \<and>
      (\<exists>Ks Ws. sat.inv local_directory run_id workers (owned run_id) (record_ok run_id workers rungs) (ladder_done run_id rungs) Ks Ws (w, ps))"
    by (rule sat.reaches_inv [OF assms(8)]) (use ok names assms(7) in \<open>auto intro: record_ok_mono owned_disjoint\<close>)
  then show ?thesis by simp
qed

text \<open>C25. The workers of a saturation benchmark stay in step: with either coordination backend, in every interleaving
  of the workers, whatever they measure and whatever requests fail (including writes that are stored without an
  acknowledgement), a worker that leaves the ladder has climbed exactly the configured number of rungs, holds for
  each rung the decision that is stored for it, that decision counts the completed orders that each of the workers
  published for that rung, and any two workers that leave the ladder hold the same decisions.\<close>

theorem saturation_workers_agree:
  assumes "worker_count c = Inr (int workers)" "1 < workers" "workload c = ''saturation''"
    and "0 < saturation_step_seconds c" "0 < duration_seconds c"
    and "\<And>n. n \<in> run_names run_id workers \<Longrightarrow> doc_at local_directory w0 n = None"
    and "reaches (backend_ops local_directory) (w0, map (worker_program polls run_id c workers) [0..<workers]) (w, ps)"
    and "i < workers" "ps ! i = Ret ds"
  shows "saturation_step_count c = Inr (int (length ds)) \<and>
    (\<forall>r < length ds. doc_at local_directory w (decision_name run_id r) = Some (ds ! r) \<and>
      (\<exists>progress. length progress = workers \<and>
        (\<forall>k < workers. doc_at local_directory w (progress_name run_id r k) = Some (progress ! k)) \<and>
        decision_of (length ds) r progress (ds ! r))) \<and>
    (\<forall>j < workers. \<forall>ds'. ps ! j = Ret ds' \<longrightarrow> ds' = ds)"
proof -
  define rungs where "rungs = nat \<lceil>(of_int (duration_seconds c) / of_int (saturation_step_seconds c) :: rat)\<rceil>"
  have "(0 :: rat) < of_int (duration_seconds c) / of_int (saturation_step_seconds c)" using assms(4,5) by simp
  then have rungs: "saturation_step_count c = Inr (int rungs)"
    using assms(4) by (simp add: saturation_step_count_def rungs_def)
  obtain Ks Ws where len: "length ps = workers"
    and inv: "sat.inv local_directory run_id workers (owned run_id) (record_ok run_id workers rungs) (ladder_done run_id rungs) Ks Ws (w, ps)"
    using reached_ladder [OF assms(1-5) rungs assms(6,7)] by blast
  let ?D = "known_docs (run_names run_id workers) (doc_at local_directory) w"
  have left: "length xs = rungs \<and> (\<forall>r < rungs. doc_at local_directory w (decision_name run_id r) = Some (xs ! r))"
    if "j < workers" "ps ! j = Ret xs" for j xs
  proof -
    have "sat_ok (run_names run_id workers) (owned run_id j) (record_ok run_id workers rungs) (ladder_done run_id rungs)
        (ps ! j) (Ks j) (Ws j) \<and> Ks j \<subseteq> ?D"
      using inv that(1) len unfolding sat.inv_def fst_conv snd_conv by blast
    then have "ladder_done run_id rungs xs (Ks j) (Ws j)" "Ks j \<subseteq> ?D" using that(2) by simp_all
    then show ?thesis by (auto simp: ladder_done_def known_docs_def)
  qed
  have ds: "length ds = rungs" "\<forall>r < rungs. doc_at local_directory w (decision_name run_id r) = Some (ds ! r)"
    using left [OF assms(8,9)] by simp_all
  have "\<exists>progress. length progress = workers \<and>
        (\<forall>k < workers. doc_at local_directory w (progress_name run_id r k) = Some (progress ! k)) \<and>
        decision_of rungs r progress (ds ! r)" if "r < rungs" for r
  proof -
    have "(decision_name run_id r, ds ! r) \<in> ?D" using ds(2) that assms(2) by (simp add: known_docs_def)
    then have "record_ok run_id workers rungs (decision_name run_id r) (ds ! r) ?D" by (rule sat.inv_docs [OF inv])
    then show ?thesis unfolding record_ok_decision by (auto simp: known_docs_def)
  qed
  moreover have "ds' = ds" if "j < workers" "ps ! j = Ret ds'" for j ds'
  proof (rule nth_equalityI)
    show "length ds' = length ds" using left [OF that] ds(1) by simp
    show "ds' ! r = ds ! r" if "r < length ds'" for r
      using that left [OF \<open>j < workers\<close> \<open>ps ! j = Ret ds'\<close>] ds(2) by force
  qed
  ultimately show ?thesis using rungs ds by auto
qed

definition ladder_config :: benchmark_config where
  "ladder_config = \<lparr>application_type = ''GRPC'', target_url = ''http://shop'', metrics_url = None, workload = ''saturation'',
     warmup_seconds = 0, duration_seconds = 10, drain_seconds = 0, users = 1, spawn_rate = Fin 1, arrival_rate = Fin 1,
     saturation_start_rate = Fin 60, saturation_max_rate = Fin 60, saturation_step_seconds = 10,
     outcome_timeout_seconds = Fin 30, settlement_timeout_seconds = Fin 30, resource_sample_interval_seconds = Fin 1, seed = 1,
     collect_resources = True, collect_nats_metrics = True\<rparr>"

definition measured :: "int \<Rightarrow> json result list" where
  "measured n = map Inr [JNull, JInt 0, JNull, JNull, JInt 0, JNull, JNull, JInt 10, JInt n, JNull]"

definition ladder_world :: sat_world where
  "ladder_world = \<lparr>sw_docs = (\<lambda>_. None), sw_script = [], sw_answers = measured 7 @ measured 5\<rparr>"

definition ladder_end :: "(sat_eff, sat_world, dict list) config" where
  "ladder_end = run_sched (backend_ops False)
     (replicate 11 0 @ replicate 11 1 @ replicate 7 0 @ replicate 3 1)
     (ladder_world, map (worker_program 3 ''run'' ladder_config 2) [0..<2])"

definition ladder_decisions :: "dict list" where
  "ladder_decisions = (case result_of (snd ladder_end ! 0) of Some (Inr ds) \<Rightarrow> ds | _ \<Rightarrow> [])"

lemma ladder_end_finished:
  "snd ladder_end ! 0 = Ret ladder_decisions" "\<exists>ds. snd ladder_end ! 1 = Ret ds"
proof -
  have "(case result_of (snd ladder_end ! 0) of Some (Inr ds) \<Rightarrow> True | _ \<Rightarrow> False) = True" by code_simp
  then show "snd ladder_end ! 0 = Ret ladder_decisions"
    by (simp add: ladder_decisions_def result_of_Ret split: option.splits sum.splits)
  have "(case result_of (snd ladder_end ! 1) of Some (Inr ds) \<Rightarrow> True | _ \<Rightarrow> False) = True" by code_simp
  then show "\<exists>ds. snd ladder_end ! 1 = Ret ds" by (auto simp: result_of_Ret split: option.splits sum.splits)
qed

theorem saturation_workers_agree_witness:
  "saturation_step_count ladder_config = Inr (int (length ladder_decisions)) \<and>
   doc_at False (fst ladder_end) (decision_name ''run'' 0) = Some (ladder_decisions ! 0) \<and>
   snd ladder_end ! 1 = Ret ladder_decisions"
proof -
  have n: "worker_count ladder_config = Inr (int 2)" by code_simp
  have reached: "reaches (backend_ops False) (ladder_world, map (worker_program 3 ''run'' ladder_config 2) [0..<2])
      (fst ladder_end, snd ladder_end)"
    unfolding prod.collapse ladder_end_def by (rule run_sched_reaches)
  have all: "saturation_step_count ladder_config = Inr (int (length ladder_decisions)) \<and>
    (\<forall>r < length ladder_decisions. doc_at False (fst ladder_end) (decision_name ''run'' r) = Some (ladder_decisions ! r) \<and>
      (\<exists>progress. length progress = 2 \<and>
        (\<forall>k < 2. doc_at False (fst ladder_end) (progress_name ''run'' r k) = Some (progress ! k)) \<and>
        decision_of (length ladder_decisions) r progress (ladder_decisions ! r))) \<and>
    (\<forall>j < 2. \<forall>ds'. snd ladder_end ! j = Ret ds' \<longrightarrow> ds' = ladder_decisions)"
    by (rule saturation_workers_agree [OF n _ _ _ _ _ reached _ ladder_end_finished(1)])
      (simp_all add: ladder_config_def ladder_world_def doc_at_def)
  then have "length ladder_decisions = 1" by (simp add: saturation_step_count_def ladder_config_def)
  moreover have "\<forall>ds'. snd ladder_end ! 1 = Ret ds' \<longrightarrow> ds' = ladder_decisions"
    by (rule conjunct2 [OF conjunct2 [OF all], THEN spec [of _ 1], THEN mp]) simp
  then have "snd ladder_end ! 1 = Ret ladder_decisions" using ladder_end_finished(2) by auto
  ultimately show ?thesis using all by auto
qed

section \<open>Waiting ends\<close>

text \<open>A world with a clock: it never runs backwards, a nap takes at least the 50 ms that are asked for, and reading a
  record fails in one of the ways of the two backends.\<close>

definition clocked :: "(sat_eff, 's) kv_ops \<Rightarrow> ('s \<Rightarrow> rat) \<Rightarrow> string \<Rightarrow> bool" where
  "clocked H now name \<longleftrightarrow>
     (\<forall>s. \<exists>s'. op_ext H MonotonicClock s = (Inr (JFloat (Fin (now s))), s') \<and> now s \<le> now s') \<and>
     (\<forall>s. \<exists>s'. op_ext H Nap s = (Inr JNull, s') \<and> now s + 1 / 20 \<le> now s') \<and>
     (\<forall>s r s'. op_ext H (CGet name) s = (r, s') \<longrightarrow> now s \<le> now s' \<and>
        (\<forall>j. r = Inr j \<longrightarrow> (\<exists>d. j = JObj d)) \<and> (\<forall>e. r = Inl e \<longrightarrow> exn_cls e \<notin> {TimeoutError, OtherError}))"

definition wait_outcome :: "('s \<Rightarrow> rat) \<Rightarrow> rat \<Rightarrow> dict result \<times> 's \<Rightarrow> bool" where
  "wait_outcome now deadline x \<longleftrightarrow>
     (\<forall>e. fst x = Inl e \<longrightarrow> exn_cls e \<noteq> OtherError \<and> (exn_cls e = TimeoutError \<longrightarrow> deadline \<le> now (snd x)))"

lemma wait_loop_step:
  assumes "clocked H now name"
  shows "(\<exists>x. (\<forall>k. run (wait_loop (Suc k) name (Fin deadline)) H s = x) \<and> wait_outcome now deadline x) \<or>
    (\<exists>s'. now s < deadline \<and> now s + 1 / 20 \<le> now s' \<and>
      (\<forall>k. run (wait_loop (Suc k) name (Fin deadline)) H s = run (wait_loop k name (Fin deadline)) H s'))"
proof -
  obtain r s1 where get: "op_ext H (CGet name) s = (r, s1)" by fastforce
  have s1: "now s \<le> now s1" "\<And>j. r = Inr j \<Longrightarrow> \<exists>d. j = JObj d" "\<And>e. r = Inl e \<Longrightarrow> exn_cls e \<notin> {TimeoutError, OtherError}"
    using assms get unfolding clocked_def by blast+
  obtain s2 where s2: "op_ext H MonotonicClock s1 = (Inr (JFloat (Fin (now s1))), s2)" "now s1 \<le> now s2"
    using assms unfolding clocked_def by blast
  obtain s3 where s3: "op_ext H Nap s2 = (Inr JNull, s3)" "now s2 + 1 / 20 \<le> now s3"
    using assms unfolding clocked_def by blast
  show ?thesis
  proof (cases r)
    case (Inr j)
    then obtain d where "j = JObj d" using s1(2) by blast
    then show ?thesis using Inr get by (simp add: wait_outcome_def)
  next
    case (Inl e)
    define late where "late = (Exn TimeoutError (''timed out waiting for saturation coordination '' @ name))"
    have loop: "run (wait_loop (Suc k) name (Fin deadline)) H s =
        (if \<not> is_a (exn_cls e) RecordNotFound then (Inl e, s1) else if deadline \<le> now s1 then (Inl late, s2)
         else run (wait_loop k name (Fin deadline)) H s3)" for k
      by (simp add: Inl get s2(1) s3(1) arith_def late_def)
    have "wait_outcome now deadline (Inl e, s1)" using s1(3) [OF Inl] by (simp add: wait_outcome_def)
    moreover have "wait_outcome now deadline (Inl late, s2)" if "deadline \<le> now s1"
      using that s2(2) by (simp add: wait_outcome_def late_def)
    moreover have "now s < deadline \<and> now s + 1 / 20 \<le> now s3" if "\<not> deadline \<le> now s1"
      using that s1(1) s2(2) s3(2) by linarith
    ultimately show ?thesis unfolding loop by (cases "is_a (exn_cls e) RecordNotFound"; cases "deadline \<le> now s1") auto
  qed
qed

lemma wait_loop_ends:
  assumes "clocked H now name" and "deadline \<le> now s + of_nat n / 20" and "n < m"
  shows "run (wait_loop m name (Fin deadline)) H s = run (wait_loop (Suc n) name (Fin deadline)) H s \<and>
    wait_outcome now deadline (run (wait_loop m name (Fin deadline)) H s)"
  using assms(2,3)
proof (induction n arbitrary: s m)
  case 0
  obtain k where "m = Suc k" using 0(2) by (cases m) auto
  then show ?case using wait_loop_step [OF assms(1), of deadline s] 0(1) by auto
next
  case (Suc n)
  obtain k where k: "m = Suc k" "n < k" using Suc.prems(2) by (cases m) auto
  consider x where "\<And>k. run (wait_loop (Suc k) name (Fin deadline)) H s = x" "wait_outcome now deadline x"
    | s' where "now s + 1 / 20 \<le> now s'"
        "\<And>k. run (wait_loop (Suc k) name (Fin deadline)) H s = run (wait_loop k name (Fin deadline)) H s'"
    using wait_loop_step [OF assms(1), of deadline s] by blast
  then show ?case
  proof cases
    case 1
    then show ?thesis unfolding k(1) by simp
  next
    case 2
    have "deadline \<le> now s' + of_nat n / 20" using 2(1) Suc.prems(1) by (simp add: field_simps)
    from Suc.IH [OF this k(2)] show ?thesis unfolding k(1) 2(2) .
  qed
qed

text \<open>C26. Waiting for a coordination record always ends: however often the record is missing, \<open>WAIT_FUEL\<close> polls are
  enough (more polls never change the outcome, so the polling loop of the source terminates), and the wait gives up
  with a timeout only after the full coordination timeout of 60 seconds.\<close>

theorem saturation_wait_ends:
  assumes "clocked H now name" and "WAIT_FUEL \<le> polls"
  shows "run (wait polls name) H s = run (wait WAIT_FUEL name) H s \<and>
    wait_outcome now (now s + 60) (run (wait polls name) H s)"
proof -
  obtain s1 where s1: "op_ext H MonotonicClock s = (Inr (JFloat (Fin (now s))), s1)" "now s \<le> now s1"
    using assms(1) unfolding clocked_def by blast
  have unfold: "run (wait k name) H s = run (wait_loop k name (Fin (now s + 60))) H s1" for k
    by (simp add: wait_def s1(1) arith_def COORDINATION_TIMEOUT_SECONDS_def)
  have "now s + 60 \<le> now s1 + of_nat 1200 / 20" using s1(2) by simp
  then have "run (wait_loop polls name (Fin (now s + 60))) H s1 = run (wait_loop (Suc 1200) name (Fin (now s + 60))) H s1 \<and>
      wait_outcome now (now s + 60) (run (wait_loop polls name (Fin (now s + 60))) H s1)"
    using assms(2) by (intro wait_loop_ends [OF assms(1)]) (simp_all add: WAIT_FUEL_def)
  moreover have "Suc 1200 = WAIT_FUEL" by (simp add: WAIT_FUEL_def)
  ultimately show ?thesis unfolding unfold by argo
qed

definition idle_ops :: "(sat_eff, rat) kv_ops" where
  "idle_ops = \<lparr>op_get = \<lambda>k s. (raise OtherError [], s), op_create = \<lambda>k v s. (raise OtherError [], s),
     op_update = \<lambda>k v n s. (raise OtherError [], s),
     op_ext = \<lambda>x s. case x of MonotonicClock \<Rightarrow> (Inr (JFloat (Fin s)), s) | Nap \<Rightarrow> (Inr JNull, s + 1 / 20)
       | CGet n \<Rightarrow> (raise RecordNotFound n, s) | _ \<Rightarrow> (Inr JNull, s)\<rparr>"

theorem saturation_wait_ends_witness:
  "run (wait 5000 ''run/saturation/0000/decision.json'') idle_ops 0 = run (wait WAIT_FUEL ''run/saturation/0000/decision.json'') idle_ops 0 \<and>
   wait_outcome id 60 (run (wait 5000 ''run/saturation/0000/decision.json'') idle_ops 0)"
proof -
  have "clocked idle_ops id ''run/saturation/0000/decision.json''" by (simp add: clocked_def idle_ops_def)
  moreover have "WAIT_FUEL \<le> 5000" by (simp add: WAIT_FUEL_def)
  ultimately have "run (wait 5000 ''run/saturation/0000/decision.json'') idle_ops 0 =
      run (wait WAIT_FUEL ''run/saturation/0000/decision.json'') idle_ops 0 \<and>
      wait_outcome id (id 0 + 60) (run (wait 5000 ''run/saturation/0000/decision.json'') idle_ops 0)"
    by (rule saturation_wait_ends)
  then show ?thesis unfolding id_apply add_0 .
qed

end
