(* ===== verification/Fault_Control.thy ===== *)
theory Fault_Control
  imports Effects Py_Records Bench_Config
begin

text \<open>
  The fault-tolerance experiment, \<open>src/benchmarkservice/fault_tolerance.py\<close>: the plan of the faults, the kubectl
  commands and the controller that scales a deployment to zero, waits and scales it back, and that restores
  what it has scaled down when anything goes wrong. The controller is a tree of requests whose answers are
  arbitrary: any command, any write and any wait may fail, and a stop may be requested at any time.
\<close>

section \<open>Plans\<close>

record fault =
  fa_service :: string
  fa_deployment :: string
  fa_disable_at :: int
  fa_enable_at :: int
  fa_replicas :: int

record fault_plan =
  fp_namespace :: string
  fp_context :: "string option"
  fp_startup :: int
  fp_disable_payment :: int
  fp_between :: int
  fp_disable_shipping :: int
  fp_recovery :: int
  fp_stable_seconds :: int
  fp_success_fraction :: pyfloat
  fp_pending_tolerance :: int
  fp_faults :: "fault list"

definition plan_seconds :: "fault_plan \<Rightarrow> int" where
  "plan_seconds p = fp_startup p + fp_disable_payment p + fp_between p + fp_disable_shipping p + fp_recovery p"

definition fault_doc :: "fault \<Rightarrow> json" where
  "fault_doc f = JObj
     [(''service'', JStr (fa_service f)), (''deployment'', JStr (fa_deployment f)),
      (''disable_at_seconds'', JInt (fa_disable_at f)), (''enable_at_seconds'', JInt (fa_enable_at f)),
      (''original_replicas'', JInt (fa_replicas f))]"

definition plan_doc :: "fault_plan \<Rightarrow> pyfloat \<Rightarrow> dict" where
  "plan_doc p start_epoch =
     [(''schema_version'', JInt 1), (''start_epoch'', JFloat start_epoch), (''duration_seconds'', JInt (plan_seconds p)),
      (''namespace'', JStr (fp_namespace p)),
      (''context'', case fp_context p of None \<Rightarrow> JNull | Some c \<Rightarrow> JStr c),
      (''startup_time'', JInt (fp_startup p)),
      (''disable_paymentservice_time'', JInt (fp_disable_payment p)),
      (''between_disable_time'', JInt (fp_between p)),
      (''disable_shippingservice_time'', JInt (fp_disable_shipping p)),
      (''recovery_time'', JInt (fp_recovery p)),
      (''convergence_stable_seconds'', JInt (fp_stable_seconds p)),
      (''convergence_success_fraction'', JFloat (fp_success_fraction p)),
      (''convergence_pending_tolerance'', JInt (fp_pending_tolerance p)),
      (''faults'', JList (map fault_doc (fp_faults p)))]"

section \<open>Kubectl\<close>

record kubectl =
  k_namespace :: string
  k_context :: "string option"
  k_executable :: string
  k_timeout :: int

datatype fault_eff =
    Spawn "string list"
  | WriteJson dict | OpenEvents | WriteEvent dict
  | WallClock | UtcNow | StopWait pyfloat

definition kubectl_command :: "kubectl \<Rightarrow> string list \<Rightarrow> string list" where
  "kubectl_command k arguments =
     [k_executable k] @ (case k_context k of None \<Rightarrow> [] | Some c \<Rightarrow> if c = [] then [] else [''--context'', c]) @
     [''--namespace'', k_namespace k] @ arguments"

definition run_error :: "kubectl \<Rightarrow> string list \<Rightarrow> exn \<Rightarrow> exn" where
  "run_error k command e =
     (if exn_cls e = FileNotFoundError then Exn RuntimeError (''kubectl executable '' @ py_repr (JStr (k_executable k)) @ '' was not found'')
      else if exn_cls e = TimeoutExpired
      then Exn RuntimeError (''kubectl timed out after '' @ show_int (k_timeout k) @ ''s: '' @ join '' '' command)
      else if exn_cls e = CalledProcessError
      then Exn RuntimeError (''kubectl failed ('' @ join '' '' command @ ''): '' @ strip (exn_msg e))
      else e)"

definition kubectl_run :: "kubectl \<Rightarrow> string list \<Rightarrow> (fault_eff, string) prog" where
  "kubectl_run k arguments =
     (let command = kubectl_command k arguments in
      Ext (Spawn command) (\<lambda>r. case r of
        Inl e \<Rightarrow> Raise (run_error k command e)
      | Inr out \<Rightarrow> Ret (strip (py_str out))))"

definition kubectl_replicas :: "kubectl \<Rightarrow> string \<Rightarrow> (fault_eff, int) prog" where
  "kubectl_replicas k deployment =
     bindp (kubectl_run k [''get'', ''deployment'', deployment, ''--output'', ''jsonpath={.spec.replicas}'']) (\<lambda>raw.
       case parse_int (if raw = [] then ''1'' else raw) of
         None \<Rightarrow> Raise (Exn RuntimeError (''deployment/'' @ deployment @ '' returned invalid replicas '' @ py_repr (JStr raw)))
       | Some n \<Rightarrow>
           if n < 1 then Raise (Exn RuntimeError (''deployment/'' @ deployment @ '' must have at least one replica before the benchmark''))
           else Ret n)"

definition ensure_scalable :: "kubectl \<Rightarrow> string \<Rightarrow> (fault_eff, unit) prog" where
  "ensure_scalable k deployment =
     bindp (kubectl_run k [''auth'', ''can-i'', ''update'', ''deployment/'' @ deployment, ''--subresource=scale'']) (\<lambda>allowed.
       if lower (strip allowed) \<noteq> ''yes''
       then Raise (Exn RuntimeError (''kubectl user cannot scale deployment/'' @ deployment @ '' in namespace '' @ k_namespace k))
       else Ret ())"

definition scale_arguments :: "string \<Rightarrow> int \<Rightarrow> string list" where
  "scale_arguments deployment replicas = [''scale'', ''deployment'', deployment, ''--replicas='' @ show_int replicas]"

definition kubectl_scale :: "kubectl \<Rightarrow> string \<Rightarrow> int \<Rightarrow> (fault_eff, unit) prog" where
  "kubectl_scale k deployment replicas =
     bindp (kubectl_run k (scale_arguments deployment replicas)) (\<lambda>_. Ret ())"

section \<open>Plan from the arguments\<close>

record fault_arguments =
  ar_namespace :: string
  ar_context :: "string option"
  ar_startup :: int
  ar_disable_payment :: int
  ar_between :: int
  ar_disable_shipping :: int
  ar_recovery :: int
  ar_stable_seconds :: int
  ar_success_fraction :: pyfloat
  ar_pending_tolerance :: int
  ar_payment_deployment :: string
  ar_shipping_deployment :: string

definition validate_arguments :: "fault_arguments \<Rightarrow> unit result" where
  "validate_arguments a =
     (if ar_startup a < 1 then raise ConfigError ''startup_time must be at least 1 second''
      else if ar_disable_payment a < 1 then raise ConfigError ''disable_paymentservice_time must be at least 1 second''
      else if ar_between a < 1 then raise ConfigError ''between_disable_time must be at least 1 second''
      else if ar_disable_shipping a < 1 then raise ConfigError ''disable_shippingservice_time must be at least 1 second''
      else if ar_recovery a < 1 then raise ConfigError ''recovery_time must be at least 1 second''
      else if ar_stable_seconds a < 1 then raise ConfigError ''convergence_stable_seconds must be at least 1''
      else if ar_recovery a < ar_stable_seconds a then raise ConfigError ''recovery_time must be at least convergence_stable_seconds''
      else if \<not> (f_lt (Fin 0) (ar_success_fraction a) \<and> f_le (ar_success_fraction a) (Fin 1))
      then raise ConfigError ''convergence_success_fraction must be greater than 0 and no more than 1''
      else if ar_pending_tolerance a < 0 then raise ConfigError ''convergence_pending_tolerance must not be negative''
      else if ar_payment_deployment a = ar_shipping_deployment a
      then raise ConfigError ''payment_deployment and shipping_deployment must be different''
      else Inr ())"

definition plan_of :: "fault_arguments \<Rightarrow> int \<Rightarrow> int \<Rightarrow> fault_plan" where
  "plan_of a payment_replicas shipping_replicas =
     (let payment_down = ar_startup a;
          payment_up = payment_down + ar_disable_payment a;
          shipping_down = payment_up + ar_between a;
          shipping_up = shipping_down + ar_disable_shipping a
      in \<lparr>fp_namespace = ar_namespace a, fp_context = ar_context a, fp_startup = ar_startup a,
          fp_disable_payment = ar_disable_payment a, fp_between = ar_between a,
          fp_disable_shipping = ar_disable_shipping a, fp_recovery = ar_recovery a,
          fp_stable_seconds = ar_stable_seconds a, fp_success_fraction = ar_success_fraction a,
          fp_pending_tolerance = ar_pending_tolerance a,
          fp_faults =
            [\<lparr>fa_service = ''paymentservice'', fa_deployment = ar_payment_deployment a, fa_disable_at = payment_down,
              fa_enable_at = payment_up, fa_replicas = payment_replicas\<rparr>,
             \<lparr>fa_service = ''shippingservice'', fa_deployment = ar_shipping_deployment a, fa_disable_at = shipping_down,
              fa_enable_at = shipping_up, fa_replicas = shipping_replicas\<rparr>]\<rparr>)"

definition plan_from_args :: "kubectl \<Rightarrow> fault_arguments \<Rightarrow> (fault_eff, fault_plan) prog" where
  "plan_from_args k a =
     lift (validate_arguments a) (\<lambda>_.
     bindp (ensure_scalable k (ar_payment_deployment a)) (\<lambda>_.
     bindp (ensure_scalable k (ar_shipping_deployment a)) (\<lambda>_.
     bindp (kubectl_replicas k (ar_payment_deployment a)) (\<lambda>payment.
     bindp (kubectl_replicas k (ar_shipping_deployment a)) (\<lambda>shipping.
       Ret (plan_of a payment shipping))))))"

record load_arguments =
  la_target_url :: json
  la_metrics_url :: json
  la_drain :: int
  la_arrival_rate :: pyfloat
  la_outcome_timeout :: pyfloat
  la_settlement_timeout :: pyfloat
  la_seed :: int
  la_application :: string

definition fault_config :: "load_arguments \<Rightarrow> fault_plan \<Rightarrow> benchmark_config result" where
  "fault_config a plan = from_request
     [(''target_url'', la_target_url a), (''metrics_url'', la_metrics_url a), (''workload'', JStr ''fault_tolerance''),
      (''warmup_seconds'', JInt 0), (''duration_seconds'', JInt (plan_seconds plan)), (''drain_seconds'', JInt (la_drain a)),
      (''arrival_rate'', JFloat (la_arrival_rate a)), (''outcome_timeout_seconds'', JFloat (la_outcome_timeout a)),
      (''settlement_timeout_seconds'', JFloat (la_settlement_timeout a)), (''resource_sample_interval_seconds'', JInt 1),
      (''seed'', JInt (la_seed a)), (''collect_resources'', JBool True),
      (''collect_nats_metrics'', JBool (la_application a = ''NATS''))]
     (la_application a)"

section \<open>The controller\<close>

definition no_more_polls :: exn where
  "no_more_polls = Exn OtherError ''polls exhausted''"

text \<open>\<open>_wait_until\<close>: each poll sleeps at most half a second; \<open>polls\<close> bounds their number.\<close>

primrec wait_until :: "nat \<Rightarrow> pyfloat \<Rightarrow> (fault_eff, unit) prog" where
  "wait_until 0 deadline = Raise no_more_polls"
| "wait_until (Suc n) deadline =
     Ext WallClock (\<lambda>t. lift (rbind t arith) (\<lambda>now.
       let remaining = f_sub deadline now in
       if f_le remaining (Fin 0) then Ret ()
       else Ext (StopWait (f_min remaining (Fin (1 / 2)))) (\<lambda>r. lift r (\<lambda>stopped.
         if truthy stopped then Raise (Exn InterruptedError ''fault-tolerance run was interrupted'')
         else wait_until n deadline))))"

definition event_doc :: "fault \<Rightarrow> string \<Rightarrow> dict \<Rightarrow> pyfloat \<Rightarrow> pyfloat \<Rightarrow> json \<Rightarrow> dict" where
  "event_doc f action details start_epoch timestamp date =
     [(''timestamp'', JFloat timestamp), (''at'', date),
      (''elapsed_seconds'', JFloat (f_round 6 (f_max (Fin 0) (f_sub timestamp start_epoch)))),
      (''service'', JStr (fa_service f)), (''deployment'', JStr (fa_deployment f)), (''action'', JStr action),
      (''original_replicas'', JInt (fa_replicas f))] @ details"

definition record_event :: "pyfloat \<Rightarrow> fault \<Rightarrow> string \<Rightarrow> dict \<Rightarrow> (fault_eff, unit) prog" where
  "record_event start_epoch f action details =
     Ext WallClock (\<lambda>t. lift (rbind t arith) (\<lambda>timestamp.
     Ext UtcNow (\<lambda>d. lift d (\<lambda>date.
     Ext (WriteEvent (event_doc f action details start_epoch timestamp date)) (\<lambda>r. lift r (\<lambda>_. Ret ()))))))"

text \<open>A statement of the \<open>try\<close> block: if it raises, the block ends with the deployments scaled down at that point.\<close>

definition guarded ::
  "fault list \<Rightarrow> (fault_eff, unit) prog \<Rightarrow> (fault_eff, fault list \<times> exn option) prog \<Rightarrow> (fault_eff, fault list \<times> exn option) prog" where
  "guarded scaled_down p next =
     bindp (catchp (bindp p (\<lambda>_. Ret None)) (\<lambda>e. Ret (Some e))) (\<lambda>x.
       case x of None \<Rightarrow> next | Some e \<Rightarrow> Ret (scaled_down, Some e))"

text \<open>\<open>scaled_down\<close> as the faults in insertion order, keyed by deployment.\<close>

definition mark_down :: "fault \<Rightarrow> fault list \<Rightarrow> fault list" where
  "mark_down f down =
     (if fa_deployment f \<in> fa_deployment ` set down
      then map (\<lambda>g. if fa_deployment g = fa_deployment f then f else g) down else down @ [f])"

definition mark_up :: "fault \<Rightarrow> fault list \<Rightarrow> fault list" where
  "mark_up f down = filter (\<lambda>g. fa_deployment g \<noteq> fa_deployment f) down"

primrec fault_loop ::
  "nat \<Rightarrow> kubectl \<Rightarrow> fault_plan \<Rightarrow> pyfloat \<Rightarrow> fault list \<Rightarrow> fault list \<Rightarrow> (fault_eff, fault list \<times> exn option) prog" where
  "fault_loop polls k plan start_epoch down [] =
     guarded down (wait_until polls (f_add start_epoch (Fin (of_int (plan_seconds plan))))) (Ret (down, None))"
| "fault_loop polls k plan start_epoch down (f # fs) =
     (let down1 = mark_down f down; down2 = mark_up f down1 in
      guarded down (wait_until polls (f_add start_epoch (Fin (of_int (fa_disable_at f)))))
     (guarded down (record_event start_epoch f ''scale_down_started'' [(''planned_elapsed_seconds'', JInt (fa_disable_at f))])
     (guarded down1 (kubectl_scale k (fa_deployment f) 0)
     (guarded down1 (record_event start_epoch f ''disabled'' [(''replicas'', JInt 0)])
     (guarded down1 (wait_until polls (f_add start_epoch (Fin (of_int (fa_enable_at f)))))
     (guarded down1 (record_event start_epoch f ''scale_up_started'' [(''planned_elapsed_seconds'', JInt (fa_enable_at f))])
     (guarded down1 (kubectl_scale k (fa_deployment f) (fa_replicas f))
     (guarded down2 (record_event start_epoch f ''reenabled'' [(''replicas'', JInt (fa_replicas f))])
     (fault_loop polls k plan start_epoch down2 fs)))))))))"

definition restore_one :: "kubectl \<Rightarrow> pyfloat \<Rightarrow> fault \<Rightarrow> (fault_eff, string list) prog" where
  "restore_one k start_epoch f =
     catchp
       (bindp (kubectl_scale k (fa_deployment f) (fa_replicas f)) (\<lambda>_.
        bindp (record_event start_epoch f ''restored'' [(''replicas'', JInt (fa_replicas f))]) (\<lambda>_. Ret [])))
       (\<lambda>e. bindp (record_event start_epoch f ''restore_failed'' [(''error'', JStr (exn_msg e))]) (\<lambda>_.
         Ret [''deployment/'' @ fa_deployment f @ '': '' @ exn_msg e]))"

primrec restore :: "kubectl \<Rightarrow> pyfloat \<Rightarrow> fault list \<Rightarrow> (fault_eff, string list) prog" where
  "restore k start_epoch [] = Ret []"
| "restore k start_epoch (f # fs) =
     bindp (restore_one k start_epoch f) (\<lambda>es. bindp (restore k start_epoch fs) (\<lambda>es'. Ret (es @ es')))"

definition fault_controller :: "nat \<Rightarrow> kubectl \<Rightarrow> fault_plan \<Rightarrow> pyfloat \<Rightarrow> (fault_eff, unit) prog" where
  "fault_controller polls k plan start_epoch =
     Ext (WriteJson (plan_doc plan start_epoch)) (\<lambda>r. lift r (\<lambda>_.
     Ext OpenEvents (\<lambda>r. lift r (\<lambda>_.
     bindp (fault_loop polls k plan start_epoch [] (fp_faults plan)) (\<lambda>(down, failure).
     bindp (restore k start_epoch (rev down)) (\<lambda>errors.
       if errors \<noteq> []
       then Raise (Exn RuntimeError (''could not restore scaled deployments: '' @ join ''; '' errors))
       else case failure of None \<Rightarrow> Ret () | Some e \<Rightarrow> Raise e))))))"

end
