(* ===== verification/Executions.thy ===== *)
theory Executions
  imports Effects
begin

text \<open>
  Executions of a tree of requests under arbitrary answers, and a predicate transformer over them. A monitor
  \<open>upd\<close> observes every request with its answer and keeps a state of its own (the last command given for a deployment,
  the number of records written, the time that has passed); \<open>tracks upd I Q p g\<close> states that every execution of \<open>p\<close>
  from the observed state \<open>g\<close> keeps \<open>I\<close> after each request and ends with a result and a state that satisfy \<open>Q\<close>.
\<close>

section \<open>Executions\<close>

text \<open>Every execution of a tree: the requests made with the answers received, and the tree that remains.\<close>

type_synonym 'x trail = "('x \<times> json result) list"

inductive executes :: "('x, 'a) prog \<Rightarrow> 'x trail \<Rightarrow> ('x, 'a) prog \<Rightarrow> bool" for p where
  executes_start: "executes p [] p"
| executes_request: "executes p trail (Ext x c) \<Longrightarrow> executes p (trail @ [(x, r)]) (c r)"

inductive_cases executes_snocE: "executes p (trail @ [(x, r)]) q"

text \<open>The execution with given answers.\<close>

fun run_answers :: "json result list \<Rightarrow> 'x trail \<Rightarrow> ('x, 'a) prog \<Rightarrow> 'x trail \<times> ('x, 'a) prog" where
  "run_answers (r # rs) trail (Ext x c) = run_answers rs (trail @ [(x, r)]) (c r)"
| "run_answers rs trail p = (trail, p)"

lemma run_answers_executes:
  "executes p trail q \<Longrightarrow> executes p (fst (run_answers rs trail q)) (snd (run_answers rs trail q))"
  by (induction rs trail q rule: run_answers.induct) (auto intro: executes_request)

lemma executes_prefix:
  assumes "executes p (trail @ later) q"
  shows "\<exists>q'. executes p trail q'"
  using assms
proof (induction later arbitrary: q rule: rev_induct)
  case (snoc e later)
  obtain x r where "e = (x, r)" by (cases e)
  then have "executes p ((trail @ later) @ [(x, r)]) q" using snoc.prems by simp
  then show ?case by (elim executes_snocE) (use snoc.IH in auto)
qed auto

section \<open>Monitors\<close>

definition observed :: "('x \<Rightarrow> json result \<Rightarrow> 'g \<Rightarrow> 'g) \<Rightarrow> 'g \<Rightarrow> 'x trail \<Rightarrow> 'g" where
  "observed upd g trail = foldl (\<lambda>g (x, r). upd x r g) g trail"

lemma observed_Nil [simp]: "observed upd g [] = g"
  by (simp add: observed_def)

lemma observed_snoc [simp]: "observed upd g (trail @ [(x, r)]) = upd x r (observed upd g trail)"
  by (simp add: observed_def)

lemma observed_Cons [simp]: "observed upd g ((x, r) # trail) = observed upd (upd x r g) trail"
  by (simp add: observed_def)

primrec tracks ::
  "('x \<Rightarrow> json result \<Rightarrow> 'g \<Rightarrow> 'g) \<Rightarrow> ('g \<Rightarrow> bool) \<Rightarrow> ('a result \<Rightarrow> 'g \<Rightarrow> bool) \<Rightarrow> ('x, 'a) prog \<Rightarrow> 'g \<Rightarrow> bool" where
  "tracks upd I Q (Ret a) g = Q (Inr a) g"
| "tracks upd I Q (Raise e) g = Q (Inl e) g"
| "tracks upd I Q (KvGet n c) g = False"
| "tracks upd I Q (KvCreate n v c) g = False"
| "tracks upd I Q (KvUpdate n v i c) g = False"
| "tracks upd I Q (Ext x c) g = (\<forall>r. I (upd x r g) \<and> tracks upd I Q (c r) (upd x r g))"

lemma tracks_executes:
  assumes "executes p trail q" and "tracks upd I Q p g" and "I g"
  shows "I (observed upd g trail) \<and> tracks upd I Q q (observed upd g trail)"
  using assms by (induction rule: executes.induct) auto

lemma tracks_result:
  assumes "tracks upd I Q q g" and "result_of q = Some r"
  shows "Q r g"
  using assms by (cases q) auto

lemma tracks_mono:
  assumes "tracks upd I Q p g" and "\<And>r g. Q r g \<Longrightarrow> Q' r g"
  shows "tracks upd I Q' p g"
  using assms by (induction p arbitrary: g) auto

lemma tracks_weaken:
  assumes "tracks upd I Q p g" and "\<And>g. I g \<Longrightarrow> I' g" and "\<And>r g. Q r g \<Longrightarrow> Q' r g"
  shows "tracks upd I' Q' p g"
  using assms by (induction p arbitrary: g) auto

lemma tracks_conj:
  assumes "tracks upd I Q p g" and "tracks upd I' Q' p g"
  shows "tracks upd (\<lambda>g. I g \<and> I' g) (\<lambda>r g. Q r g \<and> Q' r g) p g"
  using assms by (induction p arbitrary: g) auto

lemma tracks_bindp:
  "tracks upd I Q (bindp p f) g \<longleftrightarrow>
     tracks upd I (\<lambda>r g. case r of Inl e \<Rightarrow> Q (Inl e) g | Inr a \<Rightarrow> tracks upd I Q (f a) g) p g"
  by (induction p arbitrary: g) auto

lemma tracks_catchp:
  "tracks upd I Q (catchp p h) g \<longleftrightarrow>
     tracks upd I (\<lambda>r g. case r of Inl e \<Rightarrow> tracks upd I Q (h e) g | Inr a \<Rightarrow> Q (Inr a) g) p g"
  by (induction p arbitrary: g) auto

lemma tracks_lift:
  "tracks upd I Q (lift r f) g \<longleftrightarrow> (case r of Inl e \<Rightarrow> Q (Inl e) g | Inr a \<Rightarrow> tracks upd I Q (f a) g)"
  by (cases r) auto

end
