(* ===== verification/Fault_Control_Props.thy ===== *)
theory Fault_Control_Props
  imports Fault_Control Executions
begin

text \<open>
  The fault controller cleans up after itself: in every execution, whatever fails and whenever it is stopped, it
  never has more than one deployment scaled away at a time, and when it ends the last command for every deployment
  it touched is the one that restores the replicas found at the start.
\<close>

section \<open>Commands\<close>

text \<open>The last scale command of each deployment, with its argument and whether kubectl reported success.\<close>

type_synonym commands = "string \<rightharpoonup> string \<times> bool"

definition scale_of :: "kubectl \<Rightarrow> string list \<Rightarrow> (string \<times> string) option" where
  "scale_of k command =
     (let prefix = kubectl_command k [] in
      if take (length prefix) command \<noteq> prefix then None
      else case drop (length prefix) command of
        [verb, kind, deployment, argument] \<Rightarrow>
          if verb = ''scale'' \<and> kind = ''deployment'' then Some (deployment, argument) else None
      | _ \<Rightarrow> None)"

definition after_request :: "kubectl \<Rightarrow> fault_eff \<Rightarrow> json result \<Rightarrow> commands \<Rightarrow> commands" where
  "after_request k x r m = (case x of
      Spawn command \<Rightarrow> (case scale_of k command of
          None \<Rightarrow> m | Some (d, a) \<Rightarrow> m(d \<mapsto> (a, case r of Inl _ \<Rightarrow> False | Inr _ \<Rightarrow> True)))
    | _ \<Rightarrow> m)"

abbreviation last_scale :: "kubectl \<Rightarrow> fault_eff trail \<Rightarrow> commands" where
  "last_scale k \<equiv> observed (after_request k) Map.empty"

abbreviation safe ::
  "kubectl \<Rightarrow> (commands \<Rightarrow> bool) \<Rightarrow> ('a result \<Rightarrow> commands \<Rightarrow> bool) \<Rightarrow> (fault_eff, 'a) prog \<Rightarrow> commands \<Rightarrow> bool" where
  "safe k \<equiv> tracks (after_request k)"

text \<open>A tree without commands.\<close>

primrec quiet :: "(fault_eff, 'a) prog \<Rightarrow> bool" where
  "quiet (Ret a) = True"
| "quiet (Raise e) = True"
| "quiet (KvGet n c) = False"
| "quiet (KvCreate n v c) = False"
| "quiet (KvUpdate n v i c) = False"
| "quiet (Ext x c) = ((case x of Spawn _ \<Rightarrow> False | _ \<Rightarrow> True) \<and> (\<forall>r. quiet (c r)))"

lemma safe_quiet:
  assumes "quiet p" and "I m" and "\<And>r. Q r m"
  shows "safe k I Q p m"
  using assms(1)
proof (induction p)
  case (Ext x c)
  then have "after_request k x r m = m" for r by (cases x) (auto simp: after_request_def)
  then show ?case using Ext assms(2) by simp
qed (use assms(3) in auto)

lemma quiet_lift [simp]: "quiet (lift r f) \<longleftrightarrow> (case r of Inl e \<Rightarrow> True | Inr a \<Rightarrow> quiet (f a))"
  by (cases r) auto

lemma quiet_wait_until [simp]: "quiet (wait_until polls deadline)"
  by (induction polls) (auto simp: Let_def split: sum.splits)

lemma quiet_record_event [simp]: "quiet (record_event start_epoch f action details)"
  by (auto simp: record_event_def split: sum.splits)

lemma scale_of_scale [simp]: "scale_of k (kubectl_command k (scale_arguments d n)) = Some (d, ''--replicas='' @ show_int n)"
  by (simp add: scale_of_def kubectl_command_def scale_arguments_def split: option.splits)

definition replicas_argument :: "int \<Rightarrow> string" where
  "replicas_argument n = ''--replicas='' @ show_int n"

lemma safe_scale:
  assumes "\<And>ok. I (m(d \<mapsto> (replicas_argument n, ok)))"
    and "Q (Inr ()) (m(d \<mapsto> (replicas_argument n, True)))" and "\<And>e. Q (Inl e) (m(d \<mapsto> (replicas_argument n, False)))"
  shows "safe k I Q (kubectl_scale k d n) m"
  using assms
  by (auto simp: kubectl_scale_def kubectl_run_def Let_def tracks_bindp after_request_def replicas_argument_def split: sum.splits)

lemma safe_guarded:
  "safe k I Q (guarded down p next) m \<longleftrightarrow>
     safe k I (\<lambda>r m. case r of Inl e \<Rightarrow> Q (Inr (down, Some e)) m | Inr _ \<Rightarrow> safe k I Q next m) p m"
proof -
  have "(case r of Inl e \<Rightarrow> safe k I (\<lambda>r m. case r of Inl e \<Rightarrow> Q (Inl e) m
            | Inr a \<Rightarrow> safe k I Q (case a of None \<Rightarrow> next | Some e \<Rightarrow> Ret (down, Some e)) m) (Ret (Some e)) m
         | Inr a \<Rightarrow> safe k I (\<lambda>r m. case r of Inl e \<Rightarrow> Q (Inl e) m
            | Inr a \<Rightarrow> safe k I Q (case a of None \<Rightarrow> next | Some e \<Rightarrow> Ret (down, Some e)) m) (Ret None) m)
      = (case r of Inl e \<Rightarrow> Q (Inr (down, Some e)) m | Inr _ \<Rightarrow> safe k I Q next m)" for r :: "unit result" and m
    by (cases r) simp_all
  then show ?thesis unfolding guarded_def tracks_bindp tracks_catchp by (auto simp: sum.case_eq_if cong: sum.case_cong)
qed

section \<open>The controller\<close>

text \<open>A deployment is in place when it was never scaled or its last command restored it successfully.\<close>

definition in_place :: "commands \<Rightarrow> fault \<Rightarrow> bool" where
  "in_place m f \<longleftrightarrow> m (fa_deployment f) \<in> {None, Some (replicas_argument (fa_replicas f), True)}"

definition restored :: "commands \<Rightarrow> fault \<Rightarrow> bool" where
  "restored m f \<longleftrightarrow> m (fa_deployment f) = Some (replicas_argument (fa_replicas f), True)"

definition only_down :: "fault list \<Rightarrow> fault \<Rightarrow> commands \<Rightarrow> bool" where
  "only_down fs f m \<longleftrightarrow> (\<forall>g \<in> set fs. \<not> in_place m g \<longrightarrow> g = f)"

definition one_down :: "fault list \<Rightarrow> commands \<Rightarrow> bool" where
  "one_down fs m \<longleftrightarrow> (\<forall>f \<in> set fs. \<forall>g \<in> set fs. \<not> in_place m f \<longrightarrow> \<not> in_place m g \<longrightarrow> f = g)"

definition loop_post :: "fault list \<Rightarrow> (fault list \<times> exn option) result \<Rightarrow> commands \<Rightarrow> bool" where
  "loop_post fs r m \<longleftrightarrow> (case r of
      Inl e \<Rightarrow> False
    | Inr (down, failure) \<Rightarrow>
        down = [] \<and> list_all (in_place m) fs \<and> (failure = None \<longrightarrow> list_all (restored m) fs) \<or>
        (\<exists>f \<in> set fs. down = [f] \<and> failure \<noteq> None \<and> only_down fs f m))"

lemma only_down_one_down: "only_down fs f m \<Longrightarrow> one_down fs m"
  by (auto simp: only_down_def one_down_def)

lemma all_in_place_one_down: "list_all (in_place m) fs \<Longrightarrow> one_down fs m"
  by (auto simp: one_down_def list_all_iff)

lemma only_down_update:
  assumes "distinct (map fa_deployment fs)" and "f \<in> set fs" and "only_down fs f m"
  shows "only_down fs f (m(fa_deployment f \<mapsto> x))"
  unfolding only_down_def
proof (intro ballI impI)
  fix g assume g: "g \<in> set fs" "\<not> in_place (m(fa_deployment f \<mapsto> x)) g"
  show "g = f"
  proof (cases "fa_deployment g = fa_deployment f")
    case True
    then show ?thesis using assms(1,2) g(1) by (auto simp: distinct_map dest: inj_onD)
  next
    case False
    then have "\<not> in_place m g" using g(2) by (simp add: in_place_def)
    then show ?thesis using assms(3) g(1) by (auto simp: only_down_def)
  qed
qed

lemma restored_update:
  assumes "distinct (map fa_deployment fs)" and "f \<in> set fs" and "only_down fs f m"
  shows "list_all (in_place (m(fa_deployment f \<mapsto> (replicas_argument (fa_replicas f), True)))) fs"
proof -
  have "in_place (m(fa_deployment f \<mapsto> (replicas_argument (fa_replicas f), True))) f" by (simp add: in_place_def)
  with only_down_update [OF assms] show ?thesis by (auto simp: only_down_def list_all_iff)
qed

lemma restored_other:
  "restored m g \<Longrightarrow> fa_deployment g \<noteq> fa_deployment f \<Longrightarrow> restored (m(fa_deployment f \<mapsto> x)) g"
  by (simp add: restored_def)

text \<open>A statement of the loop that gives no command.\<close>

lemma safe_guarded_quiet:
  assumes "quiet p" and "I m" and "\<And>e. Q (Inr (down, Some e)) m" and "safe k I Q next m"
  shows "safe k I Q (guarded down p next) m"
  unfolding safe_guarded by (rule safe_quiet) (use assms in \<open>auto split: sum.splits\<close>)

lemma safe_guarded_scale:
  assumes "\<And>ok. I (m(d \<mapsto> (replicas_argument n, ok)))" and "\<And>e. Q (Inr (down, Some e)) (m(d \<mapsto> (replicas_argument n, False)))"
    and "safe k I Q next (m(d \<mapsto> (replicas_argument n, True)))"
  shows "safe k I Q (guarded down (kubectl_scale k d n) next) m"
  unfolding safe_guarded by (rule safe_scale) (use assms in auto)

lemma fault_loop_safe:
  assumes "distinct (map fa_deployment (past @ fs))" and "list_all (in_place m) (past @ fs)" and "list_all (restored m) past"
  shows "safe k (one_down (past @ fs)) (loop_post (past @ fs)) (fault_loop polls k plan start_epoch [] fs) m"
  using assms
proof (induction fs arbitrary: past m)
  case Nil
  then show ?case
    by (auto simp: loop_post_def intro!: safe_guarded_quiet all_in_place_one_down)
next
  case (Cons f fs)
  let ?all = "past @ f # fs"
  let ?d = "fa_deployment f"
  have f: "f \<in> set ?all" by simp
  have down: "mark_down f [] = [f]" "mark_up f [f] = []" by (simp_all add: mark_down_def mark_up_def)
  have only: "only_down ?all f m" using Cons.prems(2) by (auto simp: only_down_def list_all_iff)
  let ?m0 = "\<lambda>ok. m(?d \<mapsto> (replicas_argument 0, ok))"
  let ?m1 = "\<lambda>ok. (?m0 True)(?d \<mapsto> (replicas_argument (fa_replicas f), ok))"
  have m0: "only_down ?all f (?m0 ok)" for ok by (rule only_down_update [OF Cons.prems(1) f only])
  have m1: "only_down ?all f (?m1 ok)" for ok by (rule only_down_update [OF Cons.prems(1) f m0])
  have up: "list_all (in_place (?m1 True)) ?all" by (rule restored_update [OF Cons.prems(1) f m0])
  have post: "loop_post ?all (Inr ([f], Some e)) m'" if "only_down ?all f m'" for m' e
    using that f by (auto simp: loop_post_def)
  have empty: "loop_post ?all (Inr ([], Some e)) m'" if "list_all (in_place m') ?all" for m' e
    using that by (simp add: loop_post_def)
  have "list_all (restored (?m1 True)) (past @ [f])"
    using Cons.prems(1,3) by (force simp: list_all_iff restored_def image_iff)
  then have "safe k (one_down ((past @ [f]) @ fs)) (loop_post ((past @ [f]) @ fs)) (fault_loop polls k plan start_epoch [] fs) (?m1 True)"
    using Cons.prems(1) up by (intro Cons.IH) (simp_all only: append_assoc append_Cons append_Nil)
  then have rest: "safe k (one_down ?all) (loop_post ?all) (fault_loop polls k plan start_epoch [] fs) (?m1 True)"
    by (simp only: append_assoc append_Cons append_Nil)
  show ?case
    unfolding fault_loop.simps Let_def down
    by (intro safe_guarded_quiet safe_guarded_scale quiet_wait_until quiet_record_event post empty rest
          only_down_one_down [OF only] only_down_one_down [OF m0] only_down_one_down [OF m1] m0 m1 up Cons.prems(2)
          all_in_place_one_down [OF up])
qed

definition controller_post :: "fault list \<Rightarrow> unit result \<Rightarrow> commands \<Rightarrow> bool" where
  "controller_post fs r m \<longleftrightarrow>
     (\<forall>f \<in> set fs. m (fa_deployment f) = None \<or> (\<exists>ok. m (fa_deployment f) = Some (replicas_argument (fa_replicas f), ok))) \<and>
     (r = Inr () \<longrightarrow> list_all (restored m) fs)"

lemma controller_post_place: "list_all (in_place m) fs \<Longrightarrow> controller_post fs (Inl e) m"
  by (auto simp: controller_post_def in_place_def list_all_iff)

lemma controller_post_down:
  assumes "distinct (map fa_deployment fs)" and "f \<in> set fs" and "only_down fs f m"
  shows "controller_post fs (Inl e) (m(fa_deployment f \<mapsto> (replicas_argument (fa_replicas f), ok)))"
proof -
  have "g = f \<or> in_place m g" if "g \<in> set fs" for g using assms(3) that by (auto simp: only_down_def)
  moreover have "g = f" if "g \<in> set fs" "fa_deployment g = fa_deployment f" for g
    using assms(1,2) that by (auto simp: distinct_map dest: inj_onD)
  ultimately show ?thesis by (fastforce simp: controller_post_def in_place_def)
qed

lemma restore_one_safe:
  assumes "distinct (map fa_deployment fs)" and "f \<in> set fs" and "only_down fs f m"
    and fail: "\<And>e ok. Q (Inl e) (m(fa_deployment f \<mapsto> (replicas_argument (fa_replicas f), ok)))"
    and ret: "\<And>es ok. Q (Inr es) (m(fa_deployment f \<mapsto> (replicas_argument (fa_replicas f), ok)))"
  shows "safe k (one_down fs) Q (restore_one k start_epoch f) m"
proof -
  let ?m = "\<lambda>ok. m(fa_deployment f \<mapsto> (replicas_argument (fa_replicas f), ok))"
  have I: "one_down fs (?m ok)" for ok by (rule only_down_one_down [OF only_down_update [OF assms(1-3)]])
  have handler: "safe k (one_down fs) Q (bindp (record_event start_epoch f ''restore_failed'' [(''error'', JStr (exn_msg e))])
      (\<lambda>_. Ret [''deployment/'' @ fa_deployment f @ '': '' @ exn_msg e])) (?m ok)" for e ok
    unfolding tracks_bindp by (rule safe_quiet) (use I fail ret in \<open>auto split: sum.splits\<close>)
  have recorded: "safe k (one_down fs) Q' (bindp (record_event start_epoch f ''restored'' [(''replicas'', JInt (fa_replicas f))])
      (\<lambda>_. Ret [])) (?m True)" if "\<And>e. Q' (Inl e) (?m True)" "Q' (Inr []) (?m True)" for Q'
    unfolding tracks_bindp by (rule safe_quiet) (use I that in \<open>auto split: sum.splits\<close>)
  show ?thesis
    unfolding restore_one_def tracks_catchp tracks_bindp [of _ _ _ "kubectl_scale _ _ _"]
    by (rule safe_scale) (use I handler ret in \<open>auto intro!: recorded\<close>)
qed

lemma fault_controller_safe:
  assumes "distinct (map fa_deployment (fp_faults plan))"
  shows "safe k (one_down (fp_faults plan)) (controller_post (fp_faults plan)) (fault_controller polls k plan start_epoch) Map.empty"
proof -
  let ?fs = "fp_faults plan"
  let ?rest = "\<lambda>(down, failure). bindp (restore k start_epoch (rev down)) (\<lambda>errors.
       if errors \<noteq> []
       then Raise (Exn RuntimeError (''could not restore scaled deployments: '' @ join ''; '' errors))
       else case failure of None \<Rightarrow> Ret () | Some e \<Rightarrow> Raise e)"
  have rest: "safe k (one_down ?fs) (controller_post ?fs) (?rest x) m" if post: "loop_post ?fs (Inr x) m" for x m
  proof -
    obtain down failure where x: "x = (down, failure)" by fastforce
    consider "down = []" "list_all (in_place m) ?fs" "failure = None \<longrightarrow> list_all (restored m) ?fs"
      | f e where "f \<in> set ?fs" "down = [f]" "failure = Some e" "only_down ?fs f m"
      using post by (auto simp: loop_post_def x)
    then show ?thesis
    proof cases
      case 1
      then show ?thesis
        using controller_post_place [OF 1(2)] by (auto simp: x controller_post_def split: option.splits)
    next
      case 2
      have "safe k (one_down ?fs) (\<lambda>r m. case r of Inl e' \<Rightarrow> controller_post ?fs (Inl e') m
          | Inr es \<Rightarrow> safe k (one_down ?fs) (controller_post ?fs) (if es \<noteq> []
             then Raise (Exn RuntimeError (''could not restore scaled deployments: '' @ join ''; '' es)) else Raise e) m)
          (restore_one k start_epoch f) m"
        by (rule restore_one_safe [OF assms 2(1,4)]) (use controller_post_down [OF assms 2(1,4)] in auto)
      then show ?thesis
        by (simp add: x 2(2,3) tracks_bindp, elim tracks_mono) (auto split: sum.splits)
    qed
  qed
  have "safe k (one_down ?fs) (loop_post ?fs) (fault_loop polls k plan start_epoch [] ?fs) Map.empty"
    using fault_loop_safe [of "[]" ?fs Map.empty] assms by (simp add: in_place_def list_all_iff)
  then have loop: "safe k (one_down ?fs) (controller_post ?fs) (bindp (fault_loop polls k plan start_epoch [] ?fs) ?rest) Map.empty"
    unfolding tracks_bindp
  proof (rule tracks_mono)
    fix r m assume post: "loop_post ?fs r m"
    then obtain x where "r = Inr x" by (cases r) (simp_all add: loop_post_def)
    then show "case r of Inl e \<Rightarrow> controller_post ?fs (Inl e) m | Inr x \<Rightarrow> safe k (one_down ?fs) (controller_post ?fs) (?rest x) m"
      using rest [of x m] post by simp
  qed
  have I: "one_down ?fs Map.empty" "controller_post ?fs (Inl e) Map.empty" for e
    by (simp_all add: one_down_def controller_post_def in_place_def)
  show ?thesis
    unfolding fault_controller_def using loop I
    by (auto simp: after_request_def lift_def split: sum.splits)
qed

section \<open>Plans\<close>

definition plan_ok :: "fault_plan \<Rightarrow> bool" where
  "plan_ok plan \<longleftrightarrow> distinct (map fa_deployment (fp_faults plan)) \<and> list_all (\<lambda>f. 1 \<le> fa_replicas f) (fp_faults plan) \<and>
     list_all (\<lambda>f. 1 \<le> fa_disable_at f \<and> fa_disable_at f < fa_enable_at f \<and> fa_enable_at f < plan_seconds plan) (fp_faults plan) \<and>
     sorted_wrt (\<lambda>f g. fa_enable_at f < fa_disable_at g) (fp_faults plan)"

lemma plan_of_ok:
  assumes "validate_arguments a = Inr ()" and "1 \<le> payment" and "1 \<le> shipping"
  shows "plan_ok (plan_of a payment shipping)"
proof -
  have "1 \<le> ar_startup a" "1 \<le> ar_disable_payment a" "1 \<le> ar_between a" "1 \<le> ar_disable_shipping a" "1 \<le> ar_recovery a"
    "ar_payment_deployment a \<noteq> ar_shipping_deployment a"
    using assms(1) by (auto simp: validate_arguments_def split: if_splits)
  then show ?thesis using assms(2,3) by (auto simp: plan_ok_def plan_of_def Let_def plan_seconds_def)
qed

text \<open>\<open>safe\<close> for trees of which only the returned value matters.\<close>

abbreviation returns :: "kubectl \<Rightarrow> ('a \<Rightarrow> bool) \<Rightarrow> (fault_eff, 'a) prog \<Rightarrow> commands \<Rightarrow> bool" where
  "returns k P \<equiv> safe k (\<lambda>_. True) (\<lambda>r _. case r of Inl _ \<Rightarrow> True | Inr a \<Rightarrow> P a)"

lemma returns_bindp:
  assumes "\<And>m. returns k P p m" and "\<And>a m. P a \<Longrightarrow> returns k P' (f a) m"
  shows "returns k P' (bindp p f) m"
  unfolding tracks_bindp by (rule tracks_mono [OF assms(1)]) (use assms(2) in \<open>auto split: sum.splits\<close>)

lemma returns_run: "returns k (\<lambda>_. True) (kubectl_run k arguments) m"
  by (auto simp: kubectl_run_def Let_def split: sum.splits)

lemma returns_replicas: "returns k (\<lambda>n. 1 \<le> n) (kubectl_replicas k deployment) m"
  unfolding kubectl_replicas_def
  by (rule returns_bindp [OF returns_run]) (auto split: option.splits)

lemma returns_ensure: "returns k (\<lambda>_. True) (ensure_scalable k deployment) m"
  unfolding ensure_scalable_def
  by (rule returns_bindp [OF returns_run]) simp

lemma plan_from_args_ok: "returns k plan_ok (plan_from_args k a) m"
proof (cases "validate_arguments a")
  case (Inr u)
  then show ?thesis
    unfolding plan_from_args_def
    by (simp, intro returns_bindp [OF returns_ensure] returns_bindp [OF returns_replicas]) (simp add: plan_of_ok)
qed (simp add: plan_from_args_def)

section \<open>Properties\<close>

text \<open>C27. The fault controller never leaves a service disabled unnoticed. For every plan made from accepted arguments
  and in every execution of the controller, whatever command, write or wait fails and whenever a stop is requested:
  at every moment at most one deployment of the plan is possibly away from its original number of replicas; when the
  controller ends, in whatever way, the last scale command for every deployment it has touched asks for the replicas
  found before the experiment; and it ends normally only if every deployment was scaled back successfully. The plan
  itself disables the services one after the other, within the duration of the run.\<close>

theorem fault_controller_restores:
  assumes "executes (plan_from_args k a) planning (Ret plan)"
    and "executes (fault_controller polls k plan start_epoch) trail q"
  shows "plan_ok plan \<and> one_down (fp_faults plan) (last_scale k trail) \<and>
    (\<forall>r. result_of q = Some r \<longrightarrow> controller_post (fp_faults plan) r (last_scale k trail))"
proof -
  have "returns k plan_ok (Ret plan) (last_scale k planning)"
    using tracks_executes [OF assms(1) plan_from_args_ok] by simp
  then have plan: "plan_ok plan" by simp
  then have safe: "safe k (one_down (fp_faults plan)) (controller_post (fp_faults plan)) (fault_controller polls k plan start_epoch) Map.empty"
    by (intro fault_controller_safe) (simp add: plan_ok_def)
  have initial: "one_down (fp_faults plan) Map.empty" by (simp add: one_down_def in_place_def)
  note end_state = tracks_executes [OF assms(2) safe, OF initial]
  show ?thesis by (intro conjI allI impI plan end_state [THEN conjunct1] tracks_result [OF end_state [THEN conjunct2]])
qed

text \<open>An execution that stops while the payment service is disabled.\<close>

definition demo_kubectl :: kubectl where
  "demo_kubectl = \<lparr>k_namespace = ''shop'', k_context = None, k_executable = ''kubectl'', k_timeout = 30\<rparr>"

definition demo_arguments :: fault_arguments where
  "demo_arguments = \<lparr>ar_namespace = ''shop'', ar_context = None, ar_startup = 10, ar_disable_payment = 10, ar_between = 10,
     ar_disable_shipping = 10, ar_recovery = 20, ar_stable_seconds = 5, ar_success_fraction = Fin (9 / 10),
     ar_pending_tolerance = 0, ar_payment_deployment = ''paymentservice'', ar_shipping_deployment = ''shippingservice''\<rparr>"

definition demo_planning :: "fault_eff trail \<times> (fault_eff, fault_plan) prog" where
  "demo_planning = run_answers (map (Inr \<circ> JStr) [''yes'', ''yes'', ''2'', ''1'']) [] (plan_from_args demo_kubectl demo_arguments)"

definition demo_plan :: fault_plan where
  "demo_plan = plan_of demo_arguments 2 1"

definition demo_run :: "fault_eff trail \<times> (fault_eff, unit) prog" where
  "demo_run = run_answers (map Inr
     ([JNull, JNull, JInt 10, JInt 10, JStr ''t'', JNull, JStr [], JInt 10, JStr ''t'', JNull, JInt 11, JBool True,
       JStr [], JInt 12, JStr ''t'', JNull])) [] (fault_controller 3 demo_kubectl demo_plan (Fin 0))"

lemma demo_planned: "snd demo_planning = Ret demo_plan"
proof -
  have "result_of (snd demo_planning) = Some (Inr demo_plan)" by code_simp
  then show ?thesis by (simp add: result_of_Ret)
qed

lemma demo_stopped: "result_of (snd demo_run) = Some (raise InterruptedError ''fault-tolerance run was interrupted'')"
  by code_simp

theorem fault_controller_restores_witness:
  "plan_ok demo_plan \<and> one_down (fp_faults demo_plan) (last_scale demo_kubectl (fst demo_run)) \<and>
   controller_post (fp_faults demo_plan) (raise InterruptedError ''fault-tolerance run was interrupted'')
     (last_scale demo_kubectl (fst demo_run))"
proof -
  have "executes (plan_from_args demo_kubectl demo_arguments) (fst demo_planning) (snd demo_planning)"
    unfolding demo_planning_def by (intro run_answers_executes executes_start)
  then have "executes (plan_from_args demo_kubectl demo_arguments) (fst demo_planning) (Ret demo_plan)"
    by (simp only: demo_planned)
  moreover have "executes (fault_controller 3 demo_kubectl demo_plan (Fin 0)) (fst demo_run) (snd demo_run)"
    unfolding demo_run_def by (intro run_answers_executes executes_start)
  ultimately show ?thesis using fault_controller_restores demo_stopped by blast
qed

end
