(* ===== verification/Parallel.thy ===== *)
theory Parallel
  imports Py_Records
begin

text \<open>
  Merging the output of the parallel workers of a run, \<open>src/benchmarkservice/parallel.py\<close>: the names of the
  exchanged objects, the readers of the record files, \<open>heapq.merge\<close> by timestamp, the recount of the
  outstanding orders, and the collection of statuses and logs. A file is the list of its lines, an absent file
  is \<open>None\<close>; \<open>json.loads\<close> is a parameter.
\<close>

section \<open>Object names and archives\<close>

definition ready_object :: "string \<Rightarrow> nat \<Rightarrow> string" where
  "ready_object run_id index = run_id @ ''/workers/'' @ pad4 index @ ''/ready.json''"

definition result_object :: "string \<Rightarrow> nat \<Rightarrow> string" where
  "result_object run_id index = run_id @ ''/workers/'' @ pad4 index @ ''/result.zip''"

definition start_object :: "string \<Rightarrow> string" where
  "start_object run_id = run_id @ ''/workers/start.json''"

text \<open>The check of \<open>extract_archive\<close> on the member names: no absolute path and no parent directory.\<close>

definition unsafe_member :: "string \<Rightarrow> bool" where
  "unsafe_member name \<longleftrightarrow> startswith name ''/'' \<or> ''..'' \<in> set (split_at (CHR ''/'') name)"

definition extract_archive :: "(string \<times> 'c) list \<Rightarrow> (string \<Rightarrow> 'c option) \<Rightarrow> (string \<Rightarrow> 'c option) result" where
  "extract_archive members destination =
     (case find (unsafe_member \<circ> fst) members of
        Some (name, _) \<Rightarrow> raise ValueError (''worker archive contains unsafe path '' @ py_repr (JStr name))
      | None \<Rightarrow> Inr (foldl (\<lambda>d (name, content). d(name \<mapsto> content)) destination members))"

section \<open>Merging by timestamp\<close>

text \<open>What iterating over a file of records yields: records, and possibly an exception at the end.\<close>

fun read_stream :: "(string \<Rightarrow> json option) \<Rightarrow> nat \<Rightarrow> string list \<Rightarrow> dict result list" where
  "read_stream loads n [] = []"
| "read_stream loads n (line # rest) =
     (if strip line = [] then read_stream loads (Suc n) rest
      else case loads line of
        None \<Rightarrow> if 1 < n then read_stream loads (Suc n) rest else [raise ValueError ''JSONDecodeError'']
      | Some (JObj d) \<Rightarrow> Inr d # read_stream loads (Suc n) rest
      | Some _ \<Rightarrow> read_stream loads (Suc n) rest)"

definition read_records :: "(string \<Rightarrow> json option) \<Rightarrow> string list option \<Rightarrow> dict result list" where
  "read_records loads file = (case file of None \<Rightarrow> [] | Some lines \<Rightarrow> read_stream loads 1 lines)"

definition timestamp_of :: "dict \<Rightarrow> pyfloat result" where
  "timestamp_of r = get_float r ''timestamp'' (JInt 0)"

text \<open>\<open>heapq.merge\<close>: the head of each iterator with its key; the least key is emitted, the first iterator winning a tie,
  and the iterator is advanced after that. Once a single iterator is left its remaining items are passed on without
  computing keys. An exception ends the merge after the items emitted before. On keys that are NaN the order of
  Python's heap is not represented.\<close>

type_synonym head = "pyfloat \<times> dict \<times> dict result list"

fun pull :: "dict result list \<Rightarrow> head option result" where
  "pull [] = Inr None"
| "pull (Inl e # rest) = Inl e"
| "pull (Inr d # rest) = rbind (timestamp_of d) (\<lambda>k. Inr (Some (k, d, rest)))"

fun drain :: "dict result list \<Rightarrow> dict list \<times> exn option" where
  "drain [] = ([], None)"
| "drain (Inl e # rest) = ([], Some e)"
| "drain (Inr d # rest) = (let (ds, err) = drain rest in (d # ds, err))"

fun first_least :: "(pyfloat \<times> 'b) list \<Rightarrow> nat" where
  "first_least (x # y # xs) = (let j = first_least (y # xs) in if f_lt (fst ((y # xs) ! j)) (fst x) then Suc j else 0)"
| "first_least xs = 0"

lemma first_least_less [simp]: "xs \<noteq> [] \<Longrightarrow> first_least xs < length xs"
  by (induction xs rule: first_least.induct) (auto simp: Let_def)

definition head_size :: "head \<Rightarrow> nat" where
  "head_size h = Suc (length (snd (snd h)))"

lemma pull_size: "pull rest = Inr (Some h) \<Longrightarrow> head_size h = length rest"
  by (induction rest rule: pull.induct) (auto simp: head_size_def)

lemma sum_list_remove_nth:
  "i < length xs \<Longrightarrow> sum_list (map f xs) = f (xs ! i) + sum_list (map f (take i xs @ drop (Suc i) xs))"
  for f :: "'a \<Rightarrow> 'n :: comm_monoid_add"
  by (subst id_take_nth_drop [of i xs]) (simp_all add: ac_simps)

definition add_item :: "dict \<Rightarrow> dict list \<times> exn option \<Rightarrow> dict list \<times> exn option" where
  "add_item d out = (d # fst out, snd out)"

function merge_heads :: "head list \<Rightarrow> dict list \<times> exn option" where
  "merge_heads heads =
     (let i = first_least heads; d = fst (snd (heads ! i)); rest = snd (snd (heads ! i)) in
      if heads = [] then ([], None)
      else if length heads = 1 then add_item d (drain rest)
      else case pull rest of
        Inl e \<Rightarrow> ([d], Some e)
      | Inr None \<Rightarrow> add_item d (merge_heads (take i heads @ drop (Suc i) heads))
      | Inr (Some h) \<Rightarrow> add_item d (merge_heads (heads[i := h])))"
  by pat_completeness auto
termination
proof (relation "measure (\<lambda>heads. sum_list (map head_size heads))", goal_cases)
  case (2 heads i d rest)
  then show ?case using sum_list_remove_nth [of i heads head_size] by (simp add: head_size_def)
next
  case (3 heads i d rest r h)
  then have i: "i < length heads" and h: "head_size h = length rest" by (auto dest: pull_size)
  have "sum_list (map head_size (heads[i := h])) = head_size h + sum_list (map head_size (take i heads @ drop (Suc i) heads))"
    using i by (simp add: upd_conv_take_nth_drop)
  then show ?case using sum_list_remove_nth [OF i, of head_size] 3(3) h by (simp add: head_size_def)
qed simp

declare merge_heads.simps [simp del]

definition heapq_merge :: "dict result list list \<Rightarrow> dict list \<times> exn option" where
  "heapq_merge streams = (case rmap pull streams of
      Inl e \<Rightarrow> ([], Some e)
    | Inr heads \<Rightarrow> merge_heads (List.map_filter id heads))"

section \<open>Outstanding orders\<close>

definition rebase_step :: "dict \<Rightarrow> dict list \<times> int \<Rightarrow> dict list \<times> int" where
  "rebase_step r s =
     (let n = (if dict_get r ''event'' JNull = JStr ''accepted'' then snd s + 1 else max 0 (snd s - 1))
      in (fst s @ [dict_set ''outstanding'' (JInt n) r], n))"

definition rebase_outstanding :: "dict list \<Rightarrow> dict list" where
  "rebase_outstanding records = fst (fold rebase_step records ([], 0))"

section \<open>The outputs of a run\<close>

record worker_output =
  wo_business :: "string list option"
  wo_outstanding :: "string list option"
  wo_shared :: "(string \<times> string) list"
  wo_status :: "string option"
  wo_log :: "string option"
  wo_csv :: "(string \<times> string) list"

record merged_output =
  mo_business :: "dict list"
  mo_outstanding :: "dict list"
  mo_shared :: "(string \<times> string) list"
  mo_log :: string
  mo_csv :: "(string \<times> string) list"
  mo_statuses :: "dict list"

definition SHARED_ARTIFACTS :: "string list" where
  "SHARED_ARTIFACTS = [''resources.jsonl'', ''saturation.jsonl'', ''workflow-events.json'']"

text \<open>The records of a merge that is written completely, or the exception that ended it.\<close>

definition write_records :: "dict list \<times> exn option \<Rightarrow> dict list result" where
  "write_records out = (case snd out of None \<Rightarrow> Inr (fst out) | Some e \<Rightarrow> Inl e)"

definition worker_status :: "(string \<Rightarrow> json option) \<Rightarrow> worker_output \<Rightarrow> dict list result" where
  "worker_status loads w = (case wo_status w of
      None \<Rightarrow> Inr []
    | Some content \<Rightarrow> (case loads content of
        None \<Rightarrow> raise ValueError ''JSONDecodeError'' | Some (JObj d) \<Rightarrow> Inr [d] | Some _ \<Rightarrow> Inr []))"

definition worker_log :: "nat \<Rightarrow> worker_output \<Rightarrow> string" where
  "worker_log i w = ''===== worker '' @ pad4 i @ '' ====='' @ [char_of (10 :: nat)] @
     (case wo_log w of None \<Rightarrow> [] | Some content \<Rightarrow> content) @ [char_of (10 :: nat)]"

definition removeprefix :: "string \<Rightarrow> string \<Rightarrow> string" where
  "removeprefix p s = (if startswith s p then drop (length p) s else s)"

definition worker_csv :: "nat \<Rightarrow> worker_output \<Rightarrow> (string \<times> string) list" where
  "worker_csv i w =
     map (\<lambda>(name, content). (''locust_worker-'' @ pad4 i @ removeprefix ''locust'' name, content))
       (sorted_items (filter (\<lambda>(name, _). startswith name ''locust_'' \<and> endswith name ''.csv'') (wo_csv w)))"

definition merge_worker_outputs :: "(string \<Rightarrow> json option) \<Rightarrow> worker_output list \<Rightarrow> merged_output result" where
  "merge_worker_outputs loads ws =
     rbind (write_records (heapq_merge (map (read_records loads \<circ> wo_business) ws))) (\<lambda>business.
     rbind (write_records (heapq_merge (map (read_records loads \<circ> wo_outstanding) ws))) (\<lambda>outstanding.
     rbind (py_index ws 0) (\<lambda>first.
     rbind (rmap (worker_status loads) ws) (\<lambda>statuses.
     Inr \<lparr>mo_business = business, mo_outstanding = rebase_outstanding outstanding,
          mo_shared = List.map_filter (\<lambda>a. map_option (Pair a) (map_of (wo_shared first) a)) SHARED_ARTIFACTS,
          mo_log = concat (map (\<lambda>(i, w). worker_log i w) (enumerate 0 ws)),
          mo_csv = concat (map (\<lambda>(i, w). worker_csv i w) (enumerate 0 ws)),
          mo_statuses = concat statuses\<rparr>))))"

end
