(* ===== verification/Parallel_Props.thy ===== *)
theory Parallel_Props
  imports Parallel
begin

text \<open>
  Correctness of the merge of the worker outputs: nothing is lost or invented, the result is ordered by time, and
  the recount of the outstanding orders is exact. The merge by heap is related to an abstract merge of lists.
\<close>

section \<open>The abstract merge\<close>

definition stamp :: "dict \<Rightarrow> rat" where
  "stamp d = (case timestamp_of d of Inr (Fin q) \<Rightarrow> q | _ \<Rightarrow> 0)"

definition stamped :: "dict \<Rightarrow> bool" where
  "stamped d \<longleftrightarrow> timestamp_of d = Inr (Fin (stamp d))"

text \<open>At each step the next item of some list is taken, no later than the next item of any other list.\<close>

inductive merged :: "dict list list \<Rightarrow> dict list \<Rightarrow> bool" where
  merged_stop: "list_all (\<lambda>xs. xs = []) xss \<Longrightarrow> merged xss []"
| merged_take: "list_all (\<lambda>ys. ys \<noteq> [] \<longrightarrow> stamp d \<le> stamp (hd ys)) (as @ bs) \<Longrightarrow> merged (as @ rest # bs) zs \<Longrightarrow>
     merged (as @ (d # rest) # bs) (d # zs)"

lemma merged_skip: "merged xss zs \<Longrightarrow> xss = as @ bs \<Longrightarrow> merged (as @ [] # bs) zs"
proof (induction arbitrary: as bs rule: merged.induct)
  case (merged_stop xss)
  then show ?case by (auto intro: merged.merged_stop)
next
  case (merged_take d ps qs rest zs)
  from merged_take.prems consider us where "ps = as @ us" "us @ (d # rest) # qs = bs"
    | us where "ps @ us = as" "(d # rest) # qs = us @ bs"
    by (auto simp: append_eq_append_conv2)
  then show ?case
  proof cases
    case 1
    have "merged ((as @ [] # us) @ rest # qs) zs" using merged_take.IH [of as "us @ rest # qs"] 1 by simp
    then have "merged ((as @ [] # us) @ (d # rest) # qs) (d # zs)"
      using merged_take.hyps(1) 1 by (intro merged.merged_take) auto
    then show ?thesis using 1 by simp
  next
    case 2
    show ?thesis
    proof (cases us)
      case Nil
      have "merged ((ps @ [[]]) @ rest # qs) zs" using merged_take.IH [of ps "rest # qs"] by simp
      then have "merged ((ps @ [[]]) @ (d # rest) # qs) (d # zs)"
        using merged_take.hyps(1) by (intro merged.merged_take) auto
      then show ?thesis using 2 Nil by simp
    next
      case (Cons u us')
      have "merged (ps @ rest # (us' @ [] # bs)) zs" using merged_take.IH [of "ps @ rest # us'" bs] 2 Cons by simp
      then have "merged (ps @ (d # rest) # (us' @ [] # bs)) (d # zs)"
        using merged_take.hyps(1) 2 Cons by (intro merged.merged_take) auto
      then show ?thesis using 2 Cons by auto
    qed
  qed
qed

lemma merged_mset: "merged xss zs \<Longrightarrow> mset zs = sum_list (map mset xss)"
proof (induction rule: merged.induct)
  case (merged_stop xss)
  then show ?case by (induction xss) auto
qed (simp add: ac_simps)

lemma merged_sorted:
  "merged xss zs \<Longrightarrow> list_all (\<lambda>xs. sorted (map stamp xs)) xss \<Longrightarrow> sorted (map stamp zs)"
proof (induction rule: merged.induct)
  case (merged_take d as bs rest zs)
  have "set_mset (mset zs) = \<Union> (set ` set (as @ rest # bs))"
    using merged_mset [OF merged_take.hyps(2)] by (auto simp: set_mset_sum_list)
  then have zs: "set zs = \<Union> (set ` set (as @ rest # bs))" by simp
  have "stamp d \<le> stamp z" if z: "z \<in> set zs" for z
  proof -
    obtain xs where xs: "xs \<in> set (as @ rest # bs)" "z \<in> set xs" using z zs by (metis UN_E)
    show ?thesis
    proof (cases "xs \<in> set (as @ bs)")
      case True
      have "xs \<noteq> []" using xs(2) by auto
      then have "stamp d \<le> stamp (hd xs)" using merged_take.hyps(1) True by (auto simp: list_all_iff)
      moreover have "sorted (map stamp xs)" using merged_take.prems True by (auto simp: list_all_iff)
      then have "stamp (hd xs) \<le> stamp z" using xs(2) by (cases xs) auto
      ultimately show ?thesis by simp
    next
      case False
      then have "z \<in> set rest" using xs by auto
      then show ?thesis using merged_take.prems by auto
    qed
  qed
  then show ?case using merged_take by auto
qed simp

text \<open>A quantity that never becomes negative along any of the lists never becomes negative along the merge.\<close>

definition stays_up :: "(dict \<Rightarrow> int) \<Rightarrow> int \<Rightarrow> dict list \<Rightarrow> bool" where
  "stays_up g c xs \<longleftrightarrow> (\<forall>n. 0 \<le> c + sum_list (map g (take n xs)))"

lemma stays_up_0: "stays_up g c xs \<Longrightarrow> 0 \<le> c"
  by (auto simp: stays_up_def dest: spec [of _ 0])

lemma stays_up_Cons: "stays_up g c (x # xs) \<longleftrightarrow> 0 \<le> c \<and> stays_up g (c + g x) xs"
proof -
  have "(\<forall>n. 0 \<le> c + sum_list (map g (take n (x # xs)))) \<longleftrightarrow>
      0 \<le> c \<and> (\<forall>n. 0 \<le> c + sum_list (map g (take (Suc n) (x # xs))))"
    by (metis add.right_neutral list.simps(8) not0_implies_Suc sum_list.Nil take0)
  then show ?thesis by (simp add: stays_up_def add.assoc)
qed

lemma sum_list_nonneg_levels: "list_all2 (stays_up g) cs xss \<Longrightarrow> 0 \<le> sum_list cs"
  by (induction rule: list_all2_induct) (auto dest: stays_up_0)

lemma merged_stays_up:
  "merged xss zs \<Longrightarrow> list_all2 (stays_up g) cs xss \<Longrightarrow> stays_up g (sum_list cs) zs"
proof (induction arbitrary: cs rule: merged.induct)
  case (merged_stop xss)
  from sum_list_nonneg_levels [OF merged_stop.prems] show ?case by (simp add: stays_up_def)
next
  case (merged_take d as bs rest zs)
  from merged_take.prems obtain us c vs where cs: "cs = us @ c # vs"
    and l: "list_all2 (stays_up g) us as" "stays_up g c (d # rest)" "list_all2 (stays_up g) vs bs"
    by (auto simp: list_all2_append2 list_all2_Cons2)
  have "list_all2 (stays_up g) (us @ (c + g d) # vs) (as @ rest # bs)"
    using l by (simp add: list_all2_appendI stays_up_Cons)
  then have "stays_up g (sum_list (us @ (c + g d) # vs)) zs" by (rule merged_take.IH)
  then show ?case
    using sum_list_nonneg_levels [OF merged_take.prems] by (simp add: cs stays_up_Cons ac_simps)
qed

section \<open>The heap implements the abstract merge\<close>

definition head_of :: "dict list \<Rightarrow> head" where
  "head_of xs = (Fin (stamp (hd xs)), hd xs, map Inr (tl xs))"

definition nonempty :: "dict list list \<Rightarrow> bool" where
  "nonempty xss \<longleftrightarrow> list_all (\<lambda>xs. xs \<noteq> [] \<and> list_all stamped xs) xss"

lemma pull_head: "list_all stamped xs \<Longrightarrow> pull (map Inr xs) = Inr (if xs = [] then None else Some (head_of xs))"
  by (cases xs) (auto simp: stamped_def head_of_def)

lemma drain_all: "drain (map Inr xs) = (xs, None)"
  by (induction xs) auto

lemma first_least_min:
  "xs \<noteq> [] \<Longrightarrow> j < length xs \<Longrightarrow> \<forall>x \<in> set xs. \<exists>q. fst x = Fin q \<Longrightarrow> f_le (fst (xs ! first_least xs)) (fst (xs ! j))"
proof (induction xs arbitrary: j rule: first_least.induct)
  case (1 x y xs)
  let ?i = "first_least (y # xs)"
  have i: "?i < length (y # xs)" by (rule first_least_less) simp
  obtain p q where p: "fst x = Fin p" and q: "fst ((y # xs) ! ?i) = Fin q" using 1(4) i nth_mem [OF i] by auto
  have pick: "(x # y # xs) ! first_least (x # y # xs) = (if q < p then (y # xs) ! ?i else x)"
    by (simp add: Let_def p q)
  show ?case
  proof (cases j)
    case 0
    then show ?thesis using p q unfolding pick by (cases "q < p") simp_all
  next
    case (Suc k)
    then have k: "f_le (Fin q) (fst ((y # xs) ! k))" using 1(1) [of k] 1(3,4) q by auto
    show ?thesis
    proof (cases "q < p")
      case True
      then show ?thesis using k q Suc unfolding pick by simp
    next
      case False
      then have "f_le (fst x) (Fin q)" using p by auto
      from f_le_trans [OF this k] show ?thesis using False Suc unfolding pick by simp
    qed
  qed
qed auto

lemma head_of_least:
  assumes "nonempty xss" "xss \<noteq> []" "ys \<in> set xss"
  shows "stamp (hd (xss ! first_least (map head_of xss))) \<le> stamp (hd ys)"
proof -
  let ?hs = "map head_of xss"
  obtain j where j: "j < length xss" "xss ! j = ys" using assms(3) by (auto simp: in_set_conv_nth)
  have "first_least ?hs < length xss" using first_least_less [of ?hs] assms(2) by simp
  moreover have "f_le (fst (?hs ! first_least ?hs)) (fst (?hs ! j))"
    using assms(2) j(1) by (intro first_least_min) (auto simp: head_of_def)
  ultimately show ?thesis using j by (auto simp: head_of_def)
qed

lemma merge_heads_merged:
  assumes "nonempty xss"
  shows "\<exists>zs. merge_heads (map head_of xss) = (zs, None) \<and> merged xss zs"
  using assms
proof (induction "length (concat xss)" arbitrary: xss rule: less_induct)
  case less
  let ?hs = "map head_of xss"
  show ?case
  proof (cases "xss = []")
    case True
    then show ?thesis by (simp add: merge_heads.simps merged_stop)
  next
    case False
    define i where "i = first_least ?hs"
    have i: "i < length xss" using first_least_less [of ?hs] False by (simp add: i_def)
    obtain d rest where d: "xss ! i = d # rest"
      using less.prems i by (cases "xss ! i") (auto simp: nonempty_def list_all_length)
    have split: "xss = take i xss @ (d # rest) # drop (Suc i) xss" using id_take_nth_drop [OF i] d by simp
    have "d # rest \<in> set xss" using nth_mem [OF i] d by simp
    then have rest: "list_all stamped rest" using less.prems by (auto simp: nonempty_def list_all_iff)
    have least: "list_all (\<lambda>ys. ys \<noteq> [] \<longrightarrow> stamp d \<le> stamp (hd ys)) (take i xss @ drop (Suc i) xss)"
      using head_of_least [OF less.prems False] d by (auto simp: list_all_iff i_def dest: in_set_takeD in_set_dropD)
    have hd: "fst (snd (?hs ! i)) = d" "snd (snd (?hs ! i)) = map Inr rest" using i d by (simp_all add: head_of_def)
    have unfold: "merge_heads ?hs = (if length ?hs = 1 then add_item d (drain (map Inr rest))
        else case pull (map Inr rest) of Inl e \<Rightarrow> ([d], Some e)
          | Inr None \<Rightarrow> add_item d (merge_heads (take i ?hs @ drop (Suc i) ?hs))
          | Inr (Some h) \<Rightarrow> add_item d (merge_heads (?hs[i := h])))"
      unfolding merge_heads.simps [of ?hs] Let_def i_def [symmetric] hd using False by simp
    have size: "length (concat xss) = Suc (length (concat (take i xss @ rest # drop (Suc i) xss)))"
      by (subst split) simp
    consider "length xss = 1" | "length xss \<noteq> 1" "rest = []" | "length xss \<noteq> 1" "rest \<noteq> []" by blast
    then show ?thesis
    proof cases
      case 1
      then have xss: "xss = [d # rest]" using i d by (cases xss) auto
      have "merged [rest] rest" for rest
        by (induction rest) (use merged_take [of _ "[]" "[]"] in \<open>auto intro: merged_stop\<close>)
      then have "merged ([] @ (d # rest) # []) (d # rest)" by (intro merged_take) auto
      then show ?thesis using unfold 1 by (simp add: xss drain_all add_item_def)
    next
      case 2
      let ?yss = "take i xss @ drop (Suc i) xss"
      have "nonempty ?yss" using less.prems by (auto simp: nonempty_def list_all_iff dest: in_set_takeD in_set_dropD)
      then obtain zs where zs: "merge_heads (map head_of ?yss) = (zs, None)" "merged ?yss zs"
        using less.hyps [of ?yss] size 2(2) by auto
      have "merged (take i xss @ [] # drop (Suc i) xss) zs" by (rule merged_skip [OF zs(2)]) simp
      then have "merged xss (d # zs)" using least 2(2) by (subst split) (auto intro: merged_take)
      then show ?thesis using unfold 2 zs(1) by (simp add: pull_head take_map drop_map add_item_def)
    next
      case 3
      let ?yss = "take i xss @ rest # drop (Suc i) xss"
      have "nonempty ?yss" using less.prems rest 3(2) by (auto simp: nonempty_def list_all_iff dest: in_set_takeD in_set_dropD)
      then obtain zs where zs: "merge_heads (map head_of ?yss) = (zs, None)" "merged ?yss zs"
        using less.hyps [of ?yss] size by auto
      have "map head_of ?yss = ?hs[i := head_of rest]"
        using i by (simp add: upd_conv_take_nth_drop take_map drop_map)
      moreover have "merged xss (d # zs)" using least zs(2) by (subst split) (rule merged_take)
      ultimately show ?thesis using unfold 3 zs(1) rest by (simp add: pull_head add_item_def)
    qed
  qed
qed

lemma heapq_merge_merged:
  assumes "list_all (list_all stamped) xss"
  shows "\<exists>zs. heapq_merge (map (map Inr) xss) = (zs, None) \<and> merged xss zs"
proof -
  have pulls: "rmap pull (map (map Inr) xss) = Inr (map (\<lambda>xs. if xs = [] then None else Some (head_of xs)) xss)"
    using assms by (induction xss) (auto simp: pull_head)
  have filter: "List.map_filter id (map (\<lambda>xs. if xs = [] then None else Some (head_of xs)) xss) =
      map head_of (filter (\<lambda>xs. xs \<noteq> []) xss)"
    by (induction xss) (auto simp: List.map_filter_simps)
  have "nonempty (filter (\<lambda>xs. xs \<noteq> []) xss)" using assms by (auto simp: nonempty_def list_all_iff)
  then obtain zs where zs: "merge_heads (map head_of (filter (\<lambda>xs. xs \<noteq> []) xss)) = (zs, None)"
      "merged (filter (\<lambda>xs. xs \<noteq> []) xss) zs"
    using merge_heads_merged by blast
  have "merged (pre @ filter (\<lambda>xs. xs \<noteq> []) xss) zs \<Longrightarrow> merged (pre @ xss) zs" for pre
  proof (induction xss arbitrary: pre)
    case (Cons xs xss)
    show ?case
    proof (cases "xs = []")
      case True
      then have "merged (pre @ xss) zs" using Cons by simp
      then show ?thesis using True merged_skip by blast
    next
      case False
      then show ?thesis using Cons.IH [of "pre @ [xs]"] Cons.prems by simp
    qed
  qed simp
  from this [of "[]"] zs show ?thesis by (simp add: heapq_merge_def pulls filter)
qed

section \<open>Outstanding orders\<close>

definition change :: "dict \<Rightarrow> int" where
  "change r = (if dict_get r ''event'' JNull = JStr ''accepted'' then 1 else - 1)"

text \<open>The records with the exact number of accepted orders that have not ended.\<close>

fun exact_levels :: "int \<Rightarrow> dict list \<Rightarrow> dict list" where
  "exact_levels c [] = []"
| "exact_levels c (r # rs) = dict_set ''outstanding'' (JInt (c + change r)) r # exact_levels (c + change r) rs"

lemma rebase_exact:
  "stays_up change c rs \<Longrightarrow> fold rebase_step rs (out, c) = (out @ exact_levels c rs, c + sum_list (map change rs))"
proof (induction rs arbitrary: c out)
  case (Cons r rs)
  then have up: "0 \<le> c + change r" "stays_up change (c + change r) rs"
    by (auto simp: stays_up_Cons dest: stays_up_0)
  then have "rebase_step r (out, c) = (out @ [dict_set ''outstanding'' (JInt (c + change r)) r], c + change r)"
    by (auto simp: rebase_step_def change_def Let_def split: if_splits)
  then show ?case using Cons.IH [OF up(2)] by (simp add: add.assoc)
qed simp

lemma exact_levels_nth:
  "n < length rs \<Longrightarrow> exact_levels c rs ! n = dict_set ''outstanding'' (JInt (c + sum_list (map change (take (Suc n) rs)))) (rs ! n)"
proof (induction rs arbitrary: c n)
  case (Cons r rs)
  then show ?case by (cases n) (simp_all add: add.assoc)
qed simp

lemma exact_levels_length [simp]: "length (exact_levels c rs) = length rs"
  by (induction rs arbitrary: c) auto

section \<open>Properties\<close>

definition readable :: "(string \<Rightarrow> json option) \<Rightarrow> string list option \<Rightarrow> dict list \<Rightarrow> bool" where
  "readable loads file ds \<longleftrightarrow> read_records loads file = map Inr ds \<and> list_all stamped ds \<and> sorted (map stamp ds)"

lemma merge_readable:
  assumes "list_all2 (\<lambda>f ds. readable loads f ds) files dss"
  shows "\<exists>zs. heapq_merge (map (read_records loads) files) = (zs, None) \<and> merged dss zs \<and>
    mset zs = sum_list (map mset dss) \<and> sorted (map stamp zs)"
proof -
  have "map (read_records loads) files = map (map Inr) dss" and l: "list_all (list_all stamped) dss"
    "list_all (\<lambda>ds. sorted (map stamp ds)) dss"
    using assms by (induction rule: list_all2_induct) (auto simp: readable_def)
  then show ?thesis using heapq_merge_merged [OF l(1)] merged_mset merged_sorted [OF _ l(2)] by metis
qed

text \<open>C28. Merging the outputs of the workers neither loses nor invents a record and counts exactly. If the record files
  of every worker are readable, with finite timestamps in ascending order, and no prefix of a worker's file of
  outstanding orders has more ends than acceptances, then the merge succeeds; the merged business records are exactly
  those of all the workers, ordered by time; and the merged file of outstanding orders holds the records of all the
  workers, ordered by time, each with the exact number of orders accepted and not ended up to it over all workers.\<close>

theorem merge_is_exact:
  assumes "ws \<noteq> []" and "rmap (worker_status loads) ws = Inr statuses"
    and "list_all2 (\<lambda>w ds. readable loads (wo_business w) ds) ws business"
    and "list_all2 (\<lambda>w ds. readable loads (wo_outstanding w) ds \<and> stays_up change 0 ds) ws outstanding"
  shows "\<exists>out zs. merge_worker_outputs loads ws = Inr out \<and>
    mset (mo_business out) = sum_list (map mset business) \<and> sorted (map stamp (mo_business out)) \<and>
    mset zs = sum_list (map mset outstanding) \<and> sorted (map stamp zs) \<and> length (mo_outstanding out) = length zs \<and>
    (\<forall>n < length zs. mo_outstanding out ! n =
       dict_set ''outstanding'' (JInt (sum_list (map change (take (Suc n) zs)))) (zs ! n)) \<and>
    mo_statuses out = concat statuses"
proof -
  have "list_all2 (\<lambda>f ds. readable loads f ds) (map wo_business ws) business"
    using assms(3) by (simp add: list_all2_map1)
  from merge_readable [OF this] obtain bs where bs: "heapq_merge (map (read_records loads) (map wo_business ws)) = (bs, None)"
    "mset bs = sum_list (map mset business)" "sorted (map stamp bs)" by blast
  have o: "list_all2 (\<lambda>f ds. readable loads f ds) (map wo_outstanding ws) outstanding"
    "list_all (stays_up change 0) outstanding"
    using assms(4) by (induction rule: list_all2_induct) auto
  from merge_readable [OF o(1)] obtain zs where zs: "heapq_merge (map (read_records loads) (map wo_outstanding ws)) = (zs, None)"
    "merged outstanding zs" "mset zs = sum_list (map mset outstanding)" "sorted (map stamp zs)" by blast
  have "list_all2 (stays_up change) (replicate (length outstanding) 0) outstanding"
    using o(2) by (simp add: list_all2_conv_all_nth list_all_length)
  then have "stays_up change (sum_list (replicate (length outstanding) 0)) zs" by (rule merged_stays_up [OF zs(2)])
  then have levels: "rebase_outstanding zs = exact_levels 0 zs"
    using rebase_exact [of 0 zs "[]"] by (simp add: rebase_outstanding_def sum_list_replicate)
  obtain first where first: "py_index ws 0 = Inr first" using assms(1) by (cases ws) (simp_all add: py_index_def)
  obtain out where out: "merge_worker_outputs loads ws = Inr out" "mo_business out = bs" "mo_outstanding out = exact_levels 0 zs"
      "mo_statuses out = concat statuses"
    unfolding merge_worker_outputs_def map_map [symmetric] bs(1) zs(1) by (simp add: write_records_def assms(2) first levels)
  show ?thesis
    by (rule exI [of _ out], rule exI [of _ zs]) (use out bs(2,3) zs(3,4) in \<open>simp add: exact_levels_nth\<close>)
qed

definition sample_loads :: "string \<Rightarrow> json option" where
  "sample_loads line =
     (if line = ''x'' then Some (JObj [(''timestamp'', JInt 1), (''event'', JStr ''accepted'')])
      else if line = ''y'' then Some (JObj [(''timestamp'', JInt 2), (''event'', JStr ''accepted'')])
      else if line = ''z'' then Some (JObj [(''timestamp'', JInt 3), (''event'', JStr ''completed'')])
      else None)"

definition sample_worker :: "string list \<Rightarrow> worker_output" where
  "sample_worker lines = \<lparr>wo_business = Some lines, wo_outstanding = Some lines, wo_shared = [], wo_status = None,
     wo_log = None, wo_csv = []\<rparr>"

definition sample_records :: "string list \<Rightarrow> dict list" where
  "sample_records lines = map (\<lambda>l. case sample_loads l of Some (JObj d) \<Rightarrow> d | _ \<Rightarrow> []) lines"

lemma sample_readable:
  "readable sample_loads (Some [''x'', ''z'']) (sample_records [''x'', ''z''])"
  "readable sample_loads (Some [''y'']) (sample_records [''y''])"
  unfolding readable_def by (intro conjI; code_simp)+

lemma sample_up: "stays_up change 0 (sample_records [''x'', ''z''])" "stays_up change 0 (sample_records [''y''])"
proof -
  have "stays_up change c [] \<longleftrightarrow> 0 \<le> c" for c by (simp add: stays_up_def)
  then show "stays_up change 0 (sample_records [''x'', ''z''])" "stays_up change 0 (sample_records [''y''])"
    by (simp_all add: sample_records_def sample_loads_def stays_up_Cons change_def dict_get_def)
qed

theorem merge_is_exact_witness:
  "\<exists>out. merge_worker_outputs sample_loads [sample_worker [''x'', ''z''], sample_worker [''y'']] = Inr out \<and>
     mset (mo_business out) = mset (sample_records [''x'', ''z'']) + mset (sample_records [''y'']) \<and>
     sorted (map stamp (mo_business out)) \<and> length (mo_outstanding out) = 3"
proof -
  have "rmap (worker_status sample_loads) [sample_worker [''x'', ''z''], sample_worker [''y'']] = Inr [[], []]"
    by (simp add: worker_status_def sample_worker_def)
  from merge_is_exact [OF _ this, of "[sample_records [''x'', ''z''], sample_records [''y'']]"
      "[sample_records [''x'', ''z''], sample_records [''y'']]"]
  obtain out zs where out: "merge_worker_outputs sample_loads [sample_worker [''x'', ''z''], sample_worker [''y'']] = Inr out"
    "mset (mo_business out) = mset (sample_records [''x'', ''z'']) + mset (sample_records [''y''])"
    "sorted (map stamp (mo_business out))" "mset zs = mset (sample_records [''x'', ''z'']) + mset (sample_records [''y''])"
    "length (mo_outstanding out) = length zs"
    using sample_readable sample_up by (auto simp: sample_worker_def)
  have "length zs = 3" using arg_cong [OF out(4), of size] by (simp add: sample_records_def)
  then show ?thesis using out by auto
qed

end
