(* ===== verification/Runtime.thy ===== *)
theory Runtime
  imports Saturation
begin

text \<open>
  The runtime shared by the load generators, \<open>src/benchmarkservice/runtime.py\<close>: the phases of a run, the recorder of
  business transactions with its count of outstanding orders, the client of the metrics endpoint and the sampler
  that polls it at a fixed rate. The globals of the module are the record \<open>runtime\<close>; readings of the two clocks
  are arguments. The lines of an output file are the documents written to it.
\<close>

section \<open>Phases\<close>

record runtime =
  rt_monotonic :: pyfloat
  rt_epoch :: pyfloat
  rt_early :: "pyfloat option"
  rt_rung :: "int option"
  rt_rate :: "pyfloat option"

definition new_runtime :: runtime where
  "new_runtime = \<lparr>rt_monotonic = Fin 0, rt_epoch = Fin 0, rt_early = None, rt_rung = None, rt_rate = None\<rparr>"

text \<open>\<open>start_clock\<close>: how long to wait for the common start, and the clocks set after it.\<close>

definition start_delay :: "string option \<Rightarrow> pyfloat \<Rightarrow> pyfloat result" where
  "start_delay start_epoch now =
     (let raw = (case start_epoch of None \<Rightarrow> ''0'' | Some s \<Rightarrow> s) in
      rbind (if raw = [] then Inr (Fin 0) else py_float (JStr raw)) (\<lambda>synchronized_start.
        let delay = f_sub synchronized_start now in Inr (if f_lt (Fin 0) delay then delay else Fin 0)))"

definition start_clock :: "pyfloat \<Rightarrow> pyfloat \<Rightarrow> runtime \<Rightarrow> runtime" where
  "start_clock monotonic epoch rt = rt\<lparr>rt_monotonic := monotonic, rt_epoch := epoch\<rparr>"

definition elapsed_now :: "runtime \<Rightarrow> pyfloat \<Rightarrow> pyfloat" where
  "elapsed_now rt now = (if rt_monotonic rt = Fin 0 then Fin 0 else f_sub now (rt_monotonic rt))"

definition seconds :: "int \<Rightarrow> pyfloat" where
  "seconds n = Fin (of_int n)"

definition phase_for_elapsed :: "benchmark_config \<Rightarrow> pyfloat \<Rightarrow> string" where
  "phase_for_elapsed c elapsed =
     (if f_lt elapsed (seconds (warmup_seconds c)) then ''warmup''
      else if f_lt elapsed (seconds (submission_seconds c)) then ''steady''
      else if f_lt elapsed (seconds (run_seconds c)) then ''drain''
      else ''after'')"

definition phase_now :: "benchmark_config \<Rightarrow> runtime \<Rightarrow> pyfloat \<Rightarrow> string" where
  "phase_now c rt now =
     (if (case rt_early rt of None \<Rightarrow> False | Some d \<Rightarrow> f_le (f_sub d (seconds (drain_seconds c))) now) then ''drain''
      else if rt_rung rt \<noteq> None then ''steady''
      else phase_for_elapsed c (elapsed_now rt now))"

definition drain_deadline :: "benchmark_config \<Rightarrow> runtime \<Rightarrow> pyfloat" where
  "drain_deadline c rt =
     (let configured = f_add (rt_monotonic rt) (seconds (run_seconds c)) in
      f_min configured (case rt_early rt of None \<Rightarrow> configured | Some d \<Rightarrow> if d = Fin 0 then configured else d))"

definition begin_early_drain :: "benchmark_config \<Rightarrow> pyfloat \<Rightarrow> runtime \<Rightarrow> runtime" where
  "begin_early_drain c now rt =
     rt\<lparr>rt_early := Some (f_add now (seconds (drain_seconds c))), rt_rung := None, rt_rate := None\<rparr>"

definition set_saturation_rung :: "int \<Rightarrow> pyfloat \<Rightarrow> runtime \<Rightarrow> runtime" where
  "set_saturation_rung rung target_rate rt = rt\<lparr>rt_rung := Some rung, rt_rate := Some target_rate\<rparr>"

definition submission_deadline :: "benchmark_config \<Rightarrow> runtime \<Rightarrow> pyfloat" where
  "submission_deadline c rt = f_add (rt_monotonic rt) (seconds (submission_seconds c))"

section \<open>The recorder\<close>

record recorder =
  rc_open :: bool
  rc_business :: "dict list"
  rc_lines :: "dict list"
  rc_outstanding :: int
  rc_completed :: int

definition new_recorder :: recorder where
  "new_recorder = \<lparr>rc_open = False, rc_business = [], rc_lines = [], rc_outstanding = 0, rc_completed = 0\<rparr>"

definition open_recorder :: "recorder \<Rightarrow> recorder" where
  "open_recorder rc = rc\<lparr>rc_open := True\<rparr>"

definition close_recorder :: "recorder \<Rightarrow> recorder" where
  "close_recorder rc = rc\<lparr>rc_open := False\<rparr>"

definition safe_context :: "dict option \<Rightarrow> dict" where
  "safe_context context = (case context of None \<Rightarrow> [] | Some d \<Rightarrow> filter (\<lambda>(k, _). \<not> startswith k ''_'') d)"

definition business_record ::
  "benchmark_config \<Rightarrow> runtime \<Rightarrow> pyfloat \<Rightarrow> pyfloat \<Rightarrow> string \<Rightarrow> string \<Rightarrow> pyfloat \<Rightarrow> string option \<Rightarrow> pyfloat option \<Rightarrow> dict option
   \<Rightarrow> dict" where
  "business_record c rt now recorded_at request_type name response_time exception start_time context =
     (let timestamp = (case start_time of None \<Rightarrow> now | Some t \<Rightarrow> if t = Fin 0 then now else t);
          safe = safe_context context
      in [(''timestamp'', JFloat timestamp), (''recorded_at'', JFloat recorded_at),
          (''recorded_elapsed_seconds'', JFloat (f_round 6 (f_max (Fin 0) (f_sub recorded_at (rt_epoch rt))))),
          (''phase'', dict_get safe ''phase'' (JStr (phase_for_elapsed c (f_max (Fin 0) (f_sub timestamp (rt_epoch rt)))))),
          (''request_type'', JStr request_type), (''name'', JStr name),
          (''response_time_ms'', JFloat (f_round 3 response_time)),
          (''success'', JBool (exception = None)),
          (''error'', case exception of None \<Rightarrow> JNull | Some e \<Rightarrow> JStr e),
          (''context'', JObj safe)])"

definition recorder_request ::
  "benchmark_config \<Rightarrow> runtime \<Rightarrow> pyfloat \<Rightarrow> pyfloat \<Rightarrow> string \<Rightarrow> string \<Rightarrow> pyfloat \<Rightarrow> string option \<Rightarrow> pyfloat option \<Rightarrow> dict option
   \<Rightarrow> recorder \<Rightarrow> recorder" where
  "recorder_request c rt now recorded_at request_type name response_time exception start_time context rc =
     (if request_type \<noteq> ''BUSINESS'' \<or> \<not> rc_open rc then rc
      else rc\<lparr>rc_business := rc_business rc @
                [business_record c rt now recorded_at request_type name response_time exception start_time context],
              rc_completed := (if name = ''checkout_to_outcome'' \<and> dict_get (safe_context context) ''outcome'' JNull = JStr ''COMPLETED''
                               then rc_completed rc + 1 else rc_completed rc)\<rparr>)"

definition write_outstanding :: "runtime \<Rightarrow> pyfloat \<Rightarrow> pyfloat \<Rightarrow> string \<Rightarrow> string \<Rightarrow> string \<Rightarrow> recorder \<Rightarrow> recorder" where
  "write_outstanding rt epoch now event transaction_id phase rc =
     (if \<not> rc_open rc then rc
      else rc\<lparr>rc_lines := rc_lines rc @
        [[(''timestamp'', JFloat epoch), (''elapsed_seconds'', JFloat (f_round 6 (elapsed_now rt now))),
          (''phase'', JStr phase), (''event'', JStr event), (''transaction_id'', JStr transaction_id),
          (''outstanding'', JInt (rc_outstanding rc))]]\<rparr>)"

definition recorder_accepted :: "runtime \<Rightarrow> pyfloat \<Rightarrow> pyfloat \<Rightarrow> string \<Rightarrow> string \<Rightarrow> recorder \<Rightarrow> recorder" where
  "recorder_accepted rt epoch now transaction_id phase rc =
     write_outstanding rt epoch now ''accepted'' transaction_id phase (rc\<lparr>rc_outstanding := rc_outstanding rc + 1\<rparr>)"

definition recorder_terminal :: "runtime \<Rightarrow> pyfloat \<Rightarrow> pyfloat \<Rightarrow> string \<Rightarrow> string \<Rightarrow> string \<Rightarrow> recorder \<Rightarrow> recorder" where
  "recorder_terminal rt epoch now transaction_id outcome phase rc =
     write_outstanding rt epoch now (lower outcome) transaction_id phase
       (rc\<lparr>rc_outstanding := max 0 (rc_outstanding rc - 1)\<rparr>)"

lemma recorder_accepted_outstanding [simp]:
  "rc_outstanding (recorder_accepted rt epoch now tx phase rc) = rc_outstanding rc + 1"
  "rc_open (recorder_accepted rt epoch now tx phase rc) = rc_open rc"
  by (simp_all add: recorder_accepted_def write_outstanding_def)

lemma recorder_terminal_outstanding [simp]:
  "rc_outstanding (recorder_terminal rt epoch now tx out phase rc) = max 0 (rc_outstanding rc - 1)"
  "rc_open (recorder_terminal rt epoch now tx out phase rc) = rc_open rc"
  by (simp_all add: recorder_terminal_def write_outstanding_def)

lemma recorder_request_outstanding [simp]:
  "rc_outstanding (recorder_request c rt now recorded ty name t e s ctx rc) = rc_outstanding rc"
  "rc_open (recorder_request c rt now recorded ty name t e s ctx rc) = rc_open rc"
  by (simp_all add: recorder_request_def)

section \<open>The metrics endpoint\<close>

text \<open>\<open>RemoteMetricsClient\<close>: what it accepts as a snapshot and as a count of completed orders. The argument is the
  JSON document of the response.\<close>

fun is_array :: "json \<Rightarrow> bool" where
  "is_array (JList _) = True"
| "is_array _ = False"

definition metrics_object :: "json \<Rightarrow> dict result" where
  "metrics_object v = (case v of JObj d \<Rightarrow> Inr d | _ \<Rightarrow> raise RuntimeError ''metrics endpoint returned non-object JSON'')"

definition remote_sample :: "json \<Rightarrow> dict result" where
  "remote_sample response =
     rbind (metrics_object response) (\<lambda>v.
     let pods = dict_get v ''pods'' (JObj []);
         metrics = dict_get v ''nats_metrics'' (JList []);
         endpoints = dict_get v ''nats_micro_endpoints'' (JList []);
         groups = dict_get v ''nats_raft_groups'' (JList []);
         sources = dict_get v ''source_samples'' (JObj []);
         snapshot = dict_get v ''snapshot'' (JObj []);
         errors = dict_get v ''errors'' (JList [])
     in if \<not> is_dict pods then raise RuntimeError ''metrics endpoint returned invalid pods''
        else if \<not> is_array metrics \<or> \<not> is_array endpoints \<or> \<not> is_array groups \<or> \<not> is_array errors
        then raise RuntimeError ''metrics endpoint returned invalid metric lists''
        else if \<not> is_dict sources \<or> \<not> is_dict snapshot
        then raise RuntimeError ''metrics endpoint returned invalid sample metadata''
        else rbind (items_of errors) (\<lambda>es. Inr
          [(''pods'', pods), (''nats_metrics'', metrics), (''nats_micro_endpoints'', endpoints),
           (''nats_order_completed_observer'', dict_get v ''nats_order_completed_observer'' JNull),
           (''nats_raft_groups'', groups), (''source_samples'', sources), (''snapshot'', snapshot),
           (''errors'', JList (map (JStr \<circ> py_str) es))]))"

definition remote_completed_sample :: "json \<Rightarrow> dict result" where
  "remote_completed_sample response =
     rbind (metrics_object response) (\<lambda>v.
     case dict_get v ''nats_order_completed_observer'' JNull of
       JObj d \<Rightarrow>
         (case (dict_get d ''observer_id'' JNull, dict_get d ''total'' JNull) of
            (JStr (_ # _), JInt _) \<Rightarrow> Inr d
          | _ \<Rightarrow> raise RuntimeError ''metrics endpoint returned invalid completed-order observer'')
     | _ \<Rightarrow> raise RuntimeError ''metrics endpoint returned invalid completed-order observer'')"

section \<open>The sampler\<close>

text \<open>\<open>a // b\<close> on floats followed by \<open>int\<close>.\<close>

fun f_floordiv :: "pyfloat \<Rightarrow> pyfloat \<Rightarrow> int result" where
  "f_floordiv (Fin a) (Fin b) = (if b = 0 then raise ZeroDivisionError ''float floor division by zero'' else Inr \<lfloor>a / b\<rfloor>)"
| "f_floordiv (Fin a) PosInf = Inr (if a < 0 then - 1 else 0)"
| "f_floordiv (Fin a) NegInf = Inr (if 0 < a then - 1 else 0)"
| "f_floordiv a (Fin b) = (if b = 0 then raise ZeroDivisionError ''float floor division by zero''
                           else raise ValueError ''cannot convert float NaN to integer'')"
| "f_floordiv _ _ = raise ValueError ''cannot convert float NaN to integer''"

definition advance_sample_deadline :: "pyfloat \<Rightarrow> pyfloat \<Rightarrow> pyfloat \<Rightarrow> (pyfloat \<times> int) result" where
  "advance_sample_deadline previous now interval =
     (let deadline = f_add previous interval in
      if f_lt now deadline then Inr (deadline, 0)
      else rbind (f_floordiv (f_sub now deadline) interval) (\<lambda>n.
        let skipped = n + 1 in Inr (f_add deadline (f_scale (of_int skipped) interval), skipped)))"

record sampler =
  sm_next :: pyfloat
  sm_skipped :: int
  sm_written :: "dict list"
  sm_pending :: "pyfloat option"
  sm_observer :: "dict option"

text \<open>What one iteration of the sampler reads before it asks for a snapshot.\<close>

record view =
  vw_timestamp :: pyfloat
  vw_elapsed :: pyfloat
  vw_phase :: string
  vw_rung :: "int option"
  vw_rate :: "pyfloat option"

definition empty_record :: "benchmark_config \<Rightarrow> view \<Rightarrow> dict" where
  "empty_record c v =
     [(''timestamp'', JFloat (vw_timestamp v)), (''elapsed_seconds'', JFloat (f_round 6 (vw_elapsed v))), (''phase'', JStr (vw_phase v)),
      (''pods'', JObj []), (''nats_metrics'', JList []), (''nats_micro_endpoints'', JList []),
      (''nats_order_completed_observer'', JNull), (''nats_raft_groups'', JList []), (''errors'', JList [])] @
     (if workload c = ''saturation''
      then [(''saturation_rung'', jint_opt (vw_rung v)), (''target_requests_per_second'', jfloat_opt (vw_rate v))] else [])"

type_synonym sample_state = "dict \<times> sampler"

text \<open>The statements of the \<open>try\<close> block in order; an exception keeps the effects of the statements before it.\<close>

primrec try_steps :: "('s \<Rightarrow> 's result) list \<Rightarrow> 's \<Rightarrow> 's \<times> exn option" where
  "try_steps [] s = (s, None)"
| "try_steps (f # fs) s = (case f s of Inl e \<Rightarrow> (s, Some e) | Inr t \<Rightarrow> try_steps fs t)"

definition put_field :: "string \<Rightarrow> json result \<Rightarrow> sample_state \<Rightarrow> sample_state result" where
  "put_field k v s = rbind v (\<lambda>w. Inr (dict_set k w (fst s), snd s))"

definition add_errors :: "json list \<Rightarrow> dict \<Rightarrow> dict" where
  "add_errors es record = (case dict_get record ''errors'' (JList []) of
      JList old \<Rightarrow> dict_set ''errors'' (JList (old @ es)) record | _ \<Rightarrow> record)"

definition source_elapsed :: "view \<Rightarrow> string \<times> json \<Rightarrow> sample_state \<Rightarrow> sample_state result" where
  "source_elapsed v entry s =
     (let (source, sample) = entry in
      rbind (jget sample ''collected_at'' JNull) (\<lambda>collected_at.
      if \<not> is_number collected_at then Inr s
      else rbind (py_float collected_at) (\<lambda>t.
        let value = f_round 6 (f_sub (f_round 6 (vw_elapsed v)) (f_sub (vw_timestamp v) t)) in
        case dict_get (fst s) ''source_elapsed_seconds'' (JObj []) of
          JObj d \<Rightarrow> Inr (dict_set ''source_elapsed_seconds'' (JObj (dict_set source (JFloat value) d)) (fst s), snd s)
        | _ \<Rightarrow> Inr s)))"

definition snapshot_steps :: "benchmark_config \<Rightarrow> view \<Rightarrow> dict \<Rightarrow> (sample_state \<Rightarrow> sample_state result) list" where
  "snapshot_steps c v snapshot =
     (let sources = dict_get snapshot ''source_samples'' (JObj []) in
      [put_field ''snapshot'' (Inr (dict_get snapshot ''snapshot'' (JObj []))),
       put_field ''source_samples'' (Inr sources),
       put_field ''source_elapsed_seconds'' (Inr (JObj []))] @
      (case sources of JObj d \<Rightarrow> map (source_elapsed v) d | _ \<Rightarrow> [\<lambda>_. raise AttributeError ''items'']) @
      (if collect_resources c then [put_field ''pods'' (dict_item snapshot ''pods'')] else []) @
      (if collect_nats_metrics c then
        [put_field ''nats_metrics'' (dict_item snapshot ''nats_metrics''),
         put_field ''nats_raft_groups'' (Inr (dict_get snapshot ''nats_raft_groups'' (JList []))),
         put_field ''nats_micro_endpoints'' (dict_item snapshot ''nats_micro_endpoints''),
         (\<lambda>(record, s). rbind (dict_item snapshot ''nats_metrics'') (\<lambda>m. rbind (items_of m) (\<lambda>ms. rbind (rmap as_dict ms) (\<lambda>ds.
            rbind (consumer_pending_total ds) (\<lambda>total. Inr (record, s\<lparr>sm_pending := total\<rparr>)))))),
         (\<lambda>(record, s). case dict_get snapshot ''nats_order_completed_observer'' JNull of
            JObj d \<Rightarrow> Inr (dict_set ''nats_order_completed_observer'' (JObj d) record, s\<lparr>sm_observer := Some d\<rparr>)
          | _ \<Rightarrow> Inr (record, s))] else []) @
      [\<lambda>(record, s). rbind (dict_item snapshot ''errors'') (\<lambda>es. rbind (items_of es) (\<lambda>xs. Inr (add_errors xs record, s)))])"

definition sample_record :: "benchmark_config \<Rightarrow> view \<Rightarrow> dict result \<Rightarrow> sampler \<Rightarrow> sample_state" where
  "sample_record c v snapshot s =
     (let (state, failed) = (case snapshot of
          Inl e \<Rightarrow> ((empty_record c v, s), Some e)
        | Inr d \<Rightarrow> try_steps (snapshot_steps c v d) (empty_record c v, s))
      in case failed of
           None \<Rightarrow> state
         | Some e \<Rightarrow> (add_errors [JStr (''metrics endpoint: '' @ exn_msg e)] (fst state), snd state))"

text \<open>One iteration of \<open>ResourceSampler._run\<close>; \<open>now\<close> is the monotonic clock once the record is written.\<close>

definition sampler_tick :: "benchmark_config \<Rightarrow> view \<times> dict result \<times> pyfloat \<Rightarrow> sampler \<Rightarrow> sampler result" where
  "sampler_tick c input s =
     (let (v, snapshot, now) = input;
          (record, s1) = sample_record c v snapshot s
      in rbind (advance_sample_deadline (sm_next s) now (resource_sample_interval_seconds c)) (\<lambda>(next_sample, skipped).
           Inr (s1\<lparr>sm_written := sm_written s1 @ [dict_set ''sampler_skipped_ticks'' (JInt (sm_skipped s)) record],
                   sm_next := next_sample, sm_skipped := sm_skipped s + skipped\<rparr>)))"

definition sampler_run :: "benchmark_config \<Rightarrow> pyfloat \<Rightarrow> (view \<times> dict result \<times> pyfloat) list \<Rightarrow> sampler result" where
  "sampler_run c start inputs =
     rfold (sampler_tick c) inputs
       \<lparr>sm_next = start, sm_skipped = 0, sm_written = [], sm_pending = None, sm_observer = None\<rparr>"

text \<open>\<open>ResourceSampler.nats_order_completed_sample\<close>, given what the observer or the endpoint answers.\<close>

definition completed_sample :: "benchmark_config \<Rightarrow> bool \<Rightarrow> dict result \<Rightarrow> sampler \<Rightarrow> dict option result \<times> sampler" where
  "completed_sample c started answer s =
     (if \<not> collect_nats_metrics c then (Inr None, s)
      else if \<not> started then (raise RuntimeError ''metrics sampler has not started'', s)
      else case answer of
        Inl _ \<Rightarrow> (Inr None, s)
      | Inr value \<Rightarrow> (Inr (Some value), s\<lparr>sm_observer := Some value\<rparr>))"

end
