(* ===== verification/Checkout.thy ===== *)
theory Checkout
  imports Runtime Sse
begin

text \<open>
  A checkout of the load generator against the NATS storefront: \<open>NatsAdapter\<close> of \<open>src/benchmarkservice/locustfile.py\<close>
  with the helpers it uses. A checkout submits the order, follows its event stream (reconnecting as needed) until
  the order is decided, then until notification and cart are settled, and reports three business records on the
  way. It is a tree of requests whose answers are arbitrary: any HTTP request, stream and file write may fail, and
  the greenlet may be killed (an answer of class \<open>GreenletExit\<close>) at every point where it can be switched out.

  The contexts are dicts that the source mutates while a \<open>with\<close> or \<open>finally\<close> block holds on to them; here the
  current context is passed to the code that leaves the block. Locust's own accounting of HTTP responses
  (\<open>response.success\<close>, \<open>response.failure\<close>) and its \<open>events.request.fire\<close> do not raise.
\<close>

section \<open>Failures and their records\<close>

record failure =
  bf_outcome :: string
  bf_detail :: string
  bf_monotonic :: "pyfloat option"
  bf_epoch :: "pyfloat option"

definition failure_message :: "string \<Rightarrow> string \<Rightarrow> (pyfloat \<times> pyfloat) option \<Rightarrow> failure" where
  "failure_message out detail received =
     \<lparr>bf_outcome = out, bf_detail = detail, bf_monotonic = map_option fst received, bf_epoch = map_option snd received\<rparr>"

definition failure_str :: "failure \<Rightarrow> string" where
  "failure_str f = bf_outcome f @ (if bf_detail f = [] then [] else '': '' @ bf_detail f)"

definition http_status_failure :: "int \<Rightarrow> string \<Rightarrow> string \<Rightarrow> (pyfloat \<times> pyfloat) option \<Rightarrow> failure" where
  "http_status_failure status_code fallback_outcome operation received =
     (if status_code = 0 then failure_message ''TIMEOUT'' (operation @ '' timed out'') received
      else failure_message fallback_outcome (operation @ '' status '' @ show_int status_code) received)"

definition receipt_context :: "(pyfloat \<Rightarrow> string) \<Rightarrow> string \<Rightarrow> pyfloat \<Rightarrow> string option \<Rightarrow> dict \<Rightarrow> dict" where
  "receipt_context utc prefix epoch event_id ctx =
     (let base = dict_set (prefix @ ''_received_epoch'') (JFloat (f_round 6 epoch))
                   (dict_set (prefix @ ''_received_at'') (JStr (utc epoch)) ctx)
      in case event_id of
           None \<Rightarrow> base
         | Some i \<Rightarrow> if i = [] then base else dict_set (prefix @ ''_event_id'') (JStr i) base)"

definition record_received_failure :: "(pyfloat \<Rightarrow> string) \<Rightarrow> failure \<Rightarrow> dict \<Rightarrow> dict" where
  "record_received_failure utc f ctx = (case bf_epoch f of
      None \<Rightarrow> ctx
    | Some epoch \<Rightarrow> dict_set ''failure_message'' (JStr (if bf_detail f = [] then failure_str f else bf_detail f))
        (receipt_context utc ''failure'' epoch None ctx))"

definition received_latency_ms :: "pyfloat \<Rightarrow> pyfloat \<Rightarrow> pyfloat result" where
  "received_latency_ms started received =
     (if f_lt received started then raise ValueError ''event receipt preceded request start''
      else Inr (f_scale 1000 (f_sub received started)))"

section \<open>Requests\<close>

datatype shop_eff =
    MonotonicNow | EpochNow | DrainDeadline | PhaseNow | CurrentYear
  | NewUuid | RandInt int int | Uniform pyfloat pyfloat | Choice "string list"
  | HttpGet string dict | HttpPost string dict dict | OpenEvents string string dict
  | NextEvent pyfloat | CloseStream | ReleaseResponse
  | HttpSuccess | HttpFailure string
  | Pause pyfloat
  | Accepted string string | Terminal string string string
  | Fire string dict "pyfloat option" "string option" "pyfloat option"

text \<open>Calls of the process itself: the clocks, the globals of the runtime and the random numbers always answer with
  a value of the right type.\<close>

definition reading :: "json result \<Rightarrow> pyfloat" where
  "reading r = (case r of Inr v \<Rightarrow> (case num_val v of Some f \<Rightarrow> f | None \<Rightarrow> NaN) | Inl _ \<Rightarrow> NaN)"

definition words :: "json result \<Rightarrow> string" where
  "words r = (case r of Inr v \<Rightarrow> py_str v | Inl _ \<Rightarrow> [])"

definition answer_of :: "json result \<Rightarrow> json" where
  "answer_of r = (case r of Inr v \<Rightarrow> v | Inl _ \<Rightarrow> JNull)"

definition now :: "(pyfloat \<Rightarrow> (shop_eff, 'a) prog) \<Rightarrow> (shop_eff, 'a) prog" where
  "now k = Ext MonotonicNow (\<lambda>r. k (reading r))"

definition tell :: "shop_eff \<Rightarrow> (shop_eff, 'a) prog \<Rightarrow> (shop_eff, 'a) prog" where
  "tell x k = Ext x (\<lambda>_. k)"

text \<open>\<open>except Exception\<close> does not catch the exception that kills a greenlet, nor a gevent timeout.\<close>

definition is_exception :: "exn \<Rightarrow> bool" where
  "is_exception e \<longleftrightarrow> exn_cls e \<notin> {GreenletExit, GeventTimeout}"

definition settle :: "(shop_eff, 'a) prog \<Rightarrow> (shop_eff, 'a result) prog" where
  "settle p = catchp (bindp p (\<lambda>a. Ret (Inr a))) (\<lambda>e. Ret (Inl e))"

text \<open>A statement inside a block with a \<open>finally\<close> part \<open>leave\<close>.\<close>

definition inside :: "(exn \<Rightarrow> (shop_eff, 'b) prog) \<Rightarrow> (shop_eff, 'a) prog \<Rightarrow> ('a \<Rightarrow> (shop_eff, 'b) prog) \<Rightarrow> (shop_eff, 'b) prog" where
  "inside leave p k = bindp (settle p) (\<lambda>r. case r of Inl e \<Rightarrow> leave e | Inr a \<Rightarrow> k a)"

definition request :: "shop_eff \<Rightarrow> (shop_eff, json) prog" where
  "request x = Ext x (\<lambda>r. lift r Ret)"

record shop =
  sh_config :: benchmark_config
  sh_epoch :: pyfloat
  sh_utc :: "pyfloat \<Rightarrow> string"
  sh_suppress :: bool
  sh_cookie :: "string option"

text \<open>A response: its status and its headers, which are missing when the request failed below HTTP.\<close>

definition status_of :: "json \<Rightarrow> int result" where
  "status_of response = rbind (jget response ''status_code'' JNull) py_int"

definition header :: "json \<Rightarrow> string \<Rightarrow> string option result" where
  "header response k =
     rbind (jget response ''headers'' JNull) (\<lambda>h. rbind (jget h k JNull) (\<lambda>v.
       Inr (case v of JStr s \<Rightarrow> Some s | _ \<Rightarrow> None)))"

definition retry_after_seconds :: "json \<Rightarrow> pyfloat" where
  "retry_after_seconds response =
     (let value = (case header response ''Retry-After'' of
          Inr (Some s) \<Rightarrow> (case parse_float s of Some f \<Rightarrow> f | None \<Rightarrow> Fin 1)
        | _ \<Rightarrow> Fin 1)
      in f_min (Fin 5) (f_max (Fin (1 / 20)) value))"

definition request_headers :: "shop \<Rightarrow> string \<Rightarrow> bool \<Rightarrow> (dict \<Rightarrow> (shop_eff, 'a) prog) \<Rightarrow> (shop_eff, 'a) prog" where
  "request_headers sh accept idempotency_key k =
     (let h = (if accept = [] then [] else [(''Accept'', JStr accept)]) @
              (case sh_cookie sh of None \<Rightarrow> [] | Some c \<Rightarrow> if c = [] then [] else [(''Cookie'', JStr (''shop_session-id='' @ c))])
      in if idempotency_key then Ext NewUuid (\<lambda>r. k (h @ [(''Idempotency-Key'', JStr (words r))])) else k h)"

definition checkout_data :: "(dict \<Rightarrow> (shop_eff, 'a) prog) \<Rightarrow> (shop_eff, 'a) prog" where
  "checkout_data k =
     Ext CurrentYear (\<lambda>y. let current_year = (case rbind y py_int of Inr n \<Rightarrow> n | Inl _ \<Rightarrow> 0) + 1 in
     Ext NewUuid (\<lambda>i. Ext (RandInt 1 12) (\<lambda>m. Ext (RandInt current_year (current_year + 4)) (\<lambda>expiry. Ext (RandInt 100 999) (\<lambda>cvv.
       k [(''email'', JStr (''benchmark-'' @ words i @ ''@example.com'')),
          (''street_address'', JStr ''1600 Amphitheatre Parkway''), (''zip_code'', JStr ''94043''),
          (''city'', JStr ''Mountain View''), (''state'', JStr ''CA''), (''country'', JStr ''United States''),
          (''credit_card_number'', JStr ''4111111111111111''),
          (''credit_card_expiration_month'', answer_of m), (''credit_card_expiration_year'', answer_of expiry),
          (''credit_card_cvv'', JStr (words cvv))])))))"

record submission =
  su_scheduled :: "pyfloat option"
  su_delay :: "pyfloat option"
  su_rung :: "int option"
  su_rate :: "pyfloat option"

definition base_context :: "shop \<Rightarrow> submission \<Rightarrow> (dict \<Rightarrow> (shop_eff, 'a) prog) \<Rightarrow> (shop_eff, 'a) prog" where
  "base_context sh su k =
     Ext PhaseNow (\<lambda>r.
     let c = sh_config sh;
         phase = (if su_rung su \<noteq> None then ''steady''
                  else if workload c = ''saturation'' \<and> su_rate su \<noteq> None then ''warmup''
                  else case su_scheduled su of
                    None \<Rightarrow> words r
                  | Some t \<Rightarrow> phase_for_elapsed c (f_max (Fin 0) (f_sub t (sh_epoch sh))))
     in k ([(''application_type'', JStr (application_type c)), (''workload'', JStr (workload c)), (''phase'', JStr phase),
            (''scheduled_at'', jfloat_opt (su_scheduled su)), (''schedule_delay_ms'', jfloat_opt (map_option (f_round 3) (su_delay su))),
            (''accepted'', JBool False), (''outcome'', JStr ''UNKNOWN'')] @
           (if workload c = ''saturation''
            then [(''saturation_rung'', jint_opt (su_rung su)), (''target_requests_per_second'', jfloat_opt (su_rate su))]
            else [])))"

section \<open>Event streams\<close>

definition sse_reconnect_delay :: "nat \<Rightarrow> pyfloat option \<Rightarrow> (pyfloat \<Rightarrow> (shop_eff, 'a) prog) \<Rightarrow> (shop_eff, 'a) prog" where
  "sse_reconnect_delay n retry_after k =
     (let base = min 5 (2 ^ min n 16) in
      Ext (Uniform (Fin base) (Fin (min 5 (base * (6 / 5))))) (\<lambda>r.
        let jittered = reading r; advertised = (case retry_after of None \<Rightarrow> Fin 0 | Some f \<Rightarrow> f)
        in k (f_min (Fin 5) (f_max advertised jittered))))"

text \<open>Waiting before the next connection, at most until the deadline.\<close>

definition reconnect_pause ::
  "(exn \<Rightarrow> (shop_eff, 'a) prog) \<Rightarrow> nat \<Rightarrow> pyfloat option \<Rightarrow> pyfloat \<Rightarrow> (shop_eff, 'a) prog \<Rightarrow> (shop_eff, 'a) prog" where
  "reconnect_pause leave n retry_after deadline k =
     sse_reconnect_delay n retry_after (\<lambda>delay. now (\<lambda>t.
       inside leave (request (Pause (f_min delay (f_max (Fin 0) (f_sub deadline t))))) (\<lambda>_. k)))"

definition open_order_event_stream ::
  "shop \<Rightarrow> string \<Rightarrow> string \<Rightarrow> (shop_eff, bool \<times> failure option \<times> pyfloat option) prog" where
  "open_order_event_stream sh events_location name =
     request_headers sh ''text/event-stream'' False (\<lambda>h.
     bindp (request (OpenEvents events_location name h)) (\<lambda>response.
     now (\<lambda>received_monotonic. Ext EpochNow (\<lambda>r.
     let received = Some (received_monotonic, reading r) in
     lift (status_of response) (\<lambda>status.
       if status = 404 \<or> status = 503
       then tell HttpSuccess (tell ReleaseResponse (Ret (False, None, Some (retry_after_seconds response))))
       else if status \<noteq> 200 then
         let f = http_status_failure status ''STATUS_ERROR'' ''SSE'' received in
         tell (HttpFailure (failure_str f)) (tell ReleaseResponse (Ret (False, Some f, None)))
       else
         lift (header response ''Content-Type'') (\<lambda>content.
         let content_type = (case content of None \<Rightarrow> [] | Some s \<Rightarrow> s) in
         if \<not> is_event_stream_content_type (JStr content_type) then
           tell (HttpFailure ''order event response is not text/event-stream'') (tell ReleaseResponse
             (Ret (False, Some (failure_message ''INVALID_RESPONSE'' (''SSE Content-Type is '' @ repr_str content_type) received), None)))
         else tell HttpSuccess (Ret (True, None, None))))))))"

record order_event =
  ev_order :: dict
  ev_id :: "string option"
  ev_monotonic :: pyfloat
  ev_epoch :: pyfloat

definition as_event :: "json \<Rightarrow> order_event result" where
  "as_event v = (case v of
      JObj d \<Rightarrow>
        rbind (rbind (dict_item d ''order'') as_dict) (\<lambda>order.
        rbind (rbind (dict_item d ''received_monotonic'') arith) (\<lambda>m.
        rbind (rbind (dict_item d ''received_epoch'') arith) (\<lambda>t.
          Inr \<lparr>ev_order = order, ev_id = (case dict_get d ''event_id'' JNull of JStr s \<Rightarrow> Some s | _ \<Rightarrow> None),
               ev_monotonic = m, ev_epoch = t\<rparr>)))
    | _ \<Rightarrow> raise AttributeError ''order'')"

text \<open>\<open>next_order_event_before\<close>.\<close>

definition next_order_event_before :: "pyfloat \<Rightarrow> (shop_eff, order_event) prog" where
  "next_order_event_before deadline =
     now (\<lambda>t. let remaining = f_sub deadline t in
       if f_le remaining (Fin 0) then Raise (Exn SSEDeadlineReached [])
       else Ext (NextEvent remaining) (\<lambda>r. lift (rbind r as_event) Ret))"

section \<open>From the submission to the outcome\<close>

definition TERMINAL_ORDER_STATUSES :: "string list" where
  "TERMINAL_ORDER_STATUSES = [''COMPLETED'', ''CANCELLED'', ''REJECTED'', ''MANUAL_REVIEW'']"

record measurement =
  m_exception :: "string option"
  m_time :: "pyfloat option"

record order_call =
  oc_shop :: shop
  oc_started :: pyfloat
  oc_epoch :: pyfloat
  oc_tx :: string

type_synonym outcome_result = "dict \<times> order_event option \<times> string option \<times> bool \<times> failure option"

text \<open>
  Leaving the block of \<open>measure_business\<close>: the record is written in any case; an \<open>Exception\<close> of the block is noted
  in it and goes no further, so that the function returns \<open>None\<close>; other exceptions pass.
\<close>

definition leave_outcome ::
  "order_call \<Rightarrow> dict \<Rightarrow> measurement \<Rightarrow> outcome_result result \<Rightarrow> (shop_eff, outcome_result option) prog" where
  "leave_outcome oc ctx m r =
     (let exception = (case r of Inl e \<Rightarrow> if is_exception e then Some (exn_msg e) else m_exception m | Inr _ \<Rightarrow> m_exception m);
          fire = (\<lambda>ms. tell (Fire ''checkout_to_outcome'' ctx (Some ms) exception (Some (oc_epoch oc)))
                    (case r of Inr v \<Rightarrow> Ret (Some v) | Inl e \<Rightarrow> if is_exception e then Ret None else Raise e))
      in case m_time m of None \<Rightarrow> now (\<lambda>t. fire (f_scale 1000 (f_sub t (oc_started oc)))) | Some ms \<Rightarrow> fire ms)"

definition record_terminal ::
  "order_call \<Rightarrow> string \<Rightarrow> dict \<Rightarrow> measurement \<Rightarrow> (shop_eff, outcome_result option) prog \<Rightarrow> (shop_eff, outcome_result option) prog" where
  "record_terminal oc out ctx m k =
     Ext PhaseNow (\<lambda>p.
     inside (\<lambda>e. leave_outcome oc ctx m (Inl e)) (request (Terminal (oc_tx oc) out (words p))) (\<lambda>_. k))"

text \<open>The order has failed on the way to its outcome: the connection was refused, or the stream is unusable.\<close>

definition fail_outcome :: "order_call \<Rightarrow> string \<Rightarrow> failure \<Rightarrow> dict \<Rightarrow> measurement \<Rightarrow> (shop_eff, outcome_result option) prog" where
  "fail_outcome oc events_location f ctx m =
     (let ctx1 = record_received_failure (sh_utc (oc_shop oc)) f (dict_set ''outcome'' (JStr (bf_outcome f)) ctx) in
      case (case bf_monotonic f of None \<Rightarrow> Inr (m_time m) | Some t \<Rightarrow> rbind (received_latency_ms (oc_started oc) t) (\<lambda>ms. Inr (Some ms))) of
        Inl e \<Rightarrow> leave_outcome oc ctx1 m (Inl e)
      | Inr ms \<Rightarrow>
          (let m1 = \<lparr>m_exception = Some (failure_str f), m_time = ms\<rparr> in
           record_terminal oc (bf_outcome f) ctx1 m1
             (leave_outcome oc ctx1 m1 (Inr (ctx1, None, Some events_location, False, Some f)))))"

definition outcome_fields :: "order_event \<Rightarrow> string \<Rightarrow> string \<Rightarrow> dict" where
  "outcome_fields ev status event_order_id =
     [(''outcome'', JStr status), (''order_id'', JStr event_order_id),
      (''failure_code'', dict_get (ev_order ev) ''failure_code'' JNull),
      (''safe_message'', dict_get (ev_order ev) ''safe_message'' JNull),
      (''outcome_at'', dict_get (ev_order ev) ''outcome_at'' JNull), (''outcome_transport'', JStr ''SSE'')]"

text \<open>An event with a terminal status.\<close>

definition decided ::
  "order_call \<Rightarrow> string \<Rightarrow> order_event \<Rightarrow> string \<Rightarrow> string \<Rightarrow> dict \<Rightarrow> measurement \<Rightarrow> (shop_eff, outcome_result option) prog" where
  "decided oc events_location ev status event_order_id ctx m =
     (let utc = sh_utc (oc_shop oc); order = ev_order ev in
      case received_latency_ms (oc_started oc) (ev_monotonic ev) of
        Inl e \<Rightarrow> leave_outcome oc ctx m (Inl e)
      | Inr ms \<Rightarrow>
          (let m1 = m\<lparr>m_time := Some ms\<rparr>;
               ctx1 = receipt_context utc ''outcome'' (ev_epoch ev) (ev_id ev)
                        (dict_update ctx (outcome_fields ev status event_order_id))
           in record_terminal oc status ctx1 m1
             (if status = ''COMPLETED''
              then leave_outcome oc ctx1 m1 (Inr (ctx1, Some ev, Some events_location, True, None))
              else
                let detail = py_str (j_or (j_or (dict_get order ''safe_message'' JNull) (dict_get order ''failure_code'' JNull)) (JStr []));
                    f = failure_message status detail (Some (ev_monotonic ev, ev_epoch ev));
                    ctx2 = record_received_failure utc f ctx1;
                    m2 = m1\<lparr>m_exception := Some (failure_str f)\<rparr>
                in inside (\<lambda>e. leave_outcome oc ctx2 m2 (Inl e)) (request CloseStream) (\<lambda>_.
                     leave_outcome oc ctx2 m2 (Inr (ctx2, Some ev, Some events_location, False, Some f))))))"

text \<open>The deadline has passed, with \<open>stream\<close> telling whether a stream is open.\<close>

definition outcome_timeout ::
  "order_call \<Rightarrow> string \<Rightarrow> pyfloat \<Rightarrow> bool \<Rightarrow> dict \<Rightarrow> measurement \<Rightarrow> (shop_eff, outcome_result option) prog" where
  "outcome_timeout oc events_location per_order_deadline stream ctx m =
     inside (\<lambda>e. leave_outcome oc ctx m (Inl e)) (if stream then request CloseStream else Ret JNull) (\<lambda>_.
     Ext DrainDeadline (\<lambda>d.
     let f = failure_message (if f_le (reading d) per_order_deadline then ''INCOMPLETE'' else ''TIMEOUT'') [] None;
         ctx1 = dict_set ''outcome'' (JStr (bf_outcome f)) ctx;
         m1 = m\<lparr>m_exception := Some (failure_str f)\<rparr>
     in record_terminal oc (bf_outcome f) ctx1 m1
          (leave_outcome oc ctx1 m1 (Inr (ctx1, None, Some events_location, False, Some f)))))"

text \<open>What follows on the next element of the stream: \<open>again\<close> reconnects, \<open>continue\<close> waits for the next event.\<close>

definition outcome_event ::
  "order_call \<Rightarrow> string \<Rightarrow> pyfloat \<Rightarrow> dict \<Rightarrow> measurement \<Rightarrow> (shop_eff, outcome_result option) prog \<Rightarrow> (shop_eff, outcome_result option) prog
   \<Rightarrow> order_event result \<Rightarrow> (shop_eff, outcome_result option) prog" where
  "outcome_event oc events_location per_order ctx m again continue r =
     (let leave = (\<lambda>e. leave_outcome oc ctx m (Inl e));
          invalid = (\<lambda>detail received. inside leave (request CloseStream) (\<lambda>_.
                    fail_outcome oc events_location (failure_message ''INVALID_RESPONSE'' detail (Some received)) ctx m))
      in case r of
        Inl e \<Rightarrow>
          if exn_cls e = SSEDeadlineReached then outcome_timeout oc events_location per_order True ctx m
          else if exn_cls e = SSEProtocolError
          then now (\<lambda>t. Ext EpochNow (\<lambda>s. invalid (exn_msg e) (t, reading s)))
          else if exn_cls e = GreenletExit then leave e
          else inside leave (request CloseStream) (\<lambda>_. again)
      | Inr ev \<Rightarrow>
          (let order = ev_order ev;
               expected = dict_get ctx ''order_id'' JNull;
               event_order_id = py_str (dict_get order ''order_id'' (JStr []));
               status = py_str (dict_get order ''status'' (JStr ''UNKNOWN''))
           in if truthy expected \<and> JStr event_order_id \<noteq> expected
              then invalid ''order event ID does not match accepted order'' (ev_monotonic ev, ev_epoch ev)
              else if status \<notin> set TERMINAL_ORDER_STATUSES then continue
              else decided oc events_location ev status event_order_id ctx m))"

text \<open>The loop over connections and events; \<open>polls\<close> bounds the number of iterations.\<close>

fun outcome_loop ::
  "nat \<Rightarrow> order_call \<Rightarrow> string \<Rightarrow> pyfloat \<Rightarrow> pyfloat \<Rightarrow> dict \<Rightarrow> measurement \<Rightarrow> bool \<Rightarrow> nat \<Rightarrow> (shop_eff, outcome_result option) prog" where
  "outcome_loop 0 oc events_location per_order deadline ctx m stream attempt = Raise out_of_fuel"
| "outcome_loop (Suc polls) oc events_location per_order deadline ctx m stream attempt =
     (let leave = (\<lambda>e. leave_outcome oc ctx m (Inl e));
          again = (\<lambda>retry_after. reconnect_pause leave attempt retry_after deadline
                    (outcome_loop polls oc events_location per_order deadline ctx m False (Suc attempt)));
          receive = bindp (settle (next_order_event_before deadline)) (outcome_event oc events_location per_order ctx m (again None)
                      (outcome_loop polls oc events_location per_order deadline ctx m True 0))
      in now (\<lambda>t.
        if \<not> f_lt t deadline then outcome_timeout oc events_location per_order stream ctx m
        else if stream then receive
        else inside leave (open_order_event_stream (oc_shop oc) events_location ''/orders/[id]/events'') (\<lambda>(opened, error, retry_after).
          case error of
            Some f \<Rightarrow> fail_outcome oc events_location f ctx m
          | None \<Rightarrow> if opened then receive else again retry_after)))"

text \<open>
  The block of \<open>events.request.measure\<close> around the submission. The block ends with the context, the location and the
  failure it has set, and the exception that ended it if there is one; Locust records an \<open>Exception\<close> and, if
  \<open>sh_suppress\<close>, goes on after the block.
\<close>

record acceptance =
  ac_context :: dict
  ac_location :: "string option"
  ac_failure :: "failure option"
  ac_raised :: "exn option"

definition leave_acceptance :: "dict \<Rightarrow> acceptance \<Rightarrow> (shop_eff, acceptance) prog" where
  "leave_acceptance acceptance_context a =
     tell (Fire ''checkout_acceptance'' acceptance_context None
             (case ac_raised a of
                Some e \<Rightarrow> if is_exception e then Some (exn_msg e) else map_option failure_str (ac_failure a)
              | None \<Rightarrow> map_option failure_str (ac_failure a)) None)
       (Ret a)"

definition read_submission :: "json \<Rightarrow> (int \<times> string option \<times> string option) result" where
  "read_submission response =
     rbind (status_of response) (\<lambda>status.
       if status \<noteq> 202 then Inr (status, None, None)
       else rbind (header response ''Location'') (\<lambda>location. rbind (header response ''X-Order-ID'') (\<lambda>order_id.
         Inr (status, location, order_id))))"

definition submit_order :: "shop \<Rightarrow> string \<Rightarrow> dict \<Rightarrow> dict \<Rightarrow> (shop_eff, acceptance) prog" where
  "submit_order sh tx data ctx =
     (let acceptance_context = dict_update ctx [(''outcome'', JStr ''UNKNOWN''), (''accepted'', JBool False)];
          raised = (\<lambda>e. leave_acceptance acceptance_context
                     \<lparr>ac_context = ctx, ac_location = None, ac_failure = None, ac_raised = Some e\<rparr>);
          refused = (\<lambda>f. leave_acceptance (dict_set ''outcome'' (JStr (bf_outcome f)) acceptance_context)
                     \<lparr>ac_context = dict_set ''outcome'' (JStr (bf_outcome f)) ctx, ac_location = None, ac_failure = Some f, ac_raised = None\<rparr>)
      in request_headers sh ''application/json'' True (\<lambda>h.
         inside raised (bindp (request (HttpPost ''/cart/checkout'' data h)) (\<lambda>response. lift (read_submission response) Ret)) (\<lambda>(status, location, order_id).
         if status \<noteq> 202 then
           let f = http_status_failure status ''HTTP_FAILURE'' ''checkout request'' None in
           tell (HttpFailure (failure_str f)) (refused f)
         else if location = None \<or> location = Some [] then
           tell (HttpFailure ''202 checkout response omitted Location'')
             (refused (failure_message ''INVALID_RESPONSE'' ''Location is missing'' None))
         else
           let oid = (case order_id of None \<Rightarrow> JNull | Some s \<Rightarrow> JStr s);
               ctx1 = dict_update ctx [(''accepted'', JBool True), (''order_id'', oid)];
               acc1 = dict_update acceptance_context [(''accepted'', JBool True), (''outcome'', JStr ''ACCEPTED''), (''order_id'', oid)];
               done = (\<lambda>e. leave_acceptance acc1 \<lparr>ac_context = ctx1, ac_location = location, ac_failure = None, ac_raised = e\<rparr>)
           in tell HttpSuccess
                (inside (\<lambda>e. done (Some e)) (request (Accepted tx (py_str (dict_get ctx ''phase'' JNull)))) (\<lambda>_. done None)))))"

definition follow_order :: "nat \<Rightarrow> order_call \<Rightarrow> string \<Rightarrow> dict \<Rightarrow> measurement \<Rightarrow> (shop_eff, outcome_result option) prog" where
  "follow_order polls oc location ctx m = (case order_events_url location of
      Inl e \<Rightarrow>
        if is_a (exn_cls e) ValueError then
          let f = failure_message ''INVALID_RESPONSE'' (exn_msg e) None;
              ctx1 = dict_set ''outcome'' (JStr ''INVALID_RESPONSE'') ctx;
              m1 = m\<lparr>m_exception := Some (failure_str f)\<rparr>
          in record_terminal oc ''INVALID_RESPONSE'' ctx1 m1 (leave_outcome oc ctx1 m1 (Inr (ctx1, None, None, False, Some f)))
        else leave_outcome oc ctx m (Inl e)
    | Inr events_location \<Rightarrow>
        (let per_order = f_add (oc_started oc) (outcome_timeout_seconds (sh_config (oc_shop oc))) in
         Ext DrainDeadline (\<lambda>d.
           outcome_loop polls oc events_location per_order (f_min per_order (reading d)) ctx m False 0)))"

definition after_submission :: "nat \<Rightarrow> order_call \<Rightarrow> acceptance \<Rightarrow> (shop_eff, outcome_result option) prog" where
  "after_submission polls oc a =
     (let ctx = ac_context a; m = \<lparr>m_exception = None, m_time = None\<rparr> in
      if (case ac_raised a of None \<Rightarrow> False | Some e \<Rightarrow> \<not> (is_exception e \<and> sh_suppress (oc_shop oc)))
      then leave_outcome oc ctx m (Inl (the (ac_raised a)))
      else case (ac_location a, ac_failure a) of
        (Some location, None) \<Rightarrow> follow_order polls oc location ctx m
      | (_, f) \<Rightarrow> leave_outcome oc ctx (m\<lparr>m_exception := map_option failure_str f\<rparr>) (Inr (ctx, None, None, False, f)))"

definition checkout_to_outcome ::
  "nat \<Rightarrow> shop \<Rightarrow> dict \<Rightarrow> dict \<Rightarrow> pyfloat \<Rightarrow> pyfloat \<Rightarrow> (shop_eff, outcome_result option) prog" where
  "checkout_to_outcome polls sh data ctx0 started epoch =
     Ext NewUuid (\<lambda>u.
     let tx = words u; oc = \<lparr>oc_shop = sh, oc_started = started, oc_epoch = epoch, oc_tx = tx\<rparr>
     in bindp (submit_order sh tx data (dict_set ''transaction_id'' (JStr tx) ctx0)) (after_submission polls oc))"

section \<open>From the outcome to the settlement\<close>

definition TERMINAL_NOTIFICATION_STATUSES :: "string list" where
  "TERMINAL_NOTIFICATION_STATUSES = [''SENT'', ''FAILED'']"

definition TERMINAL_CART_CLEAR_STATUSES :: "string list" where
  "TERMINAL_CART_CLEAR_STATUSES = [''SUCCEEDED'', ''REJECTED'']"

definition str_or_none :: "string \<Rightarrow> json" where
  "str_or_none s = (if s = [] then JNull else JStr s)"

text \<open>A receipt that is kept once it is noted, and the failure message noted with it.\<close>

definition first_receipt :: "(pyfloat \<Rightarrow> string) \<Rightarrow> order_event \<Rightarrow> string \<Rightarrow> dict \<Rightarrow> dict" where
  "first_receipt utc ev prefix ctx =
     (if dict_has ctx (prefix @ ''_received_at'') then ctx else receipt_context utc prefix (ev_epoch ev) (ev_id ev) ctx)"

definition first_failure :: "(pyfloat \<Rightarrow> string) \<Rightarrow> order_event \<Rightarrow> string \<Rightarrow> string \<Rightarrow> dict \<Rightarrow> dict" where
  "first_failure utc ev prefix message ctx =
     (if dict_has ctx (prefix @ ''_failure_received_at'') then ctx
      else
        let ctx1 = dict_set (prefix @ ''_failure_message'') (JStr message)
                     (receipt_context utc (prefix @ ''_failure'') (ev_epoch ev) (ev_id ev) ctx)
        in if dict_has ctx1 ''failure_received_at'' then ctx1
           else dict_set ''failure_message'' (JStr message)
                  (receipt_context utc ''failure'' (ev_epoch ev) (ev_id ev) ctx1))"

definition record_settlement_event :: "(pyfloat \<Rightarrow> string) \<Rightarrow> order_event \<Rightarrow> dict \<Rightarrow> bool \<times> dict" where
  "record_settlement_event utc ev ctx =
     (let order = ev_order ev;
          notification = py_str (dict_get order ''notification_status'' (JStr []));
          cart_clear = py_str (dict_get order ''cart_clear_status'' (JStr []));
          notified = notification \<in> set TERMINAL_NOTIFICATION_STATUSES;
          cleared = cart_clear \<in> set TERMINAL_CART_CLEAR_STATUSES;
          ctx1 = dict_update ctx
            [(''notification_status'', str_or_none notification), (''cart_clear_status'', str_or_none cart_clear),
             (''cart_clear_failure_code'', dict_get order ''cart_clear_failure_code'' JNull), (''settlement_transport'', JStr ''SSE'')];
          ctx2 = (if notified then first_receipt utc ev ''notification'' ctx1 else ctx1);
          ctx3 = (if notification = ''FAILED''
                  then first_failure utc ev ''notification'' ''order confirmation notification failed'' ctx2 else ctx2);
          ctx4 = (if cleared then first_receipt utc ev ''cart_clear'' ctx3 else ctx3);
          ctx5 = (if cart_clear = ''REJECTED''
                  then first_failure utc ev ''cart_clear''
                    (py_str (j_or (dict_get order ''cart_clear_failure_code'' JNull) (JStr ''cart clear rejected''))) ctx4
                  else ctx4)
      in if notified \<and> cleared
         then (True, dict_set ''_settlement_received_monotonic'' (JFloat (ev_monotonic ev))
                       (receipt_context utc ''settlement'' (ev_epoch ev) (ev_id ev) ctx5))
         else (False, ctx5))"

definition fire_settlement :: "order_call \<Rightarrow> dict \<Rightarrow> failure option \<Rightarrow> (shop_eff, 'a) prog \<Rightarrow> (shop_eff, 'a) prog" where
  "fire_settlement oc ctx error k =
     (let go = (\<lambda>finished. lift (received_latency_ms (oc_started oc) finished) (\<lambda>ms.
            tell (Fire ''checkout_to_settled'' ctx (Some ms) (map_option failure_str error) (Some (oc_epoch oc))) k))
      in case num_val (dict_get ctx ''_settlement_received_monotonic'' JNull) of
           Some t \<Rightarrow> go t
         | None \<Rightarrow> (case Option.bind error bf_monotonic of Some t \<Rightarrow> go t | None \<Rightarrow> now go))"

text \<open>The \<open>finally\<close> parts of \<open>_wait_for_settlement\<close>, which closes the stream, and of \<open>_track_settlement\<close>.\<close>

definition leave_settlement :: "order_call \<Rightarrow> bool \<Rightarrow> dict \<Rightarrow> failure option result \<Rightarrow> (shop_eff, unit) prog" where
  "leave_settlement oc stream ctx r =
     bindp (settle (if stream then request CloseStream else Ret JNull)) (\<lambda>closed.
     let r1 = (case closed of Inl e \<Rightarrow> Inl e | Inr _ \<Rightarrow> r);
         ctx1 = (if dict_has ctx ''settlement'' then ctx else dict_set ''settlement'' (JStr ''INCOMPLETE'') ctx);
         error = (case r1 of Inr f \<Rightarrow> f | Inl _ \<Rightarrow> Some (failure_message ''INCOMPLETE'' [] None))
     in fire_settlement oc ctx1 error (case r1 of Inr _ \<Rightarrow> Ret () | Inl e \<Rightarrow> Raise e))"

definition settlement_event ::
  "order_call \<Rightarrow> dict \<Rightarrow> (shop_eff, unit) prog \<Rightarrow> (shop_eff, unit) prog \<Rightarrow> (order_event \<Rightarrow> (shop_eff, unit) prog) \<Rightarrow> order_event result
   \<Rightarrow> (shop_eff, unit) prog" where
  "settlement_event oc ctx again late continue r = (case r of
      Inl e \<Rightarrow>
        if exn_cls e = SSEDeadlineReached then late
        else if exn_cls e = SSEProtocolError then
          now (\<lambda>t. Ext EpochNow (\<lambda>s.
            let f = failure_message ''INVALID_RESPONSE'' (exn_msg e) (Some (t, reading s)) in
            leave_settlement oc True
              (record_received_failure (sh_utc (oc_shop oc)) f (dict_set ''settlement'' (JStr ''INVALID_RESPONSE'') ctx)) (Inr (Some f))))
        else if exn_cls e = GreenletExit then leave_settlement oc True ctx (Inl e)
        else inside (\<lambda>e. leave_settlement oc True ctx (Inl e)) (request CloseStream) (\<lambda>_. again)
    | Inr ev \<Rightarrow> continue ev)"

definition settlement_timeout :: "order_call \<Rightarrow> pyfloat \<Rightarrow> bool \<Rightarrow> dict \<Rightarrow> (shop_eff, unit) prog" where
  "settlement_timeout oc per_order stream ctx =
     Ext DrainDeadline (\<lambda>d.
     let settlement = (if f_le (reading d) per_order then ''INCOMPLETE'' else ''SETTLEMENT_TIMEOUT'') in
     leave_settlement oc stream (dict_set ''settlement'' (JStr settlement) ctx) (Inr (Some (failure_message settlement [] None))))"

fun settlement_loop ::
  "nat \<Rightarrow> order_call \<Rightarrow> string \<Rightarrow> pyfloat \<Rightarrow> pyfloat \<Rightarrow> dict \<Rightarrow> order_event \<Rightarrow> bool \<Rightarrow> nat \<Rightarrow> (shop_eff, unit) prog" where
  "settlement_loop 0 oc events_location per_order deadline ctx0 ev stream attempt = Raise out_of_fuel"
| "settlement_loop (Suc polls) oc events_location per_order deadline ctx0 ev stream attempt =
     (let utc = sh_utc (oc_shop oc);
          ctx = snd (record_settlement_event utc ev ctx0);
          again = (\<lambda>retry_after. reconnect_pause (\<lambda>e. leave_settlement oc False ctx (Inl e)) attempt retry_after deadline
                    (settlement_loop polls oc events_location per_order deadline ctx ev False (Suc attempt)));
          receive = bindp (settle (next_order_event_before deadline)) (settlement_event oc ctx (again None)
              (settlement_loop polls oc events_location per_order deadline ctx ev True attempt)
              (\<lambda>ev1. settlement_loop polls oc events_location per_order deadline ctx ev1 True 0))
      in if fst (record_settlement_event utc ev ctx0)
         then leave_settlement oc stream (dict_set ''settlement'' (JStr ''SETTLED'') ctx) (Inr None)
         else now (\<lambda>t.
           if f_le deadline t then settlement_timeout oc per_order stream ctx
           else if stream then receive
           else inside (\<lambda>e. leave_settlement oc False ctx (Inl e))
                  (open_order_event_stream (oc_shop oc) events_location ''/orders/[id]/events [settlement]'') (\<lambda>(opened, error, retry_after).
             case error of
               Some f \<Rightarrow> leave_settlement oc False
                 (record_received_failure utc f (dict_set ''settlement'' (JStr (bf_outcome f)) ctx)) (Inr (Some f))
             | None \<Rightarrow> if opened then receive else again retry_after)))"

definition track_settlement :: "nat \<Rightarrow> order_call \<Rightarrow> string \<Rightarrow> order_event \<Rightarrow> bool \<Rightarrow> dict \<Rightarrow> (shop_eff, unit) prog" where
  "track_settlement polls oc events_location ev stream ctx =
     (let per_order = f_add (oc_started oc) (settlement_timeout_seconds (sh_config (oc_shop oc))) in
      Ext DrainDeadline (\<lambda>d.
        settlement_loop polls oc events_location per_order (f_min per_order (reading d)) ctx ev stream 0))"

section \<open>The checkout\<close>

text \<open>\<open>NatsAdapter.checkout\<close> with \<open>track_settlement_inline\<close>, as the open-loop and the saturation driver call it; a closed-loop user
  leaves \<open>track_settlement\<close> to a greenlet of its own.\<close>

definition finish_checkout ::
  "nat \<Rightarrow> shop \<Rightarrow> dict \<Rightarrow> pyfloat \<Rightarrow> pyfloat \<Rightarrow> outcome_result option \<Rightarrow> (shop_eff, unit) prog" where
  "finish_checkout polls sh base started epoch r = (case r of
      None \<Rightarrow> Raise (Exn TypeError ''cannot unpack non-iterable NoneType object'')
    | Some (outcome_context, order, location, stream, error) \<Rightarrow>
        (let oc = \<lparr>oc_shop = sh, oc_started = started, oc_epoch = epoch, oc_tx = []\<rparr>;
             ctx = dict_update base outcome_context
         in case (error, order, location) of
              (None, Some ev, Some events_location) \<Rightarrow> track_settlement polls oc events_location ev stream ctx
            | _ \<Rightarrow>
                bindp (if stream then request CloseStream else Ret JNull) (\<lambda>_.
                  fire_settlement oc (dict_set ''settlement'' (JStr ''ORDER_NOT_COMPLETED'') ctx)
                    (Some (case error of Some f \<Rightarrow> f
                           | None \<Rightarrow> failure_message (py_str (dict_get outcome_context ''outcome'' (JStr ''UNKNOWN''))) [] None))
                    (Ret ()))))"

definition nats_checkout :: "nat \<Rightarrow> shop \<Rightarrow> submission \<Rightarrow> (shop_eff, unit) prog" where
  "nats_checkout polls sh su =
     base_context sh su (\<lambda>base. checkout_data (\<lambda>data.
     now (\<lambda>started. Ext EpochNow (\<lambda>s.
       bindp (checkout_to_outcome polls sh data base started (reading s)) (finish_checkout polls sh base started (reading s))))))"

end
