(* ===== verification/Checkout_Rules.thy ===== *)
theory Checkout_Rules
  imports Checkout Executions
begin

text \<open>Rules for the blocks of a checkout, whatever a monitor observes of it.\<close>

lemma tracks_settle: "tracks upd I Q (settle p) g \<longleftrightarrow> tracks upd I (\<lambda>r. Q (Inr r)) p g"
proof -
  have "(\<lambda>r g. case case_sum (\<lambda>e. Inr (Inl e)) (\<lambda>a. Inr (Inr a)) r of Inl e \<Rightarrow> Q (Inl e) g | Inr a \<Rightarrow> Q (Inr a) g) = (\<lambda>r. Q (Inr r))"
    by (auto simp: fun_eq_iff split: sum.splits)
  then show ?thesis
    by (simp add: settle_def tracks_bindp tracks_catchp) (auto simp: sum.case_eq_if cong: sum.case_cong)
qed

lemma tracks_inside:
  "tracks upd I Q (inside leave p k) g \<longleftrightarrow>
     tracks upd I (\<lambda>r g. case r of Inl e \<Rightarrow> tracks upd I Q (leave e) g | Inr a \<Rightarrow> tracks upd I Q (k a) g) p g"
proof -
  have "(\<lambda>r. tracks upd I Q (case r of Inl e \<Rightarrow> leave e | Inr a \<Rightarrow> k a)) =
      (\<lambda>r g. case r of Inl e \<Rightarrow> tracks upd I Q (leave e) g | Inr a \<Rightarrow> tracks upd I Q (k a) g)"
    by (auto simp: fun_eq_iff split: sum.splits)
  then show ?thesis by (simp add: inside_def tracks_bindp tracks_settle)
qed

text \<open>Trees without requests to a bucket.\<close>

primrec external :: "('x, 'a) prog \<Rightarrow> bool" where
  "external (Ret a) = True"
| "external (Raise e) = True"
| "external (KvGet k c) = False"
| "external (KvCreate k v c) = False"
| "external (KvUpdate k v n c) = False"
| "external (Ext x c) = (\<forall>r. external (c r))"

lemma external_bindp [simp]: "external p \<Longrightarrow> (\<And>a. external (f a)) \<Longrightarrow> external (bindp p f)"
  by (induction p) auto

lemma external_catchp [simp]: "external p \<Longrightarrow> (\<And>e. external (h e)) \<Longrightarrow> external (catchp p h)"
  by (induction p) auto

lemma external_lift [simp]: "(\<And>a. external (f a)) \<Longrightarrow> external (lift r f)"
  by (cases r) auto

lemma external_settle [simp]: "external p \<Longrightarrow> external (settle p)"
  by (simp add: settle_def)

lemma external_inside [simp]:
  "external p \<Longrightarrow> (\<And>e. external (leave e)) \<Longrightarrow> (\<And>a. external (k a)) \<Longrightarrow> external (inside leave p k)"
  by (auto simp: inside_def split: sum.splits)

end
