(* ===== verification/Checkout_Ends.thy ===== *)
theory Checkout_Ends
  imports Checkout_Rules
begin

text \<open>
  A checkout ends by itself. The loops of the model carry a bound on their iterations; here it is shown that the bound is
  never reached when the clock is monotone, a pause takes the time it was asked for and a bounded number of events is
  delivered: every iteration either receives an event or moves the clock by a second or to the deadline.
\<close>

section \<open>Watching the time\<close>

record watch =
  wa_now :: rat
  wa_events :: nat
  wa_ok :: bool

definition clock_reads :: "json result \<Rightarrow> rat option" where
  "clock_reads r = (case reading r of Fin t \<Rightarrow> Some t | _ \<Rightarrow> None)"

text \<open>\<open>wa_now\<close> is a time that has certainly been reached; \<open>wa_ok\<close> tells whether the environment has behaved so far.\<close>

definition watched :: "shop_eff \<Rightarrow> json result \<Rightarrow> watch \<Rightarrow> watch" where
  "watched x r g =
     (let spoil = g\<lparr>wa_ok := False\<rparr> in
      if r = Inl out_of_fuel then spoil else
      case x of
        MonotonicNow \<Rightarrow> (case clock_reads r of
            None \<Rightarrow> spoil | Some t \<Rightarrow> g\<lparr>wa_now := max (wa_now g) t, wa_ok := wa_ok g \<and> wa_now g \<le> t\<rparr>)
      | Uniform lo hi \<Rightarrow> (if f_le lo (reading r) \<and> f_le (reading r) hi then g else spoil)
      | DrainDeadline \<Rightarrow> (if clock_reads r = None then spoil else g)
      | Pause (Fin d) \<Rightarrow> g\<lparr>wa_now := (case r of Inr _ \<Rightarrow> wa_now g + max 0 d | Inl _ \<Rightarrow> wa_now g)\<rparr>
      | NextEvent (Fin d) \<Rightarrow> (case r of
            Inr _ \<Rightarrow> g\<lparr>wa_events := Suc (wa_events g)\<rparr>
          | Inl e \<Rightarrow> if exn_cls e = SSEDeadlineReached then g\<lparr>wa_now := wa_now g + max 0 d\<rparr> else g)
      | _ \<Rightarrow> g)"

text \<open>Nothing is claimed once the environment has misbehaved or has sent more events than expected.\<close>

definition fair :: "nat \<Rightarrow> watch \<Rightarrow> bool" where
  "fair n g \<longleftrightarrow> wa_ok g \<and> wa_events g \<le> n"

definition ended :: "nat \<Rightarrow> 'a result \<Rightarrow> watch \<Rightarrow> bool" where
  "ended n r g \<longleftrightarrow> (fair n g \<longrightarrow> r \<noteq> Inl out_of_fuel)"

abbreviation ends :: "nat \<Rightarrow> ('a result \<Rightarrow> watch \<Rightarrow> bool) \<Rightarrow> (shop_eff, 'a) prog \<Rightarrow> watch \<Rightarrow> bool" where
  "ends n Q \<equiv> tracks watched (\<lambda>_. True) (\<lambda>r g. fair n g \<longrightarrow> Q r g)"

definition later :: "watch \<Rightarrow> watch \<Rightarrow> bool" where
  "later g h \<longleftrightarrow> wa_now g \<le> wa_now h \<and> wa_events g \<le> wa_events h \<and> (wa_ok h \<longrightarrow> wa_ok g)"

lemma later_watched: "later g (watched x r g)"
  by (auto simp: watched_def later_def Let_def split: shop_eff.splits option.splits sum.splits pyfloat.splits)

lemma later_trans: "later g h \<Longrightarrow> later h k \<Longrightarrow> later g k"
  by (auto simp: later_def)

lemma later_fair: "later g h \<Longrightarrow> fair n h \<Longrightarrow> fair n g"
  by (auto simp: later_def fair_def)

lemma tracks_later:
  assumes "external p" and "later g0 g"
  shows "tracks watched (\<lambda>_. True) (\<lambda>r h. later g0 h) p g"
  using assms
proof (induction p arbitrary: g)
  case (Ext x c)
  then show ?case using later_trans [OF _ later_watched] by auto
qed auto

lemma later_refl [simp]: "later g g"
  by (simp add: later_def)

lemma ends_unfair: "external p \<Longrightarrow> \<not> fair n g \<Longrightarrow> ends n Q p g"
  by (rule tracks_mono [OF tracks_later [where ?g0.0 = g]]) (auto dest: later_fair)

abbreviation stops :: "nat \<Rightarrow> (shop_eff, 'a) prog \<Rightarrow> watch \<Rightarrow> bool" where
  "stops n \<equiv> ends n (\<lambda>r _. r \<noteq> Inl out_of_fuel)"

text \<open>Trees that end with anything but the exhaustion of the bound, whatever the time.\<close>

definition fine :: "nat \<Rightarrow> (shop_eff, 'a) prog \<Rightarrow> bool" where
  "fine n p \<longleftrightarrow> external p \<and> (\<forall>g. stops n p g)"

lemma fine_Ret [simp]: "fine n (Ret a)"
  by (simp add: fine_def)

lemma fine_Raise [simp]: "fine n (Raise e)" if "e \<noteq> out_of_fuel"
  using that by (simp add: fine_def)

lemma fine_Ext [intro!]: "(\<And>r. fine n (c r)) \<Longrightarrow> fine n (Ext x c)"
  by (simp add: fine_def)

lemma fine_external [intro]: "fine n p \<Longrightarrow> external p"
  by (simp add: fine_def)

lemma fine_stops: "fine n p \<Longrightarrow> stops n p g"
  by (simp add: fine_def)

lemma stops_bindp:
  assumes "external p" and "\<And>r h. external (k r)" and "tracks watched (\<lambda>_. True) (\<lambda>r h. fair n h \<longrightarrow> P r h) p g"
    and "\<And>r h. later g h \<Longrightarrow> fair n h \<Longrightarrow> P r h \<Longrightarrow> stops n (k r) h"
  shows "stops n (bindp (settle p) k) g"
proof -
  have "stops n (k r) h" if "later g h" "fair n h \<longrightarrow> P r h" for r h
    using that assms(2,4) by (cases "fair n h") (auto intro: ends_unfair)
  then show ?thesis
    unfolding tracks_bindp tracks_settle sum.case
    by (intro tracks_weaken [OF tracks_conj [OF tracks_later [OF assms(1) later_refl] assms(3)]]) auto
qed

lemma stops_inside:
  assumes "fine n p" and "\<And>e. external (leave e)" and "\<And>a. external (k a)"
    and "\<And>e. e \<noteq> out_of_fuel \<Longrightarrow> fine n (leave e)" and "\<And>a h. later g h \<Longrightarrow> fair n h \<Longrightarrow> stops n (k a) h"
  shows "stops n (inside leave p k) g"
  unfolding inside_def
  by (rule stops_bindp [where P = "\<lambda>r _. r \<noteq> Inl out_of_fuel"])
    (use assms in \<open>auto simp: fine_def split: sum.splits\<close>)

lemma fine_inside [intro!]:
  assumes "fine n p" and "\<And>e. external (leave e)" and "\<And>e. e \<noteq> out_of_fuel \<Longrightarrow> fine n (leave e)" and "\<And>a. fine n (k a)"
  shows "fine n (inside leave p k)"
  unfolding fine_def [of n "inside leave p k"]
  by (intro conjI allI stops_inside external_inside) (use assms in \<open>auto simp: fine_stops intro: fine_external\<close>)

lemma fine_bindp:
  assumes "fine n p" and "\<And>a. fine n (f a)"
  shows "fine n (bindp p f)"
proof -
  have "stops n (bindp p f) g" for g
    unfolding tracks_bindp
    by (rule tracks_mono [of _ _ "\<lambda>r g. fair n g \<longrightarrow> r \<noteq> Inl out_of_fuel"])
      (use assms in \<open>auto simp: fine_def split: sum.splits\<close>)
  then show ?thesis using assms by (simp add: fine_def)
qed

lemma fine_request [simp]: "fine n (request x)"
proof -
  have "watched x (Inl out_of_fuel) g = g\<lparr>wa_ok := False\<rparr>" for g by (simp add: watched_def)
  then show ?thesis by (auto simp: fine_def request_def tracks_lift fair_def split: sum.splits)
qed

lemma fine_tell [intro!]: "fine n k \<Longrightarrow> fine n (tell x k)"
  unfolding tell_def by (rule fine_Ext)

lemma fine_now [intro!]: "(\<And>t. fine n (k t)) \<Longrightarrow> fine n (now k)"
  unfolding now_def by (rule fine_Ext)

lemma fine_lift: "(\<And>e. r = Inl e \<Longrightarrow> e \<noteq> out_of_fuel) \<Longrightarrow> (\<And>a. fine n (f a)) \<Longrightarrow> fine n (lift r f)"
  by (cases r) auto

lemma ends_now:
  assumes "\<And>t. external (k t)"
    and "\<And>t h. later g h \<Longrightarrow> fair n h \<Longrightarrow> wa_now h = t \<Longrightarrow> wa_events h = wa_events g \<Longrightarrow> ends n Q (k (Fin t)) h"
  shows "ends n Q (now k) g"
  unfolding now_def tracks.simps(6)
proof (intro allI conjI TrueI)
  fix r
  let ?h = "watched MonotonicNow r g"
  show "ends n Q (k (reading r)) ?h"
  proof (cases "fair n ?h")
    case True
    then obtain t where t: "reading r = Fin t" "wa_now g \<le> t"
      by (auto simp: watched_def fair_def Let_def clock_reads_def split: if_splits option.splits pyfloat.splits)
    then have "wa_now ?h = t" "wa_events ?h = wa_events g"
      using True by (auto simp: watched_def fair_def Let_def clock_reads_def)
    then show ?thesis using assms(2) [OF later_watched True] t(1) by simp
  next
    case False
    then show ?thesis by (rule ends_unfair [OF assms(1)])
  qed
qed

section \<open>The parts without a loop\<close>

lemma fuel_exception [simp]: "is_exception out_of_fuel"
  by (simp add: is_exception_def out_of_fuel_def)

lemma fine_leave_outcome [simp]: "fine n (leave_outcome oc ctx m r)"
proof -
  have "e \<noteq> out_of_fuel" if "\<not> is_exception e" for e using that by auto
  then show ?thesis
    by (auto simp: leave_outcome_def Let_def split: option.splits sum.splits)
qed

lemma fine_record_terminal [intro!]: "fine n k \<Longrightarrow> fine n (record_terminal oc out ctx m k)"
  by (auto simp: record_terminal_def intro!: fine_inside)

lemma fine_fail_outcome [simp]: "fine n (fail_outcome oc loc f ctx m)"
  by (auto simp: fail_outcome_def Let_def split: sum.splits)

lemma fine_decided [simp]: "fine n (decided oc loc ev status oid ctx m)"
  by (auto simp: decided_def Let_def split: sum.splits intro!: fine_inside)

lemma fine_outcome_timeout [simp]: "fine n (outcome_timeout oc loc per_order stream ctx m)"
  by (auto simp: outcome_timeout_def Let_def intro!: fine_inside)

lemma latency_not_fuel [simp]: "received_latency_ms a b \<noteq> Inl out_of_fuel"
  by (auto simp: received_latency_ms_def out_of_fuel_def split: if_splits)

lemma fine_fire_settlement [intro!]: "fine n k \<Longrightarrow> fine n (fire_settlement oc ctx error k)"
  by (auto simp: fire_settlement_def Let_def split: option.splits intro!: fine_lift)

lemma external_fire_settlement [simp]: "external k \<Longrightarrow> external (fire_settlement oc ctx error k)"
  by (auto simp: fire_settlement_def Let_def now_def tell_def split: option.splits)

lemma external_leave_settlement [simp]: "external (leave_settlement oc stream ctx r)"
  by (auto simp: leave_settlement_def Let_def request_def split: sum.splits intro!: external_bindp external_fire_settlement)

lemma fine_leave_settlement [simp]: "r \<noteq> Inl out_of_fuel \<Longrightarrow> fine n (leave_settlement oc stream ctx r)"
  unfolding fine_def
proof (intro conjI allI)
  fix g assume r: "r \<noteq> Inl out_of_fuel"
  show "stops n (leave_settlement oc stream ctx r) g"
    unfolding leave_settlement_def Let_def
    by (rule stops_bindp [where P = "\<lambda>r _. r \<noteq> Inl out_of_fuel"])
      (use r in \<open>auto simp: fine_stops intro!: fine_stops fine_fire_settlement split: sum.splits\<close>)
qed simp

lemma fine_settlement_timeout [simp]: "fine n (settlement_timeout oc per_order stream ctx)"
  by (auto simp: settlement_timeout_def Let_def)

lemma header_not_fuel [simp]: "header v k \<noteq> Inl out_of_fuel"
  by (cases v; cases "dict_get (case v of JObj d \<Rightarrow> d | _ \<Rightarrow> []) ''headers'' JNull") (auto simp: header_def out_of_fuel_def)

lemma status_not_fuel [simp]: "status_of v \<noteq> Inl out_of_fuel"
proof -
  have "py_int w \<noteq> Inl out_of_fuel" for w by (cases w rule: py_int.cases) (auto simp: out_of_fuel_def split: option.splits)
  then show ?thesis by (cases v) (auto simp: status_of_def out_of_fuel_def)
qed

lemma fine_open_stream [simp]: "fine n (open_order_event_stream sh loc name)"
  unfolding open_order_event_stream_def request_headers_def Let_def if_False
  by (auto intro!: fine_bindp fine_lift)

text \<open>The delay advertised by the storefront is a number.\<close>

lemma retry_after_number: "retry_after_seconds v \<noteq> NaN"
  by (auto simp: retry_after_seconds_def Let_def f_min_def f_max_def split: option.splits)

definition numeric :: "pyfloat option \<Rightarrow> bool" where
  "numeric x \<longleftrightarrow> x \<noteq> Some NaN"

lemma open_stream_retry:
  "tracks watched (\<lambda>_. True) (\<lambda>r _. case r of Inr (_, _, retry) \<Rightarrow> numeric retry | Inl _ \<Rightarrow> True) (open_order_event_stream sh loc name) g"
  unfolding open_order_event_stream_def request_headers_def Let_def if_False
  by (auto simp: tracks_bindp tracks_lift request_def now_def tell_def numeric_def retry_after_number split: sum.splits option.splits)

section \<open>The passage of time\<close>

lemma as_event_exceptions: "as_event v = Inl e \<Longrightarrow> e \<noteq> out_of_fuel \<and> exn_cls e \<noteq> SSEDeadlineReached"
  by (cases v)
    (auto simp: as_event_def rbind_eq_Inl dict_item_def arith_def out_of_fuel_def split: option.splits elim!: as_dict.elims)

lemma next_event_time:
  "ends n (\<lambda>r h. case r of
      Inr _ \<Rightarrow> wa_events g < wa_events h
    | Inl e \<Rightarrow> e \<noteq> out_of_fuel \<and> (exn_cls e = SSEDeadlineReached \<longrightarrow> d \<le> wa_now h)) (next_order_event_before (Fin d)) g"
  unfolding next_order_event_before_def
proof (rule ends_now, goal_cases)
  case (1 t)
  then show ?case by (auto simp: Let_def)
next
  case (2 t h)
  show ?case
  proof (cases "d \<le> t")
    case True
    then show ?thesis using 2 by (simp add: f_sub_def out_of_fuel_def)
  next
    case False
    have step: "watched (NextEvent (Fin (d - t))) r h = (if r = Inl out_of_fuel then h\<lparr>wa_ok := False\<rparr> else case r of
        Inr _ \<Rightarrow> h\<lparr>wa_events := Suc (wa_events h)\<rparr>
      | Inl e \<Rightarrow> if exn_cls e = SSEDeadlineReached then h\<lparr>wa_now := d\<rparr> else h)" for r
      using False 2(3) by (auto simp: watched_def Let_def split: sum.splits)
    show ?thesis
      using False 2 as_event_exceptions
      by (auto simp: f_sub_def Let_def tracks_lift rbind_eq_Inl step fair_def split: sum.splits)
  qed
qed

lemma reconnect_time:
  fixes d t t3 now1 u adv :: rat
  assumes "t < d" and "t \<le> t3" and "1 \<le> u" and "t3 + min u (max 0 (d - t3)) \<le> now1"
  shows "nat \<lceil>d - now1\<rceil> < nat \<lceil>d - t\<rceil>"
proof -
  have "d \<le> now1 \<or> t + 1 \<le> now1" using assms by (auto simp: min_def max_def split: if_splits)
  moreover have "0 < \<lceil>d - t\<rceil>" using assms(1) by simp
  moreover have "\<lceil>d - now1\<rceil> \<le> \<lceil>d - t\<rceil> - 1" if "t + 1 \<le> now1"
  proof -
    have "d - now1 \<le> d - t - 1" using that by simp
    then have "\<lceil>d - now1\<rceil> \<le> \<lceil>d - t - 1\<rceil>" by (rule ceiling_mono)
    then show ?thesis by simp
  qed
  moreover have "\<lceil>d - now1\<rceil> \<le> 0" if "d \<le> now1" using that by simp
  ultimately show ?thesis by linarith
qed

text \<open>A reconnection takes a second, or until the deadline.\<close>

lemma stops_reconnect:
  assumes "numeric retry" and "t \<le> wa_now g" and "t < d" and "\<And>e. external (leave e)" and "\<And>e. e \<noteq> out_of_fuel \<Longrightarrow> fine n (leave e)"
    and "external k" and "\<And>h. later g h \<Longrightarrow> fair n h \<Longrightarrow> nat \<lceil>d - wa_now h\<rceil> < nat \<lceil>d - t\<rceil> \<Longrightarrow> stops n k h"
  shows "stops n (reconnect_pause leave attempt retry (Fin d) k) g"
proof -
  define base :: rat where "base = min 5 (2 ^ min attempt 16)"
  have base: "1 \<le> base" by (simp add: base_def)
  define wait_for where "wait_for = (\<lambda>delay. now (\<lambda>t. inside leave (request (Pause (f_min delay (f_max (Fin 0) (f_sub (Fin d) t))))) (\<lambda>_. k)))"
  have ext: "external (wait_for delay)" for delay
    using assms(4,6) by (auto simp: wait_for_def now_def request_def)
  have paused: "stops n (wait_for (Fin u)) h" if h: "later g h" "fair n h" and u: "1 \<le> u" for u h
    unfolding wait_for_def
  proof (rule ends_now, goal_cases)
    case (1 t)
    then show ?case using assms(4,6) by (auto simp: request_def)
  next
    case (2 t3 h3)
    let ?p = "min u (max 0 (d - t3))"
    have "f_min (Fin u) (f_max (Fin 0) (f_sub (Fin d) (Fin t3))) = Fin ?p" by (simp add: f_sub_def)
    moreover have "stops n (inside leave (request (Pause (Fin ?p))) (\<lambda>_. k)) h3"
      unfolding tracks_inside request_def tracks.simps(6) tracks_lift
    proof (intro allI conjI TrueI, goal_cases)
      case (1 r)
      let ?h = "watched (Pause (Fin ?p)) r h3"
      have l: "later g ?h" using later_trans [OF later_trans [OF h(1) 2(1)] later_watched] .
      show ?case
      proof (cases r)
        case (Inl e)
        then have "\<not> fair n ?h" if "e = out_of_fuel" using that by (simp add: watched_def fair_def)
        then show ?thesis
          using assms(5) [of e] ends_unfair [OF assms(4) [of e], of n ?h] Inl by (cases "e = out_of_fuel") (auto simp: fine_stops)
      next
        case (Inr v)
        have "stops n k ?h" if "fair n ?h"
        proof (rule assms(7) [OF l that])
          have "t \<le> t3" using assms(2) h(1) 2(1,3) by (simp add: later_def)
          moreover have "t3 + ?p \<le> wa_now ?h" using u 2(3) by (simp add: watched_def Inr Let_def)
          ultimately show "nat \<lceil>d - wa_now ?h\<rceil> < nat \<lceil>d - t\<rceil>" using reconnect_time [OF assms(3) _ u] by blast
        qed
        then show ?thesis using ends_unfair [OF assms(6)] by (cases "fair n ?h") (auto simp: Inr)
      qed
    qed
    ultimately show ?case by simp
  qed
  have "stops n (wait_for (f_min (Fin 5) (f_max (case retry of None \<Rightarrow> Fin 0 | Some f \<Rightarrow> f) (reading r))))
      (watched (Uniform (Fin base) (Fin (min 5 (base * (6 / 5))))) r g)" for r
  proof -
    let ?h = "watched (Uniform (Fin base) (Fin (min 5 (base * (6 / 5))))) r g"
    show ?thesis
    proof (cases "fair n ?h")
      case True
      then obtain u where u: "reading r = Fin u" "base \<le> u"
        by (cases "reading r") (auto simp: watched_def fair_def Let_def split: if_splits)
      have "\<exists>v. f_min (Fin 5) (f_max (case retry of None \<Rightarrow> Fin 0 | Some f \<Rightarrow> f) (Fin u)) = Fin v \<and> 1 \<le> v"
        using u(2) base assms(1)
        by (cases "case retry of None \<Rightarrow> Fin 0 | Some f \<Rightarrow> f") (auto simp: numeric_def f_min_def f_max_def split: option.splits)
      then obtain v where "f_min (Fin 5) (f_max (case retry of None \<Rightarrow> Fin 0 | Some f \<Rightarrow> f) (Fin u)) = Fin v" "1 \<le> v" by blast
      then show ?thesis using paused [OF later_watched True] by (simp add: u(1))
    qed (rule ends_unfair [OF ext])
  qed
  then show ?thesis
    by (simp add: reconnect_pause_def sse_reconnect_delay_def Let_def base_def wait_for_def)
qed

section \<open>The loops\<close>

text \<open>The number of iterations that may still follow.\<close>

definition budget :: "nat \<Rightarrow> rat \<Rightarrow> watch \<Rightarrow> nat" where
  "budget n d g = (n - wa_events g) + nat \<lceil>d - wa_now g\<rceil>"

lemma budget_later: "later g h \<Longrightarrow> budget n d h \<le> budget n d g"
proof -
  assume l: "later g h"
  then have "\<lceil>d - wa_now h\<rceil> \<le> \<lceil>d - wa_now g\<rceil>" by (intro ceiling_mono) (simp add: later_def)
  moreover have "n - wa_events h \<le> n - wa_events g" using l by (intro diff_le_mono2) (simp add: later_def)
  ultimately show ?thesis unfolding budget_def by (intro add_mono nat_mono)
qed

lemma budget_event: "later g h \<Longrightarrow> fair n h \<Longrightarrow> wa_events g < wa_events h \<Longrightarrow> budget n d h < budget n d g"
  using budget_later [of g h 0 d] by (auto simp: budget_def fair_def later_def)

lemma budget_time: "later g h \<Longrightarrow> nat \<lceil>d - wa_now h\<rceil> < nat \<lceil>d - wa_now g\<rceil> \<Longrightarrow> budget n d h < budget n d g"
  unfolding budget_def by (intro add_le_less_mono diff_le_mono2) (simp_all only: later_def)

lemma external_outcome_event:
  "external again \<Longrightarrow> external continue \<Longrightarrow> external (outcome_event oc loc per_order ctx m again continue r)"
  using fine_external [OF fine_outcome_timeout] fine_external [OF fine_leave_outcome] fine_external [OF fine_fail_outcome]
    fine_external [OF fine_decided] fine_external [OF fine_request]
  by (auto simp: outcome_event_def Let_def now_def split: sum.splits)

lemma external_reconnect: "(\<And>e. external (leave e)) \<Longrightarrow> external k \<Longrightarrow> external (reconnect_pause leave a retry d k)"
  by (simp add: reconnect_pause_def sse_reconnect_delay_def Let_def now_def request_def)

lemma external_next_event: "external (next_order_event_before d)"
  by (auto simp: next_order_event_before_def now_def Let_def)

lemma external_outcome_loop: "external (outcome_loop polls oc loc per_order d ctx m stream attempt)"
proof (induction polls arbitrary: stream attempt)
  case (Suc polls)
  then show ?case
    using fine_external [OF fine_outcome_timeout] fine_external [OF fine_leave_outcome] fine_external [OF fine_fail_outcome]
      fine_external [OF fine_open_stream]
    by (auto simp: now_def Let_def intro!: external_inside external_bindp external_settle external_outcome_event external_reconnect
        external_next_event split: option.splits)
qed simp

lemma outcome_event_stops:
  assumes "\<And>h. later g h \<Longrightarrow> fair n h \<Longrightarrow> stops n again h" and "external again"
    and "\<And>e. r = Inl e \<Longrightarrow> e \<noteq> out_of_fuel" and "\<And>ev. r = Inr ev \<Longrightarrow> stops n continue g"
  shows "stops n (outcome_event oc loc per_order ctx m again continue r) g"
proof (cases r)
  case (Inl e)
  have close: "stops n (inside (\<lambda>e. leave_outcome oc ctx m (Inl e)) (request CloseStream) (\<lambda>_. again)) g"
    by (rule stops_inside) (use assms in \<open>auto intro: fine_external [OF fine_leave_outcome]\<close>)
  have "fine n (now (\<lambda>t. Ext EpochNow (\<lambda>s. inside (\<lambda>e. leave_outcome oc ctx m (Inl e)) (request CloseStream)
      (\<lambda>_. fail_outcome oc loc (f t s) ctx m))))" for f
    by (auto intro: fine_external [OF fine_leave_outcome])
  then show ?thesis
    using close by (auto simp: Inl outcome_event_def Let_def fine_stops)
next
  case (Inr ev)
  have "fine n (inside (\<lambda>e. leave_outcome oc ctx m (Inl e)) (request CloseStream) (\<lambda>_. fail_outcome oc loc f ctx m))" for f
    by (auto intro: fine_external [OF fine_leave_outcome])
  then show ?thesis using assms(4) [OF Inr] by (auto simp: Inr outcome_event_def Let_def fine_stops)
qed

lemma outcome_loop_stops:
  "budget n d g < polls \<Longrightarrow> stops n (outcome_loop polls oc loc per_order (Fin d) ctx m stream attempt) g"
proof (induction polls arbitrary: stream attempt g)
  case (Suc polls)
  let ?leave = "\<lambda>e. leave_outcome oc ctx m (Inl e)"
  let ?loop = "outcome_loop polls oc loc per_order (Fin d) ctx m"
  let ?again = "\<lambda>retry. reconnect_pause ?leave attempt retry (Fin d) (?loop False (Suc attempt))"
  let ?receive = "bindp (settle (next_order_event_before (Fin d))) (outcome_event oc loc per_order ctx m (?again None) (?loop True 0))"
  have leave: "external (?leave e)" for e by (rule fine_external [OF fine_leave_outcome])
  have ext: "external (?again retry)" "external ?receive" for retry
    by (intro external_reconnect external_bindp external_settle external_outcome_event external_outcome_loop external_next_event leave)+
  have again: "stops n (?again retry) h" if "later g h" "later h1 h" "numeric retry" "wa_now h1 < d" "budget n d h1 \<le> polls" for retry h h1
  proof (rule stops_reconnect [OF that(3) _ that(4) leave _ external_outcome_loop])
    show "wa_now h1 \<le> wa_now h" using that(2) by (simp add: later_def)
    show "stops n (?loop False (Suc attempt)) h'" if "later h h'" "nat \<lceil>d - wa_now h'\<rceil> < nat \<lceil>d - wa_now h1\<rceil>" for h'
      using budget_time [OF later_trans [OF \<open>later h1 h\<close> that(1)] that(2), of n] \<open>budget n d h1 \<le> polls\<close> by (intro Suc.IH) simp
  qed simp
  have receive: "stops n ?receive h" if "later g h" "later h1 h" "wa_now h1 < d" "budget n d h1 \<le> polls" for h h1
  proof (rule stops_bindp [OF external_next_event external_outcome_event [OF ext(1) external_outcome_loop] next_event_time], goal_cases)
    case (1 r h2)
    show ?case
    proof (rule outcome_event_stops [OF _ ext(1)])
      show "stops n (?again None) h3" if "later h2 h3" for h3
        using that 1(1) \<open>later g h\<close> \<open>later h1 h\<close> \<open>wa_now h1 < d\<close> \<open>budget n d h1 \<le> polls\<close>
        by (intro again [of _ h1]) (auto simp: numeric_def intro: later_trans)
      show "e \<noteq> out_of_fuel" if "r = Inl e" for e using 1(3) that by simp
      show "stops n (?loop True 0) h2" if "r = Inr ev" for ev
        using 1 that \<open>budget n d h1 \<le> polls\<close> budget_later [OF \<open>later h1 h\<close>, of n d] budget_event [OF 1(1,2), of d]
        by (intro Suc.IH) simp
    qed
  qed
  show ?case
    unfolding outcome_loop.simps Let_def
  proof (rule ends_now, goal_cases)
    case (1 t)
    then show ?case
      using fine_external [OF fine_outcome_timeout] fine_external [OF fine_fail_outcome] fine_external [OF fine_open_stream] ext leave
      by (auto intro!: external_inside split: option.splits)
  next
    case (2 t h)
    have b: "budget n d h \<le> polls" using Suc.prems budget_later [OF 2(1), of n d] by simp
    have open_it: "stops n (inside ?leave (open_order_event_stream (oc_shop oc) loc ''/orders/[id]/events'') (\<lambda>(opened, error, retry).
        case error of Some f \<Rightarrow> fail_outcome oc loc f ctx m | None \<Rightarrow> if opened then ?receive else ?again retry)) h" if "t < d"
      unfolding inside_def
    proof (rule stops_bindp [where P = "\<lambda>r _. r \<noteq> Inl out_of_fuel \<and> (case r of Inr (_, _, retry) \<Rightarrow> numeric retry | Inl _ \<Rightarrow> True)"], goal_cases)
      case (3)
      show ?case
        by (rule tracks_weaken [OF tracks_conj [OF fine_stops [OF fine_open_stream] open_stream_retry]]) auto
    next
      case (4 r h2)
      then show ?case
        using again [of h2 h] receive [of h2 h] that 2 b later_trans [OF 2(1)]
        by (auto simp: fine_stops split: sum.splits option.splits)
    qed (use fine_external [OF fine_fail_outcome] fine_external [OF fine_open_stream] ext leave in \<open>auto split: sum.splits option.splits\<close>)
    show ?case
      using open_it receive [OF 2(1) later_refl] 2 b by (auto simp: fine_stops)
  qed
qed simp

lemma external_settlement_event:
  "external again \<Longrightarrow> external late \<Longrightarrow> (\<And>ev. external (continue ev)) \<Longrightarrow> external (settlement_event oc ctx again late continue r)"
  using fine_external [OF fine_request] by (auto simp: settlement_event_def Let_def now_def split: sum.splits)

lemma external_settlement_loop: "external (settlement_loop polls oc loc per_order d ctx ev stream attempt)"
proof (induction polls arbitrary: ctx ev stream attempt)
  case (Suc polls)
  then show ?case
    using fine_external [OF fine_settlement_timeout] fine_external [OF fine_open_stream]
    by (auto simp: now_def Let_def intro!: external_inside external_bindp external_settle external_settlement_event external_reconnect
        external_next_event split: option.splits)
qed simp

lemma settlement_event_stops:
  assumes "\<And>h. later g h \<Longrightarrow> fair n h \<Longrightarrow> stops n again h" and "external again"
    and "\<And>e. r = Inl e \<Longrightarrow> e \<noteq> out_of_fuel" and "\<And>e. r = Inl e \<Longrightarrow> exn_cls e = SSEDeadlineReached \<Longrightarrow> stops n late g"
    and "\<And>ev. r = Inr ev \<Longrightarrow> stops n (continue ev) g"
  shows "stops n (settlement_event oc ctx again late continue r) g"
proof (cases r)
  case (Inl e)
  have "stops n (inside (\<lambda>e. leave_settlement oc True ctx (Inl e)) (request CloseStream) (\<lambda>_. again)) g"
    by (rule stops_inside) (use assms in auto)
  moreover have "fine n (now (\<lambda>t. Ext EpochNow (\<lambda>s. leave_settlement oc True (c t s) (Inr (f t s)))))" for c f by auto
  ultimately show ?thesis
    using assms(3,4) [OF Inl] by (auto simp: Inl settlement_event_def Let_def fine_stops)
qed (use assms(5) in \<open>simp add: settlement_event_def\<close>)

lemma settlement_loop_stops:
  "budget n d g < polls \<Longrightarrow> stops n (settlement_loop polls oc loc per_order (Fin d) ctx ev stream attempt) g"
proof (induction polls arbitrary: ctx ev stream attempt g)
  case (Suc polls)
  define ctx1 where "ctx1 = snd (record_settlement_event (sh_utc (oc_shop oc)) ev ctx)"
  let ?leave = "\<lambda>e. leave_settlement oc False ctx1 (Inl e)"
  let ?loop = "settlement_loop polls oc loc per_order (Fin d) ctx1"
  let ?again = "\<lambda>retry. reconnect_pause ?leave attempt retry (Fin d) (?loop ev False (Suc attempt))"
  let ?receive = "bindp (settle (next_order_event_before (Fin d)))
      (settlement_event oc ctx1 (?again None) (?loop ev True attempt) (\<lambda>ev1. ?loop ev1 True 0))"
  have ext: "external (?again retry)" "external ?receive" for retry
    by (intro external_reconnect external_bindp external_settle external_settlement_event external_settlement_loop external_next_event
        external_leave_settlement)+
  have again: "stops n (?again retry) h" if "later g h" "later h1 h" "numeric retry" "wa_now h1 < d" "budget n d h1 \<le> polls" for retry h h1
  proof (rule stops_reconnect [OF that(3) _ that(4) external_leave_settlement _ external_settlement_loop])
    show "wa_now h1 \<le> wa_now h" using that(2) by (simp add: later_def)
    show "stops n (?loop ev False (Suc attempt)) h'" if "later h h'" "nat \<lceil>d - wa_now h'\<rceil> < nat \<lceil>d - wa_now h1\<rceil>" for h'
      using budget_time [OF later_trans [OF \<open>later h1 h\<close> that(1)] that(2), of n] \<open>budget n d h1 \<le> polls\<close> by (intro Suc.IH) simp
  qed simp
  have receive: "stops n ?receive h" if "later g h" "later h1 h" "wa_now h1 < d" "budget n d h1 \<le> polls" for h h1
  proof (rule stops_bindp [OF external_next_event external_settlement_event [OF ext(1) external_settlement_loop external_settlement_loop]
          next_event_time], goal_cases)
    case (1 r h2)
    show ?case
    proof (rule settlement_event_stops [OF _ ext(1)])
      show "stops n (?again None) h3" if "later h2 h3" for h3
        using that 1(1) \<open>later g h\<close> \<open>later h1 h\<close> \<open>wa_now h1 < d\<close> \<open>budget n d h1 \<le> polls\<close>
        by (intro again [of _ h1]) (auto simp: numeric_def intro: later_trans)
      show "e \<noteq> out_of_fuel" if "r = Inl e" for e using 1(3) that by simp
      show "stops n (?loop ev True attempt) h2" if "r = Inl e" "exn_cls e = SSEDeadlineReached" for e
      proof (rule Suc.IH)
        have "d \<le> wa_now h2" using 1(3) that by simp
        then have "nat \<lceil>d - wa_now h2\<rceil> < nat \<lceil>d - wa_now h1\<rceil>" using \<open>wa_now h1 < d\<close> by simp
        then show "budget n d h2 < polls"
          using budget_time [OF later_trans [OF \<open>later h1 h\<close> 1(1)], of d n] \<open>budget n d h1 \<le> polls\<close> by simp
      qed
      show "stops n (?loop ev1 True 0) h2" if "r = Inr ev1" for ev1
        using 1 that \<open>budget n d h1 \<le> polls\<close> budget_later [OF \<open>later h1 h\<close>, of n d] budget_event [OF 1(1,2), of d]
        by (intro Suc.IH) simp
    qed
  qed
  have waiting: "stops n (now (\<lambda>t. if f_le (Fin d) t then settlement_timeout oc per_order stream ctx1
      else if stream then ?receive
      else inside ?leave (open_order_event_stream (oc_shop oc) loc ''/orders/[id]/events [settlement]'') (\<lambda>(opened, error, retry).
        case error of
          Some f \<Rightarrow> leave_settlement oc False
            (record_received_failure (sh_utc (oc_shop oc)) f (dict_set ''settlement'' (JStr (bf_outcome f)) ctx1)) (Inr (Some f))
        | None \<Rightarrow> if opened then ?receive else ?again retry))) g"
  proof (rule ends_now, goal_cases)
    case (1 t)
    then show ?case
      using fine_external [OF fine_settlement_timeout] fine_external [OF fine_open_stream] ext
      by (auto intro!: external_inside split: option.splits)
  next
    case (2 t h)
    have b: "budget n d h \<le> polls" using Suc.prems budget_later [OF 2(1), of n d] by simp
    have open_it: "stops n (inside ?leave (open_order_event_stream (oc_shop oc) loc ''/orders/[id]/events [settlement]'') (\<lambda>(opened, error, retry).
        case error of
          Some f \<Rightarrow> leave_settlement oc False
            (record_received_failure (sh_utc (oc_shop oc)) f (dict_set ''settlement'' (JStr (bf_outcome f)) ctx1)) (Inr (Some f))
        | None \<Rightarrow> if opened then ?receive else ?again retry)) h" if "t < d"
      unfolding inside_def
    proof (rule stops_bindp [where P = "\<lambda>r _. r \<noteq> Inl out_of_fuel \<and> (case r of Inr (_, _, retry) \<Rightarrow> numeric retry | Inl _ \<Rightarrow> True)"], goal_cases)
      case (3)
      show ?case
        by (rule tracks_weaken [OF tracks_conj [OF fine_stops [OF fine_open_stream] open_stream_retry]]) auto
    next
      case (4 r h2)
      then show ?case
        using again [of h2 h] receive [of h2 h] that 2 b later_trans [OF 2(1)]
        by (auto simp: fine_stops split: sum.splits option.splits)
    qed (use fine_external [OF fine_open_stream] ext in \<open>auto split: sum.splits option.splits\<close>)
    show ?case
      using open_it receive [OF 2(1) later_refl] 2 b by (auto simp: fine_stops)
  qed
  then show ?case
    unfolding settlement_loop.simps Let_def ctx1_def [symmetric] by (simp add: fine_stops)
qed simp

section \<open>The checkout\<close>

text \<open>Trees that end from every point of time after a given one.\<close>

definition done_after :: "nat \<Rightarrow> watch \<Rightarrow> (shop_eff, 'a) prog \<Rightarrow> bool" where
  "done_after n g p \<longleftrightarrow> external p \<and> (\<forall>h. later g h \<longrightarrow> stops n p h)"

lemma done_after_fine [intro]: "fine n p \<Longrightarrow> done_after n g p"
  by (auto simp: done_after_def fine_def)

lemma done_after_Ext:
  assumes "\<And>r. done_after n g (c r)"
  shows "done_after n g (Ext x c)"
  using assms later_trans [OF _ later_watched, of g] by (auto simp: done_after_def)

lemma done_after_later: "done_after n g p \<Longrightarrow> later g h \<Longrightarrow> done_after n h p"
  by (auto simp: done_after_def intro: later_trans)

lemma done_after_bindp:
  assumes "fine n p" and "\<And>a. done_after n g (f a)"
  shows "done_after n g (bindp p f)"
  unfolding done_after_def
proof (intro conjI allI impI)
  show "external (bindp p f)" using assms by (auto simp: done_after_def fine_def)
next
  fix h
  assume h: "later g h"
  show "stops n (bindp p f) h"
    unfolding tracks_bindp
    by (rule tracks_weaken [OF tracks_conj [OF tracks_later [OF fine_external [OF assms(1)] later_refl] fine_stops [OF assms(1)]]])
      (use assms(2) h in \<open>auto simp: done_after_def split: sum.splits intro: later_trans\<close>)
qed

lemma stops_bindp_plain:
  assumes "external p" and "stops n p g" and "\<And>a. done_after n g (f a)"
  shows "stops n (bindp p f) g"
  unfolding tracks_bindp
  by (rule tracks_weaken [OF tracks_conj [OF tracks_later [OF assms(1) later_refl] assms(2)]])
    (use assms(3) in \<open>auto simp: done_after_def split: sum.splits\<close>)

lemma done_after_join:
  assumes "done_after n g p" and "\<And>a. done_after n g (f a)"
  shows "done_after n g (bindp p f)"
  using assms unfolding done_after_def [of n g p] done_after_def [of n g "bindp p f"]
  by (auto intro!: stops_bindp_plain done_after_later [OF assms(2)] simp: done_after_def)

lemma done_after_base_context: "(\<And>b. done_after n g (k b)) \<Longrightarrow> done_after n g (base_context sh su k)"
  unfolding base_context_def Let_def by (rule done_after_Ext)

lemma done_after_checkout_data: "(\<And>b. done_after n g (k b)) \<Longrightarrow> done_after n g (checkout_data k)"
  unfolding checkout_data_def Let_def by (intro done_after_Ext)

lemma read_submission_not_fuel [simp]: "read_submission v \<noteq> Inl out_of_fuel"
  by (auto simp: read_submission_def rbind_eq_Inl split: if_splits)

lemma fine_leave_acceptance [simp]: "fine n (leave_acceptance c a)"
  by (auto simp: leave_acceptance_def)

lemma fine_submit_order [simp]: "fine n (submit_order sh tx data ctx)"
proof -
  have "fine n (lift (read_submission v) Ret)" for v
    by (rule fine_lift) auto
  then show ?thesis
    unfolding submit_order_def request_headers_def Let_def
    by (auto intro!: fine_bindp fine_Ext intro: fine_external [OF fine_leave_acceptance])
qed

text \<open>A loop that starts after \<open>s\<close> with a deadline at most \<open>a\<close> later ends within its bound.\<close>

lemma budget_start:
  assumes "s \<le> wa_now h" and "d \<le> s + a"
  shows "budget n d h \<le> n + nat \<lceil>a\<rceil>"
proof -
  have "\<lceil>d - wa_now h\<rceil> \<le> \<lceil>a\<rceil>" using assms by (intro ceiling_mono) linarith
  then show ?thesis unfolding budget_def by (intro add_mono nat_mono) auto
qed

lemma done_after_deadline:
  assumes "\<And>d. external (k d)"
    and "\<And>h d. later g h \<Longrightarrow> d \<le> wa_now g + a \<Longrightarrow> stops n (k (Fin d)) h"
  shows "done_after n g (Ext DrainDeadline (\<lambda>r. k (f_min (f_add (Fin (wa_now g)) (Fin a)) (reading r))))"
  unfolding done_after_def
proof (intro conjI allI impI)
  fix h
  assume h: "later g h"
  have "stops n (k (f_min (f_add (Fin (wa_now g)) (Fin a)) (reading r))) (watched DrainDeadline r h)" for r
  proof (cases "fair n (watched DrainDeadline r h)")
    case True
    then obtain dd where "reading r = Fin dd"
      by (auto simp: watched_def fair_def Let_def clock_reads_def split: if_splits pyfloat.splits)
    then show ?thesis
      using assms(2) [OF later_trans [OF h later_watched], of "min (wa_now g + a) dd"] by simp
  qed (rule ends_unfair [OF assms(1)])
  then show "stops n (Ext DrainDeadline (\<lambda>r. k (f_min (f_add (Fin (wa_now g)) (Fin a)) (reading r)))) h" by simp
qed (simp add: assms(1))

lemma done_after_loop:
  assumes "\<And>d. external (k d)" and "n + nat \<lceil>a\<rceil> < polls"
    and "\<And>h d. budget n d h < polls \<Longrightarrow> stops n (k (Fin d)) h"
  shows "done_after n g (Ext DrainDeadline (\<lambda>r. k (f_min (f_add (Fin (wa_now g)) (Fin a)) (reading r))))"
  by (rule done_after_deadline [OF assms(1)], rule assms(3))
    (use assms(2) in \<open>auto simp: later_def intro!: le_less_trans [OF budget_start [of "wa_now g" _ _ a]]\<close>)

lemma done_after_follow_order:
  assumes "outcome_timeout_seconds (sh_config (oc_shop oc)) = Fin a" and "n + nat \<lceil>a\<rceil> < polls" and "oc_started oc = Fin (wa_now g)"
  shows "done_after n g (follow_order polls oc location ctx m)"
  unfolding follow_order_def Let_def assms(1,3)
  using done_after_loop [where k = "\<lambda>d. outcome_loop polls oc _ _ d ctx m False 0", OF external_outcome_loop assms(2) outcome_loop_stops]
  by (auto simp: intro!: done_after_fine fine_record_terminal split: sum.splits)

lemma done_after_submission:
  assumes "outcome_timeout_seconds (sh_config (oc_shop oc)) = Fin a" and "n + nat \<lceil>a\<rceil> < polls" and "oc_started oc = Fin (wa_now g)"
  shows "done_after n g (after_submission polls oc s)"
  using done_after_follow_order [OF assms] by (auto simp: after_submission_def Let_def split: option.splits)

lemma done_after_outcome:
  assumes "outcome_timeout_seconds (sh_config sh) = Fin a" and "n + nat \<lceil>a\<rceil> < polls"
  shows "done_after n g (checkout_to_outcome polls sh data ctx (Fin (wa_now g)) epoch)"
  unfolding checkout_to_outcome_def Let_def
  by (intro done_after_Ext done_after_bindp done_after_submission) (use assms in auto)

lemma done_after_finish:
  assumes "settlement_timeout_seconds (sh_config sh) = Fin b" and "n + nat \<lceil>b\<rceil> < polls"
  shows "done_after n g (finish_checkout polls sh base (Fin (wa_now g)) epoch r)"
proof -
  have "done_after n g (track_settlement polls \<lparr>oc_shop = sh, oc_started = Fin (wa_now g), oc_epoch = epoch, oc_tx = tx\<rparr> loc ev stream ctx)"
    for tx loc ev stream ctx
    unfolding track_settlement_def Let_def
    using done_after_loop [where k = "\<lambda>d. settlement_loop polls _ loc _ d ctx ev stream 0", OF external_settlement_loop assms(2)
        settlement_loop_stops] by (simp add: assms(1))
  moreover have "Exn TypeError t \<noteq> out_of_fuel" for t by (simp add: out_of_fuel_def)
  ultimately show ?thesis
    unfolding finish_checkout_def Let_def
    by (auto intro!: done_after_fine fine_bindp fine_fire_settlement split: option.splits)
qed

lemma external_outcome: "external (checkout_to_outcome polls sh data ctx started epoch)"
proof -
  have "external (follow_order polls oc location c m)" for oc location c m
    using fine_external [OF fine_record_terminal [OF fine_leave_outcome]] fine_external [OF fine_leave_outcome]
    by (auto simp: follow_order_def Let_def external_outcome_loop split: sum.splits)
  then have "external (after_submission polls oc s)" for oc s
    using fine_external [OF fine_leave_outcome] by (auto simp: after_submission_def Let_def split: option.splits)
  then show ?thesis
    using fine_external [OF fine_submit_order] by (auto simp: checkout_to_outcome_def Let_def)
qed

lemma external_finish: "external (finish_checkout polls sh base started epoch r)"
  by (auto simp: finish_checkout_def track_settlement_def Let_def external_settlement_loop request_def
      intro!: external_bindp external_fire_settlement split: option.splits)

lemma nats_checkout_done:
  assumes "outcome_timeout_seconds (sh_config sh) = Fin a" and "settlement_timeout_seconds (sh_config sh) = Fin b"
    and "n + nat \<lceil>max a b\<rceil> < polls"
  shows "done_after n g (nats_checkout polls sh su)"
proof -
  have "nat \<lceil>a\<rceil> \<le> nat \<lceil>max a b\<rceil>" "nat \<lceil>b\<rceil> \<le> nat \<lceil>max a b\<rceil>" by (auto intro!: nat_mono ceiling_mono)
  then have bounds: "n + nat \<lceil>a\<rceil> < polls" "n + nat \<lceil>b\<rceil> < polls" using assms(3) by linarith+
  define rest where "rest = (\<lambda>base data started epoch. bindp (checkout_to_outcome polls sh data base started epoch) (finish_checkout polls sh base started epoch))"
  have rest: "done_after n h (rest base data (Fin (wa_now h)) epoch)" for h base data epoch
    unfolding rest_def
    by (intro done_after_join done_after_outcome [OF assms(1) bounds(1)] done_after_finish [OF assms(2) bounds(2)])
  have ext: "external (rest base data started epoch)" for base data started epoch
    unfolding rest_def by (intro external_bindp external_outcome external_finish)
  have "done_after n h (now (\<lambda>started. Ext EpochNow (\<lambda>s. rest base data started (reading s))))" for h base data
    unfolding done_after_def
  proof (intro conjI allI impI)
    fix h'
    show "stops n (now (\<lambda>started. Ext EpochNow (\<lambda>s. rest base data started (reading s)))) h'"
    proof (rule ends_now)
      fix t and k :: watch
      assume "wa_now k = t"
      then have "done_after n k (Ext EpochNow (\<lambda>s. rest base data (Fin t) (reading s)))"
        using rest [of k] by (intro done_after_Ext) auto
      then show "stops n (Ext EpochNow (\<lambda>s. rest base data (Fin t) (reading s))) k" by (simp add: done_after_def)
    qed (simp add: ext)
  qed (simp add: now_def ext)
  then show ?thesis
    unfolding nats_checkout_def rest_def by (intro done_after_base_context done_after_checkout_data)
qed

end
