(* ===== verification/Checkout_Props.thy ===== *)
theory Checkout_Props
  imports Checkout_Rules
begin

text \<open>
  What the records of the load generator account for. A monitor counts the records, acceptances and decisions of one
  checkout in every execution, whatever fails; the recorder's number of outstanding orders is then exact for any
  number of checkouts running concurrently.
\<close>

section \<open>Monitoring a checkout\<close>

text \<open>\<open>ty_upset\<close>: the greenlet was killed, or its submission ended with an exception. \<open>ty_false\<close>: an outcome was recorded as
  a success although the context does not say that the order was completed.\<close>

record tally =
  ty_acceptance :: nat
  ty_outcome :: nat
  ty_settled :: nat
  ty_accepted :: nat
  ty_terminal :: nat
  ty_upset :: bool
  ty_false :: bool

definition kills :: "'a result \<Rightarrow> bool" where
  "kills r \<longleftrightarrow> (case r of Inl e \<Rightarrow> \<not> is_exception e | Inr _ \<Rightarrow> False)"

definition raises :: "'a result \<Rightarrow> bool" where
  "raises r \<longleftrightarrow> (case r of Inl e \<Rightarrow> True | Inr _ \<Rightarrow> False)"

definition upset :: "bool \<Rightarrow> tally \<Rightarrow> tally" where
  "upset b g = g\<lparr>ty_upset := ty_upset g \<or> b\<rparr>"

definition counted :: "shop_eff \<Rightarrow> tally \<Rightarrow> tally" where
  "counted x g = (case x of
      Fire name ctx ms exception start \<Rightarrow>
        if name = ''checkout_acceptance'' then g\<lparr>ty_acceptance := Suc (ty_acceptance g)\<rparr>
        else if name = ''checkout_to_outcome''
        then g\<lparr>ty_outcome := Suc (ty_outcome g),
               ty_false := ty_false g \<or> exception = None \<and> dict_get ctx ''outcome'' JNull \<noteq> JStr ''COMPLETED''\<rparr>
        else if name = ''checkout_to_settled'' then g\<lparr>ty_settled := Suc (ty_settled g)\<rparr> else g
    | Accepted _ _ \<Rightarrow> g\<lparr>ty_accepted := Suc (ty_accepted g)\<rparr>
    | Terminal _ _ _ \<Rightarrow> g\<lparr>ty_terminal := Suc (ty_terminal g)\<rparr>
    | _ \<Rightarrow> g)"

definition tallied :: "shop_eff \<Rightarrow> json result \<Rightarrow> tally \<Rightarrow> tally" where
  "tallied x r g = upset (kills r \<or> (case x of HttpPost _ _ _ \<Rightarrow> raises (rbind r read_submission) | Accepted _ _ \<Rightarrow> raises r | _ \<Rightarrow> False))
     (counted x g)"

definition nothing :: tally where
  "nothing = \<lparr>ty_acceptance = 0, ty_outcome = 0, ty_settled = 0, ty_accepted = 0, ty_terminal = 0, ty_upset = False, ty_false = False\<rparr>"

abbreviation keeps :: "(tally \<Rightarrow> bool) \<Rightarrow> ('a result \<Rightarrow> tally \<Rightarrow> bool) \<Rightarrow> (shop_eff, 'a) prog \<Rightarrow> tally \<Rightarrow> bool" where
  "keeps \<equiv> tracks tallied"

section \<open>Rules for the combinators\<close>

lemma upset_False [simp]: "upset False g = g"
  by (simp add: upset_def)

lemma upset_upset [simp]: "upset b (upset c g) = upset (c \<or> b) g"
  by (auto simp: upset_def)

lemma ty_upset [simp]: "ty_upset (upset b g) \<longleftrightarrow> ty_upset g \<or> b"
  by (simp add: upset_def)

text \<open>Trees that only ask: the tally stays as it is, except that a kill is noticed.\<close>

definition calm :: "(shop_eff, 'a) prog \<Rightarrow> bool" where
  "calm p \<longleftrightarrow> (\<forall>g. keeps (\<lambda>g'. \<exists>b. g' = upset b g) (\<lambda>r g'. (\<exists>b. g' = upset b g) \<and> (kills r \<longrightarrow> ty_upset g')) p g)"

definition plain :: "shop_eff \<Rightarrow> bool" where
  "plain x \<longleftrightarrow> (case x of Fire _ _ _ _ _ \<Rightarrow> False | Accepted _ _ \<Rightarrow> False | Terminal _ _ _ \<Rightarrow> False | HttpPost _ _ _ \<Rightarrow> False | _ \<Rightarrow> True)"

lemma tallied_plain: "plain x \<Longrightarrow> tallied x r g = upset (kills r) g"
  by (cases x) (simp_all add: plain_def tallied_def counted_def)

lemma kills_simps [simp]: "kills (Inr a) = False" "kills (Inl e) = (\<not> is_exception e)"
  by (simp_all add: kills_def)

lemma calm_Ret [simp]: "calm (Ret a)"
  by (auto simp: calm_def intro: exI [of _ False])

lemma calm_Raise [simp]: "calm (Raise e) \<longleftrightarrow> is_exception e"
  by (auto simp: calm_def nothing_def intro: exI [of _ False] dest: spec [of _ nothing])

lemma keeps_calm:
  assumes "calm p" and "\<And>b. I (upset b g)" and "\<And>r b. (kills r \<longrightarrow> ty_upset (upset b g)) \<Longrightarrow> Q r (upset b g)"
  shows "keeps I Q p g"
  by (rule tracks_weaken [OF assms(1) [unfolded calm_def, rule_format, of g]]) (use assms(2,3) in auto)

lemma calm_bindp:
  assumes "calm p" and "\<And>a. calm (f a)"
  shows "calm (bindp p f)"
  unfolding calm_def tracks_bindp
proof
  fix g
  have "keeps (\<lambda>g'. \<exists>b. g' = upset b g) (\<lambda>r g'. (\<exists>b. g' = upset b g) \<and> (kills r \<longrightarrow> ty_upset g')) (f a) (upset c g)" for a c
    by (rule keeps_calm [OF assms(2)]) auto
  then show "keeps (\<lambda>g'. \<exists>b. g' = upset b g) (\<lambda>r h. case r of Inl e \<Rightarrow> (\<exists>b. h = upset b g) \<and> (kills (Inl e) \<longrightarrow> ty_upset h)
     | Inr a \<Rightarrow> keeps (\<lambda>g'. \<exists>b. g' = upset b g) (\<lambda>r g'. (\<exists>b. g' = upset b g) \<and> (kills r \<longrightarrow> ty_upset g')) (f a) h) p g"
    by (intro keeps_calm [OF assms(1)]) (auto split: sum.splits)
qed

lemma calm_Ext:
  assumes "plain x" and "\<And>r. calm (c r)"
  shows "calm (Ext x c)"
proof -
  have "keeps (\<lambda>g'. \<exists>b. g' = upset b g) (\<lambda>r g'. (\<exists>b. g' = upset b g) \<and> (kills r \<longrightarrow> ty_upset g')) (c r) (upset b g)" for g b r
    by (rule keeps_calm [OF assms(2)]) auto
  then show ?thesis by (auto simp: calm_def tallied_plain [OF assms(1)])
qed

lemma calm_now: "(\<And>t. calm (k t)) \<Longrightarrow> calm (now k)"
  unfolding now_def by (rule calm_Ext) (simp_all add: plain_def)

lemma calm_tell: "plain x \<Longrightarrow> calm k \<Longrightarrow> calm (tell x k)"
  unfolding tell_def by (rule calm_Ext)

lemma calm_lift: "(\<And>e. r = Inl e \<Longrightarrow> is_exception e) \<Longrightarrow> (\<And>a. r = Inr a \<Longrightarrow> calm (f a)) \<Longrightarrow> calm (lift r f)"
  by (cases r) auto

lemma calm_answer:
  assumes "plain x" and "\<And>v. \<not> kills (f v)"
  shows "calm (Ext x (\<lambda>r. lift (rbind r f) Ret))"
proof -
  have "is_exception e" if "f v = Inl e" for v e using assms(2) [of v] that by simp
  then show ?thesis
    by (auto simp: calm_def tallied_plain [OF assms(1)] tracks_lift rbind_eq_Inl split: sum.splits)
qed

lemma rbind_Inr [simp]: "rbind r Inr = r"
  by (cases r) auto

lemma calm_request: "plain x \<Longrightarrow> calm (request x)"
  using calm_answer [of x Inr] by (simp add: request_def)

lemma not_kills_as_event: "\<not> kills (as_event v)"
proof -
  have "is_exception e" if "as_event v = Inl e" for e
    using that
    by (cases v)
      (auto simp: as_event_def rbind_eq_Inl dict_item_def arith_def is_exception_def split: option.splits elim!: as_dict.elims)
  then show ?thesis by (cases "as_event v") auto
qed

lemma calm_next_event: "calm (next_order_event_before deadline)"
  unfolding next_order_event_before_def Let_def
  by (rule calm_now) (auto intro!: calm_answer not_kills_as_event simp: plain_def is_exception_def)

lemma is_exception_jget: "jget v k d = Inl e \<Longrightarrow> is_exception e"
  by (cases v) (auto simp: is_exception_def)

lemma is_exception_py_int: "py_int v = Inl e \<Longrightarrow> is_exception e"
  by (cases v rule: py_int.cases) (auto simp: is_exception_def split: option.splits)

lemma is_exception_status: "status_of v = Inl e \<Longrightarrow> is_exception e"
  by (auto simp: status_of_def rbind_eq_Inl intro: is_exception_jget is_exception_py_int)

lemma is_exception_header: "header v k = Inl e \<Longrightarrow> is_exception e"
  by (auto simp: header_def rbind_eq_Inl intro: is_exception_jget)

lemma calm_open_stream: "calm (open_order_event_stream sh events_location name)"
  unfolding open_order_event_stream_def request_headers_def Let_def
  by (auto intro!: calm_bindp calm_request calm_now calm_Ext calm_lift calm_tell simp: plain_def dest!: is_exception_status is_exception_header)

section \<open>From the submission to the outcome\<close>

text \<open>What holds of the tally at all times, and at the points of a checkout.\<close>

definition sane :: "tally \<Rightarrow> bool" where
  "sane g \<longleftrightarrow> ty_terminal g \<le> ty_accepted g \<and> ty_accepted g \<le> 1 \<and> ty_acceptance g \<le> 1 \<and> ty_outcome g \<le> ty_acceptance g \<and>
     ty_settled g \<le> ty_outcome g \<and> (ty_false g \<longrightarrow> ty_upset g)"

definition submitted :: "tally \<Rightarrow> bool" where
  "submitted g \<longleftrightarrow> sane g \<and> ty_acceptance g = 1 \<and> ty_outcome g = 0 \<and> ty_settled g = 0 \<and> \<not> ty_false g"

text \<open>The order was accepted and is not decided; it is decided or was never accepted.\<close>

definition pending :: "tally \<Rightarrow> bool" where
  "pending g \<longleftrightarrow> submitted g \<and> ty_accepted g = 1 \<and> ty_terminal g = 0"

definition balanced :: "tally \<Rightarrow> bool" where
  "balanced g \<longleftrightarrow> submitted g \<and> ty_terminal g = ty_accepted g"

definition stable :: "(tally \<Rightarrow> bool) \<Rightarrow> bool" where
  "stable P \<longleftrightarrow> (\<forall>g b. P g \<longrightarrow> P (upset b g)) \<and> (\<forall>g. P g \<longrightarrow> sane g)"

lemma stable_submitted: "stable submitted"
  by (auto simp: stable_def submitted_def sane_def upset_def)

lemma stable_pending: "stable pending"
  by (auto simp: stable_def pending_def submitted_def sane_def upset_def)

lemma stable_balanced: "stable balanced"
  by (auto simp: stable_def balanced_def submitted_def sane_def upset_def)

lemma stable_sane: "stable P \<Longrightarrow> P g \<Longrightarrow> sane g"
  by (simp add: stable_def)

lemmas points = stable_submitted stable_pending stable_balanced

lemma keeps_ask:
  assumes "stable P" and "P g" and "plain x" and "\<And>r g. P g \<Longrightarrow> keeps sane Q (c r) g"
  shows "keeps sane Q (Ext x c) g"
  using assms by (auto simp: tallied_plain stable_def)

lemma keeps_now:
  assumes "stable P" and "P g" and "\<And>t g. P g \<Longrightarrow> keeps sane Q (k t) g"
  shows "keeps sane Q (now k) g"
  unfolding now_def by (rule keeps_ask [OF assms(1,2)]) (use assms(3) in \<open>auto simp: plain_def\<close>)

lemma keeps_settled_calm:
  assumes "stable P" and "P g" and "calm p" and "\<And>r g. P g \<Longrightarrow> (kills r \<longrightarrow> ty_upset g) \<Longrightarrow> keeps sane Q (k r) g"
  shows "keeps sane Q (bindp (settle p) k) g"
  unfolding tracks_bindp tracks_settle by (rule keeps_calm [OF assms(3)]) (use assms in \<open>auto simp: stable_def\<close>)

lemma keeps_inside:
  assumes "stable P" and "P g" and "calm p"
    and "\<And>e g. P g \<Longrightarrow> is_exception e \<or> ty_upset g \<Longrightarrow> keeps sane Q (leave e) g" and "\<And>a g. P g \<Longrightarrow> keeps sane Q (k a) g"
  shows "keeps sane Q (inside leave p k) g"
  unfolding inside_def by (rule keeps_settled_calm [OF assms(1-3)]) (use assms(4,5) in \<open>auto split: sum.splits\<close>)

declare tracks.simps(6) [simp del]

definition outcome_post :: "outcome_result option result \<Rightarrow> tally \<Rightarrow> bool" where
  "outcome_post r g \<longleftrightarrow> sane g \<and> ty_acceptance g = 1 \<and> ty_settled g = 0 \<and> (case r of
      Inl e \<Rightarrow> e = out_of_fuel \<or> ty_outcome g = 1
    | Inr None \<Rightarrow> ty_outcome g = 1
    | Inr (Some _) \<Rightarrow> ty_outcome g = 1 \<and> ty_terminal g = ty_accepted g)"

lemma leave_outcome_keeps:
  assumes "submitted g"
    and "case r of Inl e \<Rightarrow> is_exception e \<or> ty_upset g
         | Inr v \<Rightarrow> balanced g \<and> (m_exception m \<noteq> None \<or> dict_get ctx ''outcome'' JNull = JStr ''COMPLETED'' \<or> ty_upset g)"
  shows "keeps sane outcome_post (leave_outcome oc ctx m r) g"
proof -
  let ?P = "\<lambda>g. submitted g \<and> (case r of Inl e \<Rightarrow> is_exception e \<or> ty_upset g
         | Inr v \<Rightarrow> balanced g \<and> (m_exception m \<noteq> None \<or> dict_get ctx ''outcome'' JNull = JStr ''COMPLETED'' \<or> ty_upset g))"
  have st: "stable ?P"
    by (auto simp: stable_def balanced_def submitted_def sane_def upset_def split: sum.splits)
  have fire: "keeps sane outcome_post (tell (Fire ''checkout_to_outcome'' ctx (Some ms)
       (case r of Inl e \<Rightarrow> if is_exception e then Some (exn_msg e) else m_exception m | Inr _ \<Rightarrow> m_exception m) (Some (oc_epoch oc)))
       (case r of Inr v \<Rightarrow> Ret (Some v) | Inl e \<Rightarrow> if is_exception e then Ret None else Raise e)) g" if "?P g" for ms g
    using that
    by (auto simp: tell_def tracks.simps(6) tallied_def counted_def upset_def outcome_post_def submitted_def sane_def balanced_def split: sum.splits)
  show ?thesis
    unfolding leave_outcome_def Let_def using assms
    by (auto split: option.splits intro!: keeps_now [OF st] fire)
qed

lemma leave_outcome_raised:
  "submitted g \<Longrightarrow> is_exception e \<or> ty_upset g \<Longrightarrow> keeps sane outcome_post (leave_outcome oc ctx m (Inl e)) g"
  by (rule leave_outcome_keeps) simp_all

lemma leave_outcome_returned:
  "balanced g \<Longrightarrow> m_exception m \<noteq> None \<or> dict_get ctx ''outcome'' JNull = JStr ''COMPLETED'' \<or> ty_upset g \<Longrightarrow>
     keeps sane outcome_post (leave_outcome oc ctx m (Inr v)) g"
  by (rule leave_outcome_keeps) (simp_all add: balanced_def)

lemma balanced_submitted: "balanced g \<Longrightarrow> submitted g"
  by (simp add: balanced_def)

lemma pending_submitted: "pending g \<Longrightarrow> submitted g"
  by (simp add: pending_def)

lemma record_terminal_keeps:
  assumes "pending g" and "\<And>g. balanced g \<Longrightarrow> keeps sane outcome_post k g"
  shows "keeps sane outcome_post (record_terminal oc out ctx m k) g"
proof -
  have "keeps sane outcome_post (inside (\<lambda>e. leave_outcome oc ctx m (Inl e)) (request (Terminal (oc_tx oc) out p)) (\<lambda>_. k)) g"
    if "pending g" for p g
  proof -
    have after: "balanced (tallied (Terminal (oc_tx oc) out p) r g)" "is_exception e \<or> ty_upset (tallied (Terminal (oc_tx oc) out p) (Inl e) g)" for r e
      using that by (auto simp: tallied_def counted_def upset_def pending_def balanced_def submitted_def sane_def)
    show ?thesis
      unfolding tracks_inside request_def tracks.simps(6) tracks_lift
      using after by (auto split: sum.splits intro!: leave_outcome_raised assms(2) balanced_submitted stable_sane [OF stable_balanced])
  qed
  then show ?thesis
    unfolding record_terminal_def by (intro keeps_ask [OF stable_pending assms(1)]) (simp_all add: plain_def)
qed

lemma is_exception_latency: "received_latency_ms a b = Inl e \<Longrightarrow> is_exception e"
  by (auto simp: received_latency_ms_def is_exception_def split: if_splits)

lemma fail_outcome_keeps:
  assumes "pending g"
  shows "keeps sane outcome_post (fail_outcome oc loc f ctx m) g"
proof -
  have "is_exception e" if "(case bf_monotonic f of None \<Rightarrow> Inr (m_time m)
      | Some t \<Rightarrow> rbind (received_latency_ms (oc_started oc) t) (\<lambda>ms. Inr (Some ms))) = Inl e" for e
    using that by (auto simp: rbind_eq_Inl is_exception_latency split: option.splits)
  then show ?thesis
    unfolding fail_outcome_def Let_def
    by (auto split: sum.split intro!: leave_outcome_raised leave_outcome_returned record_terminal_keeps [OF assms] pending_submitted [OF assms])
qed

lemma receipt_context_other:
  "k \<noteq> prefix @ ''_received_at'' \<Longrightarrow> k \<noteq> prefix @ ''_received_epoch'' \<Longrightarrow> k \<noteq> prefix @ ''_event_id'' \<Longrightarrow>
     dict_get (receipt_context utc prefix epoch i ctx) k d = dict_get ctx k d"
  by (simp add: receipt_context_def Let_def split: option.splits)

lemma decided_keeps:
  assumes "pending g"
  shows "keeps sane outcome_post (decided oc loc ev status oid ctx m) g"
proof (cases "received_latency_ms (oc_started oc) (ev_monotonic ev)")
  case (Inl e)
  then show ?thesis
    using leave_outcome_raised [OF pending_submitted [OF assms]] by (simp add: decided_def is_exception_latency)
next
  case (Inr ms)
  show ?thesis
    unfolding decided_def Let_def Inr sum.case
  proof (rule record_terminal_keeps [OF assms], cases "status = ''COMPLETED''", goal_cases)
    case (1 g)
    then show ?case by (auto intro!: leave_outcome_returned simp: receipt_context_other outcome_fields_def)
  next
    case (2 g)
    then show ?case
      by (auto intro!: keeps_inside [OF stable_balanced] leave_outcome_returned leave_outcome_raised calm_request
          simp: plain_def balanced_submitted)
  qed
qed

lemma outcome_timeout_keeps:
  assumes "pending g"
  shows "keeps sane outcome_post (outcome_timeout oc loc per_order stream ctx m) g"
  unfolding outcome_timeout_def Let_def
  by (rule keeps_inside [OF stable_pending assms])
    (auto intro!: calm_request leave_outcome_raised leave_outcome_returned keeps_ask [OF stable_pending] record_terminal_keeps
      simp: plain_def pending_submitted)

lemma reconnect_keeps:
  assumes "stable P" and "P g" and "\<And>e g. P g \<Longrightarrow> is_exception e \<or> ty_upset g \<Longrightarrow> keeps sane Q (leave e) g"
    and "\<And>g. P g \<Longrightarrow> keeps sane Q k g"
  shows "keeps sane Q (reconnect_pause leave n retry_after deadline k) g"
  unfolding reconnect_pause_def sse_reconnect_delay_def Let_def
  by (intro keeps_ask [OF assms(1,2)] keeps_now [OF assms(1)] keeps_inside [OF assms(1)] calm_request assms(3,4)) (simp_all add: plain_def)

lemma outcome_event_keeps:
  assumes again: "\<And>g. pending g \<Longrightarrow> keeps sane outcome_post again g" and continue: "\<And>g. pending g \<Longrightarrow> keeps sane outcome_post continue g"
    and g: "pending g" and r: "kills r \<longrightarrow> ty_upset g"
  shows "keeps sane outcome_post (outcome_event oc loc per_order ctx m again continue r) g"
proof -
  let ?leave = "\<lambda>e. leave_outcome oc ctx m (Inl e)"
  have leave: "keeps sane outcome_post (?leave e) g" if "pending g" "is_exception e \<or> ty_upset g" for e g
    using that by (intro leave_outcome_raised pending_submitted)
  have close: "keeps sane outcome_post (inside ?leave (request CloseStream) (\<lambda>_. k)) g"
    if "pending g" "\<And>g. pending g \<Longrightarrow> keeps sane outcome_post k g" for k g
    by (rule keeps_inside [OF stable_pending that(1) calm_request]) (use leave that(2) in \<open>auto simp: plain_def\<close>)
  have protocol: "keeps sane outcome_post (now (\<lambda>t. Ext EpochNow (\<lambda>s. inside ?leave (request CloseStream) (\<lambda>_.
      fail_outcome oc loc (f t s) ctx m)))) g" for f
    by (rule keeps_now [OF stable_pending g], rule keeps_ask [OF stable_pending], assumption)
      (simp_all add: plain_def close fail_outcome_keeps)
  show ?thesis
  proof (cases r)
    case (Inl e)
    then show ?thesis
      using r leave [OF g, of e]
      by (auto simp: outcome_event_def Let_def protocol outcome_timeout_keeps [OF g] close [OF g again])
  next
    case (Inr ev)
    then show ?thesis
      by (simp add: outcome_event_def Let_def decided_keeps [OF g] continue [OF g] close [OF g fail_outcome_keeps])
  qed
qed

lemma outcome_loop_keeps:
  "pending g \<Longrightarrow> keeps sane outcome_post (outcome_loop polls oc loc per_order deadline ctx m stream attempt) g"
proof (induction polls arbitrary: stream attempt g)
  case 0
  then show ?case by (simp add: outcome_post_def pending_def submitted_def)
next
  case (Suc polls)
  let ?leave = "\<lambda>e. leave_outcome oc ctx m (Inl e)"
  let ?again = "\<lambda>retry_after. reconnect_pause ?leave attempt retry_after deadline
      (outcome_loop polls oc loc per_order deadline ctx m False (Suc attempt))"
  have leave: "keeps sane outcome_post (?leave e) g" if "pending g" "is_exception e \<or> ty_upset g" for e g
    using that by (intro leave_outcome_raised pending_submitted)
  have again: "keeps sane outcome_post (?again retry_after) g" if "pending g" for retry_after g
    by (rule reconnect_keeps [OF stable_pending that leave]) (auto intro: Suc.IH)
  have receive: "keeps sane outcome_post (bindp (settle (next_order_event_before deadline))
      (outcome_event oc loc per_order ctx m (?again None) (outcome_loop polls oc loc per_order deadline ctx m True 0))) g"
    if "pending g" for g
    by (rule keeps_settled_calm [OF stable_pending that calm_next_event]) (simp add: outcome_event_keeps again Suc.IH)
  show ?case
    unfolding outcome_loop.simps Let_def
    by (rule keeps_now [OF stable_pending Suc.prems])
      (auto intro!: keeps_inside [OF stable_pending _ calm_open_stream] leave receive again outcome_timeout_keeps fail_outcome_keeps
        split: option.split)
qed

lemma follow_order_keeps:
  assumes "pending g"
  shows "keeps sane outcome_post (follow_order polls oc location ctx m) g"
proof (cases "order_events_url location")
  case (Inl e)
  then have "is_exception e" by (auto simp: order_events_url_def is_exception_def Let_def split: if_splits prod.splits)
  then show ?thesis
    using assms leave_outcome_raised [OF pending_submitted [OF assms], of e]
    by (auto simp: follow_order_def Inl Let_def intro!: record_terminal_keeps leave_outcome_returned)
next
  case (Inr loc)
  then show ?thesis
    by (auto simp: follow_order_def plain_def Let_def intro!: keeps_ask [OF stable_pending assms] outcome_loop_keeps)
qed

text \<open>The submission leaves the order accepted and pending, or not accepted.\<close>

definition unsubmitted :: "tally \<Rightarrow> bool" where
  "unsubmitted g \<longleftrightarrow> sane g \<and> ty_acceptance g = 0 \<and> ty_accepted g = 0 \<and> \<not> ty_false g"

definition accepting :: "tally \<Rightarrow> bool" where
  "accepting g \<longleftrightarrow> sane g \<and> ty_acceptance g = 0 \<and> ty_accepted g = 1 \<and> ty_terminal g = 0 \<and> \<not> ty_false g"

definition acceptance_post :: "acceptance result \<Rightarrow> tally \<Rightarrow> bool" where
  "acceptance_post r g \<longleftrightarrow> (case r of
      Inl e \<Rightarrow> False
    | Inr a \<Rightarrow>
        (case ac_raised a of None \<Rightarrow> True | Some e \<Rightarrow> ty_upset g) \<and>
        (if ac_location a \<noteq> None \<and> ac_failure a = None then pending g
         else balanced g \<and> (ac_failure a \<noteq> None \<or> ac_raised a \<noteq> None)))"

lemma stable_unsubmitted: "stable unsubmitted"
  by (auto simp: stable_def unsubmitted_def sane_def upset_def)

lemma stable_accepting: "stable accepting"
  by (auto simp: stable_def accepting_def sane_def upset_def)

lemma leave_acceptance_keeps:
  assumes "if ac_location a \<noteq> None \<and> ac_failure a = None then accepting g else unsubmitted g \<and> (ac_failure a \<noteq> None \<or> ac_raised a \<noteq> None)"
    and "case ac_raised a of None \<Rightarrow> True | Some e \<Rightarrow> ty_upset g"
  shows "keeps sane acceptance_post (leave_acceptance c a) g"
  using assms
  by (auto simp: leave_acceptance_def tell_def tracks.simps(6) tallied_def counted_def upset_def acceptance_post_def accepting_def
      unsubmitted_def pending_def balanced_def submitted_def sane_def split: if_splits option.splits)

lemma keeps_tell:
  assumes "stable P" and "P g" and "plain x" and "\<And>g. P g \<Longrightarrow> keeps sane Q k g"
  shows "keeps sane Q (tell x k) g"
  unfolding tell_def using assms(4) by (rule keeps_ask [OF assms(1-3)])

lemma submit_order_keeps:
  assumes "unsubmitted g"
  shows "keeps sane acceptance_post (submit_order sh tx data ctx) g"
proof -
  have post: "keeps sane acceptance_post (inside raised (bindp (request (HttpPost url data h)) (\<lambda>response. lift (read_submission response) Ret)) k) g"
    if "unsubmitted g" and raised: "\<And>e g. unsubmitted g \<Longrightarrow> ty_upset g \<Longrightarrow> keeps sane acceptance_post (raised e) g"
      and k: "\<And>v g. unsubmitted g \<Longrightarrow> keeps sane acceptance_post (k v) g" for url h raised k g
  proof -
    let ?x = "HttpPost url data h"
    have u: "unsubmitted (tallied ?x r g)" for r
      using that(1) stable_unsubmitted by (auto simp: tallied_def counted_def stable_def)
    have up: "ty_upset (tallied ?x r g)" if "rbind r read_submission = Inl e" for r e
      using that by (simp add: tallied_def raises_def)
    have "keeps sane (\<lambda>r g. case r of Inl e \<Rightarrow> keeps sane acceptance_post (raised e) g | Inr a \<Rightarrow> keeps sane acceptance_post (k a) g)
        (lift (rbind r read_submission) Ret) (tallied ?x r g)" for r
      using u up [of r] raised k by (cases "rbind r read_submission") auto
    moreover have "bindp (request ?x) (\<lambda>response. lift (read_submission response) Ret) = Ext ?x (\<lambda>r. lift (rbind r read_submission) Ret)"
      by (auto simp: request_def lift_def split: sum.splits)
    ultimately show ?thesis
      unfolding tracks_inside using stable_sane [OF stable_unsubmitted u] by (simp add: tracks.simps(6))
  qed
  have accept: "keeps sane acceptance_post (inside (\<lambda>e. leave_acceptance acc (a (Some e))) (request (Accepted tx ph)) (\<lambda>_. leave_acceptance acc (a None))) g"
    if "unsubmitted g" "\<And>e. ac_location (a e) \<noteq> None \<and> ac_failure (a e) = None \<and> ac_raised (a e) = e" for a acc ph g
  proof -
    let ?x = "Accepted tx ph"
    have acc: "accepting (tallied ?x r g)" "ty_upset (tallied ?x (Inl e) g)" for r e
      using that(1) by (auto simp: tallied_def counted_def upset_def raises_def unsubmitted_def accepting_def sane_def)
    have "keeps sane acceptance_post (leave_acceptance acc (a (Some e))) (tallied ?x (Inl e) g)"
      "keeps sane acceptance_post (leave_acceptance acc (a None)) (tallied ?x (Inr v) g)" for e v
      using acc that(2) by (auto intro!: leave_acceptance_keeps)
    then show ?thesis
      unfolding tracks_inside request_def tracks.simps(6) tracks_lift
      using stable_sane [OF stable_accepting acc(1)] by (auto split: sum.splits)
  qed
  show ?thesis
    unfolding submit_order_def request_headers_def Let_def if_True
    by (rule keeps_ask [OF stable_unsubmitted assms])
      (auto simp: plain_def intro!: post accept leave_acceptance_keeps keeps_tell [OF stable_unsubmitted])
qed

lemma after_submission_keeps:
  assumes post: "acceptance_post (Inr a) g"
  shows "keeps sane outcome_post (after_submission polls oc a) g"
proof -
  have "submitted g" using post by (auto simp: acceptance_post_def balanced_def pending_def split: if_splits)
  then have raised: "keeps sane outcome_post (leave_outcome oc ctx m (Inl e)) g" if "ac_raised a \<noteq> None" for e ctx m
    using that post by (intro leave_outcome_raised) (auto simp: acceptance_post_def split: option.splits)
  show ?thesis
    using post raised unfolding after_submission_def
    by (cases "ac_location a"; cases "ac_failure a")
      (auto simp: Let_def acceptance_post_def follow_order_keeps split: option.splits if_splits intro!: leave_outcome_returned)
qed

lemma checkout_to_outcome_keeps:
  assumes "unsubmitted g"
  shows "keeps sane outcome_post (checkout_to_outcome polls sh data ctx started epoch) g"
proof -
  have "keeps sane outcome_post (bindp (submit_order sh tx data c) (after_submission polls oc)) g" if "unsubmitted g" for tx c oc g
    unfolding tracks_bindp
    by (rule tracks_mono [OF submit_order_keeps [OF that]])
      (auto simp: after_submission_keeps acceptance_post_def [of "Inl _"] split: sum.splits)
  then show ?thesis
    unfolding checkout_to_outcome_def Let_def
    by (intro keeps_ask [OF stable_unsubmitted assms]) (simp_all add: plain_def)
qed

section \<open>From the outcome to the settlement\<close>

definition recorded :: "tally \<Rightarrow> bool" where
  "recorded g \<longleftrightarrow> sane g \<and> ty_acceptance g = 1 \<and> ty_outcome g = 1 \<and> ty_settled g = 0 \<and> ty_terminal g = ty_accepted g"

definition checkout_post :: "unit result \<Rightarrow> tally \<Rightarrow> bool" where
  "checkout_post r g \<longleftrightarrow> sane g \<and> ty_acceptance g = 1 \<and> (case r of
      Inl e \<Rightarrow> e = out_of_fuel \<or> ty_outcome g = 1
    | Inr _ \<Rightarrow> ty_outcome g = 1 \<and> ty_settled g = 1 \<and> ty_terminal g = ty_accepted g)"

lemma stable_recorded: "stable recorded"
  by (auto simp: stable_def recorded_def sane_def upset_def)

lemma recorded_raised: "recorded g \<Longrightarrow> checkout_post (Inl e) g"
  by (simp add: recorded_def checkout_post_def)

lemma fire_settlement_keeps:
  assumes "recorded g" and k: "\<And>g. checkout_post (Inr ()) g \<Longrightarrow> keeps sane checkout_post k g"
  shows "keeps sane checkout_post (fire_settlement oc ctx error k) g"
proof -
  have go: "keeps sane checkout_post (lift (received_latency_ms (oc_started oc) t) (\<lambda>ms.
      tell (Fire ''checkout_to_settled'' ctx (Some ms) (map_option failure_str error) (Some (oc_epoch oc))) k)) g" if "recorded g" for t g
  proof -
    have "checkout_post (Inr ()) (tallied (Fire ''checkout_to_settled'' ctx (Some ms) f s) r g)" for ms f s r
      using that by (auto simp: tallied_def counted_def upset_def recorded_def checkout_post_def sane_def)
    moreover from this have "sane (tallied (Fire ''checkout_to_settled'' ctx (Some ms) f s) r g)" for ms f s r
      by (simp add: checkout_post_def)
    ultimately show ?thesis
      using recorded_raised [OF that] k by (auto simp: tracks_lift tell_def tracks.simps(6) split: sum.splits)
  qed
  show ?thesis
    unfolding fire_settlement_def Let_def
    using assms(1) by (auto intro!: go keeps_now [OF stable_recorded assms(1)] split: option.splits)
qed

lemma leave_settlement_keeps:
  assumes "recorded g"
  shows "keeps sane checkout_post (leave_settlement oc stream ctx r) g"
  unfolding leave_settlement_def
  by (rule keeps_settled_calm [OF stable_recorded assms])
    (auto simp: Let_def plain_def checkout_post_def split: sum.splits intro!: calm_request fire_settlement_keeps)

lemma settlement_event_keeps:
  assumes again: "\<And>g. recorded g \<Longrightarrow> keeps sane checkout_post again g" and late: "\<And>g. recorded g \<Longrightarrow> keeps sane checkout_post late g"
    and continue: "\<And>ev g. recorded g \<Longrightarrow> keeps sane checkout_post (continue ev) g" and g: "recorded g"
  shows "keeps sane checkout_post (settlement_event oc ctx again late continue r) g"
proof -
  have "keeps sane checkout_post (now (\<lambda>t. Ext EpochNow (\<lambda>s. leave_settlement oc True (c t s) (f t s)))) g" for c f
    by (rule keeps_now [OF stable_recorded g], rule keeps_ask [OF stable_recorded], assumption)
      (simp_all add: plain_def leave_settlement_keeps)
  moreover have "keeps sane checkout_post (inside (\<lambda>e. leave_settlement oc True ctx (Inl e)) (request CloseStream) (\<lambda>_. again)) g"
    by (rule keeps_inside [OF stable_recorded g calm_request]) (simp_all add: plain_def leave_settlement_keeps again)
  ultimately show ?thesis
    using late [OF g] continue [OF g] leave_settlement_keeps [OF g] by (auto simp: settlement_event_def Let_def split: sum.split)
qed

lemma settlement_loop_keeps:
  "recorded g \<Longrightarrow> keeps sane checkout_post (settlement_loop polls oc loc per_order deadline ctx ev stream attempt) g"
proof (induction polls arbitrary: ctx ev stream attempt g)
  case 0
  then show ?case by (simp add: recorded_raised)
next
  case (Suc polls)
  define ctx1 where "ctx1 = snd (record_settlement_event (sh_utc (oc_shop oc)) ev ctx)"
  let ?again = "\<lambda>retry_after. reconnect_pause (\<lambda>e. leave_settlement oc False ctx1 (Inl e)) attempt retry_after deadline
      (settlement_loop polls oc loc per_order deadline ctx1 ev False (Suc attempt))"
  have again: "keeps sane checkout_post (?again retry_after) g" if "recorded g" for retry_after g
    by (rule reconnect_keeps [OF stable_recorded that leave_settlement_keeps]) (auto intro: Suc.IH)
  have receive: "keeps sane checkout_post (bindp (settle (next_order_event_before deadline))
      (settlement_event oc ctx1 (?again None) (settlement_loop polls oc loc per_order deadline ctx1 ev True attempt)
        (\<lambda>ev1. settlement_loop polls oc loc per_order deadline ctx1 ev1 True 0))) g" if "recorded g" for g
    by (rule keeps_settled_calm [OF stable_recorded that calm_next_event]) (simp add: settlement_event_keeps again Suc.IH)
  have timeout: "keeps sane checkout_post (settlement_timeout oc per_order stream ctx1) g" if "recorded g" for stream g
    unfolding settlement_timeout_def Let_def
    by (rule keeps_ask [OF stable_recorded that]) (simp_all add: plain_def leave_settlement_keeps)
  show ?case
    unfolding settlement_loop.simps Let_def ctx1_def [symmetric]
    using Suc.prems
    by (auto intro!: leave_settlement_keeps keeps_now [OF stable_recorded] keeps_inside [OF stable_recorded _ calm_open_stream]
        receive again timeout split: option.split)
qed

section \<open>The checkout\<close>

lemma finish_checkout_keeps:
  assumes "outcome_post r g"
  shows "case r of Inl e \<Rightarrow> checkout_post (Inl e) g | Inr x \<Rightarrow> keeps sane checkout_post (finish_checkout polls sh base started epoch x) g"
proof (cases r)
  case (Inl e)
  then show ?thesis using assms by (simp add: outcome_post_def checkout_post_def)
next
  case (Inr x)
  show ?thesis
  proof (cases x)
    case None
    then show ?thesis using assms Inr by (simp add: finish_checkout_def outcome_post_def checkout_post_def)
  next
    case (Some v)
    obtain c order loc stream error where v: "v = (c, order, loc, stream, error)" by (cases v)
    have g: "recorded g" using assms by (simp add: Inr Some outcome_post_def recorded_def)
    have track: "keeps sane checkout_post (track_settlement polls oc l ev s ctx) g" for oc l ev s ctx
      unfolding track_settlement_def Let_def
      by (rule keeps_ask [OF stable_recorded g]) (simp_all add: plain_def settlement_loop_keeps)
    have fired: "keeps sane checkout_post (bindp (if stream then request CloseStream else Ret JNull) (\<lambda>_. fire_settlement oc ctx f (Ret ()))) g" for oc ctx f
      unfolding tracks_bindp
      by (rule keeps_calm) (use g stable_recorded in \<open>auto simp: plain_def stable_def split: sum.splits
            intro!: calm_request recorded_raised fire_settlement_keeps\<close>)
    show ?thesis
      using track fired by (auto simp: Inr Some v finish_checkout_def Let_def split: option.split)
  qed
qed

lemma checkout_keeps: "unsubmitted g \<Longrightarrow> keeps sane checkout_post (nats_checkout polls sh su) g"
proof -
  have "keeps sane checkout_post (bindp (checkout_to_outcome polls sh data base started epoch)
      (finish_checkout polls sh base started epoch)) g" if "unsubmitted g" for data base started epoch g
    unfolding tracks_bindp by (rule tracks_mono [OF checkout_to_outcome_keeps [OF that] finish_checkout_keeps])
  then show "unsubmitted g \<Longrightarrow> ?thesis"
    unfolding nats_checkout_def base_context_def checkout_data_def Let_def
    by (intro keeps_ask [OF stable_unsubmitted] keeps_now [OF stable_unsubmitted]) (simp_all add: plain_def)
qed

lemma unsubmitted_nothing: "unsubmitted nothing"
  by (simp add: unsubmitted_def nothing_def sane_def)

lemmas nats_checkout_keeps = checkout_keeps [OF unsubmitted_nothing]


definition demo_shop :: shop where
  "demo_shop = \<lparr>sh_config = \<lparr>application_type = ''NATS'', target_url = ''http://shop'', metrics_url = None, workload = ''open'',
     warmup_seconds = 0, duration_seconds = 60, drain_seconds = 10, users = 1, spawn_rate = Fin 1, arrival_rate = Fin 1,
     saturation_start_rate = Fin 1, saturation_max_rate = Fin 1, saturation_step_seconds = 10, outcome_timeout_seconds = Fin 30,
     settlement_timeout_seconds = Fin 60, resource_sample_interval_seconds = Fin 5, seed = 0, collect_resources = False,
     collect_nats_metrics = False\<rparr>, sh_epoch = Fin 1000, sh_utc = (\<lambda>_. ''t''), sh_suppress = True, sh_cookie = None\<rparr>"

definition demo_submission :: submission where
  "demo_submission = \<lparr>su_scheduled = None, su_delay = None, su_rung = None, su_rate = None\<rparr>"

definition demo_response :: "int \<Rightarrow> dict \<Rightarrow> json" where
  "demo_response status headers = JObj [(''status_code'', JInt status), (''headers'', JObj headers)]"

definition demo_order :: "int \<Rightarrow> dict \<Rightarrow> json" where
  "demo_order t order = JObj [(''order'', JObj ([(''order_id'', JStr ''7'')] @ order)), (''event_id'', JNull),
     (''received_monotonic'', JInt t), (''received_epoch'', JInt (t + 900))]"

text \<open>The answers of a run in which the order is accepted, completed and settled.\<close>

definition demo_answers :: "json result list" where
  "demo_answers = map Inr (
     [JStr ''steady'', JInt 2025, JStr ''u'', JInt 1, JInt 2027, JInt 123, JInt 100, JInt 1000, JStr ''tx'', JStr ''key'',
      demo_response 202 [(''Location'', JStr ''/orders/7''), (''X-Order-ID'', JStr ''7'')], JNull, JNull, JNull,
      JInt 500, JInt 100, demo_response 200 [(''Content-Type'', JStr ''text/event-stream'')], JInt 101, JInt 1001, JNull, JInt 101,
      demo_order 102 [(''status'', JStr ''COMPLETED''), (''notification_status'', JStr ''SENT''), (''cart_clear_status'', JStr ''SUCCEEDED'')],
      JStr ''steady'', JNull, JNull, JInt 500, JNull, JNull])"

definition demo_run :: "shop_eff trail \<times> (shop_eff, unit) prog" where
  "demo_run = run_answers demo_answers [] (nats_checkout 1 demo_shop demo_submission)"

lemma demo_run_executes: "executes (nats_checkout 1 demo_shop demo_submission) (fst demo_run) (snd demo_run)"
  unfolding demo_run_def by (intro run_answers_executes executes_start)

lemma demo_run_ends: "result_of (snd demo_run) = Some (Inr ())"
  by code_simp


section \<open>A killed checkout\<close>

definition killed :: exn where
  "killed = Exn GreenletExit []"

definition killed_answers :: "json result list" where
  "killed_answers = map Inr (replicate 10 JNull) @ [Inl killed] @ map Inr (replicate 3 JNull)"

lemmas submission_defs = killed_answers_def nats_checkout_def base_context_def checkout_data_def now_def checkout_to_outcome_def
  submit_order_def request_headers_def inside_def settle_def request_def leave_acceptance_def tell_def after_submission_def
  leave_outcome_def killed_def is_exception_def

text \<open>C40. The exception of the previous property is real: a checkout that is killed while its submission is under way (as
  both drivers do with the checkouts left when the drain deadline has passed) records its outcome as a success, with
  an outcome that is not known. \<open>measure_business\<close> notes an \<open>Exception\<close> in the record; \<open>GreenletExit\<close> is not one, and the \<open>finally\<close>
  part writes the record without it. This holds for every configuration.\<close>

theorem killed_checkout_is_recorded_as_success:
  "\<exists>trail q ctx ms start r.
     executes (nats_checkout polls sh su) trail q \<and> result_of q = Some (Inl killed) \<and>
     (Fire ''checkout_to_outcome'' ctx ms None start, r) \<in> set trail \<and> dict_get ctx ''outcome'' JNull = JStr ''UNKNOWN''"
proof -
  let ?run = "run_answers killed_answers [] (nats_checkout polls sh su)"
  have "executes (nats_checkout polls sh su) (fst ?run) (snd ?run)" by (intro run_answers_executes executes_start)
  moreover have "result_of (snd ?run) = Some (Inl killed)"
    by (simp add: submission_defs Let_def numeral_eq_Suc split: option.splits)
  moreover have "\<exists>ctx ms start r. (Fire ''checkout_to_outcome'' ctx ms None start, r) \<in> set (fst ?run) \<and>
      dict_get ctx ''outcome'' JNull = JStr ''UNKNOWN''"
    by (simp add: submission_defs Let_def numeral_eq_Suc dict_get_def map_of_dict_set split: option.splits)
  ultimately show ?thesis by blast
qed

section \<open>Many checkouts and one recorder\<close>

text \<open>What a request of a checkout does to the recorder: \<open>on_request\<close> passes every business record on to it. The clocks
  (epoch, monotonic and the response time that Locust measures itself) are read at the position in the log.\<close>

type_synonym clocks = "nat \<Rightarrow> pyfloat \<times> pyfloat \<times> pyfloat"

definition recorder_step :: "benchmark_config \<Rightarrow> runtime \<Rightarrow> pyfloat \<times> pyfloat \<times> pyfloat \<Rightarrow> shop_eff \<Rightarrow> recorder \<Rightarrow> recorder" where
  "recorder_step c rt moment x rc =
     (let (epoch, monotonic, lapse) = moment in case x of
        Accepted tx phase \<Rightarrow> recorder_accepted rt epoch monotonic tx phase rc
      | Terminal tx out phase \<Rightarrow> recorder_terminal rt epoch monotonic tx out phase rc
      | Fire name ctx ms exception start \<Rightarrow>
          recorder_request c rt epoch epoch ''BUSINESS'' name (case ms of None \<Rightarrow> lapse | Some t \<Rightarrow> t) exception start (Some ctx) rc
      | _ \<Rightarrow> rc)"

type_synonym shop_log = "(nat \<times> shop_eff \<times> json result) list"

definition recorder_log :: "benchmark_config \<Rightarrow> runtime \<Rightarrow> clocks \<Rightarrow> shop_log \<Rightarrow> recorder \<Rightarrow> recorder" where
  "recorder_log c rt clock entries rc = fold (\<lambda>(n, (i, x, r)). recorder_step c rt (clock n) x) (zip [0..<length entries] entries) rc"

definition trail_of :: "nat \<Rightarrow> shop_log \<Rightarrow> shop_eff trail" where
  "trail_of i entries = map snd (filter (\<lambda>e. fst e = i) entries)"

definition in_flight :: "shop_eff trail \<Rightarrow> int" where
  "in_flight trail = (let g = observed tallied nothing trail in int (ty_accepted g) - int (ty_terminal g))"

lemma recorder_log_snoc:
  "recorder_log c rt clock (entries @ [(i, x, r)]) rc = recorder_step c rt (clock (length entries)) x (recorder_log c rt clock entries rc)"
  by (simp add: recorder_log_def)

lemma in_flight_nonneg:
  assumes "executes (nats_checkout polls sh su) trail q"
  shows "0 \<le> in_flight trail"
proof -
  have "sane nothing" by (simp add: sane_def nothing_def)
  from tracks_executes [OF assms nats_checkout_keeps, OF this] show ?thesis by (simp add: in_flight_def Let_def sane_def)
qed

definition flight_change :: "shop_eff \<Rightarrow> int" where
  "flight_change x = (case x of Accepted _ _ \<Rightarrow> 1 | Terminal _ _ _ \<Rightarrow> - 1 | _ \<Rightarrow> 0)"

lemma in_flight_snoc: "in_flight (trail @ [(x, r)]) = in_flight trail + flight_change x"
  by (cases x) (auto simp: in_flight_def flight_change_def Let_def tallied_def counted_def upset_def)

lemma recorder_step_outstanding:
  "0 \<le> rc_outstanding rc + flight_change x \<Longrightarrow> rc_outstanding (recorder_step c rt t x rc) = rc_outstanding rc + flight_change x"
  by (cases x) (auto simp: recorder_step_def flight_change_def split: prod.splits)

lemma outstanding_in_flight:
  assumes "\<And>i. i < n \<Longrightarrow> \<exists>q. executes (nats_checkout polls (sh i) (su i)) (trail_of i entries) q" and "list_all (\<lambda>e. fst e < n) entries"
  shows "rc_outstanding (recorder_log c rt clock entries new_recorder) = (\<Sum>i<n. in_flight (trail_of i entries))"
  using assms
proof (induction entries rule: rev_induct)
  case Nil
  then show ?case by (simp add: recorder_log_def new_recorder_def trail_of_def in_flight_def nothing_def)
next
  case (snoc e entries)
  obtain k x r where e: "e = (k, x, r)" by (cases e)
  have k: "k < n" using snoc.prems(2) by (simp add: e)
  have trail: "trail_of i (entries @ [e]) = (if i = k then trail_of i entries @ [(x, r)] else trail_of i entries)" for i
    by (simp add: trail_of_def e)
  have run: "\<exists>q. executes (nats_checkout polls (sh i) (su i)) (trail_of i entries) q" if "i < n" for i
    using snoc.prems(1) [OF that] executes_prefix by (auto simp: trail split: if_splits)
  have IH: "rc_outstanding (recorder_log c rt clock entries new_recorder) = (\<Sum>i<n. in_flight (trail_of i entries))"
    using run snoc.prems(2) by (intro snoc.IH) auto
  have "(\<Sum>i<n. in_flight (trail_of i (entries @ [e]))) = (\<Sum>i<n. in_flight (trail_of i entries) + (if i = k then flight_change x else 0))"
    by (rule sum.cong) (simp_all add: trail in_flight_snoc)
  also have "\<dots> = (\<Sum>i<n. in_flight (trail_of i entries)) + flight_change x"
    using k by (simp add: sum.distrib)
  finally have sum: "(\<Sum>i<n. in_flight (trail_of i (entries @ [e]))) = rc_outstanding (recorder_log c rt clock entries new_recorder) + flight_change x"
    by (simp add: IH)
  moreover have "0 \<le> (\<Sum>i<n. in_flight (trail_of i (entries @ [e])))"
    using snoc.prems(1) in_flight_nonneg by (intro sum_nonneg) blast
  ultimately show ?case
    using recorder_step_outstanding by (simp add: e recorder_log_snoc)
qed


text \<open>Two checkouts, the second killed after its order was accepted.\<close>

definition demo_half :: "shop_eff trail \<times> (shop_eff, unit) prog" where
  "demo_half = run_answers (take 15 demo_answers @ [Inr (JInt 100), Inl killed]) [] (nats_checkout 1 demo_shop demo_submission)"

definition demo_entries :: shop_log where
  "demo_entries = map (Pair 0) (take 20 (fst demo_run)) @ map (Pair 1) (fst demo_half) @ map (Pair 0) (drop 20 (fst demo_run))"


end
