(* ===== verification/Checkout_Liveness.thy ===== *)
theory Checkout_Liveness
  imports Checkout_Ends Checkout_Props
begin

text \<open>That a checkout ends before its deadlines, with a run that does.\<close>

definition watch_from :: "rat \<Rightarrow> watch" where
  "watch_from t = \<lparr>wa_now = t, wa_events = 0, wa_ok = True\<rparr>"

text \<open>C31. A checkout ends by itself. Let the clock be monotone, a pause and a read of the event stream that reaches its deadline take the
  time they were given, and at most \<open>n\<close> events be delivered. Then no execution of a checkout, whatever the storefront answers,
  however often the stream breaks off and whatever is raised, runs through more than \<open>n\<close> plus the longer of the two timeouts in
  seconds iterations of its loops: it ends with a result or with an exception of the code.\<close>

theorem checkout_ends_before_its_deadline:
  assumes "executes (nats_checkout polls sh su) trail q"
    and "outcome_timeout_seconds (sh_config sh) = Fin a" and "settlement_timeout_seconds (sh_config sh) = Fin b"
    and "n + nat \<lceil>max a b\<rceil> < polls" and "fair n (observed watched (watch_from t0) trail)"
  shows "result_of q \<noteq> Some (Inl out_of_fuel)"
proof -
  have "stops n (nats_checkout polls sh su) (watch_from t0)"
    using nats_checkout_done [OF assms(2-4), of "watch_from t0" su] by (simp add: done_after_def)
  note ended = tracks_executes [OF assms(1) this TrueI, THEN conjunct2]
  show ?thesis
  proof
    assume "result_of q = Some (Inl out_of_fuel)"
    from tracks_result [OF ended this] assms(5) show False by simp
  qed
qed

section \<open>Witness\<close>

definition ending_run :: "nat \<Rightarrow> shop_eff trail \<times> (shop_eff, unit) prog" where
  "ending_run k = run_answers demo_answers [] (nats_checkout (Suc k) demo_shop demo_submission)"

lemma ending_run_executes: "executes (nats_checkout (Suc k) demo_shop demo_submission) (fst (ending_run k)) (snd (ending_run k))"
  unfolding ending_run_def by (intro run_answers_executes executes_start)

lemma ending_run_fair: "fair 1 (observed watched (watch_from 0) (fst (ending_run k)))"
  by code_simp

lemma ending_run_ends: "result_of (snd (ending_run k)) = Some (Inr ())"
  by code_simp

theorem checkout_ends_before_its_deadline_witness:
  "fair 1 (observed watched (watch_from 0) (fst (ending_run 61))) \<and>
   result_of (snd (ending_run 61)) = Some (Inr ()) \<and> result_of (snd (ending_run 61)) \<noteq> Some (Inl out_of_fuel)"
proof -
  have "outcome_timeout_seconds (sh_config demo_shop) = Fin 30" "settlement_timeout_seconds (sh_config demo_shop) = Fin 60"
    by (simp_all add: demo_shop_def)
  moreover have "1 + nat \<lceil>max 30 60 :: rat\<rceil> < Suc 61" by simp
  ultimately show ?thesis
    using checkout_ends_before_its_deadline [OF ending_run_executes [of 61], of 30 60 1 0] ending_run_fair ending_run_ends by blast
qed

end
