(* ===== verification/Settlement_Props.thy ===== *)
theory Settlement_Props
  imports Checkout
begin

text \<open>
  The context of a settled order keeps the first receipt of each kind, however often its events are delivered: events
  repeat when the stream is reopened, and the loop itself looks at the last event again.
\<close>

definition notified :: "order_event \<Rightarrow> bool" where
  "notified ev \<longleftrightarrow> py_str (dict_get (ev_order ev) ''notification_status'' (JStr [])) \<in> {''SENT'', ''FAILED''}"

definition cleared :: "order_event \<Rightarrow> bool" where
  "cleared ev \<longleftrightarrow> py_str (dict_get (ev_order ev) ''cart_clear_status'' (JStr [])) \<in> {''SUCCEEDED'', ''REJECTED''}"

definition failed :: "order_event \<Rightarrow> bool" where
  "failed ev \<longleftrightarrow> py_str (dict_get (ev_order ev) ''notification_status'' (JStr [])) = ''FAILED'' \<or>
     py_str (dict_get (ev_order ev) ''cart_clear_status'' (JStr [])) = ''REJECTED''"

definition record_events :: "(pyfloat \<Rightarrow> string) \<Rightarrow> order_event list \<Rightarrow> dict \<Rightarrow> dict" where
  "record_events utc evs ctx = fold (\<lambda>ev c. snd (record_settlement_event utc ev c)) evs ctx"

lemma dict_has_set [simp]: "dict_has (dict_set k v d) k' \<longleftrightarrow> k' = k \<or> dict_has d k'"
  by (simp add: dict_has_def map_of_dict_set)

text \<open>A receipt of one kind: whether it is noted, and when.\<close>

definition noted :: "string \<Rightarrow> dict \<Rightarrow> bool" where
  "noted prefix ctx \<longleftrightarrow> dict_has ctx (prefix @ ''_received_at'')"

definition noted_epoch :: "string \<Rightarrow> dict \<Rightarrow> json" where
  "noted_epoch prefix ctx = dict_get ctx (prefix @ ''_received_epoch'') JNull"

lemma suffixes_differ [simp]:
  "q @ ''_received_at'' \<noteq> p @ ''_received_epoch''" "q @ ''_received_at'' \<noteq> p @ ''_event_id''"
  "q @ ''_received_epoch'' \<noteq> p @ ''_received_at''" "q @ ''_received_epoch'' \<noteq> p @ ''_event_id''"
  "q @ ''_received_at'' \<noteq> p @ ''_failure_message''" "q @ ''_received_epoch'' \<noteq> p @ ''_failure_message''"
  by (auto dest: arg_cong [of _ _ last])

lemma noted_set:
  "k \<noteq> q @ ''_received_at'' \<Longrightarrow> noted q (dict_set k v c) \<longleftrightarrow> noted q c"
  "k \<noteq> q @ ''_received_epoch'' \<Longrightarrow> noted_epoch q (dict_set k v c) = noted_epoch q c"
  by (auto simp: noted_def noted_epoch_def)

lemma noted_receipt [simp]:
  "noted q (receipt_context utc p epoch i c) \<longleftrightarrow> q = p \<or> noted q c"
  "noted_epoch q (receipt_context utc p epoch i c) = (if q = p then JFloat (f_round 6 epoch) else noted_epoch q c)"
  by (auto simp: noted_def noted_epoch_def receipt_context_def Let_def split: option.splits)

lemma noted_first_receipt [simp]:
  "noted q (first_receipt utc ev p c) \<longleftrightarrow> q = p \<or> noted q c"
  "noted_epoch q (first_receipt utc ev p c) =
     (if q = p \<and> \<not> noted p c then JFloat (f_round 6 (ev_epoch ev)) else noted_epoch q c)"
  by (auto simp: first_receipt_def noted_def [symmetric])

lemma noted_message [simp]:
  "noted q (dict_set (p @ ''_failure_message'') v c) \<longleftrightarrow> noted q c"
  "noted_epoch q (dict_set (p @ ''_failure_message'') v c) = noted_epoch q c"
  "noted q (dict_set ''failure_message'' v c) \<longleftrightarrow> noted q c"
  "noted_epoch q (dict_set ''failure_message'' v c) = noted_epoch q c"
  by (auto simp: noted_set suffixes_differ [symmetric] dest: arg_cong [of _ _ last])

lemma has_failure: "dict_has c (p @ ''_failure_received_at'') \<longleftrightarrow> noted (p @ ''_failure'') c" "dict_has c ''failure_received_at'' \<longleftrightarrow> noted ''failure'' c"
  by (simp_all add: noted_def)

lemma failure_prefix [simp]: "''failure'' \<noteq> p @ ''_failure''" "p @ ''_failure'' \<noteq> ''failure''"
  by (auto dest: arg_cong [of _ _ length])

lemma noted_first_failure [simp]:
  "noted q (first_failure utc ev p message c) \<longleftrightarrow> noted q c \<or> \<not> noted (p @ ''_failure'') c \<and> (q = p @ ''_failure'' \<or> q = ''failure'')"
  "q \<noteq> p @ ''_failure'' \<Longrightarrow> noted_epoch q (first_failure utc ev p message c) =
     (if q = ''failure'' \<and> \<not> noted (p @ ''_failure'') c \<and> \<not> noted ''failure'' c then JFloat (f_round 6 (ev_epoch ev)) else noted_epoch q c)"
  by (auto simp: first_failure_def Let_def has_failure)

lemmas noted_fields = noted_set [where q = "''notification''"] noted_set [where q = "''cart_clear''"] noted_set [where q = "''failure''"]
  noted_set [where q = "''notification_failure''"] noted_set [where q = "''cart_clear_failure''"]

lemma step_notification:
  "noted ''notification'' (snd (record_settlement_event utc ev ctx)) \<longleftrightarrow> noted ''notification'' ctx \<or> notified ev"
  "noted_epoch ''notification'' (snd (record_settlement_event utc ev ctx)) =
     (if notified ev \<and> \<not> noted ''notification'' ctx then JFloat (f_round 6 (ev_epoch ev)) else noted_epoch ''notification'' ctx)"
  by (simp_all add: record_settlement_event_def Let_def notified_def TERMINAL_NOTIFICATION_STATUSES_def noted_fields)

lemma step_cart:
  "noted ''cart_clear'' (snd (record_settlement_event utc ev ctx)) \<longleftrightarrow> noted ''cart_clear'' ctx \<or> cleared ev"
  "noted_epoch ''cart_clear'' (snd (record_settlement_event utc ev ctx)) =
     (if cleared ev \<and> \<not> noted ''cart_clear'' ctx then JFloat (f_round 6 (ev_epoch ev)) else noted_epoch ''cart_clear'' ctx)"
  by (simp_all add: record_settlement_event_def Let_def cleared_def TERMINAL_CART_CLEAR_STATUSES_def noted_fields)

text \<open>A failure of one kind is noted together with the failure of the order.\<close>

definition failures_noted :: "dict \<Rightarrow> bool" where
  "failures_noted ctx \<longleftrightarrow> (noted ''notification_failure'' ctx \<or> noted ''cart_clear_failure'' ctx \<longrightarrow> noted ''failure'' ctx)"

lemma step_failure:
  assumes "failures_noted ctx"
  shows "noted ''failure'' (snd (record_settlement_event utc ev ctx)) \<longleftrightarrow> noted ''failure'' ctx \<or> failed ev"
    and "noted_epoch ''failure'' (snd (record_settlement_event utc ev ctx)) =
       (if failed ev \<and> \<not> noted ''failure'' ctx then JFloat (f_round 6 (ev_epoch ev)) else noted_epoch ''failure'' ctx)"
    and "failures_noted (snd (record_settlement_event utc ev ctx))"
proof -
  have noted: "\<not> noted ''failure'' ctx \<Longrightarrow> \<not> noted ''notification_failure'' ctx" "\<not> noted ''failure'' ctx \<Longrightarrow> \<not> noted ''cart_clear_failure'' ctx"
    using assms by (auto simp: failures_noted_def)
  let ?n = "py_str (dict_get (ev_order ev) ''notification_status'' (JStr []))"
  let ?c = "py_str (dict_get (ev_order ev) ''cart_clear_status'' (JStr []))"
  note defs = record_settlement_event_def Let_def failed_def noted_fields failures_noted_def
  show "noted ''failure'' (snd (record_settlement_event utc ev ctx)) \<longleftrightarrow> noted ''failure'' ctx \<or> failed ev"
    by (cases "?n = ''FAILED''"; cases "?c = ''REJECTED''"; cases "noted ''failure'' ctx") (use noted in \<open>simp_all add: defs\<close>)
  show "noted_epoch ''failure'' (snd (record_settlement_event utc ev ctx)) =
       (if failed ev \<and> \<not> noted ''failure'' ctx then JFloat (f_round 6 (ev_epoch ev)) else noted_epoch ''failure'' ctx)"
    by (cases "?n = ''FAILED''"; cases "?c = ''REJECTED''"; cases "noted ''failure'' ctx") (use noted in \<open>simp_all add: defs\<close>)
  show "failures_noted (snd (record_settlement_event utc ev ctx))"
    by (cases "?n = ''FAILED''"; cases "?c = ''REJECTED''"; cases "noted ''failure'' ctx") (use noted in \<open>simp_all add: defs\<close>)
qed

section \<open>Properties\<close>

definition first_epoch :: "(order_event \<Rightarrow> bool) \<Rightarrow> order_event list \<Rightarrow> json" where
  "first_epoch P evs = (case find P evs of None \<Rightarrow> JNull | Some ev \<Rightarrow> JFloat (f_round 6 (ev_epoch ev)))"

text \<open>A receipt noted by the first event that satisfies a condition.\<close>

lemma first_noted:
  assumes step: "\<And>ev ctx. K ctx \<Longrightarrow> noted p (f ev ctx) = (noted p ctx \<or> P ev)"
      "\<And>ev ctx. K ctx \<Longrightarrow> noted_epoch p (f ev ctx) = (if P ev \<and> \<not> noted p ctx then JFloat (f_round 6 (ev_epoch ev)) else noted_epoch p ctx)"
      "\<And>ev ctx. K ctx \<Longrightarrow> K (f ev ctx)"
    and "K ctx"
  shows "noted_epoch p (fold f evs ctx) =
     (if noted p ctx \<or> find P evs = None then noted_epoch p ctx else first_epoch P evs)"
  using \<open>K ctx\<close> by (induction evs arbitrary: ctx) (auto simp: step first_epoch_def)

lemma record_settled: "fst (record_settlement_event utc ev ctx) \<longleftrightarrow> notified ev \<and> cleared ev"
  by (simp add: record_settlement_event_def Let_def notified_def cleared_def TERMINAL_NOTIFICATION_STATUSES_def TERMINAL_CART_CLEAR_STATUSES_def)

text \<open>C35. The context of an order keeps first receipts. After any sequence of events of an order, with repetitions, the time
  noted for the notification, for the clearing of the cart and for the failure of the order is the time of the first
  event that reported it, and none is noted when no event did; the next event settles the order exactly when it
  reports a final state of both.\<close>

theorem settlement_keeps_first_receipts:
  assumes "\<forall>p \<in> {''notification'', ''cart_clear'', ''failure'', ''notification_failure'', ''cart_clear_failure''}. \<not> noted p ctx"
    and "\<forall>p \<in> {''notification'', ''cart_clear'', ''failure''}. noted_epoch p ctx = JNull"
  shows "noted_epoch ''notification'' (record_events utc evs ctx) = first_epoch notified evs \<and>
     noted_epoch ''cart_clear'' (record_events utc evs ctx) = first_epoch cleared evs \<and>
     noted_epoch ''failure'' (record_events utc evs ctx) = first_epoch failed evs \<and>
     (fst (record_settlement_event utc ev (record_events utc evs ctx)) \<longleftrightarrow> notified ev \<and> cleared ev)"
proof -
  let ?f = "\<lambda>ev c. snd (record_settlement_event utc ev c)"
  have "failures_noted ctx" using assms(1) by (simp add: failures_noted_def)
  note notification = first_noted [of "\<lambda>_. True" "''notification''" ?f notified ctx evs, OF step_notification]
    and cart = first_noted [of "\<lambda>_. True" "''cart_clear''" ?f cleared ctx evs, OF step_cart]
    and failure = first_noted [of failures_noted "''failure''" ?f failed ctx evs, OF step_failure this]
  show ?thesis
    using notification cart failure assms
    by (auto simp: record_events_def record_settled first_epoch_def)
qed

definition demo_event :: "rat \<Rightarrow> string \<Rightarrow> string \<Rightarrow> order_event" where
  "demo_event t n c = \<lparr>ev_order = [(''notification_status'', JStr n), (''cart_clear_status'', JStr c)], ev_id = None,
     ev_monotonic = Fin t, ev_epoch = Fin t\<rparr>"

definition demo_events :: "order_event list" where
  "demo_events = [demo_event 1 [] ''REJECTED'', demo_event 2 ''SENT'' ''REJECTED'', demo_event 3 ''SENT'' ''REJECTED'']"

theorem settlement_keeps_first_receipts_witness:
  "noted_epoch ''notification'' (record_events (\<lambda>_. ''t'') demo_events []) = JFloat (Fin 2) \<and>
   noted_epoch ''failure'' (record_events (\<lambda>_. ''t'') demo_events []) = JFloat (Fin 1)"
proof -
  have "\<forall>p \<in> {''notification'', ''cart_clear'', ''failure'', ''notification_failure'', ''cart_clear_failure''}. \<not> noted p []"
    "\<forall>p \<in> {''notification'', ''cart_clear'', ''failure''}. noted_epoch p [] = JNull"
    by (simp_all add: noted_def dict_has_def noted_epoch_def dict_get_def)
  note facts = settlement_keeps_first_receipts [OF this, of "\<lambda>_. ''t''" demo_events]
  have "first_epoch notified demo_events = JFloat (Fin 2)" "first_epoch failed demo_events = JFloat (Fin 1)" by code_simp+
  then show ?thesis using facts by simp
qed

end
