(* ===== verification/Runtime_Props.thy ===== *)
theory Runtime_Props
  imports Runtime
begin

text \<open>
  The sampler keeps a fixed rate: its deadlines stay on the grid of the sampling interval, whatever the snapshots cost,
  and the ticks it misses are counted in the records. Every iteration writes one record, also when the endpoint
  fails.
\<close>

definition schedule_of :: "sampler \<Rightarrow> pyfloat \<times> int \<times> dict list" where
  "schedule_of s = (sm_next s, sm_skipped s, sm_written s)"

lemma try_steps_invariant:
  assumes "\<And>f s t. f \<in> set fs \<Longrightarrow> f s = Inr t \<Longrightarrow> K t = K s"
  shows "K (fst (try_steps fs s)) = K s"
  using assms
proof (induction fs arbitrary: s)
  case (Cons f fs)
  have "K (fst (try_steps fs t)) = K t" for t using Cons.prems by (intro Cons.IH) auto
  then show ?case using Cons.prems [of f s] by (auto split: sum.splits)
qed simp

lemma source_elapsed_schedule: "source_elapsed v entry st = Inr st' \<Longrightarrow> snd st' = snd st"
  by (cases "dict_get (fst st) ''source_elapsed_seconds'' (JObj [])")
    (auto simp: source_elapsed_def Let_def split: prod.splits if_splits)

lemma snapshot_steps_schedule:
  assumes "f \<in> set (snapshot_steps c v snapshot)" and "f st = Inr st'"
  shows "schedule_of (snd st') = schedule_of (snd st)"
  using assms
  by (auto simp: snapshot_steps_def Let_def put_field_def schedule_of_def dest: source_elapsed_schedule
      split: json.splits if_splits prod.splits)

lemma sample_record_schedule: "schedule_of (snd (sample_record c v snapshot s)) = schedule_of s"
proof -
  have "schedule_of (snd (fst (try_steps (snapshot_steps c v d) (empty_record c v, s)))) = schedule_of s" for d
    using try_steps_invariant [of "snapshot_steps c v d" "\<lambda>st. schedule_of (snd st)"] snapshot_steps_schedule by fastforce
  then show ?thesis by (auto simp: sample_record_def split: sum.splits option.splits prod.splits) (metis fst_conv snd_conv)+
qed

text \<open>The record of a snapshot that failed says so.\<close>

definition explained :: "view \<times> dict result \<times> rat \<Rightarrow> dict \<Rightarrow> bool" where
  "explained input written \<longleftrightarrow> (case fst (snd input) of
      Inl e \<Rightarrow> dict_get written ''errors'' JNull = JList [JStr (''metrics endpoint: '' @ exn_msg e)]
    | Inr _ \<Rightarrow> True)"

lemma explained_record: "explained (v, snapshot, t) (dict_set ''sampler_skipped_ticks'' n (fst (sample_record c v snapshot s)))"
  by (auto simp: explained_def sample_record_def add_errors_def empty_record_def dict_get_def map_of_dict_set split: sum.splits)

lemma advance_on_grid:
  assumes "0 < i"
  shows "\<exists>k \<ge> 0. advance_sample_deadline (Fin p) (Fin t) (Fin i) = Inr (Fin (p + of_int (k + 1) * i), k) \<and>
     t < p + of_int (k + 1) * i \<and> (0 < k \<longrightarrow> p + of_int k * i \<le> t)"
proof (cases "t < p + i")
  case True
  then show ?thesis using assms by (intro exI [of _ 0]) (simp add: advance_sample_deadline_def)
next
  case False
  define n where "n = \<lfloor>(t - (p + i)) / i\<rfloor>"
  have n: "0 \<le> n" using False assms by (simp add: n_def)
  have "of_int n * i \<le> t - (p + i)" "t - (p + i) < (of_int n + 1) * i"
    using assms by (simp_all add: n_def floor_divide_lower floor_divide_upper)
  moreover have "advance_sample_deadline (Fin p) (Fin t) (Fin i) = Inr (Fin (p + of_int (n + 1 + 1) * i), n + 1)"
    using False assms by (simp add: advance_sample_deadline_def f_sub_def n_def algebra_simps)
  ultimately show ?thesis using n by (intro exI [of _ "n + 1"]) (simp add: algebra_simps)
qed

lemma sampler_tick_step:
  assumes i: "resource_sample_interval_seconds c = Fin i" "0 < i" and p: "sm_next s = Fin p"
  shows "\<exists>k s'. 0 \<le> k \<and> sampler_tick c (v, snapshot, Fin t) s = Inr s' \<and> sm_next s' = Fin (p + of_int (k + 1) * i) \<and>
     sm_skipped s' = sm_skipped s + k \<and> t < p + of_int (k + 1) * i \<and> (0 < k \<longrightarrow> p + of_int k * i \<le> t) \<and>
     (\<exists>written. sm_written s' = sm_written s @ [written] \<and> explained (v, snapshot, t) written \<and>
        dict_get written ''sampler_skipped_ticks'' JNull = JInt (sm_skipped s))"
proof -
  obtain k where k: "0 \<le> k" "advance_sample_deadline (Fin p) (Fin t) (Fin i) = Inr (Fin (p + of_int (k + 1) * i), k)"
      "t < p + of_int (k + 1) * i" "0 < k \<longrightarrow> p + of_int k * i \<le> t"
    using advance_on_grid [OF i(2)] by blast
  obtain written s1 where r: "sample_record c v snapshot s = (written, s1)" by fastforce
  have s1: "sm_written s1 = sm_written s" using sample_record_schedule [of c v snapshot s] by (simp add: r schedule_of_def)
  show ?thesis
    using k explained_record [of v snapshot t "JInt (sm_skipped s)" c s] by (simp add: sampler_tick_def r p i s1)
qed

definition as_inputs :: "(view \<times> dict result \<times> rat) list \<Rightarrow> (view \<times> dict result \<times> pyfloat) list" where
  "as_inputs ins = map (\<lambda>(v, snapshot, t). (v, snapshot, Fin t)) ins"

text \<open>C36. The sampler keeps a fixed rate and never fails. Whatever the snapshots answer and however long they take, after any
  number of iterations the next deadline is the start plus a whole number of intervals, namely one per record
  written and one per tick skipped; it lies after the last reading of the clock, and by at most one interval unless no
  tick was skipped since the last record; every iteration has written one record, which names the failure of the
  endpoint if there was one.\<close>

theorem sampler_keeps_fixed_rate:
  assumes "resource_sample_interval_seconds c = Fin i" and "0 < i"
  shows "\<exists>s. sampler_run c (Fin start) (as_inputs ins) = Inr s \<and> 0 \<le> sm_skipped s \<and>
     sm_next s = Fin (start + of_int (int (length ins) + sm_skipped s) * i) \<and>
     list_all2 explained ins (sm_written s) \<and>
     (\<forall>v snapshot t. ins \<noteq> [] \<and> last ins = (v, snapshot, t) \<longrightarrow>
        f_lt (Fin t) (sm_next s) \<and>
        (f_le (sm_next s) (Fin (t + i)) \<or> dict_get (last (sm_written s)) ''sampler_skipped_ticks'' JNull = JInt (sm_skipped s)))"
proof (induction ins rule: rev_induct)
  case Nil
  then show ?case by (simp add: sampler_run_def as_inputs_def)
next
  case (snoc x ins)
  obtain v snapshot t where x: "x = (v, snapshot, t)" by (cases x)
  obtain s where s: "sampler_run c (Fin start) (as_inputs ins) = Inr s" "0 \<le> sm_skipped s"
      "sm_next s = Fin (start + of_int (int (length ins) + sm_skipped s) * i)" "list_all2 explained ins (sm_written s)"
    using snoc by blast
  have run: "sampler_run c (Fin start) (as_inputs (ins @ [x])) = sampler_tick c (v, snapshot, Fin t) s"
    using s(1) by (cases "sampler_tick c (v, snapshot, Fin t) s") (simp_all add: sampler_run_def as_inputs_def rfold_append x)
  obtain k s' written where k: "0 \<le> k" "sampler_tick c (v, snapshot, Fin t) s = Inr s'"
      "sm_next s' = Fin (start + of_int (int (length ins) + sm_skipped s) * i + of_int (k + 1) * i)" "sm_skipped s' = sm_skipped s + k"
      "t < start + of_int (int (length ins) + sm_skipped s) * i + of_int (k + 1) * i"
      "0 < k \<longrightarrow> start + of_int (int (length ins) + sm_skipped s) * i + of_int k * i \<le> t"
      "sm_written s' = sm_written s @ [written]" "explained (v, snapshot, t) written"
      "dict_get written ''sampler_skipped_ticks'' JNull = JInt (sm_skipped s)"
    using sampler_tick_step [OF assms s(3), of v snapshot t] by blast
  have "k = 0 \<or> 0 < k" using k(1) by auto
  moreover have "list_all2 explained (ins @ [x]) (sm_written s')"
    using k(7,8) s(4) by (auto simp: x intro: list_all2_appendI)
  ultimately show ?case
    unfolding run using k s(2) by (auto simp: x algebra_simps)
qed

definition slow_config :: benchmark_config where
  "slow_config = \<lparr>application_type = ''GRPC'', target_url = ''http://shop'', metrics_url = Some ''http://metrics'', workload = ''open'',
     warmup_seconds = 0, duration_seconds = 60, drain_seconds = 10, users = 1, spawn_rate = Fin 1, arrival_rate = Fin 1,
     saturation_start_rate = Fin 1, saturation_max_rate = Fin 1, saturation_step_seconds = 10, outcome_timeout_seconds = Fin 30,
     settlement_timeout_seconds = Fin 30, resource_sample_interval_seconds = Fin 5, seed = 0, collect_resources = True,
     collect_nats_metrics = False\<rparr>"

definition slow_inputs :: "(view \<times> dict result \<times> rat) list" where
  "slow_inputs = (let v = \<lparr>vw_timestamp = Fin 100, vw_elapsed = Fin 0, vw_phase = ''steady'', vw_rung = None, vw_rate = None\<rparr> in
     [(v, raise OSError ''unreachable'', 13), (v, Inr [(''pods'', JObj []), (''errors'', JList [])], 16)])"

theorem sampler_keeps_fixed_rate_witness:
  "\<exists>s. sampler_run slow_config (Fin 0) (as_inputs slow_inputs) = Inr s \<and> sm_next s = Fin 20 \<and> sm_skipped s = 2"
proof -
  have "resource_sample_interval_seconds slow_config = Fin 5" "(0::rat) < 5" by (simp_all add: slow_config_def)
  from sampler_keeps_fixed_rate [OF this, of 0 slow_inputs] obtain s where
    s: "sampler_run slow_config (Fin 0) (as_inputs slow_inputs) = Inr s" "sm_next s = Fin (0 + of_int (int (length slow_inputs) + sm_skipped s) * 5)"
    by blast
  have "(case sampler_run slow_config (Fin 0) (as_inputs slow_inputs) of Inr s \<Rightarrow> sm_skipped s | Inl _ \<Rightarrow> 0) = 2" by code_simp
  then show ?thesis using s by (simp add: slow_inputs_def Let_def)
qed

end
