(* ===== verification/Prometheus.thy ===== *)
theory Prometheus
  imports Py_Records
begin

text \<open>
  What the collector of cluster metrics reads, the first part of \<open>src/benchmarkservice/cluster_metrics.py\<close>: which pods belong to the
  measured application, the text format of Prometheus with its two regular expressions, the counters that cAdvisor reports
  for the containers of a pod, and the documents of the NATS servers on their Raft groups and micro services.

  The regular expressions are written out as matchers. Where an expression can match in several ways the matcher tries the
  alternatives in the order in which Python's engine does.
\<close>

section \<open>Pods\<close>

definition DEFAULT_SERVICES :: "string list" where
  "DEFAULT_SERVICES = [''storefrontprojectionservice'', ''productcatalogservice'', ''recommendationservice'', ''checkoutservice'',
     ''currencyservice'', ''shippingservice'', ''paymentservice'', ''emailservice'', ''cartservice'', ''adservice'', ''redis-cart'',
     ''redis-checkout'', ''frontend'']"

definition is_digit :: "char \<Rightarrow> bool" where
  "is_digit c \<longleftrightarrow> digit_val c \<noteq> None"

text \<open>\<open>[0-9]+\<close>, as a whole.\<close>

definition digits1 :: "string \<Rightarrow> bool" where
  "digits1 s \<longleftrightarrow> s \<noteq> [] \<and> list_all is_digit s"

definition service_for_pod :: "string \<Rightarrow> string \<Rightarrow> string \<Rightarrow> string \<Rightarrow> string \<Rightarrow> string option" where
  "service_for_pod namespace pod_name application_type application_namespace nats_namespace =
     (if namespace = nats_namespace then
        (if startswith pod_name ''nats-'' \<and> digits1 (drop 5 pod_name) then Some ''nats'' else None)
      else if namespace \<noteq> application_namespace \<or> startswith pod_name ''benchmarkservice-'' then None
      else case find (\<lambda>service. pod_name = service \<or> startswith pod_name (service @ ''-'')) DEFAULT_SERVICES of
          None \<Rightarrow> None
        | Some service \<Rightarrow>
            if service = ''storefrontprojectionservice'' \<and> application_type = ''GRPC'' then None else Some service)"

section \<open>Lines\<close>

definition line_break :: "char \<Rightarrow> bool" where
  "line_break c \<longleftrightarrow> (of_char c :: nat) \<in> {10, 11, 12, 13, 28, 29, 30, 133}"

text \<open>\<open>s.splitlines()\<close>; a carriage return and the line feed after it are one break.\<close>

fun splitlines :: "string \<Rightarrow> string list" where
  "splitlines [] = []"
| "splitlines (c # s) =
     (if line_break c
      then [] # (case s of d # t \<Rightarrow> if c = CHR 0x0D \<and> d = CHR 0x0A then splitlines t else splitlines s | [] \<Rightarrow> [])
      else case splitlines s of [] \<Rightarrow> [[c]] | line # rest \<Rightarrow> (c # line) # rest)"

text \<open>The runs of characters between white space.\<close>

function tokens :: "string \<Rightarrow> string list" where
  "tokens s = (case dropWhile is_space s of
      [] \<Rightarrow> []
    | c # t \<Rightarrow> (c # takeWhile (\<lambda>x. \<not> is_space x) t) # tokens (dropWhile (\<lambda>x. \<not> is_space x) t))"
  by pat_completeness auto
termination
proof (relation "measure length", goal_cases)
  case (2 s c t)
  have "length (dropWhile (\<lambda>x. \<not> is_space x) t) \<le> length t" by (rule length_dropWhile_le)
  also have "\<dots> < length (dropWhile is_space s)" by (simp add: 2)
  also have "\<dots> \<le> length s" by (rule length_dropWhile_le)
  finally show ?case by simp
qed simp

declare tokens.simps [simp del]

section \<open>Samples\<close>

definition is_letter :: "char \<Rightarrow> bool" where
  "is_letter c \<longleftrightarrow> (let n = (of_char c :: nat) in 65 \<le> n \<and> n \<le> 90 \<or> 97 \<le> n \<and> n \<le> 122)"

definition label_start :: "char \<Rightarrow> bool" where
  "label_start c \<longleftrightarrow> is_letter c \<or> c = CHR ''_''"

definition label_char :: "char \<Rightarrow> bool" where
  "label_char c \<longleftrightarrow> label_start c \<or> is_digit c"

definition name_start :: "char \<Rightarrow> bool" where
  "name_start c \<longleftrightarrow> label_start c \<or> c = CHR '':''"

definition name_char :: "char \<Rightarrow> bool" where
  "name_char c \<longleftrightarrow> name_start c \<or> is_digit c"

definition is_sign :: "char \<Rightarrow> bool" where
  "is_sign c \<longleftrightarrow> c = CHR ''-'' \<or> c = CHR ''+''"

definition drop_sign :: "string \<Rightarrow> string" where
  "drop_sign s = (if s \<noteq> [] \<and> is_sign (hd s) then tl s else s)"

text \<open>The group \<open>value\<close> of \<open>PROMETHEUS_LINE\<close> and the time stamp after it, as a whole.\<close>

definition is_value :: "string \<Rightarrow> bool" where
  "is_value s =
     (let u = drop_sign s;
          mantissa = takeWhile (\<lambda>c. c \<notin> {CHR ''e'', CHR ''E''}) u;
          exponent = dropWhile (\<lambda>c. c \<notin> {CHR ''e'', CHR ''E''}) u;
          (whole, dotted, fraction) = partition_at (CHR ''.'') mantissa
      in u = ''Inf'' \<or> u = ''NaN'' \<or>
         (if dotted then list_all is_digit whole \<and> digits1 fraction else digits1 whole) \<and>
         (exponent = [] \<or> digits1 (drop_sign (tl exponent))))"

definition is_timestamp :: "string \<Rightarrow> bool" where
  "is_timestamp s = (let (whole, dotted, fraction) = partition_at (CHR ''.'') s in digits1 whole \<and> (dotted \<longrightarrow> digits1 fraction))"

text \<open>What follows the name and the labels: white space, the value, and possibly a time stamp. Neither holds white space.\<close>

definition match_value :: "string \<Rightarrow> string option" where
  "match_value s =
     (if s = [] \<or> \<not> is_space (hd s) then None
      else case tokens s of
          [v] \<Rightarrow> if is_value v then Some v else None
        | [v, t] \<Rightarrow> if is_value v \<and> is_timestamp t then Some v else None
        | _ \<Rightarrow> None)"

text \<open>\<open>PROMETHEUS_LINE\<close>: the name, the labels and the value. No brace follows the labels, so they extend to the last one.\<close>

definition match_line :: "string \<Rightarrow> (string \<times> string \<times> string) option" where
  "match_line line =
     (let name = takeWhile name_char line; rest = dropWhile name_char line in
      if name = [] \<or> \<not> name_start (hd name) then None
      else if rest \<noteq> [] \<and> hd rest = CHR ''{'' then
        if CHR ''}'' \<in> set rest then
          let tail = rev (tl rest);
              labels = rev (tl (dropWhile (\<lambda>c. c \<noteq> CHR ''}'') tail));
              after = rev (takeWhile (\<lambda>c. c \<noteq> CHR ''}'') tail)
          in map_option (\<lambda>v. (name, labels, v)) (match_value after)
        else None
      else map_option (\<lambda>v. (name, [], v)) (match_value rest))"

section \<open>Labels\<close>

text \<open>The rest of \<open>PROMETHEUS_LABEL\<close> after the opening quote: \<open>(?:\\.|[^"])*"(?:,|$)\<close>. A backslash is first taken together with the
  character after it and then, if that leads nowhere, by itself.\<close>

definition close_label :: "string \<Rightarrow> (string \<times> string) option" where
  "close_label s = (case s of
      [] \<Rightarrow> Some ([], [])
    | c # t \<Rightarrow> if c = CHR '','' then Some ([], t) else if s = [CHR 0x0A] then Some ([], s) else None)"

fun label_value :: "string \<Rightarrow> (string \<times> string) option" where
  "label_value [] = None"
| "label_value (c # s) =
     (let pair = (case s of
          [] \<Rightarrow> None
        | d # t \<Rightarrow> if c = CHR 0x5C \<and> d \<noteq> CHR 0x0A then map_option (apfst (\<lambda>v. c # d # v)) (label_value t) else None)
      in case pair of
           Some m \<Rightarrow> Some m
         | None \<Rightarrow> if c = CHR 0x22 then close_label s else map_option (apfst ((#) c)) (label_value s))"

definition label_at :: "string \<Rightarrow> ((string \<times> string) \<times> string) option" where
  "label_at s =
     (let name = takeWhile label_char s; rest = dropWhile label_char s in
      if name = [] \<or> \<not> label_start (hd name) \<or> \<not> startswith rest [CHR ''='', CHR 0x22] then None
      else map_option (apfst (Pair name)) (label_value (drop 2 rest)))"

lemma close_label_shorter: "close_label s = Some (v, r) \<Longrightarrow> length r \<le> length s"
  by (auto simp: close_label_def split: list.splits if_splits)

lemma label_value_cases:
  assumes "label_value (c # s) = Some (v, r)"
  obtains (pair) d t w where "s = d # t" "label_value t = Some (w, r)"
    | (stop) w where "close_label s = Some (w, r)"
    | (single) w where "label_value s = Some (w, r)"
proof (cases "\<exists>d t w. s = d # t \<and> c = CHR 0x5C \<and> d \<noteq> CHR 0x0A \<and> label_value t = Some w")
  case True
  then show thesis using assms pair by (auto simp: apfst_def map_prod_def split: prod.splits)
next
  case False
  then have "(if c = CHR 0x22 then close_label s else map_option (apfst ((#) c)) (label_value s)) = Some (v, r)"
    using assms by (cases s) (auto simp: Let_def split: if_splits option.splits)
  then show thesis
    using stop single by (cases "c = CHR 0x22") (auto simp: apfst_def map_prod_def)
qed

lemma label_value_shorter: "label_value s = Some (v, r) \<Longrightarrow> length r < length s"
proof (induction s arbitrary: v r rule: measure_induct_rule [of length])
  case (less s)
  show ?case
  proof (cases s)
    case (Cons c u)
    from less.prems [unfolded Cons] show ?thesis
    proof (cases rule: label_value_cases)
      case (pair d t w)
      then show ?thesis using less.IH [of t w r] Cons by simp
    next
      case (stop w)
      then show ?thesis using close_label_shorter Cons by fastforce
    next
      case (single w)
      then show ?thesis using less.IH [of u w r] Cons by simp
    qed
  qed (use less.prems in simp)
qed

lemma label_at_shorter:
  assumes "label_at s = Some (m, r)"
  shows "length r < length s"
proof -
  let ?rest = "dropWhile label_char s"
  obtain v where v: "label_value (drop 2 ?rest) = Some (v, r)"
    using assms by (auto simp: label_at_def Let_def split: if_splits)
  have "length r < length (drop 2 ?rest)" by (rule label_value_shorter [OF v])
  also have "\<dots> \<le> length s" using length_dropWhile_le [of label_char s] by simp
  finally show ?thesis .
qed

text \<open>\<open>PROMETHEUS_LABEL.finditer(raw)\<close>: the matches from left to right, each searched for after the end of the one before.\<close>

function label_matches :: "string \<Rightarrow> (string \<times> string) list" where
  "label_matches s = (case label_at s of
      Some (m, r) \<Rightarrow> m # label_matches r
    | None \<Rightarrow> (case s of [] \<Rightarrow> [] | c # t \<Rightarrow> label_matches t))"
  by pat_completeness auto
termination
  by (relation "measure length") (auto dest: label_at_shorter)

declare label_matches.simps [simp del]

text \<open>\<open>s.replace(old, new)\<close> for a non-empty \<open>old\<close>.\<close>

function replace :: "string \<Rightarrow> string \<Rightarrow> string \<Rightarrow> string" where
  "replace old new [] = []"
| "replace old new (c # s) =
     (if startswith (c # s) old then new @ replace old new (drop (length old - 1) s) else c # replace old new s)"
  by pat_completeness auto
termination
  by (relation "measure (length \<circ> snd \<circ> snd)") auto

definition unescape :: "string \<Rightarrow> string" where
  "unescape value =
     replace [CHR 0x5C, CHR ''n''] [CHR 0x0A] (replace [CHR 0x5C, CHR 0x22] [CHR 0x22] (replace [CHR 0x5C, CHR 0x5C] [CHR 0x5C] value))"

definition parse_labels :: "string \<Rightarrow> (string \<times> string) list" where
  "parse_labels raw = fold (\<lambda>(name, value). AList.update name (unescape value)) (label_matches raw) []"

section \<open>Metrics\<close>

record metric =
  mt_name :: string
  mt_labels :: "(string \<times> string) list"
  mt_value :: rat
  mt_endpoint :: string

definition parse_sample :: "string list \<Rightarrow> string \<Rightarrow> string \<Rightarrow> metric option" where
  "parse_sample names endpoint line =
     (if line = [] \<or> startswith line ''#'' then None
      else case match_line line of
          None \<Rightarrow> None
        | Some (name, labels, value) \<Rightarrow>
            if name \<notin> set names then None
            else case parse_float value of
                Some (Fin number) \<Rightarrow>
                  Some \<lparr>mt_name = name, mt_labels = parse_labels labels, mt_value = number, mt_endpoint = endpoint\<rparr>
              | _ \<Rightarrow> None)"

definition parse_prometheus :: "string \<Rightarrow> string list \<Rightarrow> string \<Rightarrow> metric list" where
  "parse_prometheus body names endpoint = List.map_filter (parse_sample names endpoint) (splitlines body)"

definition label :: "metric \<Rightarrow> string \<Rightarrow> string" where
  "label m name = (case map_of (mt_labels m) name of None \<Rightarrow> [] | Some v \<Rightarrow> v)"

end
