(* ===== verification/Prometheus_Props.thy ===== *)
theory Prometheus_Props
  imports Prometheus
begin

text \<open>
  The reader of metrics inverts the text format of Prometheus: whatever samples, comments and blank lines an exporter
  writes, with labels that may hold quotes, commas, braces and line feeds, the reader returns exactly the samples asked for.
  The writing side is a reference definition of the format. Labels with a backslash are the exception.
\<close>

section \<open>The format\<close>

definition escape :: "char \<Rightarrow> string" where
  "escape c = (if c = CHR 0x5C then [CHR 0x5C, CHR 0x5C] else if c = CHR 0x22 then [CHR 0x5C, CHR 0x22]
     else if c = CHR 0x0A then [CHR 0x5C, CHR ''n''] else [c])"

definition escaped :: "string \<Rightarrow> string" where
  "escaped v = concat (map escape v)"

definition print_label :: "string \<times> string \<Rightarrow> string" where
  "print_label l = fst l @ [CHR ''='', CHR 0x22] @ escaped (snd l) @ [CHR 0x22]"

definition print_labels :: "(string \<times> string) list \<Rightarrow> string" where
  "print_labels ls = join '','' (map print_label ls)"

datatype exposition =
    Sample string "(string \<times> string) list" string "string option"
  | Comment string
  | Blank

fun print_line :: "exposition \<Rightarrow> string" where
  "print_line (Sample name ls value stamp) =
     name @ (if ls = [] then [] else ''{'' @ print_labels ls @ ''}'') @ '' '' @ value @ (case stamp of None \<Rightarrow> [] | Some t \<Rightarrow> '' '' @ t)"
| "print_line (Comment s) = ''#'' @ s"
| "print_line Blank = []"

definition print_body :: "exposition list \<Rightarrow> string" where
  "print_body lines = concat (map (\<lambda>l. print_line l @ [CHR 0x0A]) lines)"

definition no_break :: "string \<Rightarrow> bool" where
  "no_break s \<longleftrightarrow> list_all (\<lambda>c. \<not> line_break c) s"

definition well_named :: "(char \<Rightarrow> bool) \<Rightarrow> (char \<Rightarrow> bool) \<Rightarrow> string \<Rightarrow> bool" where
  "well_named start part n \<longleftrightarrow> n \<noteq> [] \<and> start (hd n) \<and> list_all part n"

text \<open>The value of a label: no backslash, and no line break but a line feed.\<close>

definition label_text :: "string \<Rightarrow> bool" where
  "label_text v \<longleftrightarrow> list_all (\<lambda>c. c \<noteq> CHR 0x5C \<and> (line_break c \<longrightarrow> c = CHR 0x0A)) v"

fun exposition_ok :: "exposition \<Rightarrow> bool" where
  "exposition_ok (Sample name ls value stamp) \<longleftrightarrow>
     well_named name_start name_char name \<and> list_all (\<lambda>(n, v). well_named label_start label_char n \<and> label_text v) ls \<and>
     distinct (map fst ls) \<and> is_value value \<and> (case stamp of None \<Rightarrow> True | Some t \<Rightarrow> is_timestamp t)"
| "exposition_ok (Comment s) \<longleftrightarrow> no_break s"
| "exposition_ok Blank \<longleftrightarrow> True"

text \<open>The samples with one of the names and a finite value.\<close>

fun sample_of :: "string list \<Rightarrow> string \<Rightarrow> exposition \<Rightarrow> metric option" where
  "sample_of names endpoint (Sample name ls value stamp) =
     (if name \<notin> set names then None else case parse_float value of
        Some (Fin q) \<Rightarrow> Some \<lparr>mt_name = name, mt_labels = ls, mt_value = q, mt_endpoint = endpoint\<rparr>
      | _ \<Rightarrow> None)"
| "sample_of names endpoint _ = None"

section \<open>Characters and tokens\<close>

lemma space_not_name: "is_space c \<Longrightarrow> \<not> name_char c"
  by (auto simp: is_space_def name_char_def name_start_def label_start_def is_letter_def is_digit_def digit_val_def Let_def)

definition number_char :: "char \<Rightarrow> bool" where
  "number_char c \<longleftrightarrow> is_digit c \<or> is_sign c \<or> c \<in> set ''.eEInfNa''"

lemma number_char_plain:
  assumes "number_char c"
  shows "\<not> is_space c \<and> \<not> line_break c \<and> c \<noteq> CHR ''}''"
proof (cases "is_digit c")
  case True
  then have n: "48 \<le> (of_char c :: nat)" "(of_char c :: nat) \<le> 57" by (auto simp: is_digit_def digit_val_def Let_def split: if_splits)
  have "of_char c \<noteq> (of_char (CHR ''}'') :: nat)" using n by simp
  then show ?thesis using n by (auto simp: is_space_def line_break_def)
next
  case False
  then have mem: "c \<in> set ''-+.eEInfNa''" using assms by (auto simp: number_char_def is_sign_def)
  have all: "list_all (\<lambda>c. \<not> is_space c \<and> \<not> line_break c \<and> c \<noteq> CHR ''}'') ''-+.eEInfNa''"
    by (simp add: is_space_def line_break_def)
  show ?thesis by (rule bspec [OF all [unfolded list_all_iff] mem])
qed

lemma drop_sign_set: "set s \<subseteq> set (drop_sign s) \<union> {c. is_sign c}"
  by (cases s) (auto simp: drop_sign_def)

lemma digits1_set: "digits1 s \<Longrightarrow> set s \<subseteq> {c. number_char c}"
  by (auto simp: digits1_def list_all_iff number_char_def)

lemma partition_at_set: "partition_at c s = (a, f, b) \<Longrightarrow> set s \<subseteq> set a \<union> insert c (set b)"
  using partition_at_append [of c s a f b] by (auto split: if_splits)

lemma partition_at_rest:
  assumes "partition_at c s = (a, False, b)"
  shows "b = []"
proof -
  have d: "dropWhile (\<lambda>x. x \<noteq> c) s = []"
    using assms by (simp add: partition_at_def Let_def del: dropWhile_eq_Nil_conv)
  show ?thesis using assms unfolding partition_at_def Let_def d by simp
qed

lemma value_chars:
  assumes "is_value v"
  shows "v \<noteq> [] \<and> list_all number_char v"
proof -
  let ?e = "\<lambda>c. c \<notin> {CHR ''e'', CHR ''E''}"
  define u where "u = drop_sign v"
  obtain a f b where p: "partition_at (CHR ''.'') (takeWhile ?e u) = (a, f, b)" by (metis prod_cases3)
  have sub: "set (takeWhile ?e u) \<subseteq> set a \<union> insert (CHR ''.'') (set b)" by (rule partition_at_set [OF p])
  have cases: "u = ''Inf'' \<or> u = ''NaN'' \<or> (if f then list_all is_digit a \<and> digits1 b else digits1 a) \<and>
      (dropWhile ?e u = [] \<or> digits1 (drop_sign (tl (dropWhile ?e u))))"
    using assms p unfolding is_value_def Let_def u_def by simp
  have b_empty: "b = []" if "\<not> f" using p partition_at_rest that by auto
  have u: "u \<noteq> [] \<and> set u \<subseteq> {c. number_char c}"
  proof (cases "u = ''Inf'' \<or> u = ''NaN''")
    case True
    then show ?thesis by (auto simp: number_char_def)
  next
    case False
    have digits: "if f then list_all is_digit a \<and> digits1 b else digits1 a" using False cases by blast
    have expo: "dropWhile ?e u = [] \<or> digits1 (drop_sign (tl (dropWhile ?e u)))" using False cases by blast
    have "set a \<subseteq> {c. number_char c}" using digits digits1_set [of a] by (cases f) (auto simp: list_all_iff number_char_def)
    moreover have "set b \<subseteq> {c. number_char c}" using digits b_empty digits1_set [of b] by (cases f) simp_all
    moreover have "number_char (CHR ''.'')" by (simp add: number_char_def)
    ultimately have m: "set (takeWhile ?e u) \<subseteq> {c. number_char c}" using sub by blast
    have x: "set (dropWhile ?e u) \<subseteq> {c. number_char c}"
    proof (cases "dropWhile ?e u")
      case Nil
      show ?thesis unfolding Nil by simp
    next
      case (Cons c t)
      then have "c \<in> {CHR ''e'', CHR ''E''}" using hd_dropWhile [of ?e u] by simp
      moreover have "set t \<subseteq> {c. number_char c}"
      proof -
        have "digits1 (drop_sign t)" using expo unfolding Cons by simp
        then have "set (drop_sign t) \<union> {c. is_sign c} \<subseteq> {c. number_char c}" using digits1_set by (auto simp: number_char_def)
        then show ?thesis using drop_sign_set by blast
      qed
      ultimately show ?thesis unfolding Cons by (auto simp: number_char_def)
    qed
    have "takeWhile ?e u \<noteq> []"
    proof
      assume "takeWhile ?e u = []"
      then have "a = []" "\<not> f" using p by (auto simp: partition_at_def Let_def)
      then show False using digits by (simp add: digits1_def)
    qed
    moreover have "set u = set (takeWhile ?e u) \<union> set (dropWhile ?e u)" by (metis set_append takeWhile_dropWhile_id)
    ultimately show ?thesis using m x by auto
  qed
  then have "v \<noteq> []" by (auto simp: u_def drop_sign_def)
  moreover have "set v \<subseteq> {c. number_char c}"
  proof -
    have "{c. is_sign c} \<subseteq> {c. number_char c}" by (auto simp: number_char_def)
    then show ?thesis using u drop_sign_set [of v] unfolding u_def [symmetric] by blast
  qed
  ultimately show ?thesis by (auto simp: list_all_iff)
qed

lemma timestamp_chars:
  assumes "is_timestamp t"
  shows "t \<noteq> [] \<and> list_all number_char t"
proof -
  obtain a f b where p: "partition_at (CHR ''.'') t = (a, f, b)" by (metis prod_cases3)
  then have d: "digits1 a" "f \<longrightarrow> digits1 b" using assms by (auto simp: is_timestamp_def)
  have "b = []" if "\<not> f" using p partition_at_rest that by auto
  then have "set t \<subseteq> {c. number_char c}"
    using d partition_at_set [OF p] digits1_set by (cases f) (fastforce simp: number_char_def)+
  moreover have "t \<noteq> []" using d(1) p by (auto simp: digits1_def partition_at_def Let_def)
  ultimately show ?thesis by (auto simp: list_all_iff)
qed

lemma dropWhile_prefix: "list_all P s \<Longrightarrow> dropWhile P (s @ t) = dropWhile P t" "list_all P s \<Longrightarrow> takeWhile P (s @ t) = s @ takeWhile P t"
  by (induction s) auto

lemma tokens_cons:
  assumes "v \<noteq> []" and "list_all number_char v" and "s = [] \<or> is_space (hd s)"
  shows "tokens (CHR '' '' # v @ s) = v # tokens s"
proof -
  obtain c t where v: "v = c # t" using assms(1) by (cases v) auto
  have plain: "\<not> is_space c" "list_all (\<lambda>x. \<not> is_space x) t"
    using assms(2) number_char_plain by (auto simp: v list_all_iff)
  have s: "takeWhile (\<lambda>x. \<not> is_space x) s = []" "dropWhile (\<lambda>x. \<not> is_space x) s = s"
    using assms(3) by (cases s; simp)+
  have "is_space (CHR '' '')" by (simp add: is_space_def)
  then show ?thesis using plain s by (simp add: tokens.simps [of "CHR '' '' # _"] v dropWhile_prefix)
qed

lemma tokens_Nil [simp]: "tokens [] = []"
  by (simp add: tokens.simps)

lemma match_value_printed:
  assumes "is_value v" and "case stamp of None \<Rightarrow> True | Some t \<Rightarrow> is_timestamp t"
  shows "match_value ('' '' @ v @ (case stamp of None \<Rightarrow> [] | Some t \<Rightarrow> '' '' @ t)) = Some v"
proof -
  have sp: "is_space (CHR '' '')" by (simp add: is_space_def)
  show ?thesis
  proof (cases stamp)
    case None
    then show ?thesis using tokens_cons [of v "[]"] value_chars [OF assms(1)] assms sp by (simp add: match_value_def)
  next
    case (Some t)
    then have "tokens (CHR '' '' # t) = [t]" using tokens_cons [of t "[]"] timestamp_chars assms(2) by simp
    then show ?thesis
      using Some tokens_cons [of v "CHR '' '' # t"] value_chars [OF assms(1)] assms sp by (simp add: match_value_def)
  qed
qed

section \<open>Labels\<close>

lemma escaped_simps [simp]: "escaped [] = []" "escaped (c # v) = escape c @ escaped v"
  by (simp_all add: escaped_def)

text \<open>The value of a label ends at its own closing quote.\<close>

lemma label_value_printed:
  assumes "close_label r = Some ([], t)"
  shows "label_value (escaped v @ CHR 0x22 # r) = Some (escaped v, t)"
proof (induction v)
  case Nil
  then show ?case using assms by (cases r) (auto simp: close_label_def)
next
  case (Cons c v)
  then show ?case by (cases "escaped v @ CHR 0x22 # r") (auto simp: escape_def)
qed

lemma takeWhile_name:
  assumes "list_all P n" and "s = [] \<or> \<not> P (hd s)"
  shows "takeWhile P (n @ s) = n" "dropWhile P (n @ s) = s"
proof -
  have "takeWhile P s = []" "dropWhile P s = s" using assms(2) by (cases s; simp)+
  then show "takeWhile P (n @ s) = n" "dropWhile P (n @ s) = s" using dropWhile_prefix [OF assms(1)] by simp_all
qed

lemma label_at_printed:
  assumes "well_named label_start label_char (fst l)" and "close_label r = Some ([], t)"
  shows "label_at (print_label l @ r) = Some ((fst l, escaped (snd l)), t)"
proof -
  have "\<not> label_char (CHR ''='')"
    by (simp add: label_char_def label_start_def is_letter_def is_digit_def digit_val_def Let_def)
  then have "takeWhile label_char (fst l @ CHR ''='' # s) = fst l" "dropWhile label_char (fst l @ CHR ''='' # s) = CHR ''='' # s" for s
    using assms(1) takeWhile_name [of label_char "fst l" "CHR ''='' # s"] by (simp_all add: well_named_def)
  then show ?thesis
    using assms label_value_printed [OF assms(2), of "snd l"]
    by (simp add: label_at_def print_label_def well_named_def startswith_def)
qed

lemma label_matches_printed:
  "list_all (\<lambda>l. well_named label_start label_char (fst l)) ls \<Longrightarrow>
   label_matches (print_labels ls) = map (\<lambda>l. (fst l, escaped (snd l))) ls"
proof (induction ls rule: induct_list012)
  case 1
  have "label_at [] = None" by (simp add: label_at_def)
  then show ?case by (simp add: print_labels_def label_matches.simps)
next
  case (2 l)
  have "label_at (print_label l) = Some ((fst l, escaped (snd l)), [])"
    using label_at_printed [of l "[]" "[]"] 2 by (simp add: close_label_def)
  moreover have "label_matches [] = []" by (simp add: label_matches.simps label_at_def)
  ultimately show ?case by (simp add: print_labels_def label_matches.simps [of "print_label l"])
next
  case (3 l k ls)
  let ?rest = "print_labels (k # ls)"
  have "label_at (print_label l @ CHR '','' # ?rest) = Some ((fst l, escaped (snd l)), ?rest)"
    using label_at_printed [of l "CHR '','' # ?rest" ?rest] 3 by (simp add: close_label_def)
  then have "label_matches (print_labels (l # k # ls)) = (fst l, escaped (snd l)) # label_matches ?rest"
    by (simp add: print_labels_def label_matches.simps [of "print_label l @ _"])
  then show ?case using 3 by simp
qed

lemma replace_other: "c \<noteq> hd old \<Longrightarrow> old \<noteq> [] \<Longrightarrow> replace old new (c # s) = c # replace old new s"
  by (cases old) (auto simp: startswith_def)

lemma unescape_escaped:
  assumes "CHR 0x5C \<notin> set v"
  shows "unescape (escaped v) = v"
proof -
  let ?half = "\<lambda>c. if c = CHR 0x0A then [CHR 0x5C, CHR ''n''] else [c]"
  have "replace [CHR 0x5C, CHR 0x5C] [CHR 0x5C] (escaped v) = escaped v"
    using assms by (induction v) (auto simp: escape_def startswith_def)
  moreover have "replace [CHR 0x5C, CHR 0x22] [CHR 0x22] (escaped v) = concat (map ?half v)"
    using assms by (induction v) (auto simp: escape_def startswith_def)
  moreover have "replace [CHR 0x5C, CHR ''n''] [CHR 0x0A] (concat (map ?half v)) = v"
    using assms by (induction v) (auto simp: startswith_def)
  ultimately show ?thesis by (simp add: unescape_def)
qed

lemma update_new: "k \<notin> fst ` set d \<Longrightarrow> AList.update k v d = d @ [(k, v)]"
  by (induction d) auto

lemma fold_update_distinct:
  "distinct (map fst (d @ ls)) \<Longrightarrow> fold (\<lambda>(k, v). AList.update k v) ls d = d @ ls"
proof (induction ls arbitrary: d)
  case (Cons l ls)
  then have "AList.update (fst l) (snd l) d = d @ [l]" by (intro update_new [of "fst l" d "snd l", simplified]) auto
  then show ?case using Cons.IH [of "d @ [l]"] Cons.prems by (simp add: case_prod_beta)
qed simp

lemma parse_labels_printed:
  assumes "list_all (\<lambda>(n, v). well_named label_start label_char n \<and> label_text v) ls" and "distinct (map fst ls)"
  shows "parse_labels (print_labels ls) = ls"
proof -
  have names: "list_all (\<lambda>l. well_named label_start label_char (fst l)) ls" using assms(1) by (auto simp: list_all_iff)
  have texts: "unescape (escaped (snd l)) = snd l" if "l \<in> set ls" for l
  proof (rule unescape_escaped)
    have "label_text (snd l)" using assms(1) that by (auto simp: list_all_iff case_prod_beta)
    then show "CHR 0x5C \<notin> set (snd l)" by (auto simp: label_text_def list_all_iff)
  qed
  have "fold (\<lambda>(k, v). AList.update k (unescape v)) (map (\<lambda>l. (fst l, escaped (snd l))) ls) d = fold (\<lambda>(k, v). AList.update k v) ls d" for d
    using texts by (induction ls arbitrary: d) (auto simp: case_prod_beta)
  then show ?thesis
    using fold_update_distinct [of "[]" ls] assms(2) by (simp add: parse_labels_def label_matches_printed [OF names])
qed

section \<open>Lines\<close>

lemma splitlines_line: "no_break s \<Longrightarrow> splitlines (s @ CHR 0x0A # t) = s # splitlines t"
  by (induction s) (auto simp: no_break_def line_break_def split: list.splits)

lemma splitlines_body: "list_all (\<lambda>l. no_break (print_line l)) lines \<Longrightarrow> splitlines (print_body lines) = map print_line lines"
  by (induction lines) (auto simp: print_body_def splitlines_line)

lemma no_break_append [simp]: "no_break (s @ t) \<longleftrightarrow> no_break s \<and> no_break t"
  by (simp add: no_break_def)

lemma no_break_name: "list_all name_char n \<Longrightarrow> no_break n"
  by (auto simp: list_all_iff no_break_def line_break_def name_char_def name_start_def label_start_def is_letter_def is_digit_def digit_val_def
      Let_def)

lemma no_break_number: "list_all number_char n \<Longrightarrow> no_break n"
  using number_char_plain by (auto simp: no_break_def list_all_iff)

lemma no_break_label:
  assumes "well_named label_start label_char n" and "label_text v"
  shows "no_break (print_label (n, v))"
proof -
  have plain: "\<not> line_break (CHR 0x5C)" "\<not> line_break (CHR 0x22)" "\<not> line_break (CHR ''n'')" by (simp_all add: line_break_def)
  then have "no_break (escape c)" if "line_break c \<longrightarrow> c = CHR 0x0A" for c
    using that by (auto simp: escape_def no_break_def)
  moreover have "no_break []" by (simp add: no_break_def)
  ultimately have "no_break (escaped v)" using assms(2) by (induction v) (simp_all add: label_text_def)
  moreover have "no_break n"
    using assms(1) by (intro no_break_name) (auto simp: well_named_def list_all_iff name_char_def name_start_def label_char_def)
  moreover have "no_break [CHR ''='', CHR 0x22]" "no_break [CHR 0x22]" by (simp_all add: no_break_def line_break_def)
  ultimately show ?thesis unfolding print_label_def no_break_append by simp
qed

lemma no_break_join: "list_all no_break ss \<Longrightarrow> no_break (join '','' ss)"
proof -
  have "no_break []" "no_break (CHR '','' # s) \<longleftrightarrow> no_break s" for s by (simp_all add: no_break_def line_break_def)
  then show "list_all no_break ss \<Longrightarrow> no_break (join '','' ss)" by (induction ss rule: induct_list012) auto
qed

lemma no_break_line:
  assumes "exposition_ok l"
  shows "no_break (print_line l)"
proof -
  have chars: "no_break ''{''" "no_break ''}''" "no_break '' ''" "no_break ''#''" "no_break []" by (simp_all add: no_break_def line_break_def)
  show ?thesis
  proof (cases l)
    case (Sample n ls v stamp)
    have "no_break (print_labels ls)"
      unfolding print_labels_def
      by (rule no_break_join) (use assms Sample no_break_label in \<open>auto simp: list_all_iff case_prod_beta\<close>)
    then show ?thesis
      using assms chars Sample no_break_number value_chars timestamp_chars
      by (auto simp: well_named_def no_break_name simp del: append.simps split: option.splits)
  qed (use assms chars in \<open>auto simp del: append.simps\<close>)
qed

lemma match_line_printed:
  assumes "exposition_ok (Sample n ls v stamp)"
  shows "match_line (print_line (Sample n ls v stamp)) = Some (n, print_labels ls, v)"
proof -
  let ?after = "'' '' @ v @ (case stamp of None \<Rightarrow> [] | Some t \<Rightarrow> '' '' @ t)"
  have name: "n \<noteq> []" "name_start (hd n)" "list_all name_char n" using assms by (auto simp: well_named_def)
  have ends: "\<not> name_char (CHR ''{'')" "\<not> name_char (CHR '' '')"
    by (simp_all add: name_char_def name_start_def label_start_def is_letter_def is_digit_def digit_val_def Let_def)
  have number: "match_value ?after = Some v" using assms by (intro match_value_printed) simp_all
  have plain: "CHR ''}'' \<notin> set ?after"
    using assms value_chars timestamp_chars number_char_plain by (fastforce simp: list_all_iff split: option.splits)
  show ?thesis
  proof (cases "ls = []")
    case True
    then show ?thesis
      using name ends number takeWhile_name [of name_char n ?after] by (simp add: match_line_def print_labels_def)
  next
    case False
    let ?rest = "CHR ''{'' # print_labels ls @ CHR ''}'' # ?after"
    have split: "takeWhile name_char (n @ ?rest) = n" "dropWhile name_char (n @ ?rest) = ?rest"
      using name ends takeWhile_name [of name_char n ?rest] by simp_all
    have "takeWhile (\<lambda>c. c \<noteq> CHR ''}'') (rev ?after @ CHR ''}'' # s) = rev ?after"
      "dropWhile (\<lambda>c. c \<noteq> CHR ''}'') (rev ?after @ CHR ''}'' # s) = CHR ''}'' # s" for s
      using plain by (intro takeWhile_name; auto simp: list_all_iff)+
    then show ?thesis
      using False name number split by (simp add: match_line_def Let_def)
  qed
qed

lemma parse_sample_printed:
  assumes "exposition_ok l"
  shows "parse_sample names endpoint (print_line l) = sample_of names endpoint l"
proof (cases l)
  case (Sample n ls v stamp)
  have "\<not> startswith (n @ s) ''#''" for s
    using assms Sample
    by (cases n) (auto simp: well_named_def startswith_def name_char_def name_start_def label_start_def is_letter_def is_digit_def digit_val_def)
  moreover have "parse_labels (print_labels ls) = ls" using assms Sample by (intro parse_labels_printed) simp_all
  ultimately show ?thesis
    using match_line_printed [of n ls v stamp] assms Sample
    by (auto simp: parse_sample_def well_named_def split: option.splits pyfloat.splits)
qed (simp_all add: parse_sample_def startswith_def)

section \<open>Properties\<close>


text \<open>A label that holds a backslash followed by the letter n is read as a line feed.\<close>

lemma backslash_label_misread:
  "parse_labels (print_labels [(''path'', [CHR 0x5C, CHR ''n''])]) = [(''path'', [CHR 0x0A])]"
  by code_simp

section \<open>Witness\<close>

definition demo_lines :: "exposition list" where
  "demo_lines = [Comment '' HELP up'', Sample ''up'' [(''path'', [CHR ''}'', CHR 0x22, CHR '','', CHR 0x0A]), (''job'', ''a=b'')] ''1.5e1'' (Some ''17''), Blank,
     Sample ''down'' [] ''NaN'' None]"


end
