(* ===== verification/Cluster_Metrics.thy ===== *)
theory Cluster_Metrics
  imports Prometheus
begin

text \<open>
  The collector of cluster metrics, the second part of \<open>src/benchmarkservice/cluster_metrics.py\<close>: counters of containers, documents of the
  NATS servers, the sampling of pods through the Kubernetes API, the observer of workflow events and the assembly of a
  snapshot from its sources.

  Answers of the endpoints and readings of the clocks are arguments. A pool of threads is represented by what \<open>concurrent.futures.wait\<close>
  returns: \<open>waited\<close> splits the submitted tasks into the completed ones, in the order in which they are looked at, and the
  unfinished ones.
\<close>

section \<open>Names\<close>

definition RAFT_STREAMS :: "string list" where
  "RAFT_STREAMS = [''BOUTIQUE_COMMANDS'', ''BOUTIQUE_EVENTS'']"

definition NATS_METRICS :: "string list" where
  "NATS_METRICS = [
     ''jetstream_consumer_num_pending'', ''jetstream_consumer_num_ack_pending'', ''jetstream_consumer_num_redelivered'',
     ''jetstream_consumer_num_waiting'', ''jetstream_consumer_ack_floor_consumer_seq'', ''jetstream_consumer_ack_floor_stream_seq'',
     ''jetstream_consumer_delivered_consumer_seq'', ''jetstream_consumer_delivered_stream_seq'', ''jetstream_stream_consumer_count'',
     ''jetstream_stream_first_seq'', ''jetstream_stream_last_seq'', ''jetstream_stream_subject_count'', ''jetstream_stream_total_bytes'',
     ''jetstream_stream_total_messages'', ''gnatsd_varz_in_bytes'', ''gnatsd_varz_in_msgs'', ''gnatsd_varz_out_bytes'',
     ''gnatsd_varz_out_msgs'', ''gnatsd_varz_cpu'', ''gnatsd_varz_mem'', ''gnatsd_varz_jetstream_config_max_memory'',
     ''gnatsd_varz_jetstream_config_max_storage'', ''gnatsd_varz_jetstream_config_sync_interval'',
     ''gnatsd_varz_jetstream_meta_cluster_size'', ''gnatsd_varz_jetstream_meta_leader'', ''gnatsd_varz_jetstream_meta_pending'',
     ''gnatsd_varz_jetstream_meta_pending_infos'', ''gnatsd_varz_jetstream_meta_pending_requests'',
     ''gnatsd_varz_jetstream_meta_snapshot_last_duration'', ''gnatsd_varz_jetstream_meta_snapshot_pending_entries'',
     ''gnatsd_varz_jetstream_meta_snapshot_pending_size'', ''gnatsd_varz_jetstream_stats_api_errors'',
     ''gnatsd_varz_jetstream_stats_api_total'', ''gnatsd_varz_jetstream_stats_ha_assets'', ''gnatsd_varz_jetstream_stats_memory'',
     ''gnatsd_varz_jetstream_stats_reserved_memory'', ''gnatsd_varz_jetstream_stats_reserved_storage'',
     ''gnatsd_varz_jetstream_stats_storage'', ''gnatsd_varz_slow_consumers'', ''gnatsd_varz_stale_connections'',
     ''gnatsd_varz_stalled_clients'', ''jetstream_account_storage_used'']"

definition WORKFLOW_EVENT_SUBJECTS :: "(string \<times> string) list" where
  "WORKFLOW_EVENT_SUBJECTS = [
     (''successful_orders'', ''boutique.evt.order.completed.v1''),
     (''shipments_rejected'', ''boutique.evt.shipping.shipment-creation-failed.v1''),
     (''payment_authorizations_released'', ''boutique.evt.payment.authorization-released.v1''),
     (''orders_in_manual_review'', ''boutique.evt.order.manual-review-required.v1'')]"

definition CADVISOR_METRICS :: "(string \<times> string) list" where
  "CADVISOR_METRICS = [
     (''container_cpu_cfs_periods_total'', ''cpu_cfs_periods_total''),
     (''container_cpu_cfs_throttled_periods_total'', ''cpu_cfs_throttled_periods_total''),
     (''container_cpu_cfs_throttled_seconds_total'', ''cpu_cfs_throttled_seconds_total''),
     (''container_fs_reads_total'', ''disk_reads_completed_total''),
     (''container_fs_writes_total'', ''disk_writes_completed_total''),
     (''container_fs_io_time_seconds_total'', ''disk_io_time_seconds_total''),
     (''container_fs_io_time_weighted_seconds_total'', ''disk_io_time_weighted_seconds_total'')]"

definition INTEGER_CADVISOR_FIELDS :: "string list" where
  "INTEGER_CADVISOR_FIELDS =
     [''cpu_cfs_periods_total'', ''cpu_cfs_throttled_periods_total'', ''disk_reads_completed_total'', ''disk_writes_completed_total'']"

section \<open>Raft groups\<close>

text \<open>\<open>number\<close>: a value that is no number counts as 0; an infinite one raises.\<close>

definition number_or_zero :: "dict \<Rightarrow> string \<Rightarrow> int result" where
  "number_or_zero source name = (case py_int (dict_get source name (JInt 0)) of
      Inr n \<Rightarrow> Inr n
    | Inl e \<Rightarrow> if is_a (exn_cls e) TypeError \<or> is_a (exn_cls e) ValueError then Inr 0 else Inl e)"

definition raft_kind :: "string \<Rightarrow> string" where
  "raft_kind group_name =
     (if group_name = ''_meta_'' then ''meta'' else if startswith group_name ''S-'' then ''stream''
      else if startswith group_name ''C-'' then ''consumer'' else ''other'')"

definition RAFT_NUMBERS :: "(string \<times> string) list" where
  "RAFT_NUMBERS = [(''size'', ''size''), (''quorum_needed'', ''quorum_needed''), (''committed'', ''committed''), (''applied'', ''applied''),
     (''term'', ''term''), (''pterm'', ''pterm''), (''pindex'', ''pindex''), (''proposal_queue'', ''ipq_proposal_len''),
     (''entry_queue'', ''ipq_entry_len''), (''response_queue'', ''ipq_resp_len''), (''apply_queue'', ''ipq_apply_len'')]"

definition WAL_NUMBERS :: "(string \<times> string) list" where
  "WAL_NUMBERS = [(''wal_messages'', ''messages''), (''wal_bytes'', ''bytes''), (''wal_first_seq'', ''first_seq''), (''wal_last_seq'', ''last_seq'')]"

definition raft_group :: "string \<Rightarrow> string \<Rightarrow> string \<Rightarrow> dict \<Rightarrow> dict result" where
  "raft_group url account group_name body =
     (let wal = (case dict_get body ''wal'' (JObj []) of JObj w \<Rightarrow> w | _ \<Rightarrow> []);
          text = (\<lambda>k. JStr (py_str (dict_get body k (JStr []))));
          numbers = (\<lambda>source. rmap (\<lambda>(field, name). rbind (number_or_zero source name) (\<lambda>n. Inr (field, JInt n))))
      in rbind (numbers body RAFT_NUMBERS) (\<lambda>counts. rbind (numbers wal WAL_NUMBERS) (\<lambda>wal_counts.
         Inr ([(''endpoint'', JStr url), (''account'', JStr account), (''group'', JStr group_name), (''kind'', JStr (raft_kind group_name)),
               (''id'', text ''id''), (''state'', text ''state''), (''leader'', text ''leader'')] @ counts @ wal_counts))))"

definition scrape_nats_raft :: "string \<Rightarrow> json result \<Rightarrow> dict list result" where
  "scrape_nats_raft url answer =
     rbind answer (\<lambda>value. case value of
       JObj accounts \<Rightarrow>
         rmap (\<lambda>(account, group_name, body). raft_group url account group_name body)
           [(account, group_name, body). (account, JObj groups) \<leftarrow> accounts, (group_name, JObj body) \<leftarrow> groups]
     | _ \<Rightarrow> raise RuntimeError (''NATS Raft endpoint '' @ url @ '' returned non-object JSON''))"

section \<open>Counters of containers\<close>

type_synonym pods = "(string \<times> dict) list"
type_synonym counters = "(string \<times> (string \<times> rat) list) list"

definition pod_key_of :: "metric \<Rightarrow> string" where
  "pod_key_of m = label m ''namespace'' @ ''/'' @ label m ''pod''"

definition on_node :: "pods \<Rightarrow> string \<Rightarrow> string \<Rightarrow> bool" where
  "on_node pods node pod_key = (case map_of pods pod_key of None \<Rightarrow> False | Some pod \<Rightarrow> dict_get pod ''node'' JNull = JStr node)"

definition add_counter :: "string \<Rightarrow> string \<Rightarrow> rat \<Rightarrow> counters \<Rightarrow> counters" where
  "add_counter pod_key field v d = alter [] (alter 0 (\<lambda>old. old + v) field) pod_key d"

text \<open>The samples of containers and, for the times of block devices only, those of the whole pod.\<close>

definition cadvisor_step :: "pods \<Rightarrow> string \<Rightarrow> metric \<Rightarrow> counters \<times> counters \<Rightarrow> counters \<times> counters" where
  "cadvisor_step pods node m s =
     (let (found, pod_fallbacks) = s; container = label m ''container''; pod_key = pod_key_of m;
          field = (case map_of CADVISOR_METRICS (mt_name m) of Some f \<Rightarrow> f | None \<Rightarrow> [])
      in if \<not> on_node pods node pod_key then s
         else if container = [] then
           (if startswith field ''disk_io_time_'' then (found, add_counter pod_key field (mt_value m) pod_fallbacks) else s)
         else if container = ''POD'' then s
         else (add_counter pod_key field (mt_value m) found, pod_fallbacks))"

definition with_fallbacks :: "(string \<times> rat) list \<Rightarrow> (string \<times> rat) list \<Rightarrow> (string \<times> rat) list" where
  "with_fallbacks fallback pod_values =
     fold (\<lambda>(field, v) d. if map_of d field = None then d @ [(field, v)] else d) fallback pod_values"

definition counter_json :: "string \<Rightarrow> rat \<Rightarrow> json" where
  "counter_json field v = (if field \<in> set INTEGER_CADVISOR_FIELDS then JInt (trunc_rat v) else JFloat (Fin v))"

definition store_counters :: "(string \<times> rat) list \<Rightarrow> dict \<Rightarrow> dict" where
  "store_counters pod_values pod =
     (let pod1 = fold (\<lambda>(field, v). dict_set field (counter_json field v)) pod_values pod;
          reads = trunc_rat (lookup 0 pod_values ''disk_reads_completed_total'');
          writes = trunc_rat (lookup 0 pod_values ''disk_writes_completed_total'')
      in if reads \<noteq> 0 \<or> writes \<noteq> 0 then dict_set ''disk_io_operations_total'' (JInt (reads + writes)) pod1 else pod1)"

definition add_cadvisor_metrics :: "pods \<Rightarrow> string \<Rightarrow> string \<Rightarrow> pods" where
  "add_cadvisor_metrics pods body node =
     (let (found, pod_fallbacks) = fold (cadvisor_step pods node) (parse_prometheus body (map fst CADVISOR_METRICS) node) ([], [])
      in fold (\<lambda>(pod_key, pod_values). alter [] (store_counters (with_fallbacks (lookup [] pod_fallbacks pod_key) pod_values)) pod_key)
           found pods)"

section \<open>Micro services\<close>

text \<open>The first usable number under one of the names, in the endpoint or in its data.\<close>

fun first_pending :: "json list \<Rightarrow> int option result" where
  "first_pending [] = Inr None"
| "first_pending (candidate # rest) =
     (if candidate = JNull then first_pending rest
      else case py_int candidate of
          Inr n \<Rightarrow> Inr (Some (max 0 n))
        | Inl e \<Rightarrow> if is_a (exn_cls e) TypeError \<or> is_a (exn_cls e) ValueError then first_pending rest else Inl e)"

definition micro_endpoint :: "string \<Rightarrow> string \<Rightarrow> string \<Rightarrow> dict \<Rightarrow> dict result" where
  "micro_endpoint service_name service_id version endpoint =
     (let data = (case dict_get endpoint ''data'' (JObj []) of JObj d \<Rightarrow> d | _ \<Rightarrow> []);
          candidates = [dict_get source name JNull. source \<leftarrow> [endpoint, data], name \<leftarrow> [''pending_requests'', ''num_pending'', ''pending'']];
          text = (\<lambda>k default. JStr (py_str (dict_get endpoint k default)));
          number = (\<lambda>k. get_int endpoint k (JInt 0))
      in rbind (first_pending candidates) (\<lambda>pending.
         rbind (number ''num_requests'') (\<lambda>requests. rbind (number ''num_errors'') (\<lambda>errors.
         rbind (number ''processing_time'') (\<lambda>processing. rbind (number ''average_processing_time'') (\<lambda>average.
         Inr [(''service_name'', JStr service_name), (''service_id'', JStr service_id), (''version'', JStr version),
              (''endpoint_name'', text ''name'' (JStr [])), (''subject'', text ''subject'' (JStr [])),
              (''queue_group'', text ''queue_group'' (dict_get endpoint ''queue'' (JStr []))),
              (''num_requests'', JInt requests), (''num_errors'', JInt errors), (''processing_time_nanoseconds'', JInt processing),
              (''average_processing_time_nanoseconds'', JInt average), (''pending_requests'', jint_opt pending)]))))))"

definition normalize_nats_micro_stats :: "dict \<Rightarrow> dict list result" where
  "normalize_nats_micro_stats value =
     (let service_name = py_str (dict_get value ''name'' (JStr [])); service_id = py_str (dict_get value ''id'' (JStr []));
          version = py_str (dict_get value ''version'' (JStr []))
      in if service_name = [] \<or> service_id = [] then Inr []
         else rbind (items_of (dict_get value ''endpoints'' (JList []))) (\<lambda>endpoints.
              rmap (micro_endpoint service_name service_id version) [d. JObj d \<leftarrow> endpoints]))"

text \<open>The loop of \<open>NatsMicroStatsClient._sample\<close> over the answers that arrived in time, \<open>None\<close> where \<open>json.loads\<close> raises, and the stable
  sort by service, instance and endpoint.\<close>

definition micro_sample :: "json option list \<Rightarrow> dict list result" where
  "micro_sample answers =
     (let text = (\<lambda>k d. py_str (dict_get d k (JStr []))) in
      rbind (rmap normalize_nats_micro_stats [d. Some (JObj d) \<leftarrow> answers]) (\<lambda>responses.
        Inr (sort_key (text ''service_name'') (sort_key (text ''service_id'') (sort_key (text ''endpoint_name'') (concat responses))))))"

section \<open>Pods through the Kubernetes API\<close>

record kube_config =
  kc_application_type :: string
  kc_application_namespace :: string
  kc_nats_namespace :: string
  kc_cadvisor_interval :: pyfloat
  kc_cadvisor_enabled :: bool

record kube =
  kb_cached_nodes :: "string list"
  kb_last_cadvisor :: pyfloat
  kb_cadvisor_cache :: pods
  kb_errors :: "string list"
  kb_diagnostics :: dict

definition measured_service :: "kube_config \<Rightarrow> json \<Rightarrow> json \<Rightarrow> string option" where
  "measured_service cfg namespace name =
     service_for_pod (py_str namespace) (py_str name) (kc_application_type cfg) (kc_application_namespace cfg) (kc_nats_namespace cfg)"

definition kube_get :: "string \<Rightarrow> json result \<Rightarrow> dict result" where
  "kube_get path answer = rbind answer (\<lambda>value. case value of
      JObj d \<Rightarrow> Inr d | _ \<Rightarrow> raise RuntimeError (''Kubernetes endpoint '' @ path @ '' returned non-object JSON''))"

definition node_of_item :: "kube_config \<Rightarrow> json \<Rightarrow> string option result" where
  "node_of_item cfg item =
     rbind (jget item ''metadata'' (JObj [])) (\<lambda>metadata.
     rbind (jget metadata ''namespace'' (JStr [])) (\<lambda>namespace. rbind (jget metadata ''name'' (JStr [])) (\<lambda>name.
     if measured_service cfg namespace name = None then Inr None
     else rbind (jget item ''spec'' (JObj [])) (\<lambda>spec. rbind (jget spec ''nodeName'' (JStr [])) (\<lambda>node.
       Inr (if py_str node = [] then None else Some (py_str node)))))))"

definition relevant_nodes :: "kube_config \<Rightarrow> kube \<Rightarrow> json result \<Rightarrow> (string list \<times> kube) result" where
  "relevant_nodes cfg k answer =
     rbind (kube_get ''/api/v1/pods'' answer) (\<lambda>value.
     rbind (items_of (dict_get value ''items'' (JList []))) (\<lambda>items.
     rbind (rmap (node_of_item cfg) items) (\<lambda>nodes.
     let discovered = sorted_set (List.map_filter id nodes)
     in Inr (if discovered \<noteq> [] then (discovered, k\<lparr>kb_cached_nodes := discovered\<rparr>) else (kb_cached_nodes k, k)))))"

text \<open>\<open>int(value.get(outer, {}).get(inner, 0))\<close>.\<close>

definition inner_int :: "json \<Rightarrow> string \<Rightarrow> string \<Rightarrow> int result" where
  "inner_int value outer inner = rbind (jget value outer (JObj [])) (\<lambda>v. rbind (jget v inner (JInt 0)) py_int)"

definition pod_sample :: "kube_config \<Rightarrow> string \<Rightarrow> json \<Rightarrow> (string \<times> dict) option result" where
  "pod_sample cfg node pod =
     rbind (jget pod ''podRef'' (JObj [])) (\<lambda>reference.
     rbind (jget reference ''namespace'' (JStr [])) (\<lambda>namespace. rbind (jget reference ''name'' (JStr [])) (\<lambda>name.
     case measured_service cfg namespace name of
       None \<Rightarrow> Inr None
     | Some service \<Rightarrow>
         rbind (inner_int pod ''cpu'' ''usageCoreNanoSeconds'') (\<lambda>cpu.
         rbind (inner_int pod ''memory'' ''workingSetBytes'') (\<lambda>memory.
         rbind (inner_int pod ''network'' ''rxBytes'') (\<lambda>rx. rbind (inner_int pod ''network'' ''txBytes'') (\<lambda>tx.
         Inr (Some (py_str namespace @ ''/'' @ py_str name,
           [(''service'', JStr service), (''node'', JStr node), (''cpu_usage_core_nanoseconds'', JInt cpu),
            (''memory_working_set_bytes'', JInt memory), (''network_rx_bytes'', JInt rx), (''network_tx_bytes'', JInt tx)]))))))))) "

definition pods_update :: "pods \<Rightarrow> pods \<Rightarrow> pods" where
  "pods_update new pods = fold (\<lambda>(k, pod). AList.update k pod) new pods"

definition sample_node :: "kube_config \<Rightarrow> string \<Rightarrow> bool \<Rightarrow> json result \<Rightarrow> string result \<Rightarrow> (pods \<times> string list) result" where
  "sample_node cfg node collect_cadvisor summary cadvisor =
     rbind (kube_get (''/api/v1/nodes/'' @ node @ ''/proxy/stats/summary'') summary) (\<lambda>value.
     rbind (items_of (dict_get value ''pods'' (JList []))) (\<lambda>entries.
     rbind (rmap (pod_sample cfg node) entries) (\<lambda>found.
     let pods = pods_update (List.map_filter id found) []
     in Inr (if \<not> collect_cadvisor then (pods, [])
             else case cadvisor of
                 Inr body \<Rightarrow> (add_cadvisor_metrics pods body node, [])
               | Inl e \<Rightarrow> (pods, [node @ '' cAdvisor: '' @ exn_msg e])))))"

definition BASE_FIELDS :: "string list" where
  "BASE_FIELDS = [''service'', ''node'', ''cpu_usage_core_nanoseconds'', ''memory_working_set_bytes'', ''network_rx_bytes'', ''network_tx_bytes'']"

fun is_counter :: "string \<times> json \<Rightarrow> bool" where
  "is_counter (key, JInt _) = (key \<notin> set BASE_FIELDS)"
| "is_counter (key, JFloat _) = (key \<notin> set BASE_FIELDS)"
| "is_counter _ = False"

definition remember_counters :: "pods \<Rightarrow> pods \<Rightarrow> pods" where
  "remember_counters pods cache =
     fold (\<lambda>(pod_key, pod) c. if filter is_counter pod = [] then c else AList.update pod_key (filter is_counter pod) c) pods cache"

definition set_defaults :: "dict \<Rightarrow> dict \<Rightarrow> dict" where
  "set_defaults defaults d = fold (\<lambda>(key, v) d. if dict_has d key then d else d @ [(key, v)]) defaults d"

definition gather_node ::
  "kube_config \<Rightarrow> bool \<Rightarrow> (string \<Rightarrow> json result) \<Rightarrow> (string \<Rightarrow> string result) \<Rightarrow> string \<Rightarrow> pods \<times> string list \<Rightarrow> pods \<times> string list" where
  "gather_node cfg collect summaries cadvisors node s =
     (case sample_node cfg node collect (summaries node) (cadvisors node) of
        Inr (node_pods, errors) \<Rightarrow> (pods_update node_pods (fst s), snd s @ errors)
      | Inl e \<Rightarrow> (fst s, snd s @ [node @ '': '' @ exn_msg e]))"

definition kube_sample ::
  "kube_config \<Rightarrow> pyfloat \<Rightarrow> pyfloat \<Rightarrow> json result \<Rightarrow> (string \<Rightarrow> json result) \<Rightarrow> (string \<Rightarrow> string result)
   \<Rightarrow> (string list \<Rightarrow> string list \<times> string list) \<Rightarrow> kube \<Rightarrow> pods \<times> kube" where
  "kube_sample cfg started finished discovery summaries cadvisors waited k =
     (let (nodes, k1, errors) = (case relevant_nodes cfg k discovery of
              Inr (nodes, k1) \<Rightarrow> (nodes, k1, [])
            | Inl e \<Rightarrow> (kb_cached_nodes k, k, [''pod discovery: '' @ exn_msg e]));
          collect = (kc_cadvisor_enabled cfg \<and> f_le (kc_cadvisor_interval cfg) (f_sub started (kb_last_cadvisor k1)));
          (completed, unfinished) = waited nodes;
          (pods, errors1) = fold (gather_node cfg collect summaries cadvisors) completed ([], errors);
          errors2 = errors1 @ map (\<lambda>node. node @ '': snapshot deadline exceeded'') unfinished;
          cache = (if collect then remember_counters pods (kb_cadvisor_cache k1) else kb_cadvisor_cache k1)
      in (map (\<lambda>(pod_key, pod). (pod_key, set_defaults (lookup [] cache pod_key) pod)) pods,
          k1\<lparr>kb_last_cadvisor := (if collect then started else kb_last_cadvisor k1), kb_cadvisor_cache := cache, kb_errors := errors2,
             kb_diagnostics := [(''duration_seconds'', JFloat (f_round 6 (f_sub finished started))),
               (''nodes_requested'', JInt (int (length nodes))), (''nodes_completed'', JInt (int (length completed))),
               (''nodes_timed_out'', JInt (int (length unfinished))), (''cadvisor_collected'', JBool collect),
               (''partial'', JBool (errors2 \<noteq> []))]\<rparr>))"

section \<open>The observer of workflow events\<close>

record observer =
  ob_id :: string
  ob_totals :: "(string \<times> int) list"
  ob_error :: "string option"

datatype observer_event = WorkflowEvent string | Disconnected string | ClientError string

definition zero_totals :: "(string \<times> int) list" where
  "zero_totals = map (\<lambda>(name, _). (name, 0)) WORKFLOW_EVENT_SUBJECTS"

definition new_observer :: "string \<Rightarrow> observer" where
  "new_observer uuid = \<lparr>ob_id = uuid, ob_totals = zero_totals, ob_error = None\<rparr>"

text \<open>The callbacks of the connection: an event of one of the subjects, the loss of the connection, and an error of the client.\<close>

fun observe :: "observer_event \<Rightarrow> observer \<Rightarrow> observer" where
  "observe (WorkflowEvent name) ob = ob\<lparr>ob_totals := alter 0 (\<lambda>n. n + 1) name (ob_totals ob)\<rparr>"
| "observe (Disconnected uuid) ob = ob\<lparr>ob_id := uuid, ob_totals := zero_totals\<rparr>"
| "observe (ClientError message) ob = ob\<lparr>ob_error := Some message\<rparr>"

definition order_completed_sample :: "observer \<Rightarrow> dict result" where
  "order_completed_sample ob = (case ob_error ob of
      Some message \<Rightarrow> raise RuntimeError message
    | None \<Rightarrow> Inr [(''observer_id'', JStr (ob_id ob)), (''total'', JInt (lookup 0 (ob_totals ob) ''successful_orders'')),
        (''counts'', JObj (map (\<lambda>(name, n). (name, JInt n)) (ob_totals ob)))])"

section \<open>Snapshots\<close>

definition metric_json :: "metric \<Rightarrow> json" where
  "metric_json m = JObj [(''name'', JStr (mt_name m)), (''labels'', JObj (map (\<lambda>(n, v). (n, JStr v)) (mt_labels m))),
     (''value'', JFloat (Fin (mt_value m))), (''endpoint'', JStr (mt_endpoint m))]"

text \<open>The readings of the clocks: when a source was asked, when it had answered, and for how long.\<close>

record source_times =
  st_requested :: pyfloat
  st_collected :: pyfloat
  st_duration :: pyfloat

definition times_json :: "source_times \<Rightarrow> dict" where
  "times_json st = [(''requested_at'', JFloat (st_requested st)), (''collected_at'', JFloat (st_collected st)),
     (''duration_seconds'', JFloat (f_round 6 (st_duration st)))]"

definition collect_kubernetes :: "source_times \<Rightarrow> pods \<times> kube \<Rightarrow> dict" where
  "collect_kubernetes st sampled =
     (let (pods, k) = sampled in
      [(''pods'', JObj (map (\<lambda>(key, pod). (key, JObj pod)) pods)), (''errors'', JList (map JStr (kb_errors k))),
       (''sample'', JObj (times_json st @ [(''diagnostics'', JObj (kb_diagnostics k)), (''partial'', JBool (kb_errors k \<noteq> []))]))])"

datatype nats_task = Exporter string | Micro | Observer

fun task_name :: "nats_task \<Rightarrow> string" where
  "task_name (Exporter url) = url"
| "task_name Micro = ''micro stats''"
| "task_name Observer = ''completed-order count''"

record nats_answers =
  na_exporter :: "string \<Rightarrow> string result"
  na_micro :: "dict list result"
  na_observer :: "dict result"

record nats_value =
  nv_metrics :: "metric list"
  nv_micro :: "dict list"
  nv_observer :: "dict option"
  nv_errors :: "string list"

definition scrape_prometheus :: "string \<Rightarrow> string result \<Rightarrow> metric list result" where
  "scrape_prometheus url answer = rbind answer (\<lambda>body. Inr (parse_prometheus body NATS_METRICS url))"

definition gather_nats :: "nats_answers \<Rightarrow> nats_task \<Rightarrow> nats_value \<Rightarrow> nats_value" where
  "gather_nats na task v =
     (let failed = (\<lambda>e. v\<lparr>nv_errors := nv_errors v @ [task_name task @ '': '' @ exn_msg e]\<rparr>) in
      case task of
        Exporter url \<Rightarrow> (case scrape_prometheus url (na_exporter na url) of
            Inr ms \<Rightarrow> v\<lparr>nv_metrics := nv_metrics v @ ms\<rparr> | Inl e \<Rightarrow> failed e)
      | Micro \<Rightarrow> (case na_micro na of Inr ds \<Rightarrow> v\<lparr>nv_micro := ds\<rparr> | Inl e \<Rightarrow> failed e)
      | Observer \<Rightarrow> (case na_observer na of Inr d \<Rightarrow> v\<lparr>nv_observer := Some d\<rparr> | Inl e \<Rightarrow> failed e))"

definition stream_group :: "metric \<Rightarrow> (string \<times> string) option" where
  "stream_group m =
     (let stream = (if label m ''stream_name'' \<noteq> [] then label m ''stream_name'' else label m ''stream'');
          grp = label m ''stream_raft_group''
      in if stream \<in> set RAFT_STREAMS \<and> grp \<noteq> [] then Some (grp, stream) else None)"

definition nats_tasks :: "string list \<Rightarrow> bool \<Rightarrow> nats_task list" where
  "nats_tasks urls micro = map Exporter urls @ (if micro then [Micro, Observer] else [])"

text \<open>The document of the source and the raft groups of the application's streams known after it.\<close>

definition collect_nats ::
  "source_times \<Rightarrow> string list \<Rightarrow> bool \<Rightarrow> nats_answers \<Rightarrow> (nats_task list \<Rightarrow> nats_task list \<times> nats_task list)
   \<Rightarrow> (string \<times> string) list \<Rightarrow> dict \<times> (string \<times> string) list" where
  "collect_nats st urls micro na waited known =
     (let tasks = nats_tasks urls micro; (completed, unfinished) = waited tasks;
          v = fold (gather_nats na) completed \<lparr>nv_metrics = [], nv_micro = [], nv_observer = None, nv_errors = []\<rparr>;
          errors = nv_errors v @ map (\<lambda>task. task_name task @ '': NATS snapshot deadline exceeded'') unfinished;
          groups = List.map_filter stream_group (nv_metrics v)
      in ([(''nats_metrics'', JList (map metric_json (nv_metrics v))), (''nats_micro_endpoints'', JList (map JObj (nv_micro v))),
           (''nats_order_completed_observer'', case nv_observer v of None \<Rightarrow> JNull | Some d \<Rightarrow> JObj d),
           (''errors'', JList (map JStr errors)),
           (''sample'', JObj (times_json st @ [(''requests'', JInt (int (length tasks))), (''requests_completed'', JInt (int (length completed))),
             (''requests_timed_out'', JInt (int (length unfinished))), (''partial'', JBool (errors \<noteq> []))]))],
          fold (\<lambda>(grp, stream). AList.update grp stream) groups known))"

text \<open>The groups of the metadata, of consumers and of the application's streams; the latter are given the name of their stream.\<close>

definition select_group :: "(string \<times> string) list \<Rightarrow> dict \<Rightarrow> dict option" where
  "select_group stream_groups body =
     (let name = py_str (dict_get body ''group'' (JStr []));
          kind = dict_get body ''kind'' JNull
      in case map_of stream_groups name of
           Some stream \<Rightarrow> Some (dict_set ''stream_name'' (JStr stream) body)
         | None \<Rightarrow> if kind = JStr ''meta'' \<or> kind = JStr ''consumer'' then Some body else None)"

definition gather_raft :: "(string \<Rightarrow> json result) \<Rightarrow> string \<Rightarrow> dict list \<times> string list \<Rightarrow> dict list \<times> string list" where
  "gather_raft answers url s = (case scrape_nats_raft url (answers url) of
      Inr found \<Rightarrow> (fst s @ found, snd s) | Inl e \<Rightarrow> (fst s, snd s @ [url @ '': '' @ exn_msg e]))"

definition collect_nats_raft ::
  "source_times \<Rightarrow> string list \<Rightarrow> (string \<Rightarrow> json result) \<Rightarrow> (string list \<Rightarrow> string list \<times> string list) \<Rightarrow> (string \<times> string) list \<Rightarrow> dict" where
  "collect_nats_raft st urls answers waited stream_groups =
     (let (completed, unfinished) = waited urls;
          (found, errors) = fold (gather_raft answers) completed ([], []);
          errors1 = errors @ map (\<lambda>url. url @ '': NATS Raft snapshot deadline exceeded'') unfinished;
          selected = List.map_filter (select_group stream_groups) found
      in [(''nats_raft_groups'', JList (map JObj selected)), (''errors'', JList (map JStr errors1)),
          (''sample'', JObj (times_json st @ [(''requests'', JInt (int (length urls))), (''requests_completed'', JInt (int (length completed))),
            (''requests_timed_out'', JInt (int (length unfinished))), (''groups'', JInt (int (length selected))),
            (''partial'', JBool (errors1 \<noteq> []))]))])"

definition SOURCES :: "string \<Rightarrow> string list" where
  "SOURCES application_type = ''kubernetes'' # (if application_type = ''NATS'' then [''nats'', ''nats_raft''] else [])"

text \<open>One completed source: its sample is filed under its name, its errors are collected and the rest is merged into the snapshot.\<close>

definition merge_source :: "(string \<Rightarrow> dict result) \<Rightarrow> string \<Rightarrow> dict \<times> dict \<times> string list \<Rightarrow> dict \<times> dict \<times> string list" where
  "merge_source values source s =
     (let (result, samples, errors) = s in
      case values source of
        Inl e \<Rightarrow> (result, samples, errors @ [source @ '': '' @ exn_msg e])
      | Inr v \<Rightarrow>
          let found = (case dict_get v ''errors'' (JList []) of JList es \<Rightarrow> es | _ \<Rightarrow> [])
          in (dict_update result (dict_pop ''errors'' (dict_pop ''sample'' v)),
              dict_set source (dict_get v ''sample'' JNull) samples,
              errors @ map (\<lambda>e. source @ '': '' @ py_str e) found))"

definition cluster_snapshot ::
  "string \<Rightarrow> source_times \<Rightarrow> (string \<Rightarrow> dict result) \<Rightarrow> (string list \<Rightarrow> string list \<times> string list) \<Rightarrow> dict" where
  "cluster_snapshot application_type st values waited =
     (let (completed, unfinished) = waited (SOURCES application_type);
          empty = [(''pods'', JObj []), (''nats_metrics'', JList []), (''nats_micro_endpoints'', JList []),
            (''nats_order_completed_observer'', JNull), (''nats_raft_groups'', JList []), (''errors'', JList []), (''source_samples'', JObj [])];
          (result, samples, errors) = fold (merge_source values) completed (empty, [], []);
          errors1 = errors @ map (\<lambda>source. source @ '': whole-snapshot deadline exceeded'') unfinished
      in dict_update result [(''errors'', JList (map JStr errors1)), (''source_samples'', JObj samples),
           (''snapshot'', JObj [(''requested_at'', JFloat (st_requested st)), (''completed_at'', JFloat (st_collected st)),
             (''duration_seconds'', JFloat (f_round 6 (st_duration st))),
             (''sources_completed'', JList (map JStr (sort completed))), (''sources_timed_out'', JList (map JStr (sort unfinished)))])])"

end
