(* ===== verification/Cluster_Snapshot.thy ===== *)
theory Cluster_Snapshot
  imports Cluster_Metrics_Props
begin

text \<open>
  A snapshot without errors is complete: every failed, late or malformed answer of a node or of a source leaves an error, so that the
  absence of errors means that every measured pod was sampled. No other pod is ever part of a snapshot.
\<close>

section \<open>What the endpoints say\<close>

text \<open>The list of pods names a node that runs a measured pod; the summary of a node has a measured pod.\<close>

definition listed :: "kube_config \<Rightarrow> json result \<Rightarrow> string \<Rightarrow> bool" where
  "listed cfg discovery node \<longleftrightarrow> (\<exists>v items item. discovery = Inr (JObj v) \<and> items_of (dict_get v ''items'' (JList [])) = Inr items \<and>
     item \<in> set items \<and> node_of_item cfg item = Inr (Some node))"

definition reports :: "kube_config \<Rightarrow> string \<Rightarrow> json result \<Rightarrow> string \<Rightarrow> dict \<Rightarrow> bool" where
  "reports cfg node summary key base \<longleftrightarrow> (\<exists>v entries e. summary = Inr (JObj v) \<and> items_of (dict_get v ''pods'' (JList [])) = Inr entries \<and>
     e \<in> set entries \<and> pod_sample cfg node e = Inr (Some (key, base)))"

definition same_base :: "dict \<Rightarrow> dict \<Rightarrow> bool" where
  "same_base pod base \<longleftrightarrow> list_all (\<lambda>f. map_of pod f = map_of base f) BASE_FIELDS"

definition genuine :: "kube_config \<Rightarrow> (string \<Rightarrow> json result) \<Rightarrow> string \<Rightarrow> dict \<Rightarrow> bool" where
  "genuine cfg summaries key pod \<longleftrightarrow> (\<exists>node base. reports cfg node (summaries node) key base \<and> same_base pod base)"

section \<open>Dicts of pods\<close>

lemma update_set: "set (AList.update k v d) \<subseteq> insert (k, v) (set d)" "fst ` set (AList.update k v d) = insert k (fst ` set d)"
  by (induction d) auto

lemma pods_update_set: "set (pods_update new pods) \<subseteq> set new \<union> set pods" "fst ` set (pods_update new pods) = fst ` set new \<union> fst ` set pods"
  unfolding pods_update_def
proof (induction new arbitrary: pods)
  case (Cons x new)
  obtain k pod where x: "x = (k, pod)" by (cases x)
  { case 1 show ?case using Cons(1) [of "AList.update k pod pods"] update_set(1) [of k pod pods] by (auto simp: x) }
  { case 2 show ?case using Cons(2) [of "AList.update k pod pods"] by (simp add: x update_set(2)) }
qed simp_all

lemma alter_existing:
  assumes "k \<in> fst ` set xs" and "(k', w) \<in> set (alter v f k xs)"
  shows "(k', w) \<in> set xs \<or> k' = k \<and> (\<exists>u. (k, u) \<in> set xs \<and> w = f u)"
  using assms by (induction v f k xs rule: alter.induct) (auto split: if_splits)

section \<open>Counters leave the base fields alone\<close>

definition counter_fields :: "string set" where
  "counter_fields = insert [] (snd ` set CADVISOR_METRICS)"

definition plain_counters :: "counters \<Rightarrow> bool" where
  "plain_counters d \<longleftrightarrow> list_all (\<lambda>(key, c). list_all (\<lambda>(f, v). f \<in> counter_fields) c) d"

lemma plain_counters_add:
  assumes "plain_counters d" and "field \<in> counter_fields"
  shows "plain_counters (add_counter key field v d)"
  using assms by (fastforce simp: plain_counters_def list_all_iff add_counter_def dest!: alter_snd_induct)

lemma plain_counters_scanned:
  assumes "fold (cadvisor_step pods node) ms ([], []) = (found, fallbacks)"
  shows "plain_counters found \<and> plain_counters fallbacks"
proof (rule scan_invariant [OF _ _ assms])
  fix m :: metric and found fallbacks :: counters
  assume "plain_counters found \<and> plain_counters fallbacks"
  moreover have "(case map_of CADVISOR_METRICS (mt_name m) of Some f \<Rightarrow> f | None \<Rightarrow> []) \<in> counter_fields"
    by (auto simp: counter_fields_def split: option.splits dest!: map_of_SomeD intro: rev_image_eqI)
  ultimately show "plain_counters (fst (cadvisor_step pods node m (found, fallbacks))) \<and> plain_counters (snd (cadvisor_step pods node m (found, fallbacks)))"
    by (simp add: cadvisor_step_def Let_def plain_counters_add)
qed (simp add: plain_counters_def)

lemma with_fallbacks_set: "set (with_fallbacks fallback d) \<subseteq> set fallback \<union> set d"
  unfolding with_fallbacks_def by (induction fallback arbitrary: d) (fastforce split: if_splits prod.splits)+

lemma store_other:
  assumes "field \<notin> fst ` set c" and "field \<noteq> ''disk_io_operations_total''"
  shows "map_of (store_counters c pod) field = map_of pod field"
proof -
  have "map_of (fold (\<lambda>(field, v). dict_set field (counter_json field v)) c pod) field = map_of pod field"
    using assms(1) by (induction c arbitrary: pod) (auto simp: map_of_dict_set)
  then show ?thesis using assms(2) by (simp add: store_counters_def Let_def map_of_dict_set)
qed

lemma base_not_counter: "f \<in> set BASE_FIELDS \<Longrightarrow> f \<notin> counter_fields \<and> f \<noteq> ''disk_io_operations_total''"
proof -
  have "list_all (\<lambda>f. f \<notin> counter_fields \<and> f \<noteq> ''disk_io_operations_total'') BASE_FIELDS" by code_simp
  then show "f \<in> set BASE_FIELDS \<Longrightarrow> f \<notin> counter_fields \<and> f \<noteq> ''disk_io_operations_total''" unfolding list_all_iff by (rule bspec)
qed

lemma add_cadvisor_base:
  "fst ` set (add_cadvisor_metrics pods body node) = fst ` set pods \<and>
   (\<forall>key pod. (key, pod) \<in> set (add_cadvisor_metrics pods body node) \<longrightarrow> (\<exists>u. (key, u) \<in> set pods \<and> same_base pod u))"
proof -
  let ?ms = "parse_prometheus body (map fst CADVISOR_METRICS) node"
  obtain found fallbacks where s: "fold (cadvisor_step pods node) ?ms ([], []) = (found, fallbacks)" by fastforce
  have keys: "fst ` set found \<subseteq> fst ` set pods"
  proof -
    have "{key. on_node pods node key} \<subseteq> fst ` set pods"
    proof
      fix key
      assume "key \<in> {key. on_node pods node key}"
      then have "map_of pods key \<noteq> None" by (auto simp: on_node_def split: option.splits)
      then show "key \<in> fst ` set pods" by (simp add: map_of_eq_None_iff)
    qed
    then show ?thesis using keys_scanned [OF s] by blast
  qed
  have plain: "plain_counters found" "plain_counters fallbacks" using plain_counters_scanned [OF s] by simp_all
  let ?new = "\<lambda>k c. with_fallbacks (lookup [] fallbacks k) c"
  have fields: "fst ` set (?new k c) \<subseteq> counter_fields" if "(k, c) \<in> set found" for k c
    using plain that with_fallbacks_set [of "lookup [] fallbacks k" c]
    by (fastforce simp: plain_counters_def list_all_iff lookup_def split: option.splits dest!: map_of_SomeD)
  have base: "same_base (store_counters (?new k c) u) v" if "(k, c) \<in> set found" "same_base u v" for k c u v
    using fields [OF that(1)] that(2) base_not_counter
    by (force simp: same_base_def list_all_iff intro!: store_other trans [OF store_other])
  have "fst ` set (fold (\<lambda>(k, c). alter [] (store_counters (?new k c)) k) xs d) = fst ` set pods \<and>
      (\<forall>key pod. (key, pod) \<in> set (fold (\<lambda>(k, c). alter [] (store_counters (?new k c)) k) xs d) \<longrightarrow> (\<exists>u. (key, u) \<in> set pods \<and> same_base pod u))"
    if "set xs \<subseteq> set found" "fst ` set d = fst ` set pods" "\<forall>key pod. (key, pod) \<in> set d \<longrightarrow> (\<exists>u. (key, u) \<in> set pods \<and> same_base pod u)" for xs d
    using that
  proof (induction xs arbitrary: d)
    case (Cons x xs)
    obtain k c where x: "x = (k, c)" by (cases x)
    let ?d = "alter [] (store_counters (?new k c)) k d"
    have kc: "(k, c) \<in> set found" using Cons.prems(1) by (simp add: x)
    then have "k \<in> fst ` set found" by force
    then have k: "k \<in> fst ` set d" using keys Cons.prems(2) by blast
    have "fst ` set ?d = fst ` set pods" using k Cons.prems(2) by (auto simp: keys_alter)
    moreover have "\<exists>u. (key, u) \<in> set pods \<and> same_base pod u" if "(key, pod) \<in> set ?d" for key pod
      using alter_existing [OF k that] Cons.prems(3) base [OF kc] by blast
    ultimately show ?case using Cons.IH [of ?d] Cons.prems(1) by (simp add: x)
  qed simp
  from this [of found pods] show ?thesis
    by (auto simp: add_cadvisor_metrics_def s same_base_def list_all_iff)
qed

section \<open>The sample of a node\<close>

lemma map_filter_id: "x \<in> set (List.map_filter id ys) \<longleftrightarrow> Some x \<in> set ys"
  by (force simp: List.map_filter_def)

lemma kube_get_object: "kube_get path answer = Inr v \<Longrightarrow> answer = Inr (JObj v)"
  unfolding kube_get_def by (cases answer) (auto split: json.split_asm)

lemma rmap_member:
  assumes "rmap f xs = Inr ys"
  shows "y \<in> set ys \<longleftrightarrow> (\<exists>x. x \<in> set xs \<and> f x = Inr y)"
  using assms by (induction xs arbitrary: ys) auto

lemma sample_node_pods:
  assumes "sample_node cfg node collect summary cadvisor = Inr (pods, errors)"
  shows "reports cfg node summary key base \<Longrightarrow> key \<in> fst ` set pods"
    and "(key, pod) \<in> set pods \<Longrightarrow> \<exists>base. reports cfg node summary key base \<and> same_base pod base"
proof -
  obtain v entries found where v: "kube_get (''/api/v1/nodes/'' @ node @ ''/proxy/stats/summary'') summary = Inr v"
      "items_of (dict_get v ''pods'' (JList [])) = Inr entries" "rmap (pod_sample cfg node) entries = Inr found"
    using assms by (auto simp: sample_node_def)
  from kube_get_object [OF this(1)] have summary: "summary = Inr (JObj v)" .
  note found = rmap_member [OF v(3)]
  let ?pods = "pods_update (List.map_filter id found) []"
  have reports: "reports cfg node summary key base \<longleftrightarrow> Some (key, base) \<in> set found" for key base
    using v(2) by (auto simp: reports_def summary found)
  have pods: "pods = ?pods \<or> (\<exists>body. pods = add_cadvisor_metrics ?pods body node)"
    using assms v by (auto simp: sample_node_def Let_def split: if_splits sum.splits)
  have refl: "same_base u u" for u by (simp add: same_base_def list_all_iff)
  have keys: "fst ` set pods = fst ` set (List.map_filter id found)"
    using pods
  proof
    assume "pods = ?pods"
    then show ?thesis by (simp add: pods_update_set(2))
  next
    assume "\<exists>body. pods = add_cadvisor_metrics ?pods body node"
    then obtain body where "pods = add_cadvisor_metrics ?pods body node" ..
    then show ?thesis using add_cadvisor_base [of ?pods body node, THEN conjunct1] by (simp add: pods_update_set(2))
  qed
  show "key \<in> fst ` set pods" if "reports cfg node summary key base"
    using that by (force simp: keys reports map_filter_id [symmetric])
  show "\<exists>base. reports cfg node summary key base \<and> same_base pod base" if mem: "(key, pod) \<in> set pods"
  proof -
    obtain u where "(key, u) \<in> set ?pods" "same_base pod u" using pods mem add_cadvisor_base [of ?pods] refl by metis
    then show ?thesis using pods_update_set(1) [of "List.map_filter id found" "[]"] by (auto simp: reports map_filter_id [symmetric])
  qed
qed

section \<open>The sample of the cluster\<close>

lemma gather_genuine:
  assumes "fold (gather_node cfg collect summaries cadvisors) nodes (pods, errors) = (pods', errors')"
    and "(key, pod) \<in> set pods'"
  shows "(key, pod) \<in> set pods \<or> genuine cfg summaries key pod"
  using assms
proof (induction nodes arbitrary: pods errors)
  case (Cons node nodes)
  obtain p e where s: "gather_node cfg collect summaries cadvisors node (pods, errors) = (p, e)" by fastforce
  have "(key, pod) \<in> set p \<or> genuine cfg summaries key pod" using Cons.IH [of p e] Cons.prems s by simp
  moreover have "(key, pod) \<in> set pods \<or> genuine cfg summaries key pod" if "(key, pod) \<in> set p"
  proof (cases "sample_node cfg node collect (summaries node) (cadvisors node)")
    case (Inl x)
    then show ?thesis using s that by (simp add: gather_node_def)
  next
    case (Inr r)
    obtain node_pods es where r: "r = (node_pods, es)" by (cases r)
    then have "(key, pod) \<in> set node_pods \<union> set pods" using s that Inr pods_update_set(1) by (fastforce simp: gather_node_def)
    then show ?thesis using sample_node_pods(2) [OF Inr [unfolded r]] by (auto simp: genuine_def)
  qed
  ultimately show ?case by blast
qed simp

lemma gather_complete:
  assumes "fold (gather_node cfg collect summaries cadvisors) nodes (pods, errors) = (pods', [])"
  shows "errors = [] \<and> fst ` set pods \<subseteq> fst ` set pods' \<and>
    (\<forall>node key base. node \<in> set nodes \<longrightarrow> reports cfg node (summaries node) key base \<longrightarrow> key \<in> fst ` set pods')"
  using assms
proof (induction nodes arbitrary: pods errors)
  case (Cons node nodes)
  obtain p e where s: "gather_node cfg collect summaries cadvisors node (pods, errors) = (p, e)" by fastforce
  have IH: "e = []" "fst ` set p \<subseteq> fst ` set pods'"
      "\<forall>node key base. node \<in> set nodes \<longrightarrow> reports cfg node (summaries node) key base \<longrightarrow> key \<in> fst ` set pods'"
    using Cons.IH [of p e] Cons.prems s by simp_all
  obtain node_pods where n: "sample_node cfg node collect (summaries node) (cadvisors node) = Inr (node_pods, [])"
      "p = pods_update node_pods pods" "errors = []"
    using s IH(1) by (auto simp: gather_node_def split: sum.splits)
  have "fst ` set p = fst ` set node_pods \<union> fst ` set pods" by (simp add: n(2) pods_update_set(2))
  then have "fst ` set node_pods \<subseteq> fst ` set pods'" "fst ` set pods \<subseteq> fst ` set pods'" using IH(2) by simp_all
  then show ?case using IH(3) sample_node_pods(1) [OF n(1)] n(3) by (simp add: subset_iff)
qed simp

lemma set_defaults_keeps:
  assumes "map_of d f \<noteq> None"
  shows "map_of (set_defaults e d) f = map_of d f"
  using assms unfolding set_defaults_def
  by (induction e arbitrary: d) (auto simp: map_add_def split: option.splits)

lemma reported_base: "reports cfg node summary key base \<Longrightarrow> f \<in> set BASE_FIELDS \<Longrightarrow> map_of base f \<noteq> None"
proof -
  assume r: "reports cfg node summary key base" and f: "f \<in> set BASE_FIELDS"
  then obtain e where "pod_sample cfg node e = Inr (Some (key, base))" by (auto simp: reports_def)
  then have "map fst base = BASE_FIELDS" by (auto simp: pod_sample_def BASE_FIELDS_def split: option.splits)
  then show ?thesis using f by (simp add: map_of_eq_None_iff flip: set_map)
qed

lemma genuine_defaults:
  assumes "genuine cfg summaries key pod"
  shows "genuine cfg summaries key (set_defaults e pod)"
proof -
  obtain node base where n: "reports cfg node (summaries node) key base" "same_base pod base" using assms by (auto simp: genuine_def)
  then have "same_base (set_defaults e pod) base"
    using reported_base [OF n(1)] by (auto simp: same_base_def list_all_iff set_defaults_keeps)
  then show ?thesis using n(1) by (auto simp: genuine_def)
qed

definition splits :: "('a list \<Rightarrow> 'a list \<times> 'a list) \<Rightarrow> bool" where
  "splits waited \<longleftrightarrow> (\<forall>xs. mset (fst (waited xs)) + mset (snd (waited xs)) = mset xs)"

lemma relevant_listed:
  assumes "relevant_nodes cfg k discovery = Inr (nodes, k1)" and "listed cfg discovery node"
  shows "node \<in> set nodes"
proof -
  obtain v items found where v: "kube_get ''/api/v1/pods'' discovery = Inr v" "items_of (dict_get v ''items'' (JList [])) = Inr items"
      "rmap (node_of_item cfg) items = Inr found"
    using assms(1) by (auto simp: relevant_nodes_def)
  from kube_get_object [OF this(1)] have "Some node \<in> set found" using assms(2) v(2) rmap_member [OF v(3)] by (auto simp: listed_def)
  then have m: "node \<in> set (sorted_set (List.map_filter id found))" by (simp add: map_filter_id)
  then have "sorted_set (List.map_filter id found) \<noteq> []" by (metis empty_iff list.set(1))
  then show ?thesis using assms(1) v m by (auto simp: relevant_nodes_def Let_def)
qed

lemma kube_sample_complete:
  assumes "kube_sample cfg started finished discovery summaries cadvisors waited k = (pods, k')" and "splits waited"
  shows "(key, pod) \<in> set pods \<Longrightarrow> genuine cfg summaries key pod"
    and "kb_errors k' = [] \<Longrightarrow> listed cfg discovery node \<Longrightarrow> reports cfg node (summaries node) key base \<Longrightarrow> key \<in> fst ` set pods"
proof -
  obtain nodes k1 errors where start: "(case relevant_nodes cfg k discovery of
              Inr (nodes, k1) \<Rightarrow> (nodes, k1, [])
            | Inl e \<Rightarrow> (kb_cached_nodes k, k, [''pod discovery: '' @ exn_msg e])) = (nodes, k1, errors)" by (metis prod_cases3)
  define collect where "collect = (kc_cadvisor_enabled cfg \<and> f_le (kc_cadvisor_interval cfg) (f_sub started (kb_last_cadvisor k1)))"
  obtain completed unfinished where w: "waited nodes = (completed, unfinished)" by fastforce
  obtain ps errors1 where g: "fold (gather_node cfg collect summaries cadvisors) completed ([], errors) = (ps, errors1)" by fastforce
  define cache where "cache = (if collect then remember_counters ps (kb_cadvisor_cache k1) else kb_cadvisor_cache k1)"
  have pods: "pods = map (\<lambda>(pod_key, pod). (pod_key, set_defaults (lookup [] cache pod_key) pod)) ps"
    and errs: "kb_errors k' = errors1 @ map (\<lambda>node. node @ '': snapshot deadline exceeded'') unfinished"
    using assms(1) unfolding kube_sample_def Let_def start prod.case collect_def [symmetric] w g cache_def by auto
  show "genuine cfg summaries key pod" if "(key, pod) \<in> set pods"
    using that gather_genuine [OF g] genuine_defaults by (auto simp: pods)
  show "key \<in> fst ` set pods" if clean: "kb_errors k' = []" and l: "listed cfg discovery node" "reports cfg node (summaries node) key base"
  proof -
    have e: "errors1 = []" "unfinished = []" using clean errs by simp_all
    note gathered = gather_complete [OF g [unfolded e(1)]]
    have rel: "relevant_nodes cfg k discovery = Inr (nodes, k1)"
      using start gathered by (auto split: sum.splits)
    have "mset completed = mset nodes" using assms(2) w e(2) unfolding splits_def by (metis add.right_neutral fst_conv mset.simps(1) snd_conv)
    then have "set completed = set nodes" by (rule mset_eq_setD)
    moreover have "node \<in> set nodes" using relevant_listed [OF rel l(1)] .
    ultimately have "key \<in> fst ` set ps" using gathered l(2) by blast
    then show ?thesis by (force simp: pods)
  qed
qed

section \<open>Snapshots\<close>

lemma merge_source_errors:
  assumes "fold (merge_source docs) sources (result, samples, errors) = (result', samples', [])"
  shows "errors = [] \<and> (\<forall>source v. source \<in> set sources \<longrightarrow> docs source = Inr v \<longrightarrow> (case dict_get v ''errors'' (JList []) of JList es \<Rightarrow> es | _ \<Rightarrow> []) = [])"
  using assms
proof (induction sources arbitrary: result samples errors)
  case (Cons source sources)
  obtain r sm e where s: "merge_source docs source (result, samples, errors) = (r, sm, e)" by (metis prod_cases3)
  have "e = []" "\<forall>source v. source \<in> set sources \<longrightarrow> docs source = Inr v \<longrightarrow> (case dict_get v ''errors'' (JList []) of JList es \<Rightarrow> es | _ \<Rightarrow> []) = []"
    using Cons.IH [of r sm e] Cons.prems s by simp_all
  then show ?case using s by (cases "docs source") (auto simp: merge_source_def Let_def)
qed simp

definition pods_json :: "pods \<Rightarrow> json" where
  "pods_json pods = JObj (map (\<lambda>(key, pod). (key, JObj pod)) pods)"

lemma collect_kubernetes_fields:
  "dict_pop ''errors'' (dict_pop ''sample'' (collect_kubernetes st (pods, k))) = [(''pods'', pods_json pods)]"
  "dict_get (collect_kubernetes st (pods, k)) ''errors'' v = JList (map JStr (kb_errors k))"
  by (simp_all add: collect_kubernetes_def pods_json_def dict_pop_def dict_get_def)

lemma no_pods:
  "map_of (fst (collect_nats st urls micro na waited known)) ''pods'' = None"
  "map_of (collect_nats_raft st urls answers waited' groups) ''pods'' = None"
  by (simp_all add: collect_nats_def collect_nats_raft_def Let_def split: prod.splits)

text \<open>Only one of the sources has pods.\<close>

lemma merge_source_pods:
  assumes "distinct sources" and "docs ''kubernetes'' = Inr (collect_kubernetes st (pods, k))"
    and "\<And>source w. source \<in> set sources \<Longrightarrow> source \<noteq> ''kubernetes'' \<Longrightarrow> docs source = Inr w \<Longrightarrow> map_of w ''pods'' = None"
  shows "dict_get (fst (fold (merge_source docs) sources (result, samples, errors))) ''pods'' JNull =
    (if ''kubernetes'' \<in> set sources then pods_json pods else dict_get result ''pods'' JNull)"
  using assms(1,3)
proof (induction sources arbitrary: result samples errors)
  case (Cons source sources)
  obtain r sm e where s: "merge_source docs source (result, samples, errors) = (r, sm, e)" by (metis prod_cases3)
  have IH: "dict_get (fst (fold (merge_source docs) sources (r, sm, e))) ''pods'' JNull =
      (if ''kubernetes'' \<in> set sources then pods_json pods else dict_get r ''pods'' JNull)"
    using Cons.prems by (intro Cons.IH) auto
  have "dict_get r ''pods'' JNull = (if source = ''kubernetes'' then pods_json pods else dict_get result ''pods'' JNull)"
  proof (cases "docs source")
    case (Inl x)
    then show ?thesis using s assms(2) by (auto simp: merge_source_def)
  next
    case (Inr w)
    then have r: "r = dict_update result (dict_pop ''errors'' (dict_pop ''sample'' w))" using s by (simp add: merge_source_def Let_def)
    show ?thesis
    proof (cases "source = ''kubernetes''")
      case True
      then have "w = collect_kubernetes st (pods, k)" using Inr assms(2) by simp
      then show ?thesis using True by (simp add: r collect_kubernetes_fields)
    next
      case False
      then have "map_of (dict_pop ''errors'' (dict_pop ''sample'' w)) ''pods'' = None"
        using Cons.prems(2) [OF _ False Inr] by (simp add: map_of_dict_pop)
      then show ?thesis using False by (simp add: r dict_get_update_notin map_of_eq_None_iff)
    qed
  qed
  then show ?case using IH s Cons.prems(1) by auto
qed simp

lemma sources_split:
  assumes "splits waited" and "waited (SOURCES application_type) = (completed, unfinished)"
  shows "distinct completed" and "set completed \<subseteq> {''kubernetes'', ''nats'', ''nats_raft''}" and "''kubernetes'' \<in> set completed \<union> set unfinished"
proof -
  have "mset completed + mset unfinished = mset (SOURCES application_type)"
    using assms unfolding splits_def by (metis fst_conv snd_conv)
  then have m: "mset (completed @ unfinished) = mset (SOURCES application_type)" by simp
  have "distinct (SOURCES application_type)" by (simp add: SOURCES_def)
  then have "distinct (completed @ unfinished)" using mset_eq_imp_distinct_iff [OF m] by simp
  then show "distinct completed" by simp
  have s: "set completed \<union> set unfinished = set (SOURCES application_type)" using mset_eq_setD [OF m] by simp
  moreover have "set (SOURCES application_type) \<subseteq> {''kubernetes'', ''nats'', ''nats_raft''}" "''kubernetes'' \<in> set (SOURCES application_type)"
    by (auto simp: SOURCES_def)
  ultimately show "set completed \<subseteq> {''kubernetes'', ''nats'', ''nats_raft''}" "''kubernetes'' \<in> set completed \<union> set unfinished" by blast+
qed

section \<open>Properties\<close>

text \<open>C37. A snapshot without errors is complete, and no snapshot holds a pod that was not measured. Whatever the endpoints answer, whichever
  threads finish in time and in whatever order: when the errors of a snapshot are empty, every pod of a measured service that
  the summary of one of the discovered nodes has is in the snapshot; and every pod in a snapshot, with or without errors,
  was reported by a node under its name, as part of the service it is counted for, with the processor time, memory and
  traffic of that report.\<close>

theorem clean_snapshot_is_complete:
  assumes "docs ''kubernetes'' = Inr (collect_kubernetes st1 (kube_sample cfg started finished discovery summaries cadvisors waited1 k))"
    and "docs ''nats'' = Inr (fst (collect_nats st2 urls micro na waited2 known))"
    and "docs ''nats_raft'' = Inr (collect_nats_raft st3 raft_urls answers waited3 groups)"
    and "splits waited1" and "splits waited"
  shows "\<exists>ps. dict_get (cluster_snapshot application_type st docs waited) ''pods'' JNull = JObj ps \<and>
    (\<forall>key pod. (key, JObj pod) \<in> set ps \<longrightarrow> genuine cfg summaries key pod) \<and>
    (dict_get (cluster_snapshot application_type st docs waited) ''errors'' JNull = JList [] \<longrightarrow>
      (\<forall>node key base. listed cfg discovery node \<longrightarrow> reports cfg node (summaries node) key base \<longrightarrow> key \<in> fst ` set ps))"
proof -
  obtain pods k' where sampled: "kube_sample cfg started finished discovery summaries cadvisors waited1 k = (pods, k')" by fastforce
  note sample = kube_sample_complete [OF sampled assms(4)]
  have kube: "docs ''kubernetes'' = Inr (collect_kubernetes st1 (pods, k'))" using assms(1) sampled by simp
  obtain completed unfinished where w: "waited (SOURCES application_type) = (completed, unfinished)" by fastforce
  let ?empty = "[(''pods'', JObj []), (''nats_metrics'', JList []), (''nats_micro_endpoints'', JList []),
      (''nats_order_completed_observer'', JNull), (''nats_raft_groups'', JList []), (''errors'', JList []), (''source_samples'', JObj [])]"
  obtain result samples errors where m: "fold (merge_source docs) completed (?empty, [], []) = (result, samples, errors)" by (metis prod_cases3)
  let ?errors = "errors @ map (\<lambda>source. source @ '': whole-snapshot deadline exceeded'') unfinished"
  have snap: "dict_get (cluster_snapshot application_type st docs waited) ''errors'' JNull = JList (map JStr ?errors)"
      "dict_get (cluster_snapshot application_type st docs waited) ''pods'' JNull = dict_get result ''pods'' JNull"
    by (simp_all add: cluster_snapshot_def w m)
  note split = sources_split [OF assms(5) w]
  have others: "map_of v ''pods'' = None" if "source \<in> set completed" "source \<noteq> ''kubernetes''" "docs source = Inr v" for source v
  proof -
    have "source = ''nats'' \<or> source = ''nats_raft''" using that split(2) by blast
    then show ?thesis using that(3) assms(2,3) no_pods by auto
  qed
  have pods: "dict_get result ''pods'' JNull = (if ''kubernetes'' \<in> set completed then pods_json pods else JObj [])"
    using merge_source_pods [where docs = docs and sources = completed and result = ?empty and samples = "[]" and errors = "[]", OF split(1) kube others] m
    by (simp add: dict_get_def)
  define ps where "ps = (if ''kubernetes'' \<in> set completed then map (\<lambda>(key, pod). (key, JObj pod)) pods else [])"
  have "genuine cfg summaries key pod" if "(key, JObj pod) \<in> set ps" for key pod
    using that sample(1) by (auto simp: ps_def split: if_splits)
  moreover have "key \<in> fst ` set ps" if "?errors = []" "listed cfg discovery node" "reports cfg node (summaries node) key base" for node key base
  proof -
    have e: "errors = []" "unfinished = []" using that(1) by simp_all
    then have here: "''kubernetes'' \<in> set completed" using split(3) by simp
    have "kb_errors k' = []"
      using merge_source_errors [OF m [unfolded e(1)]] here kube by (auto simp: collect_kubernetes_fields)
    then show ?thesis using sample(2) [OF _ that(2,3)] here by (force simp: ps_def)
  qed
  moreover have "dict_get (cluster_snapshot application_type st docs waited) ''pods'' JNull = JObj ps"
    using snap(2) pods by (simp add: ps_def pods_json_def)
  ultimately show ?thesis using snap(1) by auto
qed

section \<open>Witness\<close>

definition demo_cluster :: kube_config where
  "demo_cluster = \<lparr>kc_application_type = ''NATS'', kc_application_namespace = ''shop'', kc_nats_namespace = ''nats'', kc_cadvisor_interval = Fin 30,
     kc_cadvisor_enabled = False\<rparr>"

definition demo_kube :: kube where
  "demo_kube = \<lparr>kb_cached_nodes = [], kb_last_cadvisor = Fin 0, kb_cadvisor_cache = [], kb_errors = [], kb_diagnostics = []\<rparr>"

definition demo_discovery :: "json result" where
  "demo_discovery = Inr (JObj [(''items'', JList [JObj [
     (''metadata'', JObj [(''namespace'', JStr ''shop''), (''name'', JStr ''frontend-a'')]), (''spec'', JObj [(''nodeName'', JStr ''n1'')])]])])"

definition demo_entry :: json where
  "demo_entry = JObj [(''podRef'', JObj [(''namespace'', JStr ''shop''), (''name'', JStr ''frontend-a'')]),
     (''cpu'', JObj [(''usageCoreNanoSeconds'', JInt 7)])]"

definition demo_summary :: "string \<Rightarrow> json result" where
  "demo_summary node = Inr (JObj [(''pods'', JList [demo_entry])])"

definition demo_times :: source_times where
  "demo_times = \<lparr>st_requested = Fin 100, st_collected = Fin 101, st_duration = Fin 1\<rparr>"

definition all_in_time :: "'a list \<Rightarrow> 'a list \<times> 'a list" where
  "all_in_time xs = (xs, [])"

definition demo_docs :: "string \<Rightarrow> dict result" where
  "demo_docs source =
     (if source = ''kubernetes'' then
        Inr (collect_kubernetes demo_times (kube_sample demo_cluster (Fin 100) (Fin 101) demo_discovery demo_summary (\<lambda>_. Inr []) all_in_time demo_kube))
      else if source = ''nats'' then
        Inr (fst (collect_nats demo_times [] False \<lparr>na_exporter = (\<lambda>_. Inr []), na_micro = Inr [], na_observer = Inr []\<rparr> all_in_time []))
      else Inr (collect_nats_raft demo_times [] (\<lambda>_. Inr (JObj [])) all_in_time []))"

definition demo_base :: dict where
  "demo_base = [(''service'', JStr ''frontend''), (''node'', JStr ''n1''), (''cpu_usage_core_nanoseconds'', JInt 7),
     (''memory_working_set_bytes'', JInt 0), (''network_rx_bytes'', JInt 0), (''network_tx_bytes'', JInt 0)]"

theorem clean_snapshot_is_complete_witness:
  "\<exists>ps. dict_get (cluster_snapshot ''NATS'' demo_times demo_docs all_in_time) ''pods'' JNull = JObj ps \<and> ''shop/frontend-a'' \<in> fst ` set ps"
proof -
  have clean: "dict_get (cluster_snapshot ''NATS'' demo_times demo_docs all_in_time) ''errors'' JNull = JList []" by code_simp
  have "node_of_item demo_cluster (JObj [(''metadata'', JObj [(''namespace'', JStr ''shop''), (''name'', JStr ''frontend-a'')]),
      (''spec'', JObj [(''nodeName'', JStr ''n1'')])]) = Inr (Some ''n1'')" by code_simp
  then have l: "listed demo_cluster demo_discovery ''n1''" by (simp add: listed_def demo_discovery_def dict_get_def)
  have "pod_sample demo_cluster ''n1'' demo_entry = Inr (Some (''shop/frontend-a'', demo_base))" by code_simp
  then have r: "reports demo_cluster ''n1'' (demo_summary ''n1'') ''shop/frontend-a'' demo_base"
    by (simp add: reports_def demo_summary_def dict_get_def)
  have "splits all_in_time" by (simp add: splits_def all_in_time_def)
  then have "\<exists>ps. dict_get (cluster_snapshot ''NATS'' demo_times demo_docs all_in_time) ''pods'' JNull = JObj ps \<and>
    (\<forall>key pod. (key, JObj pod) \<in> set ps \<longrightarrow> genuine demo_cluster demo_summary key pod) \<and>
    (dict_get (cluster_snapshot ''NATS'' demo_times demo_docs all_in_time) ''errors'' JNull = JList [] \<longrightarrow>
      (\<forall>node key base. listed demo_cluster demo_discovery node \<longrightarrow> reports demo_cluster node (demo_summary node) key base \<longrightarrow> key \<in> fst ` set ps))"
    by (intro clean_snapshot_is_complete [of demo_docs demo_times demo_cluster "Fin 100" "Fin 101" demo_discovery demo_summary "\<lambda>_. Inr []" all_in_time
          demo_kube demo_times "[]" False "\<lparr>na_exporter = (\<lambda>_. Inr []), na_micro = Inr [], na_observer = Inr []\<rparr>" all_in_time "[]" demo_times "[]"
          "\<lambda>_. Inr (JObj [])" all_in_time "[]"]) (simp_all add: demo_docs_def)
  then show ?thesis using clean l r by blast
qed

end
