(* ===== verification/Storefront.thy ===== *)
theory Storefront
  imports Checkout
begin

text \<open>
  What the load generator does besides the checkout over NATS, \<open>src/benchmarkservice/locustfile.py\<close>: browsing, the preparation of a cart by
  either adapter, the checkout of the gRPC storefront, the transaction that a driver starts for every scheduled order, and the tasks of a user of the
  closed loop.
  \<open>issued\<close> is \<open>issued_session_cookie\<close>, the session cookie that a response sets.
\<close>

section \<open>Browsing\<close>

definition PRODUCTS :: "string list" where
  "PRODUCTS = [''0PUK6V6EV0'', ''1YMWWN1N4O'', ''2ZYFJ3GM2N'', ''66VCHSJNUP'', ''6E92ZMYYFZ'', ''9SIQT8TOJO'', ''L9ECAV7KIM'', ''LS4PSXUNUM'', ''OLJCESPC7Z'']"

definition CURRENCIES :: "string list" where
  "CURRENCIES = [''EUR'', ''USD'', ''JPY'', ''CAD'', ''GBP'', ''TRY'']"

text \<open>A response of a page is a failure of the generator's own accounting only when the request timed out.\<close>

definition check_page :: "string \<Rightarrow> json \<Rightarrow> (shop_eff, unit) prog" where
  "check_page operation response =
     lift (status_of response) (\<lambda>status.
       if status = 0 then tell (HttpFailure (failure_str (http_status_failure 0 ''HTTP_FAILURE'' operation None))) (Ret ()) else Ret ())"

definition home :: "shop \<Rightarrow> (shop_eff, unit) prog" where
  "home sh = request_headers sh [] False (\<lambda>h. bindp (request (HttpGet ''/'' h)) (check_page ''home request''))"

definition set_currency :: "shop \<Rightarrow> (shop_eff, unit) prog" where
  "set_currency sh = Ext (Choice CURRENCIES) (\<lambda>c. request_headers sh [] False (\<lambda>h.
     bindp (request (HttpPost ''/setCurrency'' [(''currency_code'', JStr (words c))] h)) (\<lambda>response. lift (status_of response) (\<lambda>status.
       if status = 302 \<or> status = 303 then Ret ()
       else tell (HttpFailure (failure_str (http_status_failure status ''HTTP_FAILURE'' ''currency request'' None))) (Ret ())))))"

definition browse_product :: "shop \<Rightarrow> (shop_eff, unit) prog" where
  "browse_product sh = Ext (Choice PRODUCTS) (\<lambda>p. request_headers sh [] False (\<lambda>h.
     bindp (request (HttpGet (''/product/'' @ words p) h)) (check_page ''product request'')))"

definition view_cart :: "shop \<Rightarrow> (shop_eff, unit) prog" where
  "view_cart sh = request_headers sh [] False (\<lambda>h. bindp (request (HttpGet ''/cart'' h)) (check_page ''cart request''))"

section \<open>The cart\<close>

definition refuse :: "failure \<Rightarrow> (shop_eff, failure option) prog" where
  "refuse f = tell (HttpFailure (failure_str f)) (Ret (Some f))"

text \<open>\<open>GrpcAdapter._submit_cart_add\<close>.\<close>

definition grpc_cart_add :: "shop \<Rightarrow> dict \<Rightarrow> (shop_eff, failure option) prog" where
  "grpc_cart_add sh data = request_headers sh [] False (\<lambda>h.
     bindp (request (HttpPost ''/cart'' data h)) (\<lambda>response. lift (status_of response) (\<lambda>status.
       if status \<noteq> 302 \<and> status \<noteq> 303 then refuse (http_status_failure status ''PRECONDITION_FAILED'' ''cart request'' None)
       else tell HttpSuccess (Ret None))))"

text \<open>The document of a response; \<open>None\<close> where \<open>response.json()\<close> raises.\<close>

definition document_of :: "json \<Rightarrow> json option" where
  "document_of response = (case response of JObj d \<Rightarrow> map_of d ''json'' | _ \<Rightarrow> None)"

text \<open>The loop of \<open>NatsAdapter._submit_cart_add\<close> that polls the operation; \<open>polls\<close> bounds its iterations.\<close>

fun poll_cart :: "nat \<Rightarrow> shop \<Rightarrow> string \<Rightarrow> pyfloat \<Rightarrow> pyfloat \<Rightarrow> (shop_eff, failure option) prog" where
  "poll_cart 0 sh location deadline delay = Raise out_of_fuel"
| "poll_cart (Suc polls) sh location deadline delay = now (\<lambda>t.
     if \<not> f_lt t deadline then Ret (Some (failure_message ''PRECONDITION_FAILED'' ''cart operation did not complete'' None))
     else bindp (request (Pause delay)) (\<lambda>_. request_headers sh ''application/json'' False (\<lambda>h.
       bindp (request (HttpGet location h)) (\<lambda>response.
       let delay1 = retry_after_seconds response in
       lift (status_of response) (\<lambda>status.
         if status = 404 \<or> status = 503 then tell HttpSuccess (poll_cart polls sh location deadline delay1)
         else if status \<noteq> 200 then refuse (http_status_failure status ''PRECONDITION_FAILED'' ''cart operation request'' None)
         else case document_of response of
           None \<Rightarrow> tell (HttpFailure ''operation response is not JSON'')
             (Ret (Some (failure_message ''PRECONDITION_FAILED'' ''cart operation response is not JSON'' None)))
         | Some operation \<Rightarrow> tell HttpSuccess (lift (jget operation ''status'' JNull) (\<lambda>outcome.
             if outcome = JStr ''SUCCEEDED'' then Ret None
             else if outcome = JStr ''REJECTED'' then Ret (Some (failure_message ''PRECONDITION_FAILED'' ''cart operation was rejected'' None))
             else poll_cart polls sh location deadline delay1)))))))"

definition nats_cart_add :: "nat \<Rightarrow> shop \<Rightarrow> dict \<Rightarrow> (shop_eff, failure option) prog" where
  "nats_cart_add polls sh data = request_headers sh ''application/json'' True (\<lambda>h.
     bindp (request (HttpPost ''/cart'' data h)) (\<lambda>response. lift (status_of response) (\<lambda>status.
       if status = 302 \<or> status = 303 then tell HttpSuccess (Ret None)
       else if status \<noteq> 202 then refuse (http_status_failure status ''PRECONDITION_FAILED'' ''cart request'' None)
       else lift (header response ''Location'') (\<lambda>location.
         case location of
           Some (c # cs) \<Rightarrow>
             tell HttpSuccess (now (\<lambda>t. Ext DrainDeadline (\<lambda>d.
               poll_cart polls sh (c # cs) (f_min (f_add t (outcome_timeout_seconds (sh_config sh))) (reading d)) (retry_after_seconds response))))
         | _ \<Rightarrow> tell (HttpFailure ''202 cart operation omitted Location'')
             (Ret (Some (failure_message ''PRECONDITION_FAILED'' ''cart operation Location is missing'' None)))))))"

definition is_nats :: "shop \<Rightarrow> bool" where
  "is_nats sh \<longleftrightarrow> application_type (sh_config sh) = ''NATS''"

text \<open>The failure, if any, and the adapter with the session cookie of the response.\<close>

definition adapter_add_item :: "nat \<Rightarrow> (json \<Rightarrow> string option) \<Rightarrow> shop \<Rightarrow> (shop_eff, failure option \<times> shop) prog" where
  "adapter_add_item polls issued sh = Ext (Choice PRODUCTS) (\<lambda>p. request_headers sh [] False (\<lambda>h.
     bindp (request (HttpGet (''/product/'' @ words p) h)) (\<lambda>response. lift (status_of response) (\<lambda>status.
       if status \<noteq> 200
       then bindp (refuse (http_status_failure status ''PRECONDITION_FAILED'' ''product request'' None)) (\<lambda>f. Ret (f, sh))
       else
         let sh1 = (case issued response of None \<Rightarrow> sh | Some c \<Rightarrow> sh\<lparr>sh_cookie := Some c\<rparr>) in
         Ext (RandInt 1 10) (\<lambda>q.
           let data = [(''product_id'', JStr (words p)), (''quantity'', answer_of q)] in
           bindp (if is_nats sh1 then nats_cart_add polls sh1 data else grpc_cart_add sh1 data) (\<lambda>f. Ret (f, sh1)))))))"

section \<open>Orders\<close>

definition record_precondition_failure :: "shop \<Rightarrow> submission \<Rightarrow> failure \<Rightarrow> (shop_eff, unit) prog" where
  "record_precondition_failure sh su f = base_context sh su (\<lambda>ctx.
     tell (Fire ''checkout_to_outcome''
       (dict_set ''failure_message'' (JStr (if bf_detail f = [] then failure_str f else bf_detail f)) (dict_set ''outcome'' (JStr (bf_outcome f)) ctx))
       None (Some (failure_str f)) None) (Ret ()))"

definition record_generator_saturation :: "shop \<Rightarrow> submission \<Rightarrow> (shop_eff, unit) prog" where
  "record_generator_saturation sh su = base_context sh su (\<lambda>ctx.
     tell (Fire ''checkout_to_outcome'' (dict_set ''outcome'' (JStr ''GENERATOR_SATURATED'') ctx) None
       (Some (failure_str (failure_message ''GENERATOR_SATURATED'' ''open-loop concurrency limit reached'' None))) None) (Ret ()))"

text \<open>\<open>GrpcAdapter.checkout\<close>: the measured block ends with a record, also when it raises.\<close>

definition leave_grpc :: "shop \<Rightarrow> dict \<Rightarrow> string option \<Rightarrow> exn option \<Rightarrow> (shop_eff, unit) prog" where
  "leave_grpc sh ctx exception raised =
     tell (Fire ''checkout_to_outcome'' ctx None
         (case raised of Some e \<Rightarrow> if is_exception e then Some (exn_msg e) else exception | None \<Rightarrow> exception) None)
       (case raised of None \<Rightarrow> Ret () | Some e \<Rightarrow> if is_exception e \<and> sh_suppress sh then Ret () else Raise e)"

definition grpc_checkout :: "shop \<Rightarrow> submission \<Rightarrow> (shop_eff, unit) prog" where
  "grpc_checkout sh su = base_context sh su (\<lambda>ctx. checkout_data (\<lambda>data. request_headers sh ''text/html'' False (\<lambda>h.
     inside (\<lambda>e. leave_grpc sh ctx None (Some e))
       (bindp (request (HttpPost ''/cart/checkout'' data h)) (\<lambda>response. lift (status_of response) Ret)) (\<lambda>status.
       if status \<noteq> 200 then
         let f = http_status_failure status ''HTTP_FAILURE'' ''checkout request'' None in
         tell (HttpFailure (failure_str f)) (leave_grpc sh (dict_set ''outcome'' (JStr (bf_outcome f)) ctx) (Some (failure_str f)) None)
       else tell HttpSuccess
         (leave_grpc sh (dict_update ctx [(''accepted'', JBool True), (''outcome'', JStr ''COMPLETED'')]) None None)))))"

definition checkout :: "nat \<Rightarrow> shop \<Rightarrow> submission \<Rightarrow> (shop_eff, unit) prog" where
  "checkout polls sh su = (if is_nats sh then nats_checkout polls sh su else grpc_checkout sh su)"

text \<open>What follows the preparation of the cart: a failed preparation is recorded, otherwise the order is placed.\<close>

definition place_order :: "nat \<Rightarrow> failure option \<Rightarrow> shop \<Rightarrow> submission \<Rightarrow> (shop_eff, unit) prog" where
  "place_order polls preparation_error sh su = (case preparation_error of
      Some f \<Rightarrow> record_precondition_failure sh su f
    | None \<Rightarrow> checkout polls sh su)"

text \<open>\<open>_transaction\<close> of the open-loop and the saturation driver: an adapter with a session of its own.\<close>

definition transaction :: "nat \<Rightarrow> (json \<Rightarrow> string option) \<Rightarrow> shop \<Rightarrow> submission \<Rightarrow> (shop_eff, unit) prog" where
  "transaction polls issued sh su = Ext NewUuid (\<lambda>u.
     bindp (adapter_add_item polls issued (sh\<lparr>sh_cookie := Some (''benchmark-'' @ words u)\<rparr>))
       (\<lambda>(preparation_error, sh1). place_order polls preparation_error sh1 su))"

section \<open>The closed loop\<close>

text \<open>\<open>ClosedLoopUser\<close>: the tasks of a user, each started only before the end of submissions. The adapter of the user, with its session,
  is handed from task to task.\<close>

datatype closed_task = HomeTask | CurrencyTask | ProductTask | AddToCartTask | CartTask | CheckoutTask

definition stop_user :: exn where
  "stop_user = Exn OtherError ''StopUser''"

definition ensure_submission_window :: "runtime \<Rightarrow> shop \<Rightarrow> (shop_eff, 'a) prog \<Rightarrow> (shop_eff, 'a) prog" where
  "ensure_submission_window rt sh k =
     now (\<lambda>t. if f_le (submission_deadline (sh_config sh) rt) t then Raise stop_user else k)"

definition unscheduled :: submission where
  "unscheduled = \<lparr>su_scheduled = None, su_delay = None, su_rung = None, su_rate = None\<rparr>"

definition run_closed_task :: "nat \<Rightarrow> (json \<Rightarrow> string option) \<Rightarrow> runtime \<Rightarrow> closed_task \<Rightarrow> shop \<Rightarrow> (shop_eff, shop) prog" where
  "run_closed_task polls issued rt task sh = ensure_submission_window rt sh
     (case task of
        HomeTask \<Rightarrow> bindp (home sh) (\<lambda>_. Ret sh)
      | CurrencyTask \<Rightarrow> bindp (set_currency sh) (\<lambda>_. Ret sh)
      | ProductTask \<Rightarrow> bindp (browse_product sh) (\<lambda>_. Ret sh)
      | AddToCartTask \<Rightarrow> bindp (adapter_add_item polls issued sh) (\<lambda>(_, sh1). Ret sh1)
      | CartTask \<Rightarrow> bindp (view_cart sh) (\<lambda>_. Ret sh)
      | CheckoutTask \<Rightarrow> bindp (adapter_add_item polls issued sh) (\<lambda>(preparation_error, sh1).
          bindp (place_order polls preparation_error sh1 unscheduled) (\<lambda>_. Ret sh1)))"

end
