(* ===== verification/Storefront_Props.thy ===== *)
theory Storefront_Props
  imports Storefront Checkout_Props
begin

text \<open>
  Every transaction that a driver starts is accounted for: whichever adapter serves it and whatever the preparation of the cart
  answers, it writes at most one record of an outcome, and exactly one if it returns.
\<close>

section \<open>Preparing the cart leaves no record\<close>

lemma tallied_post: "tallied (HttpPost path data h) r g = upset (kills r \<or> raises (rbind r read_submission)) g"
  by (simp add: tallied_def counted_def)

lemma calm_post: "calm (request (HttpPost path data h))"
  by (auto simp: calm_def request_def tracks.simps(6) tracks_lift tallied_post split: sum.splits)

lemma calm_request_headers: "(\<And>h. calm (k h)) \<Longrightarrow> calm (request_headers sh accept key k)"
  by (auto simp: request_headers_def Let_def plain_def intro!: calm_Ext)

lemmas calm_rules = calm_bindp calm_request calm_post calm_now calm_Ext calm_tell calm_request_headers calm_lift

lemma is_exception_out_of_fuel: "is_exception out_of_fuel"
  by (simp add: is_exception_def out_of_fuel_def)

lemma calm_refuse: "calm (refuse f)"
  unfolding refuse_def by (intro calm_rules) (simp_all add: plain_def)

lemma calm_grpc_cart_add: "calm (grpc_cart_add sh data)"
  unfolding grpc_cart_add_def
  by (intro calm_rules) (auto intro!: calm_refuse calm_tell is_exception_status simp: plain_def)

lemma calm_poll_cart: "calm (poll_cart polls sh location deadline delay)"
proof (induction polls arbitrary: delay)
  case (Suc polls)
  have after: "calm (lift (jget operation ''status'' JNull) (\<lambda>outcome.
      if outcome = JStr ''SUCCEEDED'' then Ret None
      else if outcome = JStr ''REJECTED'' then Ret (Some (failure_message ''PRECONDITION_FAILED'' ''cart operation was rejected'' None))
      else poll_cart polls sh location deadline delay))" for operation delay
    by (intro calm_lift) (auto intro: is_exception_jget Suc)
  show ?case
    unfolding poll_cart.simps Let_def
    by (auto intro!: calm_now calm_bindp calm_request calm_request_headers calm_lift calm_tell calm_refuse after Suc is_exception_status
        simp: plain_def split: option.splits)
qed (simp add: is_exception_out_of_fuel)

lemma calm_nats_cart_add: "calm (nats_cart_add polls sh data)"
  unfolding nats_cart_add_def
  by (auto intro!: calm_now calm_bindp calm_post calm_Ext calm_request_headers calm_lift calm_tell calm_refuse calm_poll_cart
      dest!: is_exception_status is_exception_header simp: plain_def split: option.splits list.splits)

lemma calm_adapter_add_item: "calm (adapter_add_item polls issued sh)"
  unfolding adapter_add_item_def Let_def
  by (auto intro!: calm_bindp calm_request calm_Ext calm_request_headers calm_lift calm_refuse calm_nats_cart_add calm_grpc_cart_add
      intro: is_exception_status simp: plain_def)

section \<open>The record of a transaction\<close>

text \<open>At most one record of an outcome so far; and at the end exactly one, unless an exception ended the transaction.\<close>

definition one_outcome :: "tally \<Rightarrow> bool" where
  "one_outcome g \<longleftrightarrow> ty_outcome g \<le> 1 \<and> ty_terminal g \<le> ty_accepted g"

definition transaction_post :: "unit result \<Rightarrow> tally \<Rightarrow> bool" where
  "transaction_post r g \<longleftrightarrow> one_outcome g \<and> (case r of Inr _ \<Rightarrow> ty_outcome g = 1 \<and> ty_terminal g = ty_accepted g | Inl _ \<Rightarrow> True)"

lemma sane_one_outcome: "sane g \<Longrightarrow> one_outcome g"
  by (simp add: sane_def one_outcome_def)

text \<open>Nothing is recorded, accepted or decided yet.\<close>

definition fresh_tally :: "tally \<Rightarrow> bool" where
  "fresh_tally g \<longleftrightarrow> unsubmitted g \<and> ty_outcome g = 0"

lemma fresh_upset: "fresh_tally g \<Longrightarrow> fresh_tally (upset b g)"
  by (simp add: fresh_tally_def unsubmitted_def sane_def upset_def)

lemma unsubmitted_fresh: "unsubmitted g \<longleftrightarrow> fresh_tally g"
  by (auto simp: fresh_tally_def unsubmitted_def sane_def)

lemma fresh_one: "fresh_tally g \<Longrightarrow> one_outcome g"
  by (simp add: fresh_tally_def one_outcome_def unsubmitted_def sane_def)

lemma plain_step:
  assumes "fresh_tally g" and "plain x" and "\<And>r g. fresh_tally g \<Longrightarrow> keeps one_outcome transaction_post (c r) g"
  shows "keeps one_outcome transaction_post (Ext x c) g"
  using assms by (simp add: tracks.simps(6) tallied_plain fresh_upset fresh_one)

lemma calm_step:
  assumes "fresh_tally g" and "calm p" and "\<And>a g. fresh_tally g \<Longrightarrow> keeps one_outcome transaction_post (k a) g"
  shows "keeps one_outcome transaction_post (bindp p k) g"
  unfolding tracks_bindp
  by (rule keeps_calm [OF assms(2)])
    (use assms(1,3) in \<open>auto simp: fresh_upset fresh_one transaction_post_def split: sum.split\<close>)

lemma fire_outcome:
  assumes "fresh_tally g" and "p = Ret () \<or> (\<exists>e. p = Raise e)"
  shows "keeps one_outcome transaction_post (tell (Fire ''checkout_to_outcome'' ctx ms exception start) p) g"
  using assms
  by (auto simp: tell_def tracks.simps(6) tallied_def counted_def upset_def transaction_post_def one_outcome_def fresh_tally_def unsubmitted_def sane_def)

lemma record_precondition_failure_keeps: "fresh_tally g \<Longrightarrow> keeps one_outcome transaction_post (record_precondition_failure sh su f) g"
  unfolding record_precondition_failure_def base_context_def Let_def
  by (rule plain_step) (auto intro!: fire_outcome simp: plain_def)

lemma record_generator_saturation_keeps: "fresh_tally g \<Longrightarrow> keeps one_outcome transaction_post (record_generator_saturation sh su) g"
  unfolding record_generator_saturation_def base_context_def Let_def
  by (rule plain_step) (auto intro!: fire_outcome simp: plain_def)

lemma leave_grpc_keeps: "fresh_tally g \<Longrightarrow> keeps one_outcome transaction_post (leave_grpc sh ctx exception raised) g"
  unfolding leave_grpc_def by (rule fire_outcome) (auto split: option.splits)

lemma prepared_keeps:
  assumes "fresh_tally g" and "\<And>ctx data h g. fresh_tally g \<Longrightarrow> keeps one_outcome transaction_post (body ctx data h) g"
  shows "keeps one_outcome transaction_post (base_context sh su (\<lambda>ctx. checkout_data (\<lambda>data. request_headers sh accept False (body ctx data)))) g"
  unfolding base_context_def checkout_data_def request_headers_def Let_def if_False
  by (intro plain_step) (simp_all add: plain_def assms)

lemma grpc_checkout_keeps:
  assumes "fresh_tally g"
  shows "keeps one_outcome transaction_post (grpc_checkout sh su) g"
proof -
  have post: "calm (bindp (request (HttpPost path data h)) (\<lambda>response. lift (status_of response) Ret))" for path data h
    by (auto intro!: calm_bindp calm_post calm_lift intro: is_exception_status)
  have settled: "keeps one_outcome transaction_post (bindp (settle p) k) g" 
    if "fresh_tally g" "calm p" "\<And>r g. fresh_tally g \<Longrightarrow> keeps one_outcome transaction_post (k r) g" for g k and p :: "(shop_eff, int) prog"
    unfolding tracks_bindp tracks_settle by (rule keeps_calm [OF that(2)]) (use that in \<open>auto simp: fresh_upset fresh_one\<close>)
  have told: "keeps one_outcome transaction_post (tell x k) g" if "fresh_tally g" "plain x" "\<And>g. fresh_tally g \<Longrightarrow> keeps one_outcome transaction_post k g" for x k g
    unfolding tell_def by (rule plain_step) (use that in auto)
  have "keeps one_outcome transaction_post (inside (\<lambda>e. leave_grpc sh ctx None (Some e))
       (bindp (request (HttpPost ''/cart/checkout'' data h)) (\<lambda>response. lift (status_of response) Ret)) (\<lambda>status.
       if status \<noteq> 200 then
         let f = http_status_failure status ''HTTP_FAILURE'' ''checkout request'' None in
         tell (HttpFailure (failure_str f)) (leave_grpc sh (dict_set ''outcome'' (JStr (bf_outcome f)) ctx) (Some (failure_str f)) None)
       else tell HttpSuccess
         (leave_grpc sh (dict_update ctx [(''accepted'', JBool True), (''outcome'', JStr ''COMPLETED'')]) None None))) g"
    if "fresh_tally g" for g ctx data h
    unfolding inside_def Let_def
    by (rule settled [OF that post]) (auto intro!: told leave_grpc_keeps simp: plain_def split: sum.splits)
  then show ?thesis
    unfolding grpc_checkout_def using assms by (intro prepared_keeps)
qed

lemma checkout_one_outcome:
  assumes "fresh_tally g"
  shows "keeps one_outcome transaction_post (checkout polls sh su) g"
proof -
  have "keeps one_outcome transaction_post (nats_checkout polls sh su) g"
    by (rule tracks_weaken [OF checkout_keeps])
      (use assms in \<open>auto simp: fresh_tally_def sane_one_outcome checkout_post_def transaction_post_def split: sum.splits\<close>)
  then show ?thesis using grpc_checkout_keeps [OF assms] by (simp add: checkout_def)
qed

lemma place_order_keeps: "fresh_tally g \<Longrightarrow> keeps one_outcome transaction_post (place_order polls f sh su) g"
  by (simp add: place_order_def record_precondition_failure_keeps checkout_one_outcome split: option.split)

lemma transaction_keeps: "fresh_tally g \<Longrightarrow> keeps one_outcome transaction_post (transaction polls issued sh su) g"
  unfolding transaction_def
  by (intro plain_step calm_step [OF _ calm_adapter_add_item]) (auto simp: plain_def place_order_keeps)

text \<open>C32. A transaction is counted once. In every execution of a transaction, over NATS or gRPC and whatever fails in the preparation of
  the cart or in the checkout, at most one record of an outcome is written and no order is decided that was not accepted; a
  transaction that returns has written exactly one record and has decided every order it had accepted. The same holds of
  a scheduled order that is recorded as a saturation of the generator.\<close>

theorem transaction_is_counted_once:
  fixes trail :: "shop_eff trail"
  assumes "executes p trail q" and "p = transaction polls issued sh su \<or> p = record_generator_saturation sh su"
  defines "g \<equiv> observed tallied nothing trail"
  shows "ty_outcome g \<le> 1 \<and> ty_terminal g \<le> ty_accepted g \<and>
    (result_of q = Some (Inr ()) \<longrightarrow> ty_outcome g = 1 \<and> ty_terminal g = ty_accepted g)"
proof -
  have start: "fresh_tally nothing" using unsubmitted_nothing by (simp add: unsubmitted_fresh)
  then have "keeps one_outcome transaction_post p nothing"
    using assms(2) transaction_keeps record_generator_saturation_keeps by auto
  note kept = tracks_executes [OF assms(1) this fresh_one [OF start], folded g_def]
  have "transaction_post r g" if "result_of q = Some r" for r
    using tracks_result [OF conjunct2 [OF kept] that] .
  then show ?thesis using conjunct1 [OF kept] by (auto simp: one_outcome_def transaction_post_def)
qed

section \<open>The closed loop\<close>

text \<open>Browsing and filling the cart leave no record at all.\<close>

lemma calm_page: "calm (check_page operation response)"
  unfolding check_page_def
  by (auto intro!: calm_lift calm_tell dest!: is_exception_status simp: plain_def)

lemma calm_browsing: "calm (home sh)" "calm (set_currency sh)" "calm (browse_product sh)" "calm (view_cart sh)"
  unfolding home_def set_currency_def browse_product_def view_cart_def
  by (auto intro!: calm_request_headers calm_bindp calm_request calm_post calm_Ext calm_lift calm_tell calm_page dest!: is_exception_status
      simp: plain_def)

lemma run_closed_task_browses: "task \<noteq> CheckoutTask \<Longrightarrow> calm (run_closed_task polls issued rt task sh)"
  unfolding run_closed_task_def ensure_submission_window_def
  by (rule calm_now) (auto intro!: calm_bindp calm_browsing calm_adapter_add_item simp: stop_user_def is_exception_def split: closed_task.splits)

section \<open>Witnesses\<close>

definition page :: "int \<Rightarrow> json" where
  "page status = JObj [(''status_code'', JInt status), (''headers'', JObj [])]"

definition grpc_shop :: shop where
  "grpc_shop = demo_shop\<lparr>sh_config := (sh_config demo_shop)\<lparr>application_type := ''GRPC''\<rparr>\<rparr>"

text \<open>A transaction over gRPC: the product, the cart and the order are served.\<close>

definition served_answers :: "json result list" where
  "served_answers = map Inr [JStr ''u1'', JStr ''66VCHSJNUP'', page 200, JInt 3, page 302, JNull, JStr ''steady'', JInt 2030, JStr ''u2'',
     JInt 1, JInt 2031, JInt 123, page 200, JNull, JNull]"

definition served_run :: "shop_eff trail \<times> (shop_eff, unit) prog" where
  "served_run = run_answers served_answers [] (transaction 1 (\<lambda>_. None) grpc_shop demo_submission)"

theorem transaction_is_counted_once_witness: "ty_outcome (observed tallied nothing (fst served_run)) = 1"
proof -
  have "executes (transaction 1 (\<lambda>_. None) grpc_shop demo_submission) (fst served_run) (snd served_run)"
    unfolding served_run_def by (intro run_answers_executes executes_start)
  moreover have "result_of (snd served_run) = Some (Inr ())" by code_simp
  ultimately show ?thesis using transaction_is_counted_once by fast
qed

end
