(* ===== verification/Load_Driver.thy ===== *)
theory Load_Driver
  imports Bench_Config Executions Py_Records
begin

text \<open>
  The schedules of the load generator, \<open>src/benchmarkservice/locustfile.py\<close>: the window of one rung in \<open>SaturationDriver._schedule_window\<close> and
  the loop of \<open>OpenLoopDriver.schedule\<close>. A transaction is started in a greenlet of its own; how many are active when the
  driver looks is an answer of the environment.
\<close>

section \<open>Requests\<close>

text \<open>A scheduled order: its number, when it is due by the wall clock, and how late the driver is, in milliseconds.\<close>

record arrival =
  ar_ordinal :: int
  ar_scheduled :: pyfloat
  ar_delay :: pyfloat

datatype drive_eff =
    DriveNow | DriveEpoch | DriveSleep pyfloat | ActiveCount
  | SpawnTransaction arrival | GeneratorSaturated arrival
  | SubmissionDeadline | DrainingUntil | JoinActive pyfloat | KillActive

definition driver_seconds :: "json result \<Rightarrow> pyfloat result" where
  "driver_seconds r = rbind r arith"

definition ask_driver :: "drive_eff \<Rightarrow> (pyfloat \<Rightarrow> (drive_eff, 'a) prog) \<Rightarrow> (drive_eff, 'a) prog" where
  "ask_driver x k = Ext x (\<lambda>r. lift (driver_seconds r) k)"

definition do_it :: "drive_eff \<Rightarrow> (drive_eff, 'a) prog \<Rightarrow> (drive_eff, 'a) prog" where
  "do_it x k = Ext x (\<lambda>r. lift r (\<lambda>_. k))"

text \<open>\<open>delay = until - time.monotonic()\<close> and a sleep if it is positive.\<close>

definition sleep_until :: "pyfloat \<Rightarrow> (drive_eff, 'a) prog \<Rightarrow> (drive_eff, 'a) prog" where
  "sleep_until until k = ask_driver DriveNow (\<lambda>t.
     let delay = f_sub until t in if f_lt (Fin 0) delay then do_it (DriveSleep delay) k else k)"

text \<open>One scheduled order: wait until it is due, then start a transaction or, at the limit, record that the generator is saturated.\<close>

definition issue :: "int \<Rightarrow> int \<Rightarrow> pyfloat \<Rightarrow> pyfloat \<Rightarrow> (drive_eff, 'a) prog \<Rightarrow> (drive_eff, 'a) prog" where
  "issue concurrency ordinal due scheduled_at k =
     sleep_until due (ask_driver DriveNow (\<lambda>t.
       let a = \<lparr>ar_ordinal = ordinal, ar_scheduled = scheduled_at, ar_delay = f_max (Fin 0) (f_scale 1000 (f_sub t due))\<rparr> in
       Ext ActiveCount (\<lambda>r. lift (rbind r py_int) (\<lambda>active.
         if concurrency \<le> active then do_it (GeneratorSaturated a) k else do_it (SpawnTransaction a) k))))"

section \<open>The window of a rung\<close>

text \<open>\<open>range(start, stop, step)\<close> for a positive step.\<close>

function py_range :: "int \<Rightarrow> int \<Rightarrow> int \<Rightarrow> int list" where
  "py_range start stop stride = (if start < stop \<and> 0 < stride then start # py_range (start + stride) stop stride else [])"
  by pat_completeness auto
termination
  by (relation "measure (\<lambda>(start, stop, stride). nat (stop - start))") auto

declare py_range.simps [simp del]

definition scheduled_count :: "pyfloat \<Rightarrow> pyfloat \<Rightarrow> int result" where
  "scheduled_count target_rate window_seconds =
     rbind (f_ceil (f_sub (f_mul target_rate window_seconds) (Fin (1 / 1000000000)))) (\<lambda>n. Inr (max 0 n))"

primrec window_loop ::
  "int \<Rightarrow> pyfloat \<Rightarrow> pyfloat \<Rightarrow> pyfloat \<Rightarrow> int list \<Rightarrow> (drive_eff, unit) prog \<Rightarrow> (drive_eff, unit) prog" where
  "window_loop concurrency target_rate started epoch [] k = k"
| "window_loop concurrency target_rate started epoch (ordinal # rest) k =
     lift (f_quot (Fin (of_int ordinal)) target_rate) (\<lambda>offset.
       issue concurrency ordinal (f_add started offset) (f_add epoch offset) (window_loop concurrency target_rate started epoch rest k))"

definition schedule_window :: "int \<Rightarrow> int \<Rightarrow> int \<Rightarrow> pyfloat \<Rightarrow> pyfloat \<Rightarrow> (drive_eff, unit) prog" where
  "schedule_window concurrency worker_index workers window_seconds target_rate =
     ask_driver DriveNow (\<lambda>started. ask_driver DriveEpoch (\<lambda>epoch.
       lift (scheduled_count target_rate window_seconds) (\<lambda>n.
         window_loop concurrency target_rate started epoch (py_range worker_index n workers)
           (sleep_until (f_add started window_seconds) (Ret ())))))"

text \<open>How many transactions a worker of a saturation run keeps active at most.\<close>

definition saturation_concurrency :: "benchmark_config \<Rightarrow> int \<Rightarrow> int result" where
  "saturation_concurrency c workers =
     rbind (saturation_effective_max_rate c) (\<lambda>rate.
     rbind (f_quot rate (Fin (of_int workers))) (\<lambda>share.
     rbind (f_ceil (f_mul share (f_max (outcome_timeout_seconds c) (settlement_timeout_seconds c)))) (\<lambda>n. Inr (max 20 (min 5000 n)))))"

section \<open>The open loop\<close>

definition open_concurrency :: "benchmark_config \<Rightarrow> int result" where
  "open_concurrency c =
     rbind (f_ceil (f_mul (arrival_rate c) (f_max (outcome_timeout_seconds c) (settlement_timeout_seconds c)))) (\<lambda>n. Inr (max 20 (min 5000 n)))"

text \<open>\<open>arrivals\<close> bounds the number of iterations.\<close>

definition no_more_arrivals :: exn where
  "no_more_arrivals = Exn OtherError ''arrivals exhausted''"

fun open_loop :: "nat \<Rightarrow> benchmark_config \<Rightarrow> int \<Rightarrow> pyfloat \<Rightarrow> pyfloat \<Rightarrow> int \<Rightarrow> (drive_eff, unit) prog" where
  "open_loop 0 c concurrency epoch interval index = Raise no_more_arrivals"
| "open_loop (Suc arrivals) c concurrency epoch interval index =
     (let elapsed = f_scale (of_int index) interval; submission = Fin (of_int (submission_seconds c)) in
      if f_le submission elapsed then
        ask_driver DrainingUntil (\<lambda>drain. ask_driver DriveNow (\<lambda>t. do_it (JoinActive (f_max (Fin 0) (f_sub drain t))) (do_it KillActive (Ret ()))))
      else ask_driver SubmissionDeadline (\<lambda>deadline.
        issue concurrency index (f_add (f_sub deadline submission) elapsed) (f_add epoch elapsed)
          (open_loop arrivals c concurrency epoch interval (index + 1))))"

definition open_schedule :: "nat \<Rightarrow> benchmark_config \<Rightarrow> pyfloat \<Rightarrow> (drive_eff, unit) prog" where
  "open_schedule arrivals c epoch =
     lift (open_concurrency c) (\<lambda>concurrency. lift (f_quot (Fin 1) (arrival_rate c)) (\<lambda>interval.
       open_loop arrivals c concurrency epoch interval 0))"

end
