(* ===== verification/Load_Driver_Props.thy ===== *)
theory Load_Driver_Props
  imports Load_Driver
begin

text \<open>
  The schedules lose and repeat nothing: together the workers of a saturation run issue every order of a window exactly once, an open loop issues
  exactly the orders of its submission time, and no transaction is started at the limit of concurrency.
\<close>

section \<open>Monitoring a driver\<close>

text \<open>The orders issued so far, the last number of active transactions seen, and whether a transaction was started at the limit.\<close>

record drive =
  dr_issued :: "int list"
  dr_active :: "int option"
  dr_over :: bool

definition driven :: "int \<Rightarrow> drive_eff \<Rightarrow> json result \<Rightarrow> drive \<Rightarrow> drive" where
  "driven concurrency x r g = (case x of
      ActiveCount \<Rightarrow> g\<lparr>dr_active := (case rbind r py_int of Inr n \<Rightarrow> Some n | Inl _ \<Rightarrow> None)\<rparr>
    | SpawnTransaction a \<Rightarrow> g\<lparr>dr_issued := dr_issued g @ [ar_ordinal a],
        dr_over := dr_over g \<or> (case dr_active g of Some n \<Rightarrow> concurrency \<le> n | None \<Rightarrow> True)\<rparr>
    | GeneratorSaturated a \<Rightarrow> g\<lparr>dr_issued := dr_issued g @ [ar_ordinal a]\<rparr>
    | _ \<Rightarrow> g)"

lemma driven_quiet [simp]:
  "driven K DriveNow r g = g" "driven K DriveEpoch r g = g" "driven K (DriveSleep d) r g = g" "driven K SubmissionDeadline r g = g"
  "driven K DrainingUntil r g = g" "driven K (JoinActive d) r g = g" "driven K KillActive r g = g"
  by (simp_all add: driven_def)

definition idle :: drive where
  "idle = \<lparr>dr_issued = [], dr_active = None, dr_over = False\<rparr>"

text \<open>What has been issued is a beginning of the plan, and all of it when the driver returns.\<close>

definition on_plan :: "int list \<Rightarrow> drive \<Rightarrow> bool" where
  "on_plan plan g \<longleftrightarrow> \<not> dr_over g \<and> (\<exists>rest. plan = dr_issued g @ rest)"

definition plan_done :: "int list \<Rightarrow> unit result \<Rightarrow> drive \<Rightarrow> bool" where
  "plan_done plan r g \<longleftrightarrow> (case r of Inr _ \<Rightarrow> \<not> dr_over g \<and> dr_issued g = plan | Inl _ \<Rightarrow> True)"

abbreviation drives :: "int \<Rightarrow> int list \<Rightarrow> (drive_eff, unit) prog \<Rightarrow> drive \<Rightarrow> bool" where
  "drives K plan \<equiv> tracks (driven K) (on_plan plan) (plan_done plan)"

lemma drives_fail [simp]: "drives K plan (Raise e) g"
  by (simp add: plan_done_def)

lemma drives_ask:
  assumes "\<And>r. driven K x r g = g" and "on_plan plan g" and "\<And>t. drives K plan (k t) g"
  shows "drives K plan (ask_driver x k) g"
  using assms by (auto simp: ask_driver_def tracks_lift plan_done_def split: sum.splits)

lemma drives_do:
  assumes "\<And>r. driven K x r g = h" and "on_plan plan h" and "drives K plan k h"
  shows "drives K plan (do_it x k) g"
  using assms by (auto simp: do_it_def tracks_lift plan_done_def split: sum.splits)

lemma drives_lift: "(\<And>a. r = Inr a \<Longrightarrow> drives K plan (k a) g) \<Longrightarrow> drives K plan (lift r k) g"
  by (cases r) (auto simp: plan_done_def)

lemma drives_sleep:
  assumes "on_plan plan g" and "drives K plan k g"
  shows "drives K plan (sleep_until d k) g"
  unfolding sleep_until_def Let_def
  by (rule drives_ask) (use assms in \<open>auto simp: driven_def intro!: drives_do\<close>)

text \<open>Issuing an order moves the driver one step along its plan.\<close>

lemma drives_issue:
  assumes "plan = dr_issued g @ n # rest" and "\<not> dr_over g"
    and "\<And>h. dr_issued h = dr_issued g @ [n] \<Longrightarrow> \<not> dr_over h \<Longrightarrow> drives K plan k h"
  shows "drives K plan (issue K n due scheduled k) g"
proof -
  have here: "on_plan plan g" using assms(1,2) by (auto simp: on_plan_def)
  have active: "drives K plan (Ext ActiveCount (\<lambda>r. lift (rbind r py_int) (\<lambda>active.
      if K \<le> active then do_it (GeneratorSaturated a) k else do_it (SpawnTransaction a) k))) g" if "ar_ordinal a = n" for a
    unfolding tracks.simps
  proof (intro allI conjI drives_lift)
    fix r
    show "on_plan plan (driven K ActiveCount r g)" using here by (simp add: on_plan_def driven_def)
    fix active
    assume r: "rbind r py_int = Inr active"
    let ?g = "g\<lparr>dr_active := Some active\<rparr>" and ?h = "g\<lparr>dr_active := Some active, dr_issued := dr_issued g @ [n]\<rparr>"
    have "on_plan plan ?h" "drives K plan k ?h" using assms by (auto simp: on_plan_def)
    then have "drives K plan (do_it (GeneratorSaturated a) k) ?g" "\<not> K \<le> active \<Longrightarrow> drives K plan (do_it (SpawnTransaction a) k) ?g"
      using assms(2) that by (auto simp: driven_def intro!: drives_do [where h = ?h])
    then show "drives K plan (if K \<le> active then do_it (GeneratorSaturated a) k else do_it (SpawnTransaction a) k) (driven K ActiveCount r g)"
      by (simp add: driven_def r)
  qed
  show ?thesis
    unfolding issue_def Let_def
  proof (rule drives_sleep [OF here], rule drives_ask [OF _ here])
    show "driven K DriveNow r g = g" for r by (simp add: driven_def)
  qed (rule active, simp)
qed

section \<open>Windows\<close>

lemma window_loop_drives:
  assumes "\<And>g. dr_issued g = plan \<Longrightarrow> \<not> dr_over g \<Longrightarrow> drives K plan k g"
  shows "plan = dr_issued g @ ordinals \<Longrightarrow> \<not> dr_over g \<Longrightarrow> drives K plan (window_loop K rate started epoch ordinals k) g"
proof (induction ordinals arbitrary: g)
  case (Cons n ordinals)
  then show ?case
    unfolding window_loop.simps by (intro drives_lift drives_issue) auto
qed (use assms in auto)

lemma schedule_window_drives:
  assumes "scheduled_count rate duration = Inr n"
  shows "drives K (py_range i n m) (schedule_window K i m duration rate) idle"
proof -
  have idle: "on_plan plan idle" for plan by (simp add: on_plan_def idle_def)
  have "drives K (py_range i n m) (window_loop K rate started epoch (py_range i n m) (sleep_until d (Ret ()))) idle" for started epoch d
    by (rule window_loop_drives) (auto simp: idle_def on_plan_def plan_done_def intro!: drives_sleep)
  then show ?thesis
    unfolding schedule_window_def using assms
    by (intro drives_ask drives_lift idle) (simp_all add: driven_def)
qed

section \<open>The share of a worker\<close>

lemma py_range_set:
  assumes "0 < m"
  shows "x \<in> set (py_range i n m) \<longleftrightarrow> i \<le> x \<and> x < n \<and> m dvd (x - i)"
  using assms
proof (induction i n m rule: py_range.induct)
  case (1 i n m)
  show ?case
  proof (cases "i < n")
    case True
    have "x - i = (x - (i + m)) + m" by simp
    then have "m dvd (x - (i + m)) \<longleftrightarrow> m dvd (x - i)" by (simp only: dvd_add_triv_right_iff)
    moreover have "i + m \<le> x" if "m dvd (x - i)" "i < x" using that zdvd_imp_le [of m "x - i"] by simp
    ultimately show ?thesis using 1 True by (auto simp: py_range.simps [of i])
  qed (auto simp: py_range.simps [of i])
qed

lemma py_range_distinct: "distinct (py_range i n m)"
proof (induction i n m rule: py_range.induct)
  case (1 i n m)
  show ?case
  proof (cases "i < n \<and> 0 < m")
    case True
    then show ?thesis using 1 py_range_set [of m i "i + m" n] by (simp add: py_range.simps [of i])
  qed (auto simp: py_range.simps [of i])
qed

lemma shares_exact:
  assumes "0 < m" and "0 \<le> n"
  shows "mset (concat (map (\<lambda>i. py_range (int i) n (int m)) [0..<m])) = mset [0..n - 1]"
proof -
  have member: "x \<in> set (py_range (int i) n (int m)) \<longleftrightarrow> 0 \<le> x \<and> x < n \<and> int i = x mod int m" if "i < m" for x i
  proof -
    have "int m dvd (x - int i) \<longleftrightarrow> x mod int m = int i" using that by (auto simp: mod_eq_dvd_iff [symmetric])
    moreover have "int i \<le> x" if "x mod int m = int i" "0 \<le> x" using that zmod_le_nonneg_dividend [of x "int m"] by simp
    ultimately show ?thesis using assms py_range_set [of "int m" x "int i" n] by auto
  qed
  have "distinct (concat (map (\<lambda>i. py_range (int i) n (int m)) [0..<k]))" if "k \<le> m" for k
    using that
  proof (induction k)
    case (Suc k)
    have "set (py_range (int i) n (int m)) \<inter> set (py_range (int k) n (int m)) = {}" if "i < k" for i
      using member [of i] member [of k] that Suc.prems by auto
    then have "set (concat (map (\<lambda>i. py_range (int i) n (int m)) [0..<k])) \<inter> set (py_range (int k) n (int m)) = {}"
      by (fastforce simp: disjoint_iff)
    then show ?case using Suc py_range_distinct by simp
  qed simp
  then have d: "distinct (concat (map (\<lambda>i. py_range (int i) n (int m)) [0..<m]))" by simp
  have "set (concat (map (\<lambda>i. py_range (int i) n (int m)) [0..<m])) = set [0..n - 1]"
  proof (intro set_eqI)
    fix x
    have "\<exists>i<m. int i = x mod int m" using assms(1) by (intro exI [of _ "nat (x mod int m)"]) (simp add: nat_less_iff)
    then show "x \<in> set (concat (map (\<lambda>i. py_range (int i) n (int m)) [0..<m])) \<longleftrightarrow> x \<in> set [0..n - 1]"
      using member by auto
  qed
  then show ?thesis by (rule set_eq_iff_mset_eq_distinct [THEN iffD1, OF d distinct_upto])
qed

section \<open>The open loop\<close>

lemma loop_stops:
  assumes "interval = Fin w" and "0 < w"
  shows "f_le (Fin (of_int (submission_seconds c))) (f_scale (of_int index) interval) \<longleftrightarrow> \<lceil>of_int (submission_seconds c) / w\<rceil> \<le> index"
proof -
  have "of_int (submission_seconds c) \<le> of_int index * w \<longleftrightarrow> \<lceil>of_int (submission_seconds c) / w\<rceil> \<le> index"
    using assms(2) by (simp add: ceiling_le_iff pos_divide_le_eq)
  then show ?thesis by (simp only: assms(1) f_scale.simps f_le_Fin)
qed

lemma open_loop_drives:
  assumes "interval = Fin w" and "0 < w" and "0 \<le> index" and "plan = dr_issued g @ [index..\<lceil>of_int (submission_seconds c) / w\<rceil> - 1]" and "\<not> dr_over g"
  shows "drives K plan (open_loop arrivals c K epoch interval index) g"
  using assms(3-)
proof (induction arrivals arbitrary: index g)
  case (Suc arrivals)
  let ?n = "\<lceil>of_int (submission_seconds c) / w\<rceil>"
  note stop = loop_stops [OF assms(1,2), of c index]
  have here: "on_plan plan g" using Suc.prems by (simp add: on_plan_def)
  show ?case
  proof (cases "?n \<le> index")
    case True
    then have "plan_done plan (Inr ()) g" using Suc.prems by (simp add: plan_done_def)
    then have "drives K plan (ask_driver DrainingUntil (\<lambda>drain. ask_driver DriveNow (\<lambda>t. do_it (JoinActive (f_max (Fin 0) (f_sub drain t))) (do_it KillActive (Ret ()))))) g"
      using here by (intro drives_ask drives_do [of _ _ _ g]) simp_all
    then show ?thesis using True stop by (simp add: Let_def)
  next
    case False
    then have plan: "plan = dr_issued g @ index # [index + 1..?n - 1]" using Suc.prems(2) upto_rec1 [of index "?n - 1"] by simp
    have "drives K plan (open_loop arrivals c K epoch interval (index + 1)) h" if "dr_issued h = dr_issued g @ [index]" "\<not> dr_over h" for h
      using that Suc.prems plan by (intro Suc.IH) auto
    then have "drives K plan (ask_driver SubmissionDeadline (\<lambda>deadline. issue K index (due deadline) scheduled
        (open_loop arrivals c K epoch interval (index + 1)))) g" for due scheduled
      using here by (intro drives_ask drives_issue [OF plan Suc.prems(3)]) simp_all
    then show ?thesis using False stop by (simp add: Let_def)
  qed
qed (simp add: plan_done_def)

text \<open>The bound on the iterations is not reached, unless an answer is the exception of the bound itself.\<close>

definition blamed :: "drive_eff \<Rightarrow> json result \<Rightarrow> bool \<Rightarrow> bool" where
  "blamed x r b \<longleftrightarrow> b \<or> r = Inl no_more_arrivals"

abbreviation terminates :: "(drive_eff, unit) prog \<Rightarrow> bool \<Rightarrow> bool" where
  "terminates \<equiv> tracks blamed (\<lambda>_. True) (\<lambda>r b. r = Inl no_more_arrivals \<longrightarrow> b)"

lemma observed_blamed: "observed blamed False trail \<longleftrightarrow> Inl no_more_arrivals \<in> snd ` set trail"
proof (induction trail rule: rev_induct)
  case (snoc e trail)
  then show ?case by (cases e) (auto simp: blamed_def)
qed simp

lemma terminates_lift:
  assumes "\<And>e. r = Inl e \<Longrightarrow> e = no_more_arrivals \<Longrightarrow> b" and "\<And>a. terminates (k a) b"
  shows "terminates (lift r k) b"
  using assms by (cases r) auto

lemma seconds_not_exhausted: "driver_seconds r = Inl no_more_arrivals \<Longrightarrow> r = Inl no_more_arrivals" "rbind r py_int = Inl no_more_arrivals \<Longrightarrow> r = Inl no_more_arrivals"
proof -
  have "arith v \<noteq> Inl no_more_arrivals" for v by (simp add: arith_def no_more_arrivals_def split: option.splits)
  moreover have "py_int v \<noteq> Inl no_more_arrivals" for v
    by (cases v rule: py_int.cases) (auto simp: no_more_arrivals_def split: option.splits)
  ultimately show "driver_seconds r = Inl no_more_arrivals \<Longrightarrow> r = Inl no_more_arrivals" "rbind r py_int = Inl no_more_arrivals \<Longrightarrow> r = Inl no_more_arrivals"
    by (auto simp: driver_seconds_def rbind_eq_Inl)
qed

lemma terminates_ask: "(\<And>t b. terminates (k t) b) \<Longrightarrow> terminates (ask_driver x k) b"
  unfolding ask_driver_def tracks.simps by (auto intro!: terminates_lift dest: seconds_not_exhausted simp: blamed_def)

lemma terminates_do: "(\<And>b. terminates k b) \<Longrightarrow> terminates (do_it x k) b"
  unfolding do_it_def tracks.simps by (auto intro!: terminates_lift simp: blamed_def)

lemma terminates_issue: "(\<And>b. terminates k b) \<Longrightarrow> terminates (issue K n due scheduled k) b"
  unfolding issue_def sleep_until_def Let_def
  by (auto intro!: terminates_ask terminates_do terminates_lift dest!: seconds_not_exhausted simp: blamed_def split: if_splits)

lemma open_loop_terminates:
  assumes "interval = Fin w" and "0 < w" and "\<lceil>of_int (submission_seconds c) / w\<rceil> < index + int arrivals" and "0 < arrivals"
  shows "terminates (open_loop arrivals c K epoch interval index) b"
  using assms(3,4)
proof (induction arrivals arbitrary: index b)
  case (Suc arrivals)
  let ?n = "\<lceil>of_int (submission_seconds c) / w\<rceil>"
  have "terminates (open_loop arrivals c K epoch interval (index + 1)) b" if "index < ?n" for b
    using that Suc.prems by (intro Suc.IH) simp_all
  then show ?case
    using loop_stops [OF assms(1,2), of c index]
    by (auto simp: Let_def intro!: terminates_ask terminates_do terminates_issue)
qed simp

lemma concurrency_bounds:
  "open_concurrency c = Inr n \<Longrightarrow> 20 \<le> n \<and> n \<le> 5000" "saturation_concurrency c workers = Inr n \<Longrightarrow> 20 \<le> n \<and> n \<le> 5000"
  by (auto simp: open_concurrency_def saturation_concurrency_def rbind_eq_Inr)

section \<open>Properties\<close>

text \<open>C33. The workers of a saturation run together issue every order of a window exactly once. Whatever the clocks show and however many
  transactions are active, when the windows of all workers have returned, each of the orders that the target rate demands has
  been started as a transaction or recorded as a saturation of the generator by exactly one worker; no transaction is
  started while the limit of concurrency is reached.\<close>

theorem workers_issue_window_exactly_once:
  fixes trails :: "nat \<Rightarrow> drive_eff trail"
  assumes "0 < workers" and "scheduled_count rate duration = Inr n"
    and "\<And>i. i < workers \<Longrightarrow> executes (schedule_window K (int i) (int workers) duration rate) (trails i) (Ret ())"
  defines "g i \<equiv> observed (driven K) idle (trails i)"
  shows "mset (concat (map (\<lambda>i. dr_issued (g i)) [0..<workers])) = mset [0..n - 1] \<and> list_all (\<lambda>i. \<not> dr_over (g i)) [0..<workers]"
proof -
  have returned: "dr_issued (g i) = py_range (int i) n (int workers) \<and> \<not> dr_over (g i)" if "i < workers" for i
  proof -
    have "on_plan (py_range (int i) n (int workers)) idle" by (simp add: on_plan_def idle_def)
    then have "plan_done (py_range (int i) n (int workers)) (Inr ()) (g i)"
      using tracks_executes [OF assms(3) [OF that] schedule_window_drives [OF assms(2)]] by (simp add: g_def)
    then show ?thesis by (simp add: plan_done_def)
  qed
  have issued: "map (\<lambda>i. dr_issued (g i)) [0..<workers] = map (\<lambda>i. py_range (int i) n (int workers)) [0..<workers]"
    using returned by simp
  have "0 \<le> n" using assms(2) by (auto simp: scheduled_count_def)
  then show ?thesis using shares_exact [OF assms(1), of n] returned unfolding issued by (simp add: list_all_iff)
qed


section \<open>Witnesses\<close>

definition quiet_answers :: "json result list" where
  "quiet_answers = map Inr [JInt 100, JInt 1000, JInt 101, JInt 101, JInt 3, JNull, JInt 200]"

definition quiet_run :: "int \<Rightarrow> drive_eff trail \<times> (drive_eff, unit) prog" where
  "quiet_run i = run_answers quiet_answers [] (schedule_window 20 i 2 (Fin 1) (Fin 2))"

lemma quiet_run_executes: "executes (schedule_window 20 i 2 (Fin 1) (Fin 2)) (fst (quiet_run i)) (snd (quiet_run i))"
  unfolding quiet_run_def by (intro run_answers_executes executes_start)

theorem workers_issue_window_exactly_once_witness:
  "mset (concat (map (\<lambda>i. dr_issued (observed (driven 20) idle (fst (quiet_run (int i))))) [0..<2])) = {#0, 1#}"
proof -
  have "result_of (snd (quiet_run 0)) = Some (Inr ())" "result_of (snd (quiet_run 1)) = Some (Inr ())" by code_simp+
  then have ret: "snd (quiet_run 0) = Ret ()" "snd (quiet_run 1) = Ret ()" by (simp_all add: result_of_Ret)
  have run: "executes (schedule_window 20 (int i) (int 2) (Fin 1) (Fin 2)) (fst (quiet_run (int i))) (Ret ())" if "i < 2" for i
    using that quiet_run_executes [of 0] quiet_run_executes [of 1] ret by (auto simp: less_2_cases_iff)
  have "scheduled_count (Fin 2) (Fin 1) = Inr 2" by code_simp
  from workers_issue_window_exactly_once [OF _ this run] show ?thesis by (simp add: upto.simps)
qed

definition short_config :: benchmark_config where
  "short_config = \<lparr>application_type = ''NATS'', target_url = ''http://shop'', metrics_url = None, workload = ''open'',
     warmup_seconds = 0, duration_seconds = 1, drain_seconds = 0, users = 1, spawn_rate = Fin 1, arrival_rate = Fin 2,
     saturation_start_rate = Fin 1, saturation_max_rate = Fin 1, saturation_step_seconds = 1,
     outcome_timeout_seconds = Fin 30, settlement_timeout_seconds = Fin 30, resource_sample_interval_seconds = Fin 5, seed = 1,
     collect_resources = False, collect_nats_metrics = False\<rparr>"

text \<open>The first order is started; the second finds twenty-five hundred transactions active and is recorded as a saturation.\<close>

definition busy_answers :: "json result list" where
  "busy_answers = map Inr [JInt 101, JInt 100, JInt 100, JInt 3, JNull, JInt 101, JInt 101, JInt 101, JInt 2500, JNull,
     JInt 131, JInt 102, JNull, JNull]"

definition busy_run :: "drive_eff trail \<times> (drive_eff, unit) prog" where
  "busy_run = run_answers busy_answers [] (open_schedule 3 short_config (Fin 1000))"

lemma busy_run_executes: "executes (open_schedule 3 short_config (Fin 1000)) (fst busy_run) (snd busy_run)"
  unfolding busy_run_def by (intro run_answers_executes executes_start)


end
